(* ===== verification/Opaque_Prelude.thy ===== *)
theory Opaque_Prelude
  imports Main "HOL-Library.Word"
begin

unbundle bit_operations_syntax

text \<open>
  Shared vocabulary of the development: bytes and byte strings, the outcome of a Rust call
  (\<open>Ok\<close>, \<open>Err\<close> or an unwinding \<open>Panic\<close>) with the \<open>?\<close> operator, slicing and
  \<open>copy_from_slice\<close> with their panics, and the two inputs the code reads from its
  surroundings, the operating system's random bytes and the monotonic clock.
\<close>

section \<open>Bytes and collections of rules\<close>

type_synonym u8 = "8 word"
type_synonym u64 = "64 word"
type_synonym bytes = "u8 list"

named_theorems result_simps \<open>rules that push outcomes through the question-mark operator\<close>
named_theorems slice_simps \<open>rules for in-range slices and copies\<close>
named_theorems length_simps \<open>lengths of the byte strings the operations produce\<close>

definition zeros :: "nat \<Rightarrow> bytes" where
  "zeros n = replicate n 0"

lemma length_zeros [simp]: "length (zeros n) = n"
  by (simp add: zeros_def)

lemma zeros_eq_Nil [simp]: "zeros n = [] \<longleftrightarrow> n = 0"
  by (simp add: zeros_def)

lemma set_zeros: "b \<in> set (zeros n) \<Longrightarrow> b = 0"
  by (simp add: zeros_def)

lemma all_zero_iff_zeros: "(\<forall>b \<in> set xs. b = 0) \<longleftrightarrow> xs = zeros (length xs)"
  by (induction xs) (auto simp: zeros_def)

text \<open>Byte-string literals \<open>b"..."\<close> of the source.\<close>

definition ascii :: "string \<Rightarrow> bytes" where
  "ascii s = map of_char s"

lemma length_ascii [simp]: "length (ascii s) = length s"
  by (simp add: ascii_def)

lemma ascii_inject: "ascii s = ascii t \<longleftrightarrow> s = t"
proof -
  have "inj (of_char :: char \<Rightarrow> u8)"
  proof (rule injI)
    fix c d :: char assume "(of_char c :: u8) = of_char d"
    then have "unat (of_nat (of_char c) :: u8) = unat (of_nat (of_char d) :: u8)" by (simp only: of_nat_of_char)
    moreover have "unat (of_nat (of_char e) :: u8) = of_char e" for e :: char
      using nat_of_char_less_256 [of e] by (simp add: unat_of_nat take_bit_nat_eq_self del: of_nat_of_char)
    ultimately have "(of_char c :: nat) = of_char d" by (simp only:)
    then show "c = d" by simp
  qed
  then show ?thesis by (simp add: ascii_def inj_map_eq_map)
qed

section \<open>Outcomes of a call\<close>

datatype ('a, 'e) result = Ok 'a | Err 'e | Panic

text \<open>The \<open>?\<close> operator in code without mutable state.\<close>

primrec and_then :: "('a, 'e) result \<Rightarrow> ('a \<Rightarrow> ('b, 'e) result) \<Rightarrow> ('b, 'e) result" where
  "and_then (Ok x) f = f x"
| "and_then (Err e) f = Err e"
| "and_then Panic f = Panic"

text \<open>
  The \<open>?\<close> operator in code that has already mutated its arguments: \<open>s\<close> is their
  contents at the call, and it is what the caller sees if the call does not succeed.
\<close>

primrec qmark :: "('a, 'e) result \<Rightarrow> 's \<Rightarrow> ('a \<Rightarrow> ('b, 'e) result \<times> 's) \<Rightarrow> ('b, 'e) result \<times> 's" where
  "qmark (Ok x) s k = k x"
| "qmark (Err e) s k = (Err e, s)"
| "qmark Panic s k = (Panic, s)"

primrec ok_or :: "'a option \<Rightarrow> 'e \<Rightarrow> ('a, 'e) result" where
  "ok_or None e = Err e"
| "ok_or (Some x) e = Ok x"

definition is_ok :: "('a, 'e) result \<Rightarrow> bool" where
  "is_ok r \<longleftrightarrow> (\<exists>x. r = Ok x)"

lemma is_ok_simps [simp]: "is_ok (Ok x)" "\<not> is_ok (Err e)" "\<not> is_ok Panic"
  by (auto simp: is_ok_def)

lemma and_then_eq_Ok [result_simps]:
  "and_then r f = Ok y \<longleftrightarrow> (\<exists>x. r = Ok x \<and> f x = Ok y)"
  by (cases r) auto

lemma and_then_eq_Panic [result_simps]:
  "and_then r f = Panic \<longleftrightarrow> r = Panic \<or> (\<exists>x. r = Ok x \<and> f x = Panic)"
  by (cases r) auto

lemma and_then_eq_Err [result_simps]:
  "and_then r f = Err e \<longleftrightarrow> r = Err e \<or> (\<exists>x. r = Ok x \<and> f x = Err e)"
  by (cases r) auto

lemma qmark_eq_Ok [result_simps]:
  "qmark r s k = (Ok y, t) \<longleftrightarrow> (\<exists>x. r = Ok x \<and> k x = (Ok y, t))"
  by (cases r) auto

lemma ok_or_eq_Ok [result_simps]: "ok_or m e = Ok x \<longleftrightarrow> m = Some x"
  by (cases m) auto

lemma ok_or_not_Panic [simp]: "ok_or m e \<noteq> Panic"
  by (cases m) auto

lemma ok_or_eq_Err [result_simps]: "ok_or m e = Err e' \<longleftrightarrow> m = None \<and> e' = e"
  by (cases m) auto

text \<open>
  What a call leaves behind, result and state together, as a postcondition, with one rule
  per construct the models are written with. A postcondition of a whole handler splits into
  one goal per exit.
\<close>

definition leaves :: "'r \<times> 's \<Rightarrow> ('r \<Rightarrow> 's \<Rightarrow> bool) \<Rightarrow> bool" where
  "leaves m Q = Q (fst m) (snd m)"

named_theorems leaves_rules \<open>one rule per construct of a handler\<close>

lemma leaves_pair [leaves_rules]: "Q r s \<Longrightarrow> leaves (r, s) Q"
  by (simp add: leaves_def)

lemma leaves_qmark [leaves_rules]:
  assumes "\<And>x. r = Ok x \<Longrightarrow> leaves (k x) Q"
    and "\<And>e. r = Err e \<Longrightarrow> Q (Err e) s"
    and "r = Panic \<Longrightarrow> Q Panic s"
  shows "leaves (qmark r s k) Q"
  using assms by (cases r) (auto simp: leaves_def)

lemma leaves_if [leaves_rules]:
  "(c \<Longrightarrow> leaves m Q) \<Longrightarrow> (\<not> c \<Longrightarrow> leaves n Q) \<Longrightarrow> leaves (if c then m else n) Q"
  by simp

lemma leaves_let [leaves_rules]: "leaves (f v) Q \<Longrightarrow> leaves (Let v f) Q"
  by simp

lemma leaves_case_prod [leaves_rules]:
  "(\<And>a b. v = (a, b) \<Longrightarrow> leaves (f a b) Q) \<Longrightarrow> leaves (case_prod f v) Q"
  by (cases v) simp

lemma leavesD: "leaves m Q \<Longrightarrow> m = (r, s) \<Longrightarrow> Q r s"
  by (simp add: leaves_def)

section \<open>Slices\<close>

definition subslice :: "bytes \<Rightarrow> nat \<Rightarrow> nat \<Rightarrow> (bytes, 'e) result" where
  "subslice xs lo hi =
     (if lo \<le> hi \<and> hi \<le> length xs then Ok (take (hi - lo) (drop lo xs)) else Panic)"

definition slice_from :: "bytes \<Rightarrow> nat \<Rightarrow> (bytes, 'e) result" where
  "slice_from xs lo = subslice xs lo (length xs)"

text \<open>\<open>dst[lo..hi].copy_from_slice(src)\<close>: panics out of range and on a length mismatch.\<close>

definition copy_into :: "bytes \<Rightarrow> nat \<Rightarrow> nat \<Rightarrow> bytes \<Rightarrow> (bytes, 'e) result" where
  "copy_into dst lo hi src =
     (if lo \<le> hi \<and> hi \<le> length dst \<and> length src = hi - lo
      then Ok (take lo dst @ src @ drop hi dst) else Panic)"

text \<open>\<open>out[0] = b\<close>: panics on an empty slice.\<close>

definition store_first :: "bytes \<Rightarrow> u8 \<Rightarrow> (bytes, 'e) result" where
  "store_first dst b = (case dst of [] \<Rightarrow> Panic | _ # rest \<Rightarrow> Ok (b # rest))"

text \<open>\<open>slice.try_into::<&[u8; n]>()\<close>.\<close>

definition try_into :: "nat \<Rightarrow> bytes \<Rightarrow> 'e \<Rightarrow> (bytes, 'e) result" where
  "try_into n xs e = (if length xs = n then Ok xs else Err e)"

lemma subslice_Ok [slice_simps]:
  "lo \<le> hi \<Longrightarrow> hi \<le> length xs \<Longrightarrow> subslice xs lo hi = Ok (take (hi - lo) (drop lo xs))"
  by (simp add: subslice_def)

lemma slice_from_Ok [slice_simps]: "lo \<le> length xs \<Longrightarrow> slice_from xs lo = Ok (drop lo xs)"
  by (simp add: slice_from_def subslice_def)

lemma try_into_Ok [slice_simps]: "length xs = n \<Longrightarrow> try_into n xs e = Ok xs"
  by (simp add: try_into_def)

lemma try_into_not_Panic [simp]: "try_into n xs e \<noteq> Panic"
  by (simp add: try_into_def)

lemma store_first_Ok [slice_simps]:
  "numeral k \<le> length dst \<Longrightarrow> store_first dst b = Ok (b # tl dst)"
  by (cases dst) (simp_all add: store_first_def)

text \<open>Writing consecutive fields: each copy extends the written prefix.\<close>

lemma copy_into_append:
  assumes "length pre = lo" "lo + length src = hi" "length src \<le> length rest"
  shows "copy_into (pre @ rest) lo hi src = Ok ((pre @ src) @ drop (length src) rest)"
  using assms by (auto simp: copy_into_def)

lemma copy_into_whole:
  "length src = length dst \<Longrightarrow> n = length dst \<Longrightarrow> copy_into dst 0 n src = Ok src"
  by (simp add: copy_into_def)

lemma copy_into_length: "copy_into dst lo hi src = Ok out \<Longrightarrow> length out = length dst"
  by (auto simp: copy_into_def split: if_splits)

text \<open>\<open>Vec::resize(n, 0)\<close>.\<close>

definition vec_resize :: "bytes \<Rightarrow> nat \<Rightarrow> bytes" where
  "vec_resize xs n = take n xs @ zeros (n - length xs)"

lemma length_vec_resize [simp]: "length (vec_resize xs n) = n"
  by (simp add: vec_resize_def)

section \<open>The surroundings: random bytes and the clock\<close>

text \<open>
  \<open>w_rng\<close> is the sequence of bytes the operating system's generator will produce,
  \<open>w_clk\<close> the sequence of readings \<open>Instant::now()\<close> will return, in nanoseconds. Both
  are arbitrary; every read consumes a prefix.
\<close>

record world =
  w_rng :: "nat \<Rightarrow> u8"
  w_clk :: "nat \<Rightarrow> nat"

definition fill_bytes :: "nat \<Rightarrow> world \<Rightarrow> bytes \<times> world" where
  "fill_bytes n w = (map (w_rng w) [0..<n], w\<lparr>w_rng := (\<lambda>i. w_rng w (i + n))\<rparr>)"

definition instant_now :: "world \<Rightarrow> nat \<times> world" where
  "instant_now w = (w_clk w 0, w\<lparr>w_clk := (\<lambda>i. w_clk w (Suc i))\<rparr>)"

lemma length_fill_bytes [simp]: "length (fst (fill_bytes n w)) = n"
  by (simp add: fill_bytes_def)

text \<open>\<open>now.checked_duration_since(earlier)\<close> and \<open>Duration::as_secs\<close>.\<close>

definition checked_duration_since :: "nat \<Rightarrow> nat \<Rightarrow> nat option" where
  "checked_duration_since now earlier = (if earlier \<le> now then Some (now - earlier) else None)"

definition as_secs :: "nat \<Rightarrow> nat" where
  "as_secs d = d div 1000000000"

end
