(* ===== verification/Dependencies.thy ===== *)
theory Dependencies
  imports Opaque_Prelude
begin

text \<open>
  The third-party crates the program calls, as one record of functions that every modelled
  operation takes as its argument: \<open>subtle\<close>, \<open>zeroize\<close>, \<open>sha2\<close>, \<open>hmac\<close>,
  \<open>argon2\<close>, \<open>crypto_secretbox\<close>, \<open>curve25519-dalek\<close> and \<open>ml-kem\<close>. Their code is
  not part of the repository, so nothing is defined about them here. What the program
  relies on is stated as one named predicate per crate, from the crates' documentation.
\<close>

section \<open>The functions\<close>

record ('s, 'p, 'ek, 'dk) deps =
  \<comment> \<open>\<open>subtle\<close>: constant-time comparison and selection\<close>
  ct_eq_u64 :: "u64 \<Rightarrow> u64 \<Rightarrow> bool"
  ct_eq_u8 :: "u8 \<Rightarrow> u8 \<Rightarrow> bool"
  ct_eq_bytes :: "bytes \<Rightarrow> bytes \<Rightarrow> bool"
  conditional_select :: "u8 \<Rightarrow> u8 \<Rightarrow> bool \<Rightarrow> u8"
  \<comment> \<open>\<open>zeroize\<close>: on a byte array and on a \<open>usize\<close>\<close>
  zeroize :: "bytes \<Rightarrow> bytes"
  zeroize_usize :: "nat \<Rightarrow> nat"
  \<comment> \<open>\<open>sha2\<close> and \<open>hmac\<close>: over the concatenation of all \<open>update\<close>s; \<open>None\<close> is a
    rejected key in \<open>new_from_slice\<close>\<close>
  sha512_digest :: "bytes \<Rightarrow> bytes"
  hmac_mac :: "bytes \<Rightarrow> bytes \<Rightarrow> bytes option"
  \<comment> \<open>\<open>argon2\<close>: memory, iterations, lanes and output length; password and salt\<close>
  argon2_params_ok :: "nat \<Rightarrow> nat \<Rightarrow> nat \<Rightarrow> nat \<Rightarrow> bool"
  argon2id_hash :: "nat \<Rightarrow> nat \<Rightarrow> nat \<Rightarrow> bytes \<Rightarrow> bytes \<Rightarrow> nat \<Rightarrow> bytes option"
  \<comment> \<open>\<open>crypto_secretbox\<close>: key, nonce, text; the sealed form is the tag before the ciphertext\<close>
  secretbox_encrypt :: "bytes \<Rightarrow> bytes \<Rightarrow> bytes \<Rightarrow> bytes option"
  secretbox_decrypt :: "bytes \<Rightarrow> bytes \<Rightarrow> bytes \<Rightarrow> bytes option"
  \<comment> \<open>\<open>curve25519-dalek\<close>: scalars and Ristretto points\<close>
  scalar_from_wide :: "bytes \<Rightarrow> 's"
  scalar_from_canonical :: "bytes \<Rightarrow> 's option"
  scalar_bytes :: "'s \<Rightarrow> bytes"
  scalar_zero :: 's
  scalar_inv :: "'s \<Rightarrow> 's"
  compressed_from_slice :: "bytes \<Rightarrow> bytes option"
  point_decompress :: "bytes \<Rightarrow> 'p option"
  point_compress :: "'p \<Rightarrow> bytes"
  point_identity :: 'p
  point_from_uniform :: "bytes \<Rightarrow> 'p"
  point_mul :: "'s \<Rightarrow> 'p \<Rightarrow> 'p"
  base_mul :: "'s \<Rightarrow> 'p"
  \<comment> \<open>\<open>ml-kem\<close>: key generation and encapsulation draw from the random source\<close>
  kem_generate :: "(nat \<Rightarrow> u8) \<Rightarrow> ('dk \<times> 'ek) \<times> (nat \<Rightarrow> u8)"
  ek_to_bytes :: "'ek \<Rightarrow> bytes"
  ek_new :: "bytes \<Rightarrow> 'ek option"
  dk_to_expanded :: "'dk \<Rightarrow> bytes"
  dk_from_expanded :: "bytes \<Rightarrow> 'dk option"
  kem_encapsulate :: "'ek \<Rightarrow> (nat \<Rightarrow> u8) \<Rightarrow> (bytes \<times> bytes) \<times> (nat \<Rightarrow> u8)"
  kem_decapsulate :: "'dk \<Rightarrow> bytes \<Rightarrow> bytes"

section \<open>Documented behaviour\<close>

definition subtle_laws :: "('s, 'p, 'ek, 'dk) deps \<Rightarrow> bool" where
  "subtle_laws D \<longleftrightarrow>
     (\<forall>a b. ct_eq_u64 D a b \<longleftrightarrow> a = b) \<and>
     (\<forall>a b. ct_eq_u8 D a b \<longleftrightarrow> a = b) \<and>
     (\<forall>a b. ct_eq_bytes D a b \<longleftrightarrow> a = b) \<and>
     (\<forall>a b c. conditional_select D a b c = (if c then b else a))"

definition zeroize_laws :: "('s, 'p, 'ek, 'dk) deps \<Rightarrow> bool" where
  "zeroize_laws D \<longleftrightarrow>
     (\<forall>b. zeroize D b = zeros (length b)) \<and> (\<forall>n. zeroize_usize D n = 0)"

text \<open>SHA-512 digests have 64 bytes; HMAC accepts every key and its tags have 64 bytes.\<close>

definition hash_laws :: "('s, 'p, 'ek, 'dk) deps \<Rightarrow> bool" where
  "hash_laws D \<longleftrightarrow>
     (\<forall>m. length (sha512_digest D m) = 64) \<and>
     (\<forall>k m. \<exists>t. hmac_mac D k m = Some t \<and> length t = 64)"

text \<open>
  Argon2 accepts memory from 8 KiB blocks per lane up, at least one iteration and lane, and
  outputs from 4 bytes; it hashes any password under a salt of at least 8 bytes to an
  output of the requested length.
\<close>

definition argon2_laws :: "('s, 'p, 'ek, 'dk) deps \<Rightarrow> bool" where
  "argon2_laws D \<longleftrightarrow>
     (\<forall>m t p n. 1 \<le> p \<and> p < 2 ^ 24 \<and> 8 * p \<le> m \<and> m < 2 ^ 32 \<and> 1 \<le> t \<and> t < 2 ^ 32 \<and>
        4 \<le> n \<and> n < 2 ^ 32 \<longrightarrow> argon2_params_ok D m t p n) \<and>
     (\<forall>m t p pwd salt n. argon2_params_ok D m t p n \<and> length pwd < 2 ^ 32 \<and>
        8 \<le> length salt \<and> length salt < 2 ^ 32 \<longrightarrow>
        (\<exists>h. argon2id_hash D m t p pwd salt n = Some h \<and> length h = n))"

text \<open>XSalsa20Poly1305: sealing never fails on texts of this size, and opening inverts it.\<close>

definition secretbox_laws :: "('s, 'p, 'ek, 'dk) deps \<Rightarrow> bool" where
  "secretbox_laws D \<longleftrightarrow>
     (\<forall>k n m. length k = 32 \<and> length n = 24 \<longrightarrow>
        (\<exists>c. secretbox_encrypt D k n m = Some c \<and> length c = 16 + length m \<and>
             secretbox_decrypt D k n c = Some m)) \<and>
     (\<forall>k n c m. secretbox_decrypt D k n c = Some m \<longrightarrow> length c = 16 + length m)"

text \<open>
  Ristretto255: scalars and points have unique 32-byte encodings, zero and the identity are
  encoded by zero bytes, the group has prime order, and scalars act on it commutatively.
\<close>

definition group_laws :: "('s, 'p, 'ek, 'dk) deps \<Rightarrow> bool" where
  "group_laws D \<longleftrightarrow>
     (\<forall>s. length (scalar_bytes D s) = 32) \<and>
     (\<forall>s. scalar_from_canonical D (scalar_bytes D s) = Some s) \<and>
     (\<forall>b s. scalar_from_canonical D b = Some s \<longrightarrow> scalar_bytes D s = b) \<and>
     scalar_bytes D (scalar_zero D) = zeros 32 \<and>
     (\<forall>b. compressed_from_slice D b = (if length b = 32 then Some b else None)) \<and>
     (\<forall>p. length (point_compress D p) = 32) \<and>
     (\<forall>p. point_decompress D (point_compress D p) = Some p) \<and>
     (\<forall>b p. point_decompress D b = Some p \<longrightarrow> point_compress D p = b) \<and>
     point_compress D (point_identity D) = zeros 32 \<and>
     (\<forall>s t p. point_mul D s (point_mul D t p) = point_mul D t (point_mul D s p)) \<and>
     (\<forall>s p. s \<noteq> scalar_zero D \<longrightarrow> point_mul D (scalar_inv D s) (point_mul D s p) = p) \<and>
     (\<forall>s p. point_mul D s p = point_identity D \<longleftrightarrow> s = scalar_zero D \<or> p = point_identity D) \<and>
     (\<forall>s t. point_mul D s (base_mul D t) = point_mul D t (base_mul D s)) \<and>
     (\<forall>s. base_mul D s = point_identity D \<longleftrightarrow> s = scalar_zero D) \<and>
     (\<forall>s. scalar_inv D s = scalar_zero D \<longleftrightarrow> s = scalar_zero D)"

text \<open>
  ML-KEM-768: the sizes of FIPS 203, and decoding inverts encoding. That a decapsulated
  secret equals the encapsulated one holds for all but a negligible share of the keys and
  coins, so it is not a law here: the theorems that need it assume it of the one
  ciphertext at hand.
\<close>

definition kem_laws :: "('s, 'p, 'ek, 'dk) deps \<Rightarrow> bool" where
  "kem_laws D \<longleftrightarrow>
     (\<forall>ek. length (ek_to_bytes D ek) = 1184 \<and> ek_new D (ek_to_bytes D ek) = Some ek) \<and>
     (\<forall>dk. length (dk_to_expanded D dk) = 2400 \<and>
        dk_from_expanded D (dk_to_expanded D dk) = Some dk) \<and>
     (\<forall>ek r. length (fst (fst (kem_encapsulate D ek r))) = 1088 \<and>
        length (snd (fst (kem_encapsulate D ek r))) = 32) \<and>
     (\<forall>dk c. length (kem_decapsulate D dk c) = 32)"

definition deps_laws :: "('s, 'p, 'ek, 'dk) deps \<Rightarrow> bool" where
  "deps_laws D \<longleftrightarrow> subtle_laws D \<and> zeroize_laws D \<and> hash_laws D \<and> argon2_laws D \<and>
     secretbox_laws D \<and> group_laws D \<and> kem_laws D"

lemma deps_lawsD [simp, dest]:
  assumes "deps_laws D"
  shows "subtle_laws D" "zeroize_laws D" "hash_laws D" "argon2_laws D" "secretbox_laws D"
    "group_laws D" "kem_laws D"
  using assms by (auto simp: deps_laws_def)

section \<open>Rules drawn from the laws\<close>

lemma subtle_simps [simp]:
  assumes "subtle_laws D"
  shows "ct_eq_u64 D a b \<longleftrightarrow> a = b" "ct_eq_u8 D c d \<longleftrightarrow> c = d" "ct_eq_bytes D x y \<longleftrightarrow> x = y"
    "conditional_select D c d e = (if e then d else c)"
  using assms by (auto simp: subtle_laws_def)

lemma zeroize_simps [simp]:
  assumes "zeroize_laws D"
  shows "zeroize D b = zeros (length b)" "zeroize_usize D n = 0"
  using assms by (auto simp: zeroize_laws_def)

lemma length_sha512_digest [simp]: "hash_laws D \<Longrightarrow> length (sha512_digest D m) = 64"
  by (simp add: hash_laws_def)

definition hmac_tag :: "('s, 'p, 'ek, 'dk) deps \<Rightarrow> bytes \<Rightarrow> bytes \<Rightarrow> bytes" where
  "hmac_tag D k m = (case hmac_mac D k m of Some t \<Rightarrow> t | None \<Rightarrow> [])"

lemma hmac_simps [simp]:
  assumes "hash_laws D"
  shows "hmac_mac D k m = Some (hmac_tag D k m)" "length (hmac_tag D k m) = 64"
proof -
  from assms obtain t where "hmac_mac D k m = Some t" "length t = 64"
    unfolding hash_laws_def by blast
  then show "hmac_mac D k m = Some (hmac_tag D k m)" "length (hmac_tag D k m) = 64"
    by (simp_all add: hmac_tag_def)
qed

lemma scalar_simps [simp]:
  assumes "group_laws D"
  shows "length (scalar_bytes D s) = 32" "scalar_from_canonical D (scalar_bytes D s) = Some s"
    "scalar_bytes D (scalar_zero D) = zeros 32"
    "scalar_inv D s = scalar_zero D \<longleftrightarrow> s = scalar_zero D"
  using assms unfolding group_laws_def by blast+

lemma scalar_bytes_canonical:
  "group_laws D \<Longrightarrow> scalar_from_canonical D b = Some s \<Longrightarrow> b = scalar_bytes D s"
  unfolding group_laws_def by blast+

lemma scalar_bytes_inject [simp]:
  assumes "group_laws D"
  shows "scalar_bytes D s = scalar_bytes D t \<longleftrightarrow> s = t"
  using scalar_simps(2) [OF assms] by (metis option.inject)

lemma scalar_bytes_zero_iff [simp]:
  "group_laws D \<Longrightarrow> scalar_bytes D s = zeros 32 \<longleftrightarrow> s = scalar_zero D"
  "group_laws D \<Longrightarrow> zeros 32 = scalar_bytes D s \<longleftrightarrow> s = scalar_zero D"
  by (metis scalar_bytes_inject scalar_simps(3))+

lemma point_simps [simp]:
  assumes "group_laws D"
  shows "length (point_compress D p) = 32" "point_decompress D (point_compress D p) = Some p"
    "point_compress D (point_identity D) = zeros 32"
    "compressed_from_slice D b = (if length b = 32 then Some b else None)"
    "point_mul D s p = point_identity D \<longleftrightarrow> s = scalar_zero D \<or> p = point_identity D"
    "base_mul D s = point_identity D \<longleftrightarrow> s = scalar_zero D"
    "s \<noteq> scalar_zero D \<Longrightarrow> point_mul D (scalar_inv D s) (point_mul D s p) = p"
  using assms unfolding group_laws_def by blast+

lemma point_bytes_canonical:
  "group_laws D \<Longrightarrow> point_decompress D b = Some p \<Longrightarrow> b = point_compress D p"
  unfolding group_laws_def by blast+

lemma point_compress_inject [simp]:
  assumes "group_laws D"
  shows "point_compress D p = point_compress D q \<longleftrightarrow> p = q"
  using point_simps(2) [OF assms] by (metis option.inject)

lemma point_compress_zero_iff [simp]:
  "group_laws D \<Longrightarrow> point_compress D p = zeros 32 \<longleftrightarrow> p = point_identity D"
  "group_laws D \<Longrightarrow> zeros 32 = point_compress D p \<longleftrightarrow> p = point_identity D"
  by (metis point_compress_inject point_simps(3))+

lemma point_mul_commute:
  "group_laws D \<Longrightarrow> point_mul D s (point_mul D t p) = point_mul D t (point_mul D s p)"
  "group_laws D \<Longrightarrow> point_mul D s (base_mul D t) = point_mul D t (base_mul D s)"
  unfolding group_laws_def by blast+

lemma kem_simps [simp]:
  assumes "kem_laws D"
  shows "length (ek_to_bytes D ek) = 1184" "ek_new D (ek_to_bytes D ek) = Some ek"
    "length (dk_to_expanded D dk) = 2400" "dk_from_expanded D (dk_to_expanded D dk) = Some dk"
    "length (kem_decapsulate D dk c) = 32"
  using assms unfolding kem_laws_def by blast+

lemma kem_encapsulate_lengths:
  assumes "kem_laws D" "kem_encapsulate D ek r = ((ct, ss), r')"
  shows "length ct = 1088" "length ss = 32"
proof -
  from assms(1) have "length (fst (fst (kem_encapsulate D ek r))) = 1088"
    "length (snd (fst (kem_encapsulate D ek r))) = 32"
    unfolding kem_laws_def by blast+
  with assms(2) show "length ct = 1088" "length ss = 32" by simp_all
qed

lemma secretbox_sealed:
  assumes "secretbox_laws D" "length k = 32" "length n = 24"
  obtains c where "secretbox_encrypt D k n m = Some c" "length c = 16 + length m"
    "secretbox_decrypt D k n c = Some m"
  using assms unfolding secretbox_laws_def by blast

lemma secretbox_decrypt_length:
  "secretbox_laws D \<Longrightarrow> secretbox_decrypt D k n c = Some m \<Longrightarrow> length c = 16 + length m"
  by (simp add: secretbox_laws_def)

end
