(* ===== verification/Sample_Dependencies.thy ===== *)
theory Sample_Dependencies
  imports Dependencies
begin

text \<open>
  One concrete set of dependencies that satisfies every documented law, used to show that
  the hypotheses of the theorems can hold together: scalars and points form the group of
  order three, texts are sealed in the clear, hashes are constant.
\<close>

datatype z3 = Z0 | Z1 | Z2

fun z3_mul :: "z3 \<Rightarrow> z3 \<Rightarrow> z3" where
  "z3_mul Z0 _ = Z0"
| "z3_mul Z1 b = b"
| "z3_mul Z2 Z0 = Z0"
| "z3_mul Z2 Z1 = Z2"
| "z3_mul Z2 Z2 = Z1"

fun z3_byte :: "z3 \<Rightarrow> u8" where
  "z3_byte Z0 = 0"
| "z3_byte Z1 = 1"
| "z3_byte Z2 = 2"

definition z3_of_byte :: "u8 \<Rightarrow> z3" where
  "z3_of_byte b = (if b = 0 then Z0 else if b = 1 then Z1 else Z2)"

definition z3_encode :: "z3 \<Rightarrow> bytes" where
  "z3_encode z = z3_byte z # zeros 31"

definition z3_decode :: "bytes \<Rightarrow> z3 option" where
  "z3_decode b =
     (if b = z3_encode Z0 then Some Z0 else if b = z3_encode Z1 then Some Z1
      else if b = z3_encode Z2 then Some Z2 else None)"

definition sample :: "(z3, z3, unit, unit) deps" where
  "sample = \<lparr>
     ct_eq_u64 = (=), ct_eq_u8 = (=), ct_eq_bytes = (=),
     conditional_select = (\<lambda>a b c. if c then b else a),
     zeroize = (\<lambda>b. zeros (length b)), zeroize_usize = (\<lambda>_. 0),
     sha512_digest = (\<lambda>_. replicate 64 1), hmac_mac = (\<lambda>_ _. Some (replicate 64 2)),
     argon2_params_ok = (\<lambda>_ _ _ _. True), argon2id_hash = (\<lambda>_ _ _ _ _ n. Some (replicate n 3)),
     secretbox_encrypt = (\<lambda>_ _ m. Some (zeros 16 @ m)),
     secretbox_decrypt = (\<lambda>_ _ c. if 16 \<le> length c then Some (drop 16 c) else None),
     scalar_from_wide = (\<lambda>b. case b of [] \<Rightarrow> Z0 | x # _ \<Rightarrow> z3_of_byte x),
     scalar_from_canonical = z3_decode, scalar_bytes = z3_encode, scalar_zero = Z0,
     scalar_inv = (\<lambda>s. s),
     compressed_from_slice = (\<lambda>b. if length b = 32 then Some b else None),
     point_decompress = z3_decode, point_compress = z3_encode, point_identity = Z0,
     point_from_uniform = (\<lambda>_. Z1), point_mul = z3_mul, base_mul = (\<lambda>s. s),
     kem_generate = (\<lambda>r. (((), ()), r)), ek_to_bytes = (\<lambda>_. replicate 1184 7),
     ek_new = (\<lambda>b. if b = replicate 1184 7 then Some () else None),
     dk_to_expanded = (\<lambda>_. replicate 2400 8),
     dk_from_expanded = (\<lambda>b. if b = replicate 2400 8 then Some () else None),
     kem_encapsulate = (\<lambda>_ r. ((replicate 1088 5, replicate 32 9), r)),
     kem_decapsulate = (\<lambda>_ _. replicate 32 9)\<rparr>"

lemma z3_mul_laws:
  "z3_mul s (z3_mul t p) = z3_mul t (z3_mul s p)" "z3_mul s t = z3_mul t s"
  "s \<noteq> Z0 \<Longrightarrow> z3_mul s (z3_mul s p) = p" "z3_mul s p = Z0 \<longleftrightarrow> s = Z0 \<or> p = Z0"
  by (cases s; cases t; cases p; simp)+

lemma zeros_32: "zeros 32 = 0 # zeros 31"
  unfolding zeros_def by (simp add: numeral_eq_Suc)

lemma z3_encode_laws:
  "length (z3_encode z) = 32" "z3_decode (z3_encode z) = Some z" "z3_encode Z0 = zeros 32"
  "z3_decode b = Some z \<Longrightarrow> z3_encode z = b"
proof -
  show "length (z3_encode z) = 32" by (simp add: z3_encode_def)
  show "z3_decode (z3_encode z) = Some z" by (cases z) (simp_all add: z3_decode_def z3_encode_def)
  show "z3_encode Z0 = zeros 32" by (simp add: z3_encode_def zeros_32)
  show "z3_decode b = Some z \<Longrightarrow> z3_encode z = b" by (auto simp: z3_decode_def split: if_splits)
qed

lemma sample_laws: "deps_laws sample"
proof -
  have "subtle_laws sample" by (simp add: subtle_laws_def sample_def)
  moreover have "zeroize_laws sample" by (simp add: zeroize_laws_def sample_def)
  moreover have "hash_laws sample" by (simp add: hash_laws_def sample_def)
  moreover have "argon2_laws sample" by (simp add: argon2_laws_def sample_def)
  moreover have "secretbox_laws sample" by (auto simp: secretbox_laws_def sample_def split: if_splits)
  moreover have "group_laws sample"
    unfolding group_laws_def
    by (intro conjI allI impI; simp add: sample_def z3_encode_laws(1-3) z3_mul_laws(3,4);
        (rule z3_mul_laws | erule z3_encode_laws)?)
  moreover have "kem_laws sample" by (simp add: kem_laws_def sample_def)
  ultimately show ?thesis unfolding deps_laws_def by blast
qed

lemma sample_fields [simp]:
  "scalar_zero sample = Z0" "point_identity sample = Z0" "scalar_bytes sample = z3_encode"
  "point_compress sample = z3_encode" "base_mul sample = (\<lambda>s. s)" "point_mul sample = z3_mul"
  "hmac_mac sample k m = Some (replicate 64 2)" "sha512_digest sample m = replicate 64 1"
  "point_from_uniform sample b = Z1" "ek_to_bytes sample = (\<lambda>_. replicate 1184 7)"
  "dk_to_expanded sample = (\<lambda>_. replicate 2400 8)" "kem_generate sample r = (((), ()), r)"
  "kem_encapsulate sample e r = ((replicate 1088 5, replicate 32 9), r)"
  "kem_decapsulate sample d ct = replicate 32 9"
  by (simp_all add: sample_def)

lemma sample_law_facts [simp]:
  "subtle_laws sample" "zeroize_laws sample" "hash_laws sample" "argon2_laws sample"
  "secretbox_laws sample" "group_laws sample" "kem_laws sample"
  using deps_lawsD [OF sample_laws] by blast+

text \<open>Surroundings in which every random byte is 2 and the clock advances by one second.\<close>

definition sample_world :: world where
  "sample_world = \<lparr>w_rng = (\<lambda>_. 2), w_clk = (\<lambda>i. i * 1000000000)\<rparr>"

end
