(* ===== verification/Opaque_Types.thy ===== *)
theory Opaque_Types
  imports Sample_Dependencies
begin

text \<open>
  Model of \<^verbatim>\<open>opaque-core/src/types.rs\<close>: the protocol's lengths and labels, the error type and
  its C codes, the growable secret buffer, and the constant-time helpers. The lengths are
  simplification rules, so that every length comparison in the development reduces to
  arithmetic on numerals.
\<close>

named_theorems no_panic \<open>calls that cannot unwind\<close>

section \<open>Lengths and versions\<close>

definition PROTOCOL_VERSION_1 :: u8 where [simp]: "PROTOCOL_VERSION_1 = 1"
definition PROTOCOL_VERSION_2 :: u8 where [simp]: "PROTOCOL_VERSION_2 = 2"
definition PROTOCOL_VERSION :: u8 where [simp]: "PROTOCOL_VERSION = PROTOCOL_VERSION_2"
definition VERSION_PREFIX_LENGTH :: nat where [simp]: "VERSION_PREFIX_LENGTH = 1"
definition OPRF_SEED_LENGTH :: nat where [simp]: "OPRF_SEED_LENGTH = 32"
definition PRIVATE_KEY_LENGTH :: nat where [simp]: "PRIVATE_KEY_LENGTH = 32"
definition PUBLIC_KEY_LENGTH :: nat where [simp]: "PUBLIC_KEY_LENGTH = 32"
definition EXPORT_KEY_LENGTH :: nat where [simp]: "EXPORT_KEY_LENGTH = 32"
definition MASKING_KEY_LENGTH :: nat where [simp]: "MASKING_KEY_LENGTH = 32"
definition NONCE_LENGTH :: nat where [simp]: "NONCE_LENGTH = 24"
definition MAC_LENGTH :: nat where [simp]: "MAC_LENGTH = 64"
definition HASH_LENGTH :: nat where [simp]: "HASH_LENGTH = 64"
definition ENVELOPE_LENGTH :: nat where [simp]: "ENVELOPE_LENGTH = 136"
definition REGISTRATION_REQUEST_LENGTH :: nat where [simp]: "REGISTRATION_REQUEST_LENGTH = 32"
definition REGISTRATION_RESPONSE_LENGTH :: nat where [simp]: "REGISTRATION_RESPONSE_LENGTH = 64"
definition REGISTRATION_REQUEST_WIRE_LENGTH :: nat where
  [simp]: "REGISTRATION_REQUEST_WIRE_LENGTH = VERSION_PREFIX_LENGTH + REGISTRATION_REQUEST_LENGTH"
definition REGISTRATION_RESPONSE_WIRE_LENGTH :: nat where
  [simp]: "REGISTRATION_RESPONSE_WIRE_LENGTH = VERSION_PREFIX_LENGTH + REGISTRATION_RESPONSE_LENGTH"
definition CREDENTIAL_REQUEST_LENGTH :: nat where
  [simp]: "CREDENTIAL_REQUEST_LENGTH = REGISTRATION_REQUEST_LENGTH"
definition CREDENTIAL_RESPONSE_LENGTH :: nat where [simp]: "CREDENTIAL_RESPONSE_LENGTH = 168"
definition MAX_SECURE_KEY_LENGTH :: nat where [simp]: "MAX_SECURE_KEY_LENGTH = 4096"
definition DH_COMPONENT_COUNT :: nat where [simp]: "DH_COMPONENT_COUNT = 4"
definition CLASSICAL_IKM_LENGTH :: nat where
  [simp]: "CLASSICAL_IKM_LENGTH = DH_COMPONENT_COUNT * PUBLIC_KEY_LENGTH"
definition STATE_MAX_LIFETIME_SECS :: nat where [simp]: "STATE_MAX_LIFETIME_SECS = 900"
definition KE1_BASE_LENGTH :: nat where
  [simp]: "KE1_BASE_LENGTH = REGISTRATION_REQUEST_LENGTH + PUBLIC_KEY_LENGTH + NONCE_LENGTH"
definition KE2_BASE_LENGTH :: nat where
  [simp]: "KE2_BASE_LENGTH =
     NONCE_LENGTH + PUBLIC_KEY_LENGTH + CREDENTIAL_RESPONSE_LENGTH + MAC_LENGTH"
definition KEM_PUBLIC_KEY_LENGTH :: nat where [simp]: "KEM_PUBLIC_KEY_LENGTH = 1184"
definition KEM_SECRET_KEY_LENGTH :: nat where [simp]: "KEM_SECRET_KEY_LENGTH = 2400"
definition KEM_CIPHERTEXT_LENGTH :: nat where [simp]: "KEM_CIPHERTEXT_LENGTH = 1088"
definition KEM_SHARED_SECRET_LENGTH :: nat where [simp]: "KEM_SHARED_SECRET_LENGTH = 32"
definition COMBINED_IKM_LENGTH :: nat where
  [simp]: "COMBINED_IKM_LENGTH = CLASSICAL_IKM_LENGTH + KEM_SHARED_SECRET_LENGTH"
definition KE1_PAYLOAD_LENGTH :: nat where
  [simp]: "KE1_PAYLOAD_LENGTH = KE1_BASE_LENGTH + KEM_PUBLIC_KEY_LENGTH"
definition KE2_PAYLOAD_LENGTH :: nat where
  [simp]: "KE2_PAYLOAD_LENGTH = KE2_BASE_LENGTH + KEM_CIPHERTEXT_LENGTH"
definition REGISTRATION_CREDENTIAL_LENGTH :: nat where
  [simp]: "REGISTRATION_CREDENTIAL_LENGTH = MASKING_KEY_LENGTH + ENVELOPE_LENGTH"
definition REGISTRATION_RECORD_PAYLOAD_LENGTH :: nat where
  [simp]: "REGISTRATION_RECORD_PAYLOAD_LENGTH = REGISTRATION_CREDENTIAL_LENGTH + PUBLIC_KEY_LENGTH"
definition KE1_LENGTH :: nat where [simp]: "KE1_LENGTH = VERSION_PREFIX_LENGTH + KE1_PAYLOAD_LENGTH"
definition KE2_LENGTH :: nat where [simp]: "KE2_LENGTH = VERSION_PREFIX_LENGTH + KE2_PAYLOAD_LENGTH"
definition KE3_LENGTH :: nat where [simp]: "KE3_LENGTH = VERSION_PREFIX_LENGTH + MAC_LENGTH"
definition REGISTRATION_RECORD_LENGTH :: nat where
  [simp]: "REGISTRATION_RECORD_LENGTH = VERSION_PREFIX_LENGTH + REGISTRATION_RECORD_PAYLOAD_LENGTH"
definition RESPONDER_CREDENTIALS_LENGTH :: nat where
  [simp]: "RESPONDER_CREDENTIALS_LENGTH = REGISTRATION_RECORD_LENGTH"
definition SECRETBOX_KEY_LENGTH :: nat where [simp]: "SECRETBOX_KEY_LENGTH = 32"
definition SECRETBOX_MAC_LENGTH :: nat where [simp]: "SECRETBOX_MAC_LENGTH = 16"

section \<open>Domain-separation labels\<close>

definition OPRF_CONTEXT :: bytes where "OPRF_CONTEXT = ascii ''AURA-OPAQUE-v1/OPRF''"
definition OPRF_KEY_INFO :: bytes where "OPRF_KEY_INFO = ascii ''AURA-OPAQUE-v1/OPRF-Key''"
definition OPRF_SEED_INFO :: bytes where "OPRF_SEED_INFO = ascii ''AURA-OPAQUE-v1/OPRF-Seed''"
definition ENVELOPE_CONTEXT :: bytes where "ENVELOPE_CONTEXT = ascii ''AURA-OPAQUE-v1/EnvelopeKey''"
definition HKDF_SALT :: bytes where "HKDF_SALT = ascii ''AURA-OPAQUE-v1/HKDF-Salt''"
definition TRANSCRIPT_CONTEXT :: bytes where
  "TRANSCRIPT_CONTEXT = ascii ''AURA-OPAQUE-v1/Transcript''"
definition ACCOUNT_CONTEXT_BINDING :: bytes where
  "ACCOUNT_CONTEXT_BINDING = ascii ''AURA-OPAQUE-v2/AccountContext''"
definition KSF_CONTEXT :: bytes where "KSF_CONTEXT = ascii ''AURA-OPAQUE-v1/KSF''"
definition KSF_SALT_LABEL :: bytes where "KSF_SALT_LABEL = ascii ''AURA-OPAQUE-v1/KSF-Salt''"
definition SESSION_KEY_INFO :: bytes where "SESSION_KEY_INFO = ascii ''AURA-OPAQUE-v1/SessionKey''"
definition CLIENT_EXPORT_KEY_INFO :: bytes where
  "CLIENT_EXPORT_KEY_INFO = ascii ''AURA-OPAQUE-v2/ClientExportKey''"
definition MASKING_KEY_INFO :: bytes where "MASKING_KEY_INFO = ascii ''AURA-OPAQUE-v2/MaskingKey''"
definition CREDENTIAL_MASKING_INFO :: bytes where
  "CREDENTIAL_MASKING_INFO = ascii ''AURA-OPAQUE-v2/CredentialMask''"
definition RESPONDER_MAC_INFO :: bytes where "RESPONDER_MAC_INFO = ascii ''AURA-OPAQUE-v1/ResponderMAC''"
definition INITIATOR_MAC_INFO :: bytes where "INITIATOR_MAC_INFO = ascii ''AURA-OPAQUE-v1/InitiatorMAC''"
definition DERIVE_KEYPAIR_CONTEXT :: bytes where
  "DERIVE_KEYPAIR_CONTEXT = ascii ''AURA-OPAQUE-v1/DeriveKeyPair''"
definition FAKE_CREDENTIALS_CONTEXT :: bytes where
  "FAKE_CREDENTIALS_CONTEXT = ascii ''AURA-OPAQUE-v1/FakeCredentials''"
definition PQ_COMBINER_CONTEXT :: bytes where
  "PQ_COMBINER_CONTEXT = ascii ''AURA-OPAQUE-PQ-v1/Combiner''"
definition PQ_KEM_CONTEXT :: bytes where "PQ_KEM_CONTEXT = ascii ''AURA-OPAQUE-PQ-v1/KEM''"
definition PQ_SESSION_KEY_INFO :: bytes where
  "PQ_SESSION_KEY_INFO = ascii ''AURA-OPAQUE-PQ-v1/SessionKey''"
definition PQ_RESPONDER_MAC_INFO :: bytes where
  "PQ_RESPONDER_MAC_INFO = ascii ''AURA-OPAQUE-PQ-v1/ResponderMAC''"
definition PQ_INITIATOR_MAC_INFO :: bytes where
  "PQ_INITIATOR_MAC_INFO = ascii ''AURA-OPAQUE-PQ-v1/InitiatorMAC''"

text \<open>Domain separation: no label is used for two purposes.\<close>

lemmas label_defs = OPRF_CONTEXT_def OPRF_KEY_INFO_def OPRF_SEED_INFO_def ENVELOPE_CONTEXT_def HKDF_SALT_def
  TRANSCRIPT_CONTEXT_def ACCOUNT_CONTEXT_BINDING_def KSF_CONTEXT_def KSF_SALT_LABEL_def SESSION_KEY_INFO_def
  CLIENT_EXPORT_KEY_INFO_def MASKING_KEY_INFO_def CREDENTIAL_MASKING_INFO_def RESPONDER_MAC_INFO_def
  INITIATOR_MAC_INFO_def DERIVE_KEYPAIR_CONTEXT_def FAKE_CREDENTIALS_CONTEXT_def PQ_COMBINER_CONTEXT_def
  PQ_KEM_CONTEXT_def PQ_SESSION_KEY_INFO_def PQ_RESPONDER_MAC_INFO_def PQ_INITIATOR_MAC_INFO_def

lemma labels_distinct:
  "distinct [OPRF_CONTEXT, OPRF_KEY_INFO, OPRF_SEED_INFO, ENVELOPE_CONTEXT, HKDF_SALT, TRANSCRIPT_CONTEXT,
     ACCOUNT_CONTEXT_BINDING, KSF_CONTEXT, KSF_SALT_LABEL, SESSION_KEY_INFO, CLIENT_EXPORT_KEY_INFO,
     MASKING_KEY_INFO, CREDENTIAL_MASKING_INFO, RESPONDER_MAC_INFO, INITIATOR_MAC_INFO, DERIVE_KEYPAIR_CONTEXT,
     FAKE_CREDENTIALS_CONTEXT, PQ_COMBINER_CONTEXT, PQ_KEM_CONTEXT, PQ_SESSION_KEY_INFO, PQ_RESPONDER_MAC_INFO,
     PQ_INITIATOR_MAC_INFO]"
  by (simp add: label_defs ascii_inject)

text \<open>The labels HMAC is keyed with or computed over are not empty.\<close>

lemma label_lengths [simp]:
  "length OPRF_SEED_INFO = 24" "length ENVELOPE_CONTEXT = 26" "length MASKING_KEY_INFO = 25"
  "length PQ_COMBINER_CONTEXT = 26"
  by (simp_all add: OPRF_SEED_INFO_def ENVELOPE_CONTEXT_def MASKING_KEY_INFO_def
      PQ_COMBINER_CONTEXT_def)

lemma labels_not_Nil [simp]:
  "OPRF_SEED_INFO \<noteq> []" "MASKING_KEY_INFO \<noteq> []" "ENVELOPE_CONTEXT \<noteq> []" "PQ_COMBINER_CONTEXT \<noteq> []"
  using label_lengths by (metis list.size(3) zero_neq_numeral)+

section \<open>Errors\<close>

datatype OpaqueError = InvalidInput | CryptoError | InvalidProtocolMessage | ValidationError
  | AuthenticationError | InvalidPublicKey | AlreadyRegistered | InvalidKemInput
  | InvalidEnvelope | UnsupportedVersion

type_synonym 'a OpaqueResult = "('a, OpaqueError) result"

fun to_c_int :: "OpaqueError \<Rightarrow> int" where
  "to_c_int InvalidInput = -1"
| "to_c_int CryptoError = -2"
| "to_c_int InvalidProtocolMessage = -5"
| "to_c_int ValidationError = -5"
| "to_c_int AuthenticationError = -5"
| "to_c_int InvalidPublicKey = -6"
| "to_c_int AlreadyRegistered = -7"
| "to_c_int InvalidKemInput = -5"
| "to_c_int InvalidEnvelope = -5"
| "to_c_int UnsupportedVersion = -10"

section \<open>Secret buffers and envelopes\<close>

text \<open>\<open>SecureBytes\<close> is a private \<open>Vec<u8>\<close>.\<close>

type_synonym SecureBytes = bytes

definition SecureBytes_new :: "nat \<Rightarrow> SecureBytes" where
  "SecureBytes_new n = zeros n"

definition SecureBytes_from_slice :: "bytes \<Rightarrow> SecureBytes" where
  "SecureBytes_from_slice data = data"

definition SecureBytes_data :: "SecureBytes \<Rightarrow> bytes" where
  "SecureBytes_data b = b"

definition SecureBytes_len :: "SecureBytes \<Rightarrow> nat" where
  "SecureBytes_len b = length b"

definition SecureBytes_is_empty :: "SecureBytes \<Rightarrow> bool" where
  "SecureBytes_is_empty b \<longleftrightarrow> b = []"

text \<open>\<open>Debug\<close> prints the length in decimal and no byte of the contents.\<close>

fun decimal :: "nat \<Rightarrow> string" where
  "decimal n = (if n < 10 then [char_of (48 + n)] else decimal (n div 10) @ [char_of (48 + n mod 10)])"

definition SecureBytes_fmt :: "SecureBytes \<Rightarrow> string" where
  "SecureBytes_fmt b = ''SecureBytes([REDACTED; '' @ decimal (length b) @ ''])''"

text \<open>
  Shrinking zeroizes the tail before it is cut off; the tail is gone from the buffer
  either way. Growing fills with zero bytes.
\<close>

definition SecureBytes_resize :: "('s, 'p, 'ek, 'dk) deps \<Rightarrow> SecureBytes \<Rightarrow> nat \<Rightarrow> SecureBytes" where
  "SecureBytes_resize D b new_len =
     (let b' = (if new_len < length b
                then take new_len b @ zeroize D (drop new_len b) else b)
      in vec_resize b' new_len)"

record Envelope =
  env_nonce :: bytes
  env_ciphertext :: bytes
  env_auth_tag :: bytes

definition Envelope_new :: Envelope where
  "Envelope_new = \<lparr>env_nonce = zeros NONCE_LENGTH, env_ciphertext = [],
     env_auth_tag = zeros SECRETBOX_MAC_LENGTH\<rparr>"

section \<open>Constant-time helpers\<close>

definition constant_time_eq :: "('s, 'p, 'ek, 'dk) deps \<Rightarrow> bytes \<Rightarrow> bytes \<Rightarrow> bool" where
  "constant_time_eq D a b =
     (let len_eq = ct_eq_u64 D (of_nat (length a)) (of_nat (length b));
          content_eq = (if length a = length b then ct_eq_bytes D a b else False)
      in len_eq \<and> content_eq)"

definition is_all_zero :: "('s, 'p, 'ek, 'dk) deps \<Rightarrow> bytes \<Rightarrow> bool" where
  "is_all_zero D data = ct_eq_u8 D (foldl (\<lambda>acc b. acc OR b) 0 data) 0"

text \<open>
  The two assertions panic; the loop then stores one selected byte per index, \<open>a[i]\<close>
  when the choice is set and \<open>b[i]\<close> when it is not.
\<close>

definition ct_select_bytes ::
  "('s, 'p, 'ek, 'dk) deps \<Rightarrow> bytes \<Rightarrow> bytes \<Rightarrow> bytes \<Rightarrow> bool \<Rightarrow> bytes OpaqueResult" where
  "ct_select_bytes D out a b choice =
     (if length out \<noteq> length a then Panic
      else if length out \<noteq> length b then Panic
      else Ok (foldl (\<lambda>acc i. acc[i := conditional_select D (b ! i) (a ! i) choice])
                 out [0..<length out]))"

section \<open>What the helpers compute\<close>

lemma constant_time_eq_iff [simp]: "subtle_laws D \<Longrightarrow> constant_time_eq D a b \<longleftrightarrow> a = b"
  by (auto simp: constant_time_eq_def Let_def)

lemma word_or_eq_0_iff: "(a :: u8) OR b = 0 \<longleftrightarrow> a = 0 \<and> b = 0"
  by (auto simp: bit_eq_iff bit_or_iff)

lemma foldl_or_eq_0: "foldl (\<lambda>acc b. acc OR b) a data = (0 :: u8) \<longleftrightarrow> a = 0 \<and> (\<forall>b \<in> set data. b = 0)"
  by (induction data arbitrary: a) (auto simp: word_or_eq_0_iff)

lemma is_all_zero_iff [simp]:
  "subtle_laws D \<Longrightarrow> is_all_zero D data \<longleftrightarrow> data = zeros (length data)"
  by (simp add: is_all_zero_def foldl_or_eq_0 all_zero_iff_zeros)

lemma foldl_update_upto:
  "n \<le> length xs \<Longrightarrow>
     foldl (\<lambda>acc i. acc[i := f i]) xs [0..<n] = map f [0..<n] @ drop n xs"
proof (induction n)
  case (Suc n)
  then have "drop n xs = xs ! n # drop (Suc n) xs"
    by (metis Cons_nth_drop_Suc Suc_le_lessD)
  with Suc show ?case by (simp add: list_update_append)
qed simp

lemma ct_select_bytes_Ok [simp]:
  assumes "subtle_laws D" "length a = length out" "length b = length out"
  shows "ct_select_bytes D out a b choice = Ok (if choice then a else b)"
  using assms foldl_update_upto [of "length out" out "\<lambda>i. if choice then a ! i else b ! i"]
  by (auto simp: ct_select_bytes_def map_nth) (metis map_nth)+

text \<open>The static assertions of the source hold of the lengths.\<close>

lemma static_assertions:
  "PRIVATE_KEY_LENGTH = PUBLIC_KEY_LENGTH" "PRIVATE_KEY_LENGTH = 32" "NONCE_LENGTH = 24" "MAC_LENGTH = 64"
  "CREDENTIAL_REQUEST_LENGTH = REGISTRATION_REQUEST_LENGTH"
  "CREDENTIAL_RESPONSE_LENGTH = PUBLIC_KEY_LENGTH + ENVELOPE_LENGTH" "KE1_BASE_LENGTH = 88"
  "KE2_BASE_LENGTH = 288" "REGISTRATION_RECORD_PAYLOAD_LENGTH = 200" "KE1_PAYLOAD_LENGTH = 1272"
  "KE2_PAYLOAD_LENGTH = 1376" "KE1_LENGTH = 1273" "KE2_LENGTH = 1377" "KE3_LENGTH = 65"
  "REGISTRATION_RECORD_LENGTH = 201" "length PQ_COMBINER_CONTEXT + HASH_LENGTH \<le> 128"
  by simp_all

text \<open>A secret buffer shows its length and nothing else, and keeps what it is built from.\<close>

lemma SecureBytes_redacted: "SecureBytes_len a = SecureBytes_len b \<Longrightarrow> SecureBytes_fmt a = SecureBytes_fmt b"
  by (simp add: SecureBytes_fmt_def SecureBytes_len_def)

lemma SecureBytes_round_trip: "SecureBytes_data (SecureBytes_from_slice data) = data"
  by (simp add: SecureBytes_data_def SecureBytes_from_slice_def)

lemma SecureBytes_is_empty_iff: "SecureBytes_is_empty b \<longleftrightarrow> SecureBytes_len b = 0"
  by (simp add: SecureBytes_is_empty_def SecureBytes_len_def)

lemma SecureBytes_resize_eq:
  "SecureBytes_resize D b n = vec_resize b n"
  by (auto simp: SecureBytes_resize_def vec_resize_def Let_def)

section \<open>The helpers compute what their names say\<close>

text \<open>
  The constant-time helpers compute what their names say. Comparison is equality, also
  for strings of different lengths; the zero test accepts exactly the all-zero strings; the
  selection loop copies the first source when the choice is set and the second otherwise,
  and panics exactly when the three buffers differ in length.
\<close>

lemma constant_time_helpers_exact:
  assumes "subtle_laws D"
  shows "(constant_time_eq D a b \<longleftrightarrow> a = b) \<and>
    (is_all_zero D a \<longleftrightarrow> (\<forall>x \<in> set a. x = 0)) \<and>
    ct_select_bytes D out a b choice =
      (if length out = length a \<and> length out = length b then Ok (if choice then a else b) else Panic)"
  using assms by (simp add: all_zero_iff_zeros) (simp add: ct_select_bytes_def)

end
