(* ===== verification/Crypto.thy ===== *)
theory Crypto
  imports Opaque_Types
begin

text \<open>
  Model of \<^verbatim>\<open>opaque-core/src/crypto.rs\<close>: scalar and point operations, HMAC and HKDF, the key
  derivations, envelope masking and the secretbox wrapper. An output parameter of the Rust
  function is the value of the modelled one; the wiping of local variables is not visible to
  a caller and is left out. Where a Rust function writes to a slice of the caller's length,
  that length is an argument here.
\<close>

section \<open>Points and scalars\<close>

definition KSF_OPSLIMIT :: nat where [simp]: "KSF_OPSLIMIT = 3"
definition KSF_MEMLIMIT_KIB :: nat where [simp]: "KSF_MEMLIMIT_KIB = 256 * 1024"
definition ARGON2_SALT_BYTES :: nat where [simp]: "ARGON2_SALT_BYTES = 16"

definition decode_non_identity_point ::
  "('s, 'p, 'ek, 'dk) deps \<Rightarrow> bytes \<Rightarrow> OpaqueError \<Rightarrow> 'p OpaqueResult" where
  "decode_non_identity_point D point err =
     (if is_all_zero D point then Err err
      else and_then (ok_or (compressed_from_slice D point) err) (\<lambda>c.
        and_then (ok_or (point_decompress D c) err) (\<lambda>decoded.
        if decoded = point_identity D then Err err else Ok decoded)))"

definition random_bytes :: "nat \<Rightarrow> world \<Rightarrow> bytes OpaqueResult \<times> world" where
  "random_bytes n w =
     (if n = 0 then (Err InvalidInput, w)
      else let (buf, w') = fill_bytes n w in (Ok buf, w'))"

definition derive_key_pair :: "('s, 'p, 'ek, 'dk) deps \<Rightarrow> bytes \<Rightarrow> (bytes \<times> bytes) OpaqueResult" where
  "derive_key_pair D seed =
     (if seed = [] then Err InvalidInput
      else let hash = sha512_digest D (DERIVE_KEYPAIR_CONTEXT @ seed);
               scalar = scalar_from_wide D hash;
               private_key = scalar_bytes D scalar
           in if is_all_zero D private_key then Err InvalidInput
              else Ok (private_key, point_compress D (base_mul D scalar)))"

definition scalar_mult :: "('s, 'p, 'ek, 'dk) deps \<Rightarrow> bytes \<Rightarrow> bytes \<Rightarrow> bytes OpaqueResult" where
  "scalar_mult D scalar_b point_b =
     and_then (ok_or (scalar_from_canonical D scalar_b) CryptoError) (\<lambda>scalar.
       if is_all_zero D (scalar_bytes D scalar) then Err CryptoError
       else and_then (decode_non_identity_point D point_b CryptoError) (\<lambda>point.
         let product = point_mul D scalar point
         in if product = point_identity D then Err CryptoError
            else Ok (point_compress D product)))"

definition validate_ristretto_point :: "('s, 'p, 'ek, 'dk) deps \<Rightarrow> bytes \<Rightarrow> unit OpaqueResult" where
  "validate_ristretto_point D point =
     (if length point \<noteq> PUBLIC_KEY_LENGTH then Err InvalidInput
      else and_then (decode_non_identity_point D point InvalidInput) (\<lambda>_. Ok ()))"

definition validate_public_key :: "('s, 'p, 'ek, 'dk) deps \<Rightarrow> bytes \<Rightarrow> unit OpaqueResult" where
  "validate_public_key D key =
     (if length key \<noteq> PUBLIC_KEY_LENGTH then Err InvalidPublicKey
      else and_then (decode_non_identity_point D key InvalidPublicKey) (\<lambda>_. Ok ()))"

definition hash_to_scalar :: "('s, 'p, 'ek, 'dk) deps \<Rightarrow> bytes \<Rightarrow> bytes OpaqueResult" where
  "hash_to_scalar D input =
     (if input = [] then Err InvalidInput
      else Ok (scalar_bytes D (scalar_from_wide D (sha512_digest D input))))"

definition hash_to_group :: "('s, 'p, 'ek, 'dk) deps \<Rightarrow> bytes \<Rightarrow> bytes OpaqueResult" where
  "hash_to_group D input =
     (if input = [] then Err InvalidInput
      else Ok (point_compress D (point_from_uniform D (sha512_digest D input))))"

section \<open>HMAC and HKDF\<close>

definition hmac_sha512 :: "('s, 'p, 'ek, 'dk) deps \<Rightarrow> bytes \<Rightarrow> bytes \<Rightarrow> bytes OpaqueResult" where
  "hmac_sha512 D key message =
     (if key = [] \<or> message = [] then Err InvalidInput
      else ok_or (hmac_mac D key message) CryptoError)"

definition verify_hmac :: "('s, 'p, 'ek, 'dk) deps \<Rightarrow> bytes \<Rightarrow> bytes \<Rightarrow> bytes \<Rightarrow> unit OpaqueResult" where
  "verify_hmac D key message expected_mac =
     (if key = [] \<or> message = [] \<or> length expected_mac \<noteq> MAC_LENGTH then Err InvalidInput
      else and_then (hmac_sha512 D key message) (\<lambda>computed.
        if \<not> ct_eq_bytes D computed expected_mac then Err AuthenticationError else Ok ()))"

definition key_derivation_extract ::
  "('s, 'p, 'ek, 'dk) deps \<Rightarrow> bytes \<Rightarrow> bytes \<Rightarrow> bytes OpaqueResult" where
  "key_derivation_extract D salt ikm =
     (if salt = [] \<or> ikm = [] then Err InvalidInput else hmac_sha512 D salt ikm)"

text \<open>
  The loop of \<open>key_derivation_expand\<close>, from block \<open>i\<close> to block \<open>n\<close>: \<open>t_prev\<close> is the
  previous block and \<open>okm\<close> the output buffer filled so far.
\<close>

function key_derivation_expand_loop ::
  "('s, 'p, 'ek, 'dk) deps \<Rightarrow> bytes \<Rightarrow> bytes \<Rightarrow> nat \<Rightarrow> nat \<Rightarrow> bytes \<Rightarrow> bytes \<Rightarrow> bytes OpaqueResult" where
  "key_derivation_expand_loop D prk info i n t_prev okm =
     (if n < i then Ok okm
      else and_then (if i \<le> 255 then Ok (of_nat i :: u8) else Err CryptoError) (\<lambda>counter.
        and_then (ok_or (hmac_mac D prk ((if 1 < i then t_prev else []) @ info @ [counter]))
                    CryptoError) (\<lambda>t_current.
        let copy_len = min HASH_LENGTH (length okm - (i - 1) * HASH_LENGTH) in
        and_then (subslice t_current 0 copy_len) (\<lambda>block.
        and_then (copy_into okm ((i - 1) * HASH_LENGTH) ((i - 1) * HASH_LENGTH + copy_len) block) (\<lambda>okm.
        key_derivation_expand_loop D prk info (Suc i) n t_current okm)))))"
  by pat_completeness auto
termination
  by (relation "measure (\<lambda>(D, prk, info, i, n, t_prev, okm). Suc n - i)") auto

declare key_derivation_expand_loop.simps [simp del]

definition key_derivation_expand ::
  "('s, 'p, 'ek, 'dk) deps \<Rightarrow> bytes \<Rightarrow> bytes \<Rightarrow> nat \<Rightarrow> bytes OpaqueResult" where
  "key_derivation_expand D prk info okm_len =
     (if prk = [] \<or> okm_len = 0 then Err InvalidInput
      else let n = (okm_len + (HASH_LENGTH - 1)) div HASH_LENGTH
           in if 255 < n then Err InvalidInput
              else key_derivation_expand_loop D prk info 1 n (zeros HASH_LENGTH) (zeros okm_len))"

definition sha512 :: "('s, 'p, 'ek, 'dk) deps \<Rightarrow> bytes \<Rightarrow> bytes" where
  "sha512 D input = sha512_digest D input"

definition sha512_multi :: "('s, 'p, 'ek, 'dk) deps \<Rightarrow> bytes list \<Rightarrow> bytes" where
  "sha512_multi D parts = sha512_digest D (concat parts)"

section \<open>Key derivations\<close>

text \<open>The loop of \<open>derive_oprf_key\<close> over its remaining counters.\<close>

primrec derive_oprf_key_loop ::
  "('s, 'p, 'ek, 'dk) deps \<Rightarrow> bytes \<Rightarrow> bytes \<Rightarrow> u8 list \<Rightarrow> bytes OpaqueResult" where
  "derive_oprf_key_loop D oprf_seed account_id [] = Err CryptoError"
| "derive_oprf_key_loop D oprf_seed account_id (counter # counters) =
     and_then (ok_or (hmac_mac D oprf_seed (OPRF_KEY_INFO @ account_id @ [counter])) CryptoError) (\<lambda>mac_out.
     and_then (try_into MAC_LENGTH mac_out CryptoError) (\<lambda>mac_ref.
     let oprf_key = scalar_bytes D (scalar_from_wide D mac_ref)
     in if \<not> is_all_zero D oprf_key then Ok oprf_key
        else derive_oprf_key_loop D oprf_seed account_id counters))"

definition derive_oprf_key ::
  "('s, 'p, 'ek, 'dk) deps \<Rightarrow> bytes \<Rightarrow> bytes \<Rightarrow> bytes OpaqueResult" where
  "derive_oprf_key D relay_secret account_id =
     (if relay_secret = [] \<or> account_id = [] then Err InvalidInput
      else and_then (hmac_sha512 D relay_secret OPRF_SEED_INFO) (\<lambda>oprf_seed_full.
        and_then (subslice oprf_seed_full 0 OPRF_SEED_LENGTH) (\<lambda>oprf_seed.
        derive_oprf_key_loop D oprf_seed account_id (map of_nat [0..<256]))))"

definition derive_randomized_password ::
  "('s, 'p, 'ek, 'dk) deps \<Rightarrow> bytes \<Rightarrow> bytes \<Rightarrow> nat \<Rightarrow> bytes OpaqueResult" where
  "derive_randomized_password D oprf_output secure_key out_len =
     (if oprf_output = [] \<or> secure_key = [] \<or> out_len = 0 then Err InvalidInput
      else let rwd_input = sha512_multi D [KSF_CONTEXT, oprf_output, secure_key];
               salt_full = sha512_multi D [KSF_SALT_LABEL, oprf_output]
           in and_then (subslice salt_full 0 ARGON2_SALT_BYTES) (\<lambda>salt.
              if \<not> argon2_params_ok D KSF_MEMLIMIT_KIB KSF_OPSLIMIT 1 out_len then Err CryptoError
              else ok_or (argon2id_hash D KSF_MEMLIMIT_KIB KSF_OPSLIMIT 1 rwd_input salt out_len)
                     CryptoError))"

definition derive_client_export_key ::
  "('s, 'p, 'ek, 'dk) deps \<Rightarrow> bytes \<Rightarrow> bytes \<Rightarrow> nat \<Rightarrow> bytes OpaqueResult" where
  "derive_client_export_key D randomized_pwd account_context_hash out_len =
     (if randomized_pwd = [] \<or> is_all_zero D account_context_hash \<or> out_len = 0 then Err InvalidInput
      else and_then (key_derivation_extract D account_context_hash randomized_pwd) (\<lambda>prk.
        key_derivation_expand D prk CLIENT_EXPORT_KEY_INFO out_len))"

definition derive_masking_key :: "('s, 'p, 'ek, 'dk) deps \<Rightarrow> bytes \<Rightarrow> bytes OpaqueResult" where
  "derive_masking_key D randomized_pwd =
     (if randomized_pwd = [] then Err InvalidInput
      else and_then (key_derivation_extract D MASKING_KEY_INFO randomized_pwd) (\<lambda>prk.
        key_derivation_expand D prk MASKING_KEY_INFO MASKING_KEY_LENGTH))"

section \<open>Envelope masking and sealing\<close>

definition mask_credential_envelope ::
  "('s, 'p, 'ek, 'dk) deps \<Rightarrow> bytes \<Rightarrow> bytes \<Rightarrow> bytes \<Rightarrow> bytes \<Rightarrow> bytes \<Rightarrow> bytes OpaqueResult" where
  "mask_credential_envelope D masking_key responder_nonce evaluated_element account_context_hash input =
     (if is_all_zero D masking_key \<or> length responder_nonce \<noteq> NONCE_LENGTH
         \<or> length evaluated_element \<noteq> PUBLIC_KEY_LENGTH \<or> is_all_zero D account_context_hash
      then Err InvalidInput
      else and_then (key_derivation_extract D account_context_hash masking_key) (\<lambda>prk.
        let info = CREDENTIAL_MASKING_INFO @ responder_nonce @ evaluated_element in
        and_then (key_derivation_expand D prk info ENVELOPE_LENGTH) (\<lambda>pad.
        Ok (map (\<lambda>(source, mask). source XOR mask) (zip input pad)))))"

text \<open>Returns the ciphertext buffer and the tag.\<close>

definition encrypt_envelope ::
  "('s, 'p, 'ek, 'dk) deps \<Rightarrow> bytes \<Rightarrow> bytes \<Rightarrow> bytes \<Rightarrow> bytes \<Rightarrow> (bytes \<times> bytes) OpaqueResult" where
  "encrypt_envelope D key plaintext nonce ciphertext =
     (if length key \<noteq> SECRETBOX_KEY_LENGTH \<or> plaintext = [] then Err InvalidInput
      else if length ciphertext < length plaintext then Err InvalidInput
      else and_then (ok_or (secretbox_encrypt D key nonce plaintext) CryptoError) (\<lambda>encrypted.
        if length encrypted \<noteq> SECRETBOX_MAC_LENGTH + length plaintext then Err CryptoError
        else and_then (subslice encrypted 0 SECRETBOX_MAC_LENGTH) (\<lambda>auth_tag.
          and_then (slice_from encrypted SECRETBOX_MAC_LENGTH) (\<lambda>body.
          and_then (copy_into ciphertext 0 (length plaintext) body) (\<lambda>ciphertext.
          Ok (ciphertext, auth_tag))))))"

definition decrypt_envelope ::
  "('s, 'p, 'ek, 'dk) deps \<Rightarrow> bytes \<Rightarrow> bytes \<Rightarrow> bytes \<Rightarrow> bytes \<Rightarrow> bytes \<Rightarrow> bytes OpaqueResult" where
  "decrypt_envelope D key ciphertext nonce auth_tag plaintext =
     (if length key \<noteq> SECRETBOX_KEY_LENGTH \<or> ciphertext = [] then Err InvalidInput
      else if length plaintext < length ciphertext then Err InvalidInput
      else let sealed = zeros (SECRETBOX_MAC_LENGTH + length ciphertext) in
        and_then (copy_into sealed 0 SECRETBOX_MAC_LENGTH auth_tag) (\<lambda>sealed.
        and_then (copy_into sealed SECRETBOX_MAC_LENGTH (length sealed) ciphertext) (\<lambda>sealed.
        and_then (ok_or (secretbox_decrypt D key nonce sealed) AuthenticationError) (\<lambda>decrypted.
        if length decrypted \<noteq> length ciphertext then Err CryptoError
        else copy_into plaintext 0 (length ciphertext) decrypted))))"

section \<open>Random scalars, base multiplication, inversion\<close>

text \<open>The loop of \<open>random_nonzero_scalar\<close> with the number of attempts left.\<close>

primrec random_nonzero_scalar_loop ::
  "('s, 'p, 'ek, 'dk) deps \<Rightarrow> nat \<Rightarrow> world \<Rightarrow> bytes OpaqueResult \<times> world" where
  "random_nonzero_scalar_loop D 0 w = (Err CryptoError, w)"
| "random_nonzero_scalar_loop D (Suc n) w =
     (let (r, w) = random_bytes 64 w in
      qmark r w (\<lambda>wide.
        let bytes = scalar_bytes D (scalar_from_wide D wide)
        in if \<not> is_all_zero D bytes then (Ok bytes, w)
           else random_nonzero_scalar_loop D n w))"

definition random_nonzero_scalar ::
  "('s, 'p, 'ek, 'dk) deps \<Rightarrow> world \<Rightarrow> bytes OpaqueResult \<times> world" where
  "random_nonzero_scalar D w = random_nonzero_scalar_loop D 256 w"

definition scalarmult_base :: "('s, 'p, 'ek, 'dk) deps \<Rightarrow> bytes \<Rightarrow> bytes OpaqueResult" where
  "scalarmult_base D scalar_b =
     and_then (ok_or (scalar_from_canonical D scalar_b) CryptoError) (\<lambda>s.
       if s = scalar_zero D then Err CryptoError
       else let point = base_mul D s
            in if point = point_identity D then Err CryptoError
               else Ok (point_compress D point))"

definition scalar_invert :: "('s, 'p, 'ek, 'dk) deps \<Rightarrow> bytes \<Rightarrow> bytes OpaqueResult" where
  "scalar_invert D scalar_b =
     and_then (ok_or (scalar_from_canonical D scalar_b) CryptoError) (\<lambda>s.
       let inv = scalar_inv D s
       in if inv = scalar_zero D then Err CryptoError else Ok (scalar_bytes D inv))"

section \<open>Group operations, up to encoding\<close>

text \<open>
  On encodings the operations are exactly the group's: they succeed on encodings of
  non-zero scalars and non-identity points, and fail with one fixed error otherwise.
\<close>

lemma decode_point_Ok_iff:
  assumes "group_laws D" "subtle_laws D"
  shows "decode_non_identity_point D b e = Ok p \<longleftrightarrow> p \<noteq> point_identity D \<and> b = point_compress D p"
  using assms point_bytes_canonical [OF assms(1)]
  by (auto simp: decode_non_identity_point_def result_simps split: if_splits)

lemma decode_point_cases:
  "decode_non_identity_point D b e = Err e \<or> (\<exists>p. decode_non_identity_point D b e = Ok p)"
  by (cases "decode_non_identity_point D b e")
    (auto simp: decode_non_identity_point_def result_simps split: if_splits)

lemma decode_point_compress [simp]:
  "group_laws D \<Longrightarrow> subtle_laws D \<Longrightarrow> p \<noteq> point_identity D \<Longrightarrow>
     decode_non_identity_point D (point_compress D p) e = Ok p"
  by (simp add: decode_point_Ok_iff)

lemma scalar_mult_compress [simp]:
  assumes "group_laws D" "subtle_laws D" "s \<noteq> scalar_zero D" "p \<noteq> point_identity D"
  shows "scalar_mult D (scalar_bytes D s) (point_compress D p)
     = Ok (point_compress D (point_mul D s p))"
  using assms by (simp add: scalar_mult_def)

lemma scalar_mult_Ok_iff:
  assumes "group_laws D" "subtle_laws D"
  shows "scalar_mult D sb pb = Ok r \<longleftrightarrow>
     (\<exists>s p. s \<noteq> scalar_zero D \<and> p \<noteq> point_identity D \<and> sb = scalar_bytes D s \<and>
        pb = point_compress D p \<and> r = point_compress D (point_mul D s p))"
proof
  assume "scalar_mult D sb pb = Ok r"
  then show "\<exists>s p. s \<noteq> scalar_zero D \<and> p \<noteq> point_identity D \<and> sb = scalar_bytes D s \<and>
        pb = point_compress D p \<and> r = point_compress D (point_mul D s p)"
    using assms
    by (auto simp: scalar_mult_def result_simps decode_point_Ok_iff Let_def split: if_splits
        dest!: scalar_bytes_canonical [OF assms(1)])
qed (use assms in auto)

lemma scalar_mult_errors: "scalar_mult D sb pb = Err e \<Longrightarrow> e = CryptoError"
  using decode_point_cases [of D pb CryptoError]
  by (auto simp: scalar_mult_def result_simps Let_def split: if_splits)

lemma scalar_mult_no_panic [no_panic]: "scalar_mult D sb pb \<noteq> Panic"
  using decode_point_cases [of D pb CryptoError]
  by (auto simp: scalar_mult_def result_simps Let_def split: if_splits)

lemma validate_public_key_Ok_iff:
  assumes "group_laws D" "subtle_laws D"
  shows "validate_public_key D b = Ok () \<longleftrightarrow> (\<exists>p. p \<noteq> point_identity D \<and> b = point_compress D p)"
  using assms by (auto simp: validate_public_key_def result_simps decode_point_Ok_iff)

lemma validate_ristretto_point_Ok_iff:
  assumes "group_laws D" "subtle_laws D"
  shows "validate_ristretto_point D b = Ok () \<longleftrightarrow>
     (\<exists>p. p \<noteq> point_identity D \<and> b = point_compress D p)"
  using assms by (auto simp: validate_ristretto_point_def result_simps decode_point_Ok_iff)

lemma validate_compress [simp]:
  assumes "group_laws D" "subtle_laws D" "p \<noteq> point_identity D"
  shows "validate_public_key D (point_compress D p) = Ok ()"
    "validate_ristretto_point D (point_compress D p) = Ok ()"
  using assms validate_public_key_Ok_iff validate_ristretto_point_Ok_iff by blast+

lemma validate_no_panic [no_panic]:
  "validate_public_key D b \<noteq> Panic" "validate_ristretto_point D b \<noteq> Panic"
  using decode_point_cases [of D b InvalidPublicKey] decode_point_cases [of D b InvalidInput]
  by (auto simp: validate_public_key_def validate_ristretto_point_def result_simps split: if_splits)

lemma scalarmult_base_compress [simp]:
  "group_laws D \<Longrightarrow> s \<noteq> scalar_zero D \<Longrightarrow>
     scalarmult_base D (scalar_bytes D s) = Ok (point_compress D (base_mul D s))"
  by (simp add: scalarmult_base_def)

lemma scalarmult_base_Ok_iff:
  assumes "group_laws D"
  shows "scalarmult_base D sb = Ok r \<longleftrightarrow>
     (\<exists>s. s \<noteq> scalar_zero D \<and> sb = scalar_bytes D s \<and> r = point_compress D (base_mul D s))"
    (is "?l \<longleftrightarrow> ?r")
proof
  assume ?l
  then show ?r
    by (auto simp: scalarmult_base_def result_simps Let_def split: if_splits
        intro: scalar_bytes_canonical [OF assms])
qed (use assms in auto)

lemma scalarmult_base_no_panic [no_panic]: "scalarmult_base D sb \<noteq> Panic"
  by (auto simp: scalarmult_base_def result_simps Let_def split: if_splits)

lemma scalar_invert_bytes [simp]:
  "group_laws D \<Longrightarrow> s \<noteq> scalar_zero D \<Longrightarrow>
     scalar_invert D (scalar_bytes D s) = Ok (scalar_bytes D (scalar_inv D s))"
  by (simp add: scalar_invert_def)

lemma scalar_invert_no_panic [no_panic]: "scalar_invert D sb \<noteq> Panic"
  by (auto simp: scalar_invert_def result_simps Let_def split: if_splits)

lemma scalar_mult_length:
  "group_laws D \<Longrightarrow> subtle_laws D \<Longrightarrow> scalar_mult D sb pb = Ok r \<Longrightarrow> length r = 32"
  by (auto simp: scalar_mult_Ok_iff)

section \<open>Random scalars\<close>

lemma random_bytes_pos [simp]:
  "0 < n \<Longrightarrow> random_bytes n w = (Ok (fst (fill_bytes n w)), snd (fill_bytes n w))"
  by (simp add: random_bytes_def split: prod.split)

lemma random_nonzero_scalar_loop_cases:
  assumes "group_laws D" "subtle_laws D" "random_nonzero_scalar_loop D n w = (r, w')"
  shows "r = Err CryptoError \<or> (\<exists>s. s \<noteq> scalar_zero D \<and> r = Ok (scalar_bytes D s))"
  using assms(3)
proof (induction n arbitrary: w)
  case (Suc n)
  with assms(1,2) show ?case by (auto simp: Let_def split: if_splits)
qed auto

lemma random_nonzero_scalar_cases:
  assumes "group_laws D" "subtle_laws D" "random_nonzero_scalar D w = (r, w')"
  obtains "r = Err CryptoError" | s where "s \<noteq> scalar_zero D" "r = Ok (scalar_bytes D s)"
  using assms random_nonzero_scalar_loop_cases [of D 256 w r w']
  by (auto simp: random_nonzero_scalar_def)

lemma leaves_random_scalar:
  assumes "group_laws D" "subtle_laws D"
    and "\<And>w'. leaves (k (Err CryptoError) w') Q"
    and "\<And>s w'. s \<noteq> scalar_zero D \<Longrightarrow> leaves (k (Ok (scalar_bytes D s)) w') Q"
  shows "leaves (case random_nonzero_scalar D w of (r, w') \<Rightarrow> k r w') Q"
proof (cases "random_nonzero_scalar D w")
  case (Pair r w')
  from assms Pair show ?thesis by (cases rule: random_nonzero_scalar_cases [OF assms(1,2) Pair]) auto
qed

lemma scalarmult_base_length: "group_laws D \<Longrightarrow> scalarmult_base D sb = Ok r \<Longrightarrow> length r = 32"
  by (auto simp: scalarmult_base_Ok_iff)

text \<open>Sampling succeeds as soon as the first 64 random bytes do not reduce to zero.\<close>

lemma random_nonzero_scalar_first:
  assumes "group_laws D" "subtle_laws D"
    and "scalar_from_wide D (fst (fill_bytes 64 w)) = s" "s \<noteq> scalar_zero D"
  shows "random_nonzero_scalar D w = (Ok (scalar_bytes D s), snd (fill_bytes 64 w))"
  using assms random_nonzero_scalar_loop.simps(2) [of D 255 w]
  by (simp add: random_nonzero_scalar_def Let_def)

text \<open>A random source none of whose 64-byte windows reduces to the zero scalar.\<close>

definition nonzero_tape :: "('s, 'p, 'ek, 'dk) deps \<Rightarrow> (nat \<Rightarrow> u8) \<Rightarrow> bool" where
  "nonzero_tape D rng \<longleftrightarrow> (\<forall>n. scalar_from_wide D (map (\<lambda>i. rng (i + n)) [0..<64]) \<noteq> scalar_zero D)"

lemma nonzero_tape_fill [simp]: "nonzero_tape D (w_rng w) \<Longrightarrow> nonzero_tape D (w_rng (snd (fill_bytes n w)))"
  unfolding nonzero_tape_def fill_bytes_def by (simp add: add.assoc del: upt_rec_numeral)

lemma random_nonzero_scalar_tape:
  assumes "group_laws D" "subtle_laws D" "nonzero_tape D (w_rng w)"
  obtains s where "s \<noteq> scalar_zero D" "random_nonzero_scalar D w = (Ok (scalar_bytes D s), snd (fill_bytes 64 w))"
proof (rule that)
  have "map (\<lambda>i. w_rng w (i + 0)) [0..<64] = fst (fill_bytes 64 w)"
    by (simp add: fill_bytes_def del: upt_rec_numeral)
  then show nz: "scalar_from_wide D (fst (fill_bytes 64 w)) \<noteq> scalar_zero D"
    using assms(3) unfolding nonzero_tape_def by metis
  show "random_nonzero_scalar D w =
      (Ok (scalar_bytes D (scalar_from_wide D (fst (fill_bytes 64 w)))), snd (fill_bytes 64 w))"
    using random_nonzero_scalar_first [OF assms(1,2) refl nz] .
qed

section \<open>HMAC and HKDF against their specification\<close>

lemma hmac_sha512_Ok [simp]:
  "hash_laws D \<Longrightarrow> hmac_sha512 D k m = (if k = [] \<or> m = [] then Err InvalidInput else Ok (hmac_tag D k m))"
  by (simp add: hmac_sha512_def)

lemma key_derivation_extract_Ok [simp]:
  "hash_laws D \<Longrightarrow> key_derivation_extract D salt ikm =
     (if salt = [] \<or> ikm = [] then Err InvalidInput else Ok (hmac_tag D salt ikm))"
  by (simp add: key_derivation_extract_def)

lemma hmac_tag_not_Nil [simp]: "hash_laws D \<Longrightarrow> hmac_tag D k m \<noteq> []"
  by (metis hmac_simps(2) list.size(3) zero_neq_numeral)

lemma sha512_digest_not_Nil [simp]: "hash_laws D \<Longrightarrow> sha512_digest D m \<noteq> []"
  by (metis length_sha512_digest list.size(3) zero_neq_numeral)

text \<open>
  RFC 5869: block \<open>i\<close> is the HMAC of the previous block, the info string and the counter;
  the output is a prefix of the blocks.
\<close>

primrec hkdf_block :: "('s, 'p, 'ek, 'dk) deps \<Rightarrow> bytes \<Rightarrow> bytes \<Rightarrow> nat \<Rightarrow> bytes" where
  "hkdf_block D prk info 0 = []"
| "hkdf_block D prk info (Suc i) =
     hmac_tag D prk (hkdf_block D prk info i @ info @ [of_nat (Suc i)])"

definition hkdf_blocks :: "('s, 'p, 'ek, 'dk) deps \<Rightarrow> bytes \<Rightarrow> bytes \<Rightarrow> nat \<Rightarrow> nat \<Rightarrow> bytes" where
  "hkdf_blocks D prk info i n = concat (map (hkdf_block D prk info) [i..<Suc n])"

definition hkdf_expand :: "('s, 'p, 'ek, 'dk) deps \<Rightarrow> bytes \<Rightarrow> bytes \<Rightarrow> nat \<Rightarrow> bytes" where
  "hkdf_expand D prk info len = take len (hkdf_blocks D prk info 1 ((len + 63) div 64))"

lemma hkdf_block_length: "hash_laws D \<Longrightarrow> 0 < i \<Longrightarrow> length (hkdf_block D prk info i) = 64"
  by (cases i) simp_all

lemma hkdf_blocks_Cons:
  "i \<le> n \<Longrightarrow> hkdf_blocks D prk info i n = hkdf_block D prk info i @ hkdf_blocks D prk info (Suc i) n"
  by (simp add: hkdf_blocks_def upt_conv_Cons del: upt_Suc)

lemma hkdf_blocks_length:
  "hash_laws D \<Longrightarrow> 0 < i \<Longrightarrow> length (hkdf_blocks D prk info i n) = 64 * (Suc n - i)"
proof (induction "Suc n - i" arbitrary: i)
  case 0
  then show ?case by (simp add: hkdf_blocks_def)
next
  case (Suc k)
  then have "i \<le> n" by simp
  with Suc show ?case by (simp add: hkdf_blocks_Cons hkdf_block_length Suc_diff_le)
qed

lemma hkdf_expand_length [simp]: "hash_laws D \<Longrightarrow> length (hkdf_expand D prk info len) = len"
proof -
  have "len \<le> 64 * ((len + 63) div 64)" by linarith
  then show "hash_laws D \<Longrightarrow> length (hkdf_expand D prk info len) = len" by (simp add: hkdf_expand_def hkdf_blocks_length)
qed

text \<open>One round copies the next block, cut at the end of the output, and advances.\<close>

lemma expand_loop_unfold:
  assumes "hash_laws D" "i \<le> n" "n \<le> 255" "m = (i - 1) * 64" "m < length okm"
    and t: "t = hmac_tag D prk ((if 1 < i then t_prev else []) @ info @ [of_nat i])"
  shows "key_derivation_expand_loop D prk info i n t_prev okm =
     key_derivation_expand_loop D prk info (Suc i) n t
       (take m okm @ take (length okm - m) t @ drop (m + 64) okm)"
proof -
  have len: "length t = 64" using assms(1) t by simp
  have "key_derivation_expand_loop D prk info i n t_prev okm =
     (let copy_len = min 64 (length okm - m) in
      and_then (subslice t 0 copy_len) (\<lambda>block.
      and_then (copy_into okm m (m + copy_len) block) (\<lambda>okm.
      key_derivation_expand_loop D prk info (Suc i) n t okm)))"
    using assms(1-3)
    by (subst key_derivation_expand_loop.simps) (simp add: t assms(4))
  moreover have "min 64 (length okm - m) = 64" if "m + 64 \<le> length okm" using that by simp
  moreover have "min 64 (length okm - m) = length okm - m" "length okm - m \<le> 64"
    if "\<not> m + 64 \<le> length okm"
    using that by simp_all
  ultimately show ?thesis
    using len assms(5)
    by (cases "m + 64 \<le> length okm") (simp_all add: Let_def subslice_def copy_into_def)
qed

lemma expand_loop_step:
  assumes "hash_laws D" "0 < i" "i \<le> n" "n \<le> 255" "m = (i - 1) * 64" "m < length okm"
  shows "key_derivation_expand_loop D prk info i n (hkdf_block D prk info (i - 1)) okm =
     key_derivation_expand_loop D prk info (Suc i) n (hkdf_block D prk info i)
       (take m okm @ take (length okm - m) (hkdf_block D prk info i) @ drop (m + 64) okm)"
proof (rule expand_loop_unfold)
  have "(if 1 < i then hkdf_block D prk info (i - 1) else []) = hkdf_block D prk info (i - 1)"
    using assms(2) by (cases "1 < i") auto
  moreover have "hkdf_block D prk info i =
     hmac_tag D prk (hkdf_block D prk info (i - 1) @ info @ [of_nat i])"
    using assms(2) by (cases i) simp_all
  ultimately show "hkdf_block D prk info i =
     hmac_tag D prk ((if 1 < i then hkdf_block D prk info (i - 1) else []) @ info @ [of_nat i])"
    by simp
qed (use assms in auto)

lemma expand_loop_blocks:
  assumes "hash_laws D" "n \<le> 255" "(n - 1) * 64 < length okm" "length okm \<le> n * 64"
    and "0 < i" "i \<le> Suc n"
  shows "key_derivation_expand_loop D prk info i n (hkdf_block D prk info (i - 1)) okm =
     Ok (take ((i - 1) * 64) okm @ take (length okm - (i - 1) * 64) (hkdf_blocks D prk info i n))"
  using assms(3-)
proof (induction "Suc n - i" arbitrary: i okm)
  case 0
  then show ?case
    by (subst key_derivation_expand_loop.simps) (simp add: hkdf_blocks_def)
next
  case (Suc k)
  define m where "m = (i - 1) * 64"
  let ?b = "hkdf_block D prk info i"
  let ?okm = "take m okm @ take (length okm - m) ?b @ drop (m + 64) okm"
  have i: "i \<le> n" using Suc.hyps(2) by simp
  then have "m \<le> (n - 1) * 64" by (simp add: m_def)
  with Suc.prems have low: "m < length okm" by simp
  have blen: "length ?b = 64" using Suc.prems assms(1) by (simp add: hkdf_block_length)
  have next_m: "(Suc i - 1) * 64 = m + 64" using Suc.prems(3) by (cases i) (auto simp: m_def)
  have olen: "length ?okm = length okm" using low blen by auto
  have pre: "take (m + 64) ?okm = take m okm @ take (length okm - m) ?b"
    using low blen by (auto simp: min_def)
  have "key_derivation_expand_loop D prk info i n (hkdf_block D prk info (i - 1)) okm =
     key_derivation_expand_loop D prk info (Suc i) n (hkdf_block D prk info (Suc i - 1)) ?okm"
    using expand_loop_step [OF assms(1) Suc.prems(3) i assms(2) m_def low] by simp
  also have "\<dots> = Ok (take ((Suc i - 1) * 64) ?okm @
       take (length ?okm - (Suc i - 1) * 64) (hkdf_blocks D prk info (Suc i) n))"
    by (rule Suc.hyps(1)) (use Suc.hyps(2) Suc.prems i olen in auto)
  also have "\<dots> = Ok (take m okm @ take (length okm - m) (hkdf_blocks D prk info i n))"
    unfolding next_m olen pre using i blen by (simp add: hkdf_blocks_Cons)
  finally show ?case by (simp add: m_def)
qed

lemma key_derivation_expand_Ok:
  assumes "hash_laws D"
  shows "key_derivation_expand D prk info len =
     (if prk = [] \<or> len = 0 \<or> 255 * 64 < len then Err InvalidInput
      else Ok (hkdf_expand D prk info len))"
proof (cases "prk = [] \<or> len = 0 \<or> 255 * 64 < len")
  case True
  then show ?thesis by (auto simp: key_derivation_expand_def Let_def)
next
  case False
  define n where "n = (len + 63) div 64"
  have n: "n \<le> 255" "0 < n" "(n - 1) * 64 < len" "len \<le> n * 64"
    using False unfolding n_def by linarith+
  have "key_derivation_expand_loop D prk info 1 n (zeros 64) (zeros len) =
    key_derivation_expand_loop D prk info 1 n (hkdf_block D prk info (1 - 1)) (zeros len)"
    using n assms by (simp add: expand_loop_unfold)
  also have "\<dots> = Ok (hkdf_expand D prk info len)"
    using expand_loop_blocks [OF assms n(1), of "zeros len" 1 prk info] n
    by (simp add: hkdf_expand_def n_def)
  finally show ?thesis
    using False n by (simp add: key_derivation_expand_def n_def Let_def)
qed


lemma key_derivation_expand_no_panic [no_panic]:
  "hash_laws D \<Longrightarrow> key_derivation_expand D prk info len \<noteq> Panic"
  by (simp add: key_derivation_expand_Ok)

lemma hkdf_expand_not_Nil [simp]: "hash_laws D \<Longrightarrow> hkdf_expand D prk info len = [] \<longleftrightarrow> len = 0"
  by (metis hkdf_expand_length length_0_conv)

section \<open>Derived keys\<close>

definition masking_key_of :: "('s, 'p, 'ek, 'dk) deps \<Rightarrow> bytes \<Rightarrow> bytes" where
  "masking_key_of D rwd = hkdf_expand D (hmac_tag D MASKING_KEY_INFO rwd) MASKING_KEY_INFO 32"

lemma derive_masking_key_Ok:
  "hash_laws D \<Longrightarrow> rwd \<noteq> [] \<Longrightarrow> derive_masking_key D rwd = Ok (masking_key_of D rwd)"
  by (simp add: derive_masking_key_def masking_key_of_def key_derivation_expand_Ok)

lemma derive_masking_key_no_panic [no_panic]: "hash_laws D \<Longrightarrow> derive_masking_key D rwd \<noteq> Panic"
  by (simp add: derive_masking_key_def key_derivation_expand_no_panic)

lemma derive_client_export_key_Ok:
  "hash_laws D \<Longrightarrow> subtle_laws D \<Longrightarrow> rwd \<noteq> [] \<Longrightarrow> ctx \<noteq> zeros (length ctx) \<Longrightarrow>
     derive_client_export_key D rwd ctx 32
       = Ok (hkdf_expand D (hmac_tag D ctx rwd) CLIENT_EXPORT_KEY_INFO 32)"
  by (auto simp: derive_client_export_key_def key_derivation_expand_Ok zeros_def)

lemma derive_client_export_key_no_panic [no_panic]:
  "hash_laws D \<Longrightarrow> derive_client_export_key D rwd ctx n \<noteq> Panic"
  by (auto simp: derive_client_export_key_def key_derivation_expand_Ok result_simps split: if_splits)

text \<open>The counter loop returns the key of the first counter whose scalar is not zero.\<close>

definition oprf_key_candidate :: "('s, 'p, 'ek, 'dk) deps \<Rightarrow> bytes \<Rightarrow> bytes \<Rightarrow> u8 \<Rightarrow> 's" where
  "oprf_key_candidate D seed account_id c =
     scalar_from_wide D (hmac_tag D seed (OPRF_KEY_INFO @ account_id @ [c]))"

lemma derive_oprf_key_loop_find:
  assumes "hash_laws D" "subtle_laws D" "group_laws D"
  shows "derive_oprf_key_loop D seed account_id cs =
     (case find (\<lambda>c. oprf_key_candidate D seed account_id c \<noteq> scalar_zero D) cs of
        None \<Rightarrow> Err CryptoError
      | Some c \<Rightarrow> Ok (scalar_bytes D (oprf_key_candidate D seed account_id c)))"
  using assms by (induction cs) (auto simp: oprf_key_candidate_def slice_simps Let_def)

lemma derive_oprf_key_find:
  assumes "hash_laws D" "subtle_laws D" "group_laws D" "secret \<noteq> []" "account_id \<noteq> []"
    and seed: "seed = take 32 (hmac_tag D secret OPRF_SEED_INFO)"
  shows "derive_oprf_key D secret account_id =
     (case find (\<lambda>c. oprf_key_candidate D seed account_id c \<noteq> scalar_zero D) (map of_nat [0..<256]) of
        None \<Rightarrow> Err CryptoError
      | Some c \<Rightarrow> Ok (scalar_bytes D (oprf_key_candidate D seed account_id c)))"
  unfolding seed using assms(1-5)
  by (simp add: derive_oprf_key_def slice_simps derive_oprf_key_loop_find del: upt_rec_numeral)

lemma derive_oprf_key_cases:
  assumes "hash_laws D" "subtle_laws D" "group_laws D"
  shows "(\<exists>e. derive_oprf_key D secret account_id = Err e) \<or>
     (\<exists>s. s \<noteq> scalar_zero D \<and> derive_oprf_key D secret account_id = Ok (scalar_bytes D s))"
proof (cases "secret = [] \<or> account_id = []")
  case False
  then show ?thesis
    using assms by (auto simp: derive_oprf_key_find [OF _ _ _ _ _ refl] find_Some_iff split: option.split simp del: upt_rec_numeral)
qed (auto simp: derive_oprf_key_def)

lemma derive_oprf_key_no_panic [no_panic]:
  "hash_laws D \<Longrightarrow> subtle_laws D \<Longrightarrow> group_laws D \<Longrightarrow> derive_oprf_key D secret account_id \<noteq> Panic"
  using derive_oprf_key_cases [of D secret account_id] by auto

definition randomized_password_of :: "('s, 'p, 'ek, 'dk) deps \<Rightarrow> bytes \<Rightarrow> bytes \<Rightarrow> bytes" where
  "randomized_password_of D oprf_output secure_key =
     (case derive_randomized_password D oprf_output secure_key 64 of Ok r \<Rightarrow> r | _ \<Rightarrow> [])"

lemma derive_randomized_password_Ok:
  assumes "hash_laws D" "argon2_laws D" "out \<noteq> []" "key \<noteq> []"
  shows "derive_randomized_password D out key 64 = Ok (randomized_password_of D out key)"
    and "length (randomized_password_of D out key) = 64"
proof -
  let ?pwd = "sha512_multi D [KSF_CONTEXT, out, key]"
  let ?salt = "take 16 (sha512_multi D [KSF_SALT_LABEL, out])"
  have params: "argon2_params_ok D (256 * 1024) 3 1 64"
    using assms(2) by (simp add: argon2_laws_def)
  have lens: "length ?pwd < 2 ^ 32" "8 \<le> length ?salt" "length ?salt < 2 ^ 32"
    using assms(1) by (simp_all add: sha512_multi_def)
  obtain h where "argon2id_hash D (256 * 1024) 3 1 ?pwd ?salt 64 = Some h" "length h = 64"
    using assms(2) params lens unfolding argon2_laws_def by blast
  with assms params show "derive_randomized_password D out key 64 = Ok (randomized_password_of D out key)"
    and "length (randomized_password_of D out key) = 64"
    by (simp_all add: derive_randomized_password_def randomized_password_of_def sha512_multi_def slice_simps)
qed

lemma derive_randomized_password_no_panic [no_panic]:
  "hash_laws D \<Longrightarrow> derive_randomized_password D out key n \<noteq> Panic"
  by (auto simp: derive_randomized_password_def sha512_multi_def slice_simps Let_def result_simps)

section \<open>Masking and sealing are reversible\<close>

lemma map_xor_zip_involution:
  "length xs \<le> length ys \<Longrightarrow>
     map (\<lambda>(a, b). a XOR b) (zip (map (\<lambda>(a, b). a XOR b) (zip xs ys)) ys) = (xs :: bytes)"
proof (induction xs arbitrary: ys)
  case (Cons x xs)
  then obtain y ys' where "ys = y # ys'" by (cases ys) auto
  with Cons show ?case by (simp add: xor.assoc)
qed simp

definition credential_pad ::
  "('s, 'p, 'ek, 'dk) deps \<Rightarrow> bytes \<Rightarrow> bytes \<Rightarrow> bytes \<Rightarrow> bytes \<Rightarrow> bytes" where
  "credential_pad D masking_key nonce evaluated ctx =
     hkdf_expand D (hmac_tag D ctx masking_key) (CREDENTIAL_MASKING_INFO @ nonce @ evaluated) 136"

lemma mask_credential_envelope_eq:
  assumes "hash_laws D" "subtle_laws D"
  shows "mask_credential_envelope D mk nonce ev ctx input =
     (if mk = zeros (length mk) \<or> length nonce \<noteq> 24 \<or> length ev \<noteq> 32 \<or> ctx = zeros (length ctx)
      then Err InvalidInput
      else Ok (map (\<lambda>(a, b). a XOR b) (zip input (credential_pad D mk nonce ev ctx))))"
  using assms
  by (auto simp: mask_credential_envelope_def credential_pad_def key_derivation_expand_Ok zeros_def)

lemma mask_credential_envelope_no_panic [no_panic]:
  "hash_laws D \<Longrightarrow> subtle_laws D \<Longrightarrow> mask_credential_envelope D mk nonce ev ctx input \<noteq> Panic"
  by (simp add: mask_credential_envelope_eq)

lemma mask_credential_envelope_length:
  assumes "hash_laws D" "subtle_laws D" "length input = 136"
    and "mask_credential_envelope D mk nonce ev ctx input = Ok out"
  shows "length out = 136"
  using assms by (auto simp: mask_credential_envelope_eq credential_pad_def split: if_splits)

lemma mask_unmask:
  assumes "hash_laws D" "subtle_laws D" "length input = 136"
    and "mask_credential_envelope D mk nonce ev ctx input = Ok masked"
  shows "mask_credential_envelope D mk nonce ev ctx masked = Ok input"
  using assms
  by (auto simp: mask_credential_envelope_eq credential_pad_def map_xor_zip_involution split: if_splits)

lemma encrypt_decrypt_envelope:
  assumes "secretbox_laws D" "length key = 32" "length nonce = 24" "plaintext \<noteq> []"
    and "length buf = length plaintext"
  obtains ct tag where "encrypt_envelope D key plaintext nonce buf = Ok (ct, tag)"
    "length ct = length plaintext" "length tag = 16"
    "\<And>out. length out = length plaintext \<Longrightarrow> decrypt_envelope D key ct nonce tag out = Ok plaintext"
proof -
  obtain c where c: "secretbox_encrypt D key nonce plaintext = Some c"
    "length c = 16 + length plaintext" "secretbox_decrypt D key nonce c = Some plaintext"
    using assms(1-3) by (rule secretbox_sealed)
  have "encrypt_envelope D key plaintext nonce buf = Ok (drop 16 c, take 16 c)"
    using assms c by (simp add: encrypt_envelope_def slice_simps copy_into_whole)
  moreover have "decrypt_envelope D key (drop 16 c) nonce (take 16 c) out = Ok plaintext"
    if "length out = length plaintext" for out
    using assms c that by (auto simp: decrypt_envelope_def copy_into_def Let_def)
  ultimately show thesis
    using that [of "drop 16 c" "take 16 c"] c by simp
qed

lemma decrypt_envelope_no_panic [no_panic]:
  "length tag = 16 \<Longrightarrow> decrypt_envelope D key ct nonce tag out \<noteq> Panic"
  by (auto simp: decrypt_envelope_def copy_into_def Let_def result_simps split: if_splits)

lemma encrypt_envelope_no_panic [no_panic]: "encrypt_envelope D key pt nonce buf \<noteq> Panic"
  by (auto simp: encrypt_envelope_def copy_into_def slice_simps Let_def result_simps split: if_splits)

section \<open>The sample dependencies\<close>

lemma sample_candidate: "oprf_key_candidate sample seed a c = Z2"
  by (simp add: oprf_key_candidate_def hmac_tag_def numeral_eq_Suc) (simp add: sample_def z3_of_byte_def)

lemma sample_first_counter: "find (\<lambda>c. True) (map of_nat [0..<256]) = Some (0 :: u8)"
  by (subst upt_conv_Cons) simp_all

lemma sample_oprf_key [simp]:
  "secret \<noteq> [] \<Longrightarrow> a \<noteq> [] \<Longrightarrow> derive_oprf_key sample secret a = Ok (z3_encode Z2)"
  by (simp add: derive_oprf_key_find [OF _ _ _ _ _ refl] sample_candidate sample_first_counter)

lemma sample_expand:
  "hkdf_expand sample prk info 32 = replicate 32 2" "hkdf_expand sample prk info 64 = replicate 64 2"
  by (simp_all add: hkdf_expand_def hkdf_blocks_def hmac_tag_def)

lemma sample_tape: "nonzero_tape sample (w_rng sample_world)"
proof -
  have "scalar_from_wide sample (2 # bs) = Z2" for bs by (simp add: sample_def z3_of_byte_def)
  moreover have "map (\<lambda>i. w_rng sample_world (i + n)) [0..<64] = 2 # map (\<lambda>_. 2) [1..<64]" for n
    by (subst upt_conv_Cons) (simp_all add: sample_world_def)
  ultimately show ?thesis by (simp add: nonzero_tape_def)
qed

section \<open>Properties\<close>

text \<open>
  C35: the block loop of \<open>key_derivation_expand\<close> computes HKDF-Expand of RFC 5869 with
  HMAC-SHA-512: it rejects an empty key, an empty output and more than 255 blocks, and
  otherwise returns the requested prefix of the chained blocks.
\<close>

theorem expand_is_rfc5869:
  assumes "hash_laws D"
  shows "key_derivation_expand D prk info len =
     (if prk = [] \<or> len = 0 \<or> 255 * 64 < len then Err InvalidInput else Ok (hkdf_expand D prk info len))
    \<and> length (hkdf_expand D prk info len) = len"
  using key_derivation_expand_Ok [OF assms] assms by simp

theorem expand_is_rfc5869_witness:
  "key_derivation_expand sample [1] [2] 100 = Ok (hkdf_expand sample [1] [2] 100)
     \<and> length (hkdf_expand sample [1] [2] 100) = 100"
  using expand_is_rfc5869 [of sample "[1]" "[2]" 100] by simp

text \<open>
  \<open>derive_oprf_key\<close> returns the encoding of the scalar at the first of the 256 counters
  that does not give zero, so the key is never zero and depends on nothing but the secret
  and the account; it fails only if all counters give zero.
\<close>

lemma derive_oprf_key_first_counter:
  assumes "hash_laws D" "subtle_laws D" "group_laws D"
  shows "derive_oprf_key D secret account_id =
     (if secret = [] \<or> account_id = [] then Err InvalidInput
      else case find (\<lambda>c. oprf_key_candidate D (take 32 (hmac_tag D secret OPRF_SEED_INFO)) account_id c
                        \<noteq> scalar_zero D) (map of_nat [0..<256]) of
        None \<Rightarrow> Err CryptoError
      | Some c \<Rightarrow> Ok (scalar_bytes D
          (oprf_key_candidate D (take 32 (hmac_tag D secret OPRF_SEED_INFO)) account_id c)))"
  using derive_oprf_key_find [OF assms _ _ refl] by (auto simp: derive_oprf_key_def)

text \<open>Draws of 64 bytes from the random source, in order.\<close>

definition random_window :: "world \<Rightarrow> nat \<Rightarrow> bytes" where
  "random_window w i = map (\<lambda>j. w_rng w (j + 64 * i)) [0..<64]"

definition skip_random :: "nat \<Rightarrow> world \<Rightarrow> world" where
  "skip_random n w = w\<lparr>w_rng := (\<lambda>i. w_rng w (i + n))\<rparr>"

lemma random_window_skip: "random_window (skip_random 64 w) i = random_window w (Suc i)"
  by (simp add: random_window_def skip_random_def algebra_simps)

lemma skip_random_add: "skip_random m (skip_random n w) = skip_random (m + n) w"
  by (simp add: skip_random_def algebra_simps)

lemma random_loop_exact:
  assumes "group_laws D" "subtle_laws D"
  shows "random_nonzero_scalar_loop D n w =
     (case find (\<lambda>i. scalar_from_wide D (random_window w i) \<noteq> scalar_zero D) [0..<n] of
        None \<Rightarrow> (Err CryptoError, skip_random (64 * n) w)
      | Some i \<Rightarrow> (Ok (scalar_bytes D (scalar_from_wide D (random_window w i))), skip_random (64 * Suc i) w))"
proof (induction n arbitrary: w)
  case 0
  then show ?case by (simp add: skip_random_def)
next
  case (Suc n)
  have fill: "random_bytes 64 w = (Ok (random_window w 0), skip_random 64 w)"
    by (simp add: random_bytes_def fill_bytes_def random_window_def skip_random_def)
  have shift: "find P [0..<Suc n] = (if P 0 then Some 0 else map_option Suc (find (\<lambda>i. P (Suc i)) [0..<n]))" for P
  proof -
    have "find P (map Suc xs) = map_option Suc (find (\<lambda>i. P (Suc i)) xs)" for xs by (induction xs) auto
    then show ?thesis by (simp add: upt_conv_Cons map_Suc_upt [symmetric] del: upt_Suc)
  qed
  show ?case
    using assms
    by (simp add: fill shift Suc.IH random_window_skip skip_random_add Let_def del: upt_Suc
        split: option.splits) (auto simp: algebra_simps)
qed

text \<open>
  C37: \<open>random_nonzero_scalar\<close> returns the first non-zero scalar among at most 256
  independent 64-byte draws, consuming exactly the bytes of the draws it made; it fails
  only after 256 draws that all reduce to zero.
\<close>

theorem random_nonzero_scalar_exact:
  assumes "group_laws D" "subtle_laws D"
  shows "random_nonzero_scalar D w =
     (case find (\<lambda>i. scalar_from_wide D (random_window w i) \<noteq> scalar_zero D) [0..<256] of
        None \<Rightarrow> (Err CryptoError, skip_random (64 * 256) w)
      | Some i \<Rightarrow> (Ok (scalar_bytes D (scalar_from_wide D (random_window w i))), skip_random (64 * Suc i) w))"
  unfolding random_nonzero_scalar_def by (rule random_loop_exact [OF assms])

theorem random_nonzero_scalar_exact_witness:
  "random_nonzero_scalar sample sample_world = (Ok (z3_encode Z2), skip_random 64 sample_world)"
proof -
  have "random_window sample_world i = 2 # map (\<lambda>_. 2) [1..<64]" for i
    unfolding random_window_def by (subst upt_conv_Cons) (simp_all add: sample_world_def)
  then have "scalar_from_wide sample (random_window sample_world i) = Z2" for i
    by (simp add: sample_def z3_of_byte_def)
  moreover have "find (\<lambda>i. True) [0..<256] = Some (0 :: nat)" by (subst upt_conv_Cons) simp_all
  ultimately show ?thesis using random_nonzero_scalar_exact [of sample sample_world] by simp
qed

text \<open>
  Masking an envelope is its own inverse: under the same masking key, nonce, evaluated
  element and account context, masking the masked envelope gives the envelope back. The
  call succeeds exactly on a non-zero key and context with the two fixed widths.
\<close>

lemma credential_mask_involution:
  assumes "hash_laws D" "subtle_laws D" "length input = ENVELOPE_LENGTH"
    and "mk \<noteq> zeros (length mk)" "ctx \<noteq> zeros (length ctx)"
    and "length nonce = NONCE_LENGTH" "length ev = PUBLIC_KEY_LENGTH"
  shows "\<exists>masked. mask_credential_envelope D mk nonce ev ctx input = Ok masked \<and> length masked = ENVELOPE_LENGTH \<and>
     mask_credential_envelope D mk nonce ev ctx masked = Ok input"
proof -
  obtain masked where m: "mask_credential_envelope D mk nonce ev ctx input = Ok masked"
    using assms by (simp add: mask_credential_envelope_eq)
  then show ?thesis
    using mask_unmask [of D, OF _ _ _ m] mask_credential_envelope_length [of D, OF _ _ _ m] assms by simp
qed

end
