(* ===== verification/Oprf.thy ===== *)
theory Oprf
  imports Crypto
begin

text \<open>
  Model of \<^verbatim>\<open>opaque-core/src/oprf.rs\<close>: the oblivious pseudo-random function. The client blinds a
  hashed password with a random scalar, the server multiplies by the account's key, the
  client divides the blind out and hashes. The server's side is the trait
  \<open>OprfEvaluator\<close>; the locale \<open>oprf_service\<close> is what the client relies on, and the
  in-memory evaluator is an interpretation of it.
\<close>

section \<open>Client side\<close>

definition HASH_TO_GROUP_DOMAIN :: u8 where "HASH_TO_GROUP_DOMAIN = 0"
definition FINALIZE_DOMAIN :: u8 where "FINALIZE_DOMAIN = 1"

definition oprf_hash_to_group :: "('s, 'p, 'ek, 'dk) deps \<Rightarrow> bytes \<Rightarrow> bytes OpaqueResult" where
  "oprf_hash_to_group D input =
     (if input = [] then Err InvalidInput
      else let hash = sha512_multi D [OPRF_CONTEXT, [HASH_TO_GROUP_DOMAIN], input]
           in Ok (point_compress D (point_from_uniform D hash)))"

text \<open>
  \<open>blind_scalar\<close> is the caller's buffer: it is overwritten as soon as a scalar is drawn,
  also when a later step fails. The blinded element is written on success only.
\<close>

definition blind ::
  "('s, 'p, 'ek, 'dk) deps \<Rightarrow> bytes \<Rightarrow> bytes \<Rightarrow> world \<Rightarrow> bytes OpaqueResult \<times> bytes \<times> world" where
  "blind D input blind_scalar w =
     (if input = [] then (Err InvalidInput, blind_scalar, w)
      else let (r, w) = random_nonzero_scalar D w in
        qmark r (blind_scalar, w) (\<lambda>blind_scalar.
        qmark (oprf_hash_to_group D input) (blind_scalar, w) (\<lambda>element.
        (scalar_mult D blind_scalar element, blind_scalar, w))))"

definition evaluate :: "('s, 'p, 'ek, 'dk) deps \<Rightarrow> bytes \<Rightarrow> bytes \<Rightarrow> bytes OpaqueResult" where
  "evaluate D blinded_element private_key = scalar_mult D private_key blinded_element"

definition finalize :: "('s, 'p, 'ek, 'dk) deps \<Rightarrow> bytes \<Rightarrow> bytes \<Rightarrow> bytes \<Rightarrow> bytes OpaqueResult" where
  "finalize D input blind_scalar evaluated_element =
     (if input = [] then Err InvalidInput
      else and_then (scalar_invert D blind_scalar) (\<lambda>scalar_inv.
        and_then (scalar_mult D scalar_inv evaluated_element) (\<lambda>unblinded_bytes.
        Ok (sha512_multi D [OPRF_CONTEXT, [FINALIZE_DOMAIN], input, unblinded_bytes]))))"

section \<open>Server side\<close>

text \<open>A trait object: the implementing value with its method table.\<close>

record 'e OprfEvaluator =
  ev_self :: 'e
  ev_evaluate_oprf :: "'e \<Rightarrow> bytes \<Rightarrow> bytes \<Rightarrow> bytes OpaqueResult"
  ev_derive_fake_material :: "'e \<Rightarrow> bytes \<Rightarrow> bytes OpaqueResult"
  ev_zeroize_secret :: "'e \<Rightarrow> 'e"

record InMemoryEvaluator =
  mem_oprf_seed :: bytes

definition InMemoryEvaluator_new ::
  "('s, 'p, 'ek, 'dk) deps \<Rightarrow> bytes \<Rightarrow> InMemoryEvaluator OpaqueResult" where
  "InMemoryEvaluator_new D oprf_seed =
     (if is_all_zero D oprf_seed then Err InvalidInput else Ok \<lparr>mem_oprf_seed = oprf_seed\<rparr>)"

definition mem_zeroize_secret ::
  "('s, 'p, 'ek, 'dk) deps \<Rightarrow> InMemoryEvaluator \<Rightarrow> InMemoryEvaluator" where
  "mem_zeroize_secret D e = e\<lparr>mem_oprf_seed := zeroize D (mem_oprf_seed e)\<rparr>"

definition mem_evaluate_oprf ::
  "('s, 'p, 'ek, 'dk) deps \<Rightarrow> InMemoryEvaluator \<Rightarrow> bytes \<Rightarrow> bytes \<Rightarrow> bytes OpaqueResult" where
  "mem_evaluate_oprf D e blinded_element account_id =
     and_then (derive_oprf_key D (mem_oprf_seed e) account_id) (\<lambda>oprf_key.
       evaluate D blinded_element oprf_key)"

definition mem_derive_fake_material ::
  "('s, 'p, 'ek, 'dk) deps \<Rightarrow> InMemoryEvaluator \<Rightarrow> bytes \<Rightarrow> bytes OpaqueResult" where
  "mem_derive_fake_material D e account_id =
     Ok (sha512_multi D [FAKE_CREDENTIALS_CONTEXT, mem_oprf_seed e, account_id])"

definition InMemoryEvaluator_dyn ::
  "('s, 'p, 'ek, 'dk) deps \<Rightarrow> InMemoryEvaluator \<Rightarrow> InMemoryEvaluator OprfEvaluator" where
  "InMemoryEvaluator_dyn D e = \<lparr>ev_self = e, ev_evaluate_oprf = mem_evaluate_oprf D,
     ev_derive_fake_material = mem_derive_fake_material D,
     ev_zeroize_secret = mem_zeroize_secret D\<rparr>"

section \<open>What the client relies on\<close>

text \<open>The hashed password as a group element, and the function the protocol computes.\<close>

definition password_point :: "('s, 'p, 'ek, 'dk) deps \<Rightarrow> bytes \<Rightarrow> 'p" where
  "password_point D input =
     point_from_uniform D (sha512_multi D [OPRF_CONTEXT, [HASH_TO_GROUP_DOMAIN], input])"

definition oprf_value :: "('s, 'p, 'ek, 'dk) deps \<Rightarrow> 's \<Rightarrow> bytes \<Rightarrow> bytes" where
  "oprf_value D k input = sha512_multi D
     [OPRF_CONTEXT, [FINALIZE_DOMAIN], input, point_compress D (point_mul D k (password_point D input))]"

lemma oprf_hash_to_group_Ok:
  "input \<noteq> [] \<Longrightarrow> oprf_hash_to_group D input = Ok (point_compress D (password_point D input))"
  by (simp add: oprf_hash_to_group_def password_point_def)

lemma finalize_no_panic [no_panic]: "finalize D input bs ev \<noteq> Panic"
  by (auto simp: finalize_def result_simps no_panic)

lemma finalize_Ok_input: "finalize D input bs ev = Ok out \<Longrightarrow> input \<noteq> []"
  by (auto simp: finalize_def)

lemma finalize_length: "hash_laws D \<Longrightarrow> finalize D input bs ev = Ok out \<Longrightarrow> length out = 64"
  by (auto simp: finalize_def result_simps sha512_multi_def split: if_splits)

lemma finalize_blinded:
  assumes "group_laws D" "subtle_laws D" "r \<noteq> scalar_zero D" "k \<noteq> scalar_zero D"
    and "password_point D input \<noteq> point_identity D" "input \<noteq> []"
  shows "finalize D input (scalar_bytes D r)
       (point_compress D (point_mul D k (point_mul D r (password_point D input))))
     = Ok (oprf_value D k input)"
  using assms
  by (simp add: finalize_def oprf_value_def
      point_mul_commute(1) [of D k r] point_mul_commute(1) [of D "scalar_inv D r" k])

text \<open>Successful blinding: a non-zero scalar and its multiple of the password point.\<close>

lemma blind_Ok:
  assumes "group_laws D" "subtle_laws D" "blind D input bs w = (Ok blinded, bs', w')"
  obtains r where "r \<noteq> scalar_zero D" "bs' = scalar_bytes D r"
    "password_point D input \<noteq> point_identity D" "input \<noteq> []"
    "blinded = point_compress D (point_mul D r (password_point D input))"
proof -
  obtain x w1 where x: "random_nonzero_scalar D w = (x, w1)" by fastforce
  show thesis
  proof (cases rule: random_nonzero_scalar_cases [OF assms(1,2) x])
    case 1
    with assms x show thesis by (auto simp: blind_def split: if_splits)
  next
    case (2 s)
    then show thesis
      using assms x that [of s]
      by (auto simp: blind_def oprf_hash_to_group_Ok scalar_mult_Ok_iff split: if_splits)
  qed
qed

locale oprf_service =
  fixes D :: "('s, 'p, 'ek, 'dk) deps"
    and evaluate_oprf :: "bytes \<Rightarrow> bytes \<Rightarrow> bytes OpaqueResult"
    and account_key :: "bytes \<Rightarrow> 's"
    and usable :: "bytes \<Rightarrow> bool"
  assumes usable_laws: "usable a \<Longrightarrow> group_laws D \<and> subtle_laws D"
    and key_nonzero: "usable a \<Longrightarrow> account_key a \<noteq> scalar_zero D"
    and evaluates: "usable a \<Longrightarrow> p \<noteq> point_identity D \<Longrightarrow>
      evaluate_oprf (point_compress D p) a = Ok (point_compress D (point_mul D (account_key a) p))"
begin

lemma oprf_correct:
  assumes "usable a" "blind D input bs w = (Ok blinded, bs', w')"
  shows "\<exists>ev. evaluate_oprf blinded a = Ok ev
           \<and> finalize D input bs' ev = Ok (oprf_value D (account_key a) input)"
proof -
  have laws: "group_laws D" "subtle_laws D" using usable_laws [OF assms(1)] by auto
  obtain r where r: "r \<noteq> scalar_zero D" "bs' = scalar_bytes D r"
    "password_point D input \<noteq> point_identity D" "input \<noteq> []"
    "blinded = point_compress D (point_mul D r (password_point D input))"
    using blind_Ok [OF laws assms(2)] .
  have "evaluate_oprf blinded a =
     Ok (point_compress D (point_mul D (account_key a) (point_mul D r (password_point D input))))"
    using r laws evaluates [OF assms(1)] by simp
  moreover have "finalize D input bs'
     (point_compress D (point_mul D (account_key a) (point_mul D r (password_point D input))))
     = Ok (oprf_value D (account_key a) input)"
    using r laws key_nonzero [OF assms(1)] by (simp add: finalize_blinded)
  ultimately show ?thesis by blast
qed

end

section \<open>The in-memory evaluator provides it\<close>

definition mem_account_key :: "('s, 'p, 'ek, 'dk) deps \<Rightarrow> InMemoryEvaluator \<Rightarrow> bytes \<Rightarrow> 's" where
  "mem_account_key D e account_id =
     (case derive_oprf_key D (mem_oprf_seed e) account_id of
        Ok b \<Rightarrow> (case scalar_from_canonical D b of Some s \<Rightarrow> s | None \<Rightarrow> scalar_zero D)
      | _ \<Rightarrow> scalar_zero D)"

definition mem_usable :: "('s, 'p, 'ek, 'dk) deps \<Rightarrow> InMemoryEvaluator \<Rightarrow> bytes \<Rightarrow> bool" where
  "mem_usable D e account_id \<longleftrightarrow> hash_laws D \<and> subtle_laws D \<and> group_laws D
     \<and> is_ok (derive_oprf_key D (mem_oprf_seed e) account_id)"

lemma mem_account_key_Ok:
  assumes "mem_usable D e a"
  shows "mem_account_key D e a \<noteq> scalar_zero D"
    and "derive_oprf_key D (mem_oprf_seed e) a = Ok (scalar_bytes D (mem_account_key D e a))"
proof -
  from assms obtain s where "s \<noteq> scalar_zero D"
    "derive_oprf_key D (mem_oprf_seed e) a = Ok (scalar_bytes D s)"
    using derive_oprf_key_cases [of D "mem_oprf_seed e" a] by (auto simp: mem_usable_def)
  with assms show "mem_account_key D e a \<noteq> scalar_zero D"
    and "derive_oprf_key D (mem_oprf_seed e) a = Ok (scalar_bytes D (mem_account_key D e a))"
    by (simp_all add: mem_account_key_def mem_usable_def)
qed

interpretation mem_oprf: oprf_service D "mem_evaluate_oprf D e" "mem_account_key D e" "mem_usable D e"
  for D :: "('s, 'p, 'ek, 'dk) deps" and e :: InMemoryEvaluator
proof (unfold_locales, goal_cases)
  case (1 a)
  then show ?case by (simp add: mem_usable_def)
next
  case (2 a)
  then show ?case by (rule mem_account_key_Ok)
next
  case (3 a p)
  then show ?case
    using mem_account_key_Ok [OF 3(1)]
    by (simp add: mem_evaluate_oprf_def evaluate_def mem_usable_def)
qed

lemma mem_evaluate_oprf_no_panic [no_panic]:
  "hash_laws D \<Longrightarrow> subtle_laws D \<Longrightarrow> group_laws D \<Longrightarrow> mem_evaluate_oprf D e b a \<noteq> Panic"
  by (auto simp: mem_evaluate_oprf_def evaluate_def result_simps no_panic)

text \<open>
  Blinding never unwinds; the caller's scalar buffer keeps its width.
\<close>

lemma leaves_blind:
  assumes "group_laws D" "subtle_laws D" "length bs = 32"
    and "\<And>e bs' w'. length bs' = 32 \<Longrightarrow> leaves (k (Err e) bs' w') Q"
    and "\<And>r w'. r \<noteq> scalar_zero D \<Longrightarrow> input \<noteq> [] \<Longrightarrow> password_point D input \<noteq> point_identity D \<Longrightarrow>
      leaves (k (Ok (point_compress D (point_mul D r (password_point D input)))) (scalar_bytes D r) w') Q"
  shows "leaves (case blind D input bs w of (x, bs', w') \<Rightarrow> k x bs' w') Q"
proof -
  obtain x w1 where x: "random_nonzero_scalar D w = (x, w1)" by fastforce
  show ?thesis
  proof (cases rule: random_nonzero_scalar_cases [OF assms(1,2) x])
    case 1
    with assms x show ?thesis by (simp add: blind_def)
  next
    case (2 s)
    then have "scalar_mult D (scalar_bytes D s) (point_compress D (password_point D input)) = Err CryptoError"
      if "password_point D input = point_identity D"
      using that assms(1,2) scalar_mult_errors scalar_mult_no_panic scalar_mult_Ok_iff [OF assms(1,2)]
      by (metis point_compress_inject result.exhaust)
    with 2 assms x show ?thesis
      by (cases "password_point D input = point_identity D")
        (simp_all add: blind_def oprf_hash_to_group_Ok)
  qed
qed

lemma blind_succeeds:
  assumes "group_laws D" "subtle_laws D" "nonzero_tape D (w_rng w)" "input \<noteq> []"
    and "password_point D input \<noteq> point_identity D"
  obtains blinded bs' where "blind D input bs w = (Ok blinded, bs', snd (fill_bytes 64 w))"
proof -
  obtain s where "s \<noteq> scalar_zero D" "random_nonzero_scalar D w = (Ok (scalar_bytes D s), snd (fill_bytes 64 w))"
    using random_nonzero_scalar_tape [OF assms(1-3)] .
  with assms that show thesis by (simp add: blind_def oprf_hash_to_group_Ok)
qed

section \<open>Properties\<close>

text \<open>
  The oblivious evaluation is correct. Whatever scalar the client draws to blind its
  password, if blinding succeeds then the in-memory evaluator answers, and finalization
  returns the function value of the account's own key, in which the blind does not occur.
\<close>

lemma oprf_blinding_correct:
  assumes "mem_usable D e account_id" "blind D password buf w = (Ok blinded, scalar, w')"
  shows "\<exists>evaluated. mem_evaluate_oprf D e blinded account_id = Ok evaluated \<and>
     finalize D password scalar evaluated = Ok (oprf_value D (mem_account_key D e account_id) password)"
  by (rule mem_oprf.oprf_correct [OF assms])

end
