(* ===== verification/Pq_Kem.thy ===== *)
theory Pq_Kem
  imports Crypto
begin

text \<open>
  Model of \<^verbatim>\<open>opaque-core/src/pq_kem.rs\<close>: the length-checked wrapper around ML-KEM-768 and the
  combiner that binds the classical and the post-quantum secret to the transcript.
\<close>

definition keypair_generate ::
  "('s, 'p, 'ek, 'dk) deps \<Rightarrow> bytes \<Rightarrow> bytes \<Rightarrow> world \<Rightarrow> (bytes \<times> bytes) OpaqueResult \<times> world" where
  "keypair_generate D public_key secret_key w =
     (if length public_key \<noteq> KEM_PUBLIC_KEY_LENGTH \<or> length secret_key \<noteq> KEM_SECRET_KEY_LENGTH
      then (Err InvalidKemInput, w)
      else let ((dk, ek), rng) = kem_generate D (w_rng w); w = w\<lparr>w_rng := rng\<rparr> in
        qmark (copy_into public_key 0 (length public_key) (ek_to_bytes D ek)) w (\<lambda>public_key.
        qmark (copy_into secret_key 0 (length secret_key) (dk_to_expanded D dk)) w (\<lambda>secret_key.
        (Ok (public_key, secret_key), w))))"

definition encapsulate ::
  "('s, 'p, 'ek, 'dk) deps \<Rightarrow> bytes \<Rightarrow> bytes \<Rightarrow> bytes \<Rightarrow> world \<Rightarrow> (bytes \<times> bytes) OpaqueResult \<times> world" where
  "encapsulate D public_key ciphertext shared_secret w =
     (if length public_key \<noteq> KEM_PUBLIC_KEY_LENGTH \<or> length ciphertext \<noteq> KEM_CIPHERTEXT_LENGTH
         \<or> length shared_secret \<noteq> KEM_SHARED_SECRET_LENGTH
      then (Err InvalidKemInput, w)
      else qmark (try_into KEM_PUBLIC_KEY_LENGTH public_key InvalidKemInput) w (\<lambda>ek_array.
        qmark (ok_or (ek_new D ek_array) InvalidKemInput) w (\<lambda>ek.
        if ek_to_bytes D ek \<noteq> ek_array then (Err InvalidKemInput, w)
        else let ((ct, ss), rng) = kem_encapsulate D ek (w_rng w); w = w\<lparr>w_rng := rng\<rparr> in
          qmark (copy_into ciphertext 0 (length ciphertext) ct) w (\<lambda>ciphertext.
          qmark (copy_into shared_secret 0 (length shared_secret) ss) w (\<lambda>shared_secret.
          (Ok (ciphertext, shared_secret), w))))))"

definition decapsulate :: "('s, 'p, 'ek, 'dk) deps \<Rightarrow> bytes \<Rightarrow> bytes \<Rightarrow> bytes \<Rightarrow> bytes OpaqueResult" where
  "decapsulate D secret_key ciphertext shared_secret =
     (if length secret_key \<noteq> KEM_SECRET_KEY_LENGTH \<or> length ciphertext \<noteq> KEM_CIPHERTEXT_LENGTH
         \<or> length shared_secret \<noteq> KEM_SHARED_SECRET_LENGTH
      then Err InvalidKemInput
      else and_then (try_into KEM_SECRET_KEY_LENGTH secret_key InvalidKemInput) (\<lambda>dk_array.
        and_then (try_into KEM_CIPHERTEXT_LENGTH ciphertext InvalidKemInput) (\<lambda>ct.
        and_then (ok_or (dk_from_expanded D dk_array) InvalidKemInput) (\<lambda>dk.
        if dk_to_expanded D dk \<noteq> dk_array then Err InvalidKemInput
        else copy_into shared_secret 0 (length shared_secret) (kem_decapsulate D dk ct)))))"

definition combine_key_material ::
  "('s, 'p, 'ek, 'dk) deps \<Rightarrow> bytes \<Rightarrow> bytes \<Rightarrow> bytes \<Rightarrow> bytes OpaqueResult" where
  "combine_key_material D classical_ikm pq_shared_secret transcript_hash =
     (if length classical_ikm \<noteq> CLASSICAL_IKM_LENGTH
         \<or> length pq_shared_secret \<noteq> KEM_SHARED_SECRET_LENGTH
         \<or> length transcript_hash \<noteq> HASH_LENGTH
      then Err InvalidInput
      else and_then (copy_into (zeros COMBINED_IKM_LENGTH) 0 CLASSICAL_IKM_LENGTH classical_ikm) (\<lambda>ikm.
        and_then (copy_into ikm CLASSICAL_IKM_LENGTH COMBINED_IKM_LENGTH pq_shared_secret) (\<lambda>ikm.
        let label_len = length PQ_COMBINER_CONTEXT in
        and_then (copy_into (zeros (label_len + HASH_LENGTH)) 0 label_len PQ_COMBINER_CONTEXT) (\<lambda>lt.
        and_then (copy_into lt label_len (label_len + HASH_LENGTH) transcript_hash) (\<lambda>lt.
        key_derivation_extract D lt ikm)))))"

section \<open>Behaviour\<close>

lemma keypair_generate_Ok:
  assumes "kem_laws D" "length pk = 1184" "length sk = 2400"
    and "kem_generate D (w_rng w) = ((dk, ek), rng)"
  shows "keypair_generate D pk sk w = (Ok (ek_to_bytes D ek, dk_to_expanded D dk), w\<lparr>w_rng := rng\<rparr>)"
  using assms by (simp add: keypair_generate_def copy_into_whole)

lemma keypair_generate_no_panic [no_panic]:
  "kem_laws D \<Longrightarrow> fst (keypair_generate D pk sk w) \<noteq> Panic"
  by (auto simp: keypair_generate_def copy_into_whole split: prod.split)

lemma leaves_keypair:
  assumes "kem_laws D" "length pk = 1184" "length sk = 2400"
    and "\<And>ek dk rng. kem_generate D (w_rng w) = ((dk, ek), rng) \<Longrightarrow>
      leaves (k (Ok (ek_to_bytes D ek, dk_to_expanded D dk)) (w\<lparr>w_rng := rng\<rparr>)) Q"
  shows "leaves (case keypair_generate D pk sk w of (r, w') \<Rightarrow> k r w') Q"
proof -
  obtain dk ek rng where "kem_generate D (w_rng w) = ((dk, ek), rng)" by (metis surj_pair)
  with assms show ?thesis by (simp add: keypair_generate_Ok)
qed

lemma encapsulate_Ok:
  assumes "kem_laws D" "length ct0 = 1088" "length ss0 = 32"
    and "kem_encapsulate D ek (w_rng w) = ((ct, ss), rng)"
  shows "encapsulate D (ek_to_bytes D ek) ct0 ss0 w = (Ok (ct, ss), w\<lparr>w_rng := rng\<rparr>)"
  using assms kem_encapsulate_lengths [OF assms(1,4)]
  by (simp add: encapsulate_def copy_into_whole slice_simps)

lemma encapsulate_cases:
  assumes "kem_laws D" "encapsulate D pk ct0 ss0 w = (r, w')"
  shows "r = Err InvalidKemInput \<or> (\<exists>ct ss. r = Ok (ct, ss) \<and> length ct = 1088 \<and> length ss = 32)"
proof (cases "ek_new D pk")
  case None
  with assms(2) show ?thesis by (auto simp: encapsulate_def slice_simps split: if_splits)
next
  case (Some ek)
  obtain ct ss rng where e: "kem_encapsulate D ek (w_rng w) = ((ct, ss), rng)" by (metis surj_pair)
  have "length ct = 1088" "length ss = 32" using kem_encapsulate_lengths [OF assms(1) e] by auto
  with Some e assms(2) show ?thesis
    by (auto simp: encapsulate_def slice_simps copy_into_whole split: if_splits)
qed

lemma leaves_encapsulate:
  assumes laws: "kem_laws D" and bufs: "length ct0 = 1088" "length ss0 = 32"
    and err: "leaves (k (Err InvalidKemInput) w) Q"
    and ok: "\<And>ek ct ss rng. pk = ek_to_bytes D ek \<Longrightarrow> kem_encapsulate D ek (w_rng w) = ((ct, ss), rng) \<Longrightarrow>
      length ct = 1088 \<Longrightarrow> length ss = 32 \<Longrightarrow> leaves (k (Ok (ct, ss)) (w\<lparr>w_rng := rng\<rparr>)) Q"
  shows "leaves (case encapsulate D pk ct0 ss0 w of (r, w') \<Rightarrow> k r w') Q"
proof (cases "\<exists>ek. pk = ek_to_bytes D ek")
  case True
  then obtain ek where ek: "pk = ek_to_bytes D ek" ..
  obtain ct ss rng where e: "kem_encapsulate D ek (w_rng w) = ((ct, ss), rng)" by (metis surj_pair)
  with ek show ?thesis
    using ok [OF ek e kem_encapsulate_lengths [OF laws e]] by (simp add: encapsulate_Ok [OF laws bufs e])
next
  case False
  then have "encapsulate D pk ct0 ss0 w = (Err InvalidKemInput, w)"
    using bufs by (cases "ek_new D pk") (auto simp: encapsulate_def slice_simps)
  with err show ?thesis by simp
qed

lemma decapsulate_Ok:
  assumes "kem_laws D" "length ct = 1088" "length ss0 = 32"
  shows "decapsulate D (dk_to_expanded D dk) ct ss0 = Ok (kem_decapsulate D dk ct)"
  using assms by (simp add: decapsulate_def copy_into_whole slice_simps)

lemma decapsulate_no_panic [no_panic]: "kem_laws D \<Longrightarrow> decapsulate D sk ct ss0 \<noteq> Panic"
  by (auto simp: decapsulate_def copy_into_def result_simps)

lemma decapsulate_length: "kem_laws D \<Longrightarrow> decapsulate D sk ct ss0 = Ok ss \<Longrightarrow> length ss = 32"
  by (auto simp: decapsulate_def copy_into_def result_simps split: if_splits)

lemma combine_key_material_Ok:
  assumes "hash_laws D" "length ikm = 128" "length ss = 32" "length th = 64"
  shows "combine_key_material D ikm ss th = Ok (hmac_tag D (PQ_COMBINER_CONTEXT @ th) (ikm @ ss))"
proof -
  have "ikm \<noteq> []" using assms(2) by auto
  then show ?thesis
    using assms by (simp add: combine_key_material_def copy_into_def Let_def)
qed

lemma combine_key_material_no_panic [no_panic]:
  assumes "hash_laws D"
  shows "combine_key_material D ikm ss th \<noteq> Panic"
proof (cases "length ikm = 128 \<and> length ss = 32 \<and> length th = 64")
  case True
  with assms show ?thesis by (simp add: combine_key_material_Ok)
next
  case False
  then show ?thesis by (auto simp: combine_key_material_def)
qed

section \<open>Properties\<close>

text \<open>
  The length-checked wrapper keeps the KEM's correctness. A key pair and a ciphertext
  that its generation and encapsulation return pass every check of \<open>decapsulate\<close>, and the
  secret comes back wherever the underlying scheme decapsulates this ciphertext correctly.
\<close>

lemma kem_wrapper_round_trip:
  assumes "kem_laws D" "kem_generate D (w_rng w) = ((dk, ek), rng)"
    and "keypair_generate D pk0 sk0 w = (Ok (pk, sk), w1)"
    and "encapsulate D pk ct0 ss0 w2 = (Ok (ct, ss), w3)"
    and "kem_decapsulate D dk ct = ss" "length buf = KEM_SHARED_SECRET_LENGTH"
  shows "decapsulate D sk ct buf = Ok ss"
proof -
  have "length pk0 = 1184" "length sk0 = 2400" using assms(3) by (auto simp: keypair_generate_def split: if_splits)
  then have "sk = dk_to_expanded D dk" using assms(3) keypair_generate_Ok [OF assms(1) _ _ assms(2)] by simp
  moreover have "length ct = 1088" using encapsulate_cases [OF assms(1,4)] by auto
  ultimately show ?thesis using assms by (simp add: decapsulate_Ok)
qed

text \<open>
  The combiner keys HMAC with its label and the transcript hash and feeds it the whole
  classical secret followed by the whole post-quantum secret; any other width is rejected.
\<close>

lemma combiner_binds_both_secrets:
  assumes "hash_laws D"
  shows "combine_key_material D ikm ss th =
     (if length ikm = 128 \<and> length ss = 32 \<and> length th = 64
      then Ok (hmac_tag D (PQ_COMBINER_CONTEXT @ th) (ikm @ ss)) else Err InvalidInput)"
  using combine_key_material_Ok [OF assms] by (auto simp: combine_key_material_def)

end
