(* ===== verification/Envelopes.thy ===== *)
theory Envelopes
  imports Crypto
begin

text \<open>
  Model of \<^verbatim>\<open>opaque-core/src/envelope.rs\<close>: the client's key pair and the server's public key,
  sealed under a key derived from the randomized password and the server's public key.
\<close>

definition derive_envelope_key :: "('s, 'p, 'ek, 'dk) deps \<Rightarrow> bytes \<Rightarrow> bytes \<Rightarrow> bytes OpaqueResult" where
  "derive_envelope_key D responder_public_key randomized_pwd =
     (let salt = ENVELOPE_CONTEXT @ responder_public_key in
      and_then (key_derivation_extract D salt randomized_pwd) (\<lambda>prk.
      key_derivation_expand D prk ENVELOPE_CONTEXT SECRETBOX_KEY_LENGTH))"

definition PLAINTEXT_LEN :: nat where
  [simp]: "PLAINTEXT_LEN = PUBLIC_KEY_LENGTH + PRIVATE_KEY_LENGTH + PUBLIC_KEY_LENGTH"

text \<open>\<open>seal\<close> fills the caller's envelope step by step; a failed call leaves it as far as it got.\<close>

definition seal ::
  "('s, 'p, 'ek, 'dk) deps \<Rightarrow> bytes \<Rightarrow> bytes \<Rightarrow> bytes \<Rightarrow> bytes \<Rightarrow> Envelope \<Rightarrow> world
     \<Rightarrow> unit OpaqueResult \<times> Envelope \<times> world" where
  "seal D randomized_pwd responder_public_key initiator_private_key initiator_public_key envelope w =
     (if randomized_pwd = [] then (Err InvalidInput, envelope, w)
      else if length (env_nonce envelope) \<noteq> NONCE_LENGTH then (Err InvalidEnvelope, envelope, w)
      else let (r, w) = random_bytes (length (env_nonce envelope)) w in
        qmark r (envelope, w) (\<lambda>n.
        let envelope = envelope\<lparr>env_nonce := n\<rparr> in
        qmark (derive_envelope_key D responder_public_key randomized_pwd) (envelope, w) (\<lambda>auth_key.
        let plaintext = responder_public_key @ initiator_private_key @ initiator_public_key;
            envelope = envelope\<lparr>env_ciphertext := vec_resize (env_ciphertext envelope) PLAINTEXT_LEN,
              env_auth_tag := vec_resize (env_auth_tag envelope) SECRETBOX_MAC_LENGTH\<rparr> in
        qmark (try_into NONCE_LENGTH (env_nonce envelope) InvalidEnvelope) (envelope, w) (\<lambda>nonce.
        qmark (try_into SECRETBOX_MAC_LENGTH (env_auth_tag envelope) InvalidEnvelope) (envelope, w) (\<lambda>_.
        qmark (encrypt_envelope D auth_key plaintext nonce (env_ciphertext envelope)) (envelope, w)
          (\<lambda>(ct, tag). (Ok (), envelope\<lparr>env_ciphertext := ct, env_auth_tag := tag\<rparr>, w)))))))"

text \<open>
  Returns the responder's public key and the initiator's private and public key. The code
  clears these three outputs before it returns an error after decryption; a caller sees the
  error only.
\<close>

definition open_raw ::
  "('s, 'p, 'ek, 'dk) deps \<Rightarrow> bytes \<Rightarrow> bytes \<Rightarrow> bytes \<Rightarrow> bytes \<Rightarrow> bytes
     \<Rightarrow> (bytes \<times> bytes \<times> bytes) OpaqueResult" where
  "open_raw D nonce ciphertext auth_tag randomized_pwd known_responder_public_key =
     (if randomized_pwd = [] then Err InvalidInput
      else if length nonce \<noteq> NONCE_LENGTH \<or> length ciphertext \<noteq> PLAINTEXT_LEN
         \<or> length auth_tag \<noteq> SECRETBOX_MAC_LENGTH then Err InvalidEnvelope
      else and_then (derive_envelope_key D known_responder_public_key randomized_pwd) (\<lambda>auth_key.
        and_then (try_into NONCE_LENGTH nonce InvalidEnvelope) (\<lambda>nonce.
        and_then (try_into SECRETBOX_MAC_LENGTH auth_tag InvalidEnvelope) (\<lambda>tag.
        and_then (decrypt_envelope D auth_key ciphertext nonce tag (zeros PLAINTEXT_LEN)) (\<lambda>plaintext.
        and_then (subslice plaintext 0 PUBLIC_KEY_LENGTH) (\<lambda>responder_public_key.
        and_then (subslice plaintext PUBLIC_KEY_LENGTH (PUBLIC_KEY_LENGTH + PRIVATE_KEY_LENGTH))
          (\<lambda>initiator_private_key.
        and_then (slice_from plaintext (PUBLIC_KEY_LENGTH + PRIVATE_KEY_LENGTH)) (\<lambda>initiator_public_key.
        and_then (scalarmult_base D initiator_private_key) (\<lambda>derived_pk.
        if \<not> constant_time_eq D initiator_public_key derived_pk then Err AuthenticationError
        else Ok (responder_public_key, initiator_private_key, initiator_public_key))))))))))"

definition open_envelope ::
  "('s, 'p, 'ek, 'dk) deps \<Rightarrow> Envelope \<Rightarrow> bytes \<Rightarrow> bytes \<Rightarrow> (bytes \<times> bytes \<times> bytes) OpaqueResult" where
  "open_envelope D envelope randomized_pwd known_responder_public_key =
     open_raw D (env_nonce envelope) (env_ciphertext envelope) (env_auth_tag envelope)
       randomized_pwd known_responder_public_key"

section \<open>Opening what was sealed\<close>

definition envelope_key :: "('s, 'p, 'ek, 'dk) deps \<Rightarrow> bytes \<Rightarrow> bytes \<Rightarrow> bytes" where
  "envelope_key D rpk rwd = hkdf_expand D (hmac_tag D (ENVELOPE_CONTEXT @ rpk) rwd) ENVELOPE_CONTEXT 32"

lemma derive_envelope_key_Ok:
  "hash_laws D \<Longrightarrow> rwd \<noteq> [] \<Longrightarrow> derive_envelope_key D rpk rwd = Ok (envelope_key D rpk rwd)"
  by (simp add: derive_envelope_key_def envelope_key_def key_derivation_expand_Ok)

lemma length_envelope_key [simp]: "hash_laws D \<Longrightarrow> length (envelope_key D rpk rwd) = 32"
  by (simp add: envelope_key_def)

text \<open>
  \<open>sealed_keys\<close>: the three parts of an envelope, in the order of the record, that open
  under the password and the server's key to exactly these keys.
\<close>

definition sealed_keys ::
  "('s, 'p, 'ek, 'dk) deps \<Rightarrow> bytes \<Rightarrow> bytes \<Rightarrow> bytes \<Rightarrow> bytes \<Rightarrow> bytes \<Rightarrow> bool" where
  "sealed_keys D rwd rpk isk ipk e \<longleftrightarrow> length e = 136 \<and>
     open_raw D (take 24 e) (take 96 (drop 24 e)) (drop 120 e) rwd rpk = Ok (rpk, isk, ipk)"

text \<open>Sealing succeeds and consumes 24 random bytes.\<close>

lemma seal_Ok:
  assumes laws: "hash_laws D" "secretbox_laws D" and rwd: "rwd \<noteq> []"
    and lens: "length rpk = 32" "length isk = 32" "length ipk = 32" "length (env_nonce env) = 24"
  obtains env' where "seal D rwd rpk isk ipk env w = (Ok (), env', snd (fill_bytes 24 w))"
    "length (env_nonce env') = 24" "length (env_ciphertext env') = 96" "length (env_auth_tag env') = 16"
    "decrypt_envelope D (envelope_key D rpk rwd) (env_ciphertext env') (env_nonce env') (env_auth_tag env')
       (zeros 96) = Ok (rpk @ isk @ ipk)"
proof -
  let ?k = "envelope_key D rpk rwd" and ?n = "fst (fill_bytes 24 w)" and ?pt = "rpk @ isk @ ipk"
  obtain ct tag where ct: "encrypt_envelope D ?k ?pt ?n (vec_resize (env_ciphertext env) 96) = Ok (ct, tag)"
    "length ct = length ?pt" "length tag = 16"
    "\<And>out. length out = length ?pt \<Longrightarrow> decrypt_envelope D ?k ct ?n tag out = Ok ?pt"
    by (rule encrypt_decrypt_envelope [OF laws(2), of ?k ?n ?pt "vec_resize (env_ciphertext env) 96"])
      (use laws lens in auto)
  let ?env = "\<lparr>env_nonce = ?n, env_ciphertext = ct, env_auth_tag = tag\<rparr>"
  have "seal D rwd rpk isk ipk env w = (Ok (), ?env, snd (fill_bytes 24 w))"
    using rwd lens laws ct(1) by (simp add: seal_def derive_envelope_key_Ok slice_simps)
  then show thesis using that [of ?env] ct lens by simp
qed

lemma open_sealed:
  assumes laws: "hash_laws D" "group_laws D" "subtle_laws D" and rwd: "rwd \<noteq> []"
    and s: "s \<noteq> scalar_zero D" "isk = scalar_bytes D s" "ipk = point_compress D (base_mul D s)"
    and env: "length rpk = 32" "length n = 24" "length ct = 96" "length tag = 16"
      "decrypt_envelope D (envelope_key D rpk rwd) ct n tag (zeros 96) = Ok (rpk @ isk @ ipk)"
  shows "open_raw D n ct tag rwd rpk = Ok (rpk, isk, ipk)"
  using assms by (simp add: open_raw_def derive_envelope_key_Ok slice_simps)

text \<open>What is sealed opens under the same password and server key to the same keys.\<close>

lemma seal_then_open:
  assumes laws: "hash_laws D" "secretbox_laws D" "group_laws D" "subtle_laws D"
    and rwd: "rwd \<noteq> []" and rpk: "length rpk = 32"
    and s: "s \<noteq> scalar_zero D" "isk = scalar_bytes D s" "ipk = point_compress D (base_mul D s)"
    and env: "length (env_nonce env) = 24"
  obtains env' where "seal D rwd rpk isk ipk env w = (Ok (), env', snd (fill_bytes 24 w))"
    "open_envelope D env' rwd rpk = Ok (rpk, isk, ipk)"
    "sealed_keys D rwd rpk isk ipk (env_nonce env' @ env_ciphertext env' @ env_auth_tag env')"
proof -
  have lens: "length isk = 32" "length ipk = 32" using laws s by simp_all
  obtain env' where e: "seal D rwd rpk isk ipk env w = (Ok (), env', snd (fill_bytes 24 w))"
    "length (env_nonce env') = 24" "length (env_ciphertext env') = 96" "length (env_auth_tag env') = 16"
    "decrypt_envelope D (envelope_key D rpk rwd) (env_ciphertext env') (env_nonce env') (env_auth_tag env')
       (zeros 96) = Ok (rpk @ isk @ ipk)"
    using seal_Ok [OF laws(1,2) rwd rpk lens env] .
  note o = open_sealed [OF laws(1,3,4) rwd s rpk e(2-)]
  show thesis by (rule that [OF e(1)]) (use o e in \<open>simp_all add: open_envelope_def sealed_keys_def\<close>)
qed

lemma decrypt_envelope_length:
  "decrypt_envelope D key ct nonce tag out = Ok pt \<Longrightarrow> length pt = length out"
  by (auto simp: decrypt_envelope_def Let_def result_simps copy_into_length split: if_splits)

lemma open_raw_no_panic [no_panic]:
  assumes "hash_laws D"
  shows "open_raw D n c t rwd rpk \<noteq> Panic"
proof (cases "rwd = [] \<or> length n \<noteq> 24 \<or> length c \<noteq> 96 \<or> length t \<noteq> 16")
  case True
  then show ?thesis by (auto simp: open_raw_def)
next
  case False
  have "length pt = 96" if "decrypt_envelope D k c n t (zeros 96) = Ok pt" for k pt
    using decrypt_envelope_length [OF that] by simp
  with False assms show ?thesis
    by (auto simp: open_raw_def derive_envelope_key_Ok slice_simps result_simps no_panic)
qed

lemma open_raw_Ok:
  assumes "group_laws D" "subtle_laws D" "open_raw D n c t rwd rpk = Ok (rpk', isk, ipk)"
  obtains s where "s \<noteq> scalar_zero D" "isk = scalar_bytes D s" "ipk = point_compress D (base_mul D s)"
    "length rpk' = 32" "rwd \<noteq> []"
  using assms(3) that decrypt_envelope_length
  by (auto simp: open_raw_def result_simps scalarmult_base_Ok_iff [OF assms(1)] assms slice_simps
      dest!: decrypt_envelope_length split: if_splits)

section \<open>Properties\<close>

text \<open>
  C34: sealing a client key pair always succeeds on inputs of the right width, and the
  envelope opens under the same password and server key to exactly what was sealed.
\<close>

theorem envelope_round_trip:
  assumes "hash_laws D" "secretbox_laws D" "group_laws D" "subtle_laws D"
    and "rwd \<noteq> []" "length rpk = PUBLIC_KEY_LENGTH" "scalarmult_base D isk = Ok ipk"
  shows "\<exists>env w'. seal D rwd rpk isk ipk Envelope_new w = (Ok (), env, w') \<and>
     open_envelope D env rwd rpk = Ok (rpk, isk, ipk)"
proof -
  obtain s where s: "s \<noteq> scalar_zero D" "isk = scalar_bytes D s" "ipk = point_compress D (base_mul D s)"
    using assms(7) by (auto simp: scalarmult_base_Ok_iff [OF assms(3)])
  have n: "length (env_nonce Envelope_new) = 24" by (simp add: Envelope_new_def)
  have r: "length rpk = 32" using assms(6) by simp
  show ?thesis using seal_then_open [OF assms(1-5) r s n, of w] by metis
qed

theorem envelope_round_trip_witness:
  "\<exists>env w'. seal sample [1] (z3_encode Z2) (z3_encode Z1) (z3_encode Z1) Envelope_new sample_world = (Ok (), env, w') \<and>
     open_envelope sample env [1] (z3_encode Z2) = Ok (z3_encode Z2, z3_encode Z1, z3_encode Z1)"
proof -
  have "scalarmult_base sample (z3_encode Z1) = Ok (z3_encode Z1)" using scalarmult_base_compress [of sample Z1] by simp
  then show ?thesis
    using envelope_round_trip [of sample "[1]" "z3_encode Z2" "z3_encode Z1" "z3_encode Z1" sample_world]
    by (simp add: z3_encode_laws)
qed

text \<open>
  An envelope that opens yields a consistent key pair: the recovered private key is a
  canonical non-zero scalar and the recovered public key is its multiple of the base point.
\<close>

lemma opened_keys_match:
  assumes "group_laws D" "subtle_laws D" "open_envelope D env rwd rpk = Ok (rpk', isk, ipk)"
  shows "scalarmult_base D isk = Ok ipk \<and> length rpk' = PUBLIC_KEY_LENGTH \<and> length isk = PRIVATE_KEY_LENGTH"
  using open_raw_Ok [OF assms(1,2) assms(3) [unfolded open_envelope_def]] assms(1) by (metis
      scalarmult_base_compress scalar_simps(1) PUBLIC_KEY_LENGTH_def PRIVATE_KEY_LENGTH_def)

end
