(* ===== verification/Key_Schedule.thy ===== *)
theory Key_Schedule
  imports Oprf Pq_Kem Envelopes
begin

text \<open>
  The key schedule that \<^verbatim>\<open>opaque-agent/src/authentication.rs\<close> and
  \<^verbatim>\<open>opaque-relay/src/authentication.rs\<close> both contain: the transcript buffer with its
  \<open>append\<close> closure and the four Diffie-Hellman results packed into one string. The second
  half states as specifications what both sides derive from them.
\<close>

definition TRANSCRIPT_INPUT_LENGTH :: nat where
  [simp]: "TRANSCRIPT_INPUT_LENGTH = 2 * NONCE_LENGTH + DH_COMPONENT_COUNT * PUBLIC_KEY_LENGTH
     + CREDENTIAL_RESPONSE_LENGTH + KEM_CIPHERTEXT_LENGTH + KEM_PUBLIC_KEY_LENGTH + HASH_LENGTH"

text \<open>Successive calls of the closure \<open>append\<close>, which owns the buffer and its offset.\<close>

primrec append_all :: "bytes \<Rightarrow> nat \<Rightarrow> bytes list \<Rightarrow> (bytes \<times> nat) OpaqueResult" where
  "append_all mac_input off [] = Ok (mac_input, off)"
| "append_all mac_input off (data # rest) =
     and_then (copy_into mac_input off (off + length data) data) (\<lambda>mac_input.
     append_all mac_input (off + length data) rest)"

definition fill_classical_ikm :: "bytes \<Rightarrow> bytes \<Rightarrow> bytes \<Rightarrow> bytes \<Rightarrow> bytes OpaqueResult" where
  "fill_classical_ikm dh1 dh2 dh3 dh4 =
     (let ikm = zeros CLASSICAL_IKM_LENGTH in
      and_then (copy_into ikm 0 PUBLIC_KEY_LENGTH dh1) (\<lambda>ikm.
      and_then (copy_into ikm PUBLIC_KEY_LENGTH (2 * PUBLIC_KEY_LENGTH) dh2) (\<lambda>ikm.
      and_then (copy_into ikm (2 * PUBLIC_KEY_LENGTH) (3 * PUBLIC_KEY_LENGTH) dh3) (\<lambda>ikm.
      copy_into ikm (3 * PUBLIC_KEY_LENGTH) (length ikm) dh4))))"

section \<open>What the buffers hold\<close>

lemma append_all_Ok:
  assumes "length pre = off" "length (concat parts) \<le> n"
  shows "append_all (pre @ zeros n) off parts =
     Ok (pre @ concat parts @ zeros (n - length (concat parts)), off + length (concat parts))"
  using assms
proof (induction parts arbitrary: pre off n)
  case (Cons x parts)
  have "copy_into (pre @ zeros n) off (off + length x) x = (Ok ((pre @ x) @ zeros (n - length x)) :: bytes OpaqueResult)"
    using Cons.prems by (subst copy_into_append) (simp_all add: zeros_def)
  then show ?case using Cons.prems Cons.IH [of "pre @ x" "off + length x" "n - length x"]
    by (simp add: algebra_simps)
qed simp

lemma append_all_zeros:
  assumes "length (concat parts) = n"
  shows "append_all (zeros n) 0 parts = Ok (concat parts, n)"
  using append_all_Ok [of "[]" 0 parts n] assms by (simp add: zeros_def)

lemma fill_classical_ikm_Ok:
  "length dh1 = 32 \<Longrightarrow> length dh2 = 32 \<Longrightarrow> length dh3 = 32 \<Longrightarrow> length dh4 = 32 \<Longrightarrow>
     fill_classical_ikm dh1 dh2 dh3 dh4 = Ok (dh1 @ dh2 @ dh3 @ dh4)"
  by (simp add: fill_classical_ikm_def copy_into_def Let_def)

section \<open>Specification of the derived keys\<close>

text \<open>
  The transcript lists both ephemeral keys, both nonces, both long-term keys, the credential
  response, the KEM key and ciphertext, and the account's context hash.
\<close>

definition transcript ::
  "bytes \<Rightarrow> bytes \<Rightarrow> bytes \<Rightarrow> bytes \<Rightarrow> bytes \<Rightarrow> bytes \<Rightarrow> bytes \<Rightarrow> bytes \<Rightarrow> bytes \<Rightarrow> bytes \<Rightarrow> bytes" where
  "transcript ieph reph inonce rnonce ipk rpk cr kem_pk kem_ct ctx =
     concat [ieph, reph, inonce, rnonce, ipk, rpk, cr, kem_pk, kem_ct, ctx]"

text \<open>Every field has the width the buffer is sized for.\<close>

definition transcript_sized ::
  "bytes \<Rightarrow> bytes \<Rightarrow> bytes \<Rightarrow> bytes \<Rightarrow> bytes \<Rightarrow> bytes \<Rightarrow> bytes \<Rightarrow> bytes \<Rightarrow> bytes \<Rightarrow> bytes \<Rightarrow> bool" where
  "transcript_sized ieph reph inonce rnonce ipk rpk cr kem_pk kem_ct ctx \<longleftrightarrow>
     length ieph = 32 \<and> length reph = 32 \<and> length inonce = 24 \<and> length rnonce = 24 \<and>
     length ipk = 32 \<and> length rpk = 32 \<and> length cr = 168 \<and> length kem_pk = 1184 \<and>
     length kem_ct = 1088 \<and> length ctx = 64"

lemma append_transcript:
  assumes "transcript_sized ieph reph inonce rnonce ipk rpk cr kem_pk kem_ct ctx"
  shows "append_all (zeros TRANSCRIPT_INPUT_LENGTH) 0
       [ieph, reph, inonce, rnonce, ipk, rpk, cr, kem_pk, kem_ct, ctx] =
     Ok (transcript ieph reph inonce rnonce ipk rpk cr kem_pk kem_ct ctx, 2680)"
    and "length (transcript ieph reph inonce rnonce ipk rpk cr kem_pk kem_ct ctx) = 2680"
    and "transcript ieph reph inonce rnonce ipk rpk cr kem_pk kem_ct ctx \<noteq> []"
proof -
  let ?t = "transcript ieph reph inonce rnonce ipk rpk cr kem_pk kem_ct ctx"
  show len: "length ?t = 2680" using assms by (simp add: transcript_def transcript_sized_def)
  then show "?t \<noteq> []" by auto
  show "append_all (zeros TRANSCRIPT_INPUT_LENGTH) 0
       [ieph, reph, inonce, rnonce, ipk, rpk, cr, kem_pk, kem_ct, ctx] = Ok (?t, 2680)"
    using append_all_zeros [OF len [unfolded transcript_def]] by (simp add: transcript_def del: append_all.simps)
qed

declare append_all.simps [simp del]

definition schedule_prk :: "('s, 'p, 'ek, 'dk) deps \<Rightarrow> bytes \<Rightarrow> bytes \<Rightarrow> bytes \<Rightarrow> bytes" where
  "schedule_prk D ikm kem_ss tr =
     hmac_tag D (PQ_COMBINER_CONTEXT @ sha512_multi D [TRANSCRIPT_CONTEXT, tr]) (ikm @ kem_ss)"

definition session_key_of :: "('s, 'p, 'ek, 'dk) deps \<Rightarrow> bytes \<Rightarrow> bytes" where
  "session_key_of D prk = hkdf_expand D prk PQ_SESSION_KEY_INFO 64"

definition responder_mac_of :: "('s, 'p, 'ek, 'dk) deps \<Rightarrow> bytes \<Rightarrow> bytes \<Rightarrow> bytes" where
  "responder_mac_of D prk tr = hmac_tag D (hkdf_expand D prk PQ_RESPONDER_MAC_INFO 64) tr"

definition initiator_mac_of :: "('s, 'p, 'ek, 'dk) deps \<Rightarrow> bytes \<Rightarrow> bytes \<Rightarrow> bytes" where
  "initiator_mac_of D prk tr = hmac_tag D (hkdf_expand D prk PQ_INITIATOR_MAC_INFO 64) tr"

definition account_context :: "('s, 'p, 'ek, 'dk) deps \<Rightarrow> bytes \<Rightarrow> bytes" where
  "account_context D account_id = sha512_multi D [ACCOUNT_CONTEXT_BINDING, account_id]"

definition client_export_key_of :: "('s, 'p, 'ek, 'dk) deps \<Rightarrow> bytes \<Rightarrow> bytes \<Rightarrow> bytes" where
  "client_export_key_of D rwd ctx = hkdf_expand D (hmac_tag D ctx rwd) CLIENT_EXPORT_KEY_INFO 32"

lemma schedule_lengths [simp]:
  assumes "hash_laws D"
  shows "length (schedule_prk D ikm ss tr) = 64" "length (session_key_of D prk) = 64"
    "length (responder_mac_of D prk tr) = 64" "length (initiator_mac_of D prk tr) = 64"
    "length (account_context D a) = 64" "length (client_export_key_of D rwd ctx) = 32"
    "length (sha512_multi D ps) = 64"
  using assms
  by (simp_all add: schedule_prk_def session_key_of_def responder_mac_of_def initiator_mac_of_def
      account_context_def client_export_key_of_def sha512_multi_def)

lemma combine_schedule:
  "hash_laws D \<Longrightarrow> length ikm = 128 \<Longrightarrow> length ss = 32 \<Longrightarrow>
     combine_key_material D ikm ss (sha512_multi D [TRANSCRIPT_CONTEXT, tr]) = Ok (schedule_prk D ikm ss tr)"
  by (simp add: combine_key_material_Ok schedule_prk_def)

lemma schedule_expand:
  assumes "hash_laws D"
  shows "key_derivation_expand D (schedule_prk D ikm ss tr) info 64 = Ok (hkdf_expand D (schedule_prk D ikm ss tr) info 64)"
proof -
  have "schedule_prk D ikm ss tr \<noteq> []" using assms by (simp add: schedule_prk_def)
  then show ?thesis using assms by (simp add: key_derivation_expand_Ok)
qed

lemma schedule_mac:
  assumes "hash_laws D" "tr \<noteq> []"
  shows "hmac_sha512 D (hkdf_expand D prk info 64) tr = Ok (hmac_tag D (hkdf_expand D prk info 64) tr)"
  using assms by simp

section \<open>Properties\<close>

lemma transcript_inject:
  assumes "transcript_sized a1 a2 a3 a4 a5 a6 a7 a8 a9 a10" "transcript_sized b1 b2 b3 b4 b5 b6 b7 b8 b9 b10"
  shows "transcript a1 a2 a3 a4 a5 a6 a7 a8 a9 a10 = transcript b1 b2 b3 b4 b5 b6 b7 b8 b9 b10 \<longleftrightarrow>
     [a1, a2, a3, a4, a5, a6, a7, a8, a9, a10] = [b1, b2, b3, b4, b5, b6, b7, b8, b9, b10]"
  using assms by (simp add: transcript_def transcript_sized_def)

text \<open>
  The transcript buffer binds every field. Filling it with ten fields of their fixed
  widths uses its 2680 bytes exactly, and two fillings give the same bytes only if all ten
  fields agree: no field can be shifted into another.
\<close>

lemma transcript_binds_fields:
  assumes "transcript_sized a1 a2 a3 a4 a5 a6 a7 a8 a9 a10" "transcript_sized b1 b2 b3 b4 b5 b6 b7 b8 b9 b10"
    and "append_all (zeros TRANSCRIPT_INPUT_LENGTH) 0 [a1, a2, a3, a4, a5, a6, a7, a8, a9, a10] = Ok (t, off)"
    and "append_all (zeros TRANSCRIPT_INPUT_LENGTH) 0 [b1, b2, b3, b4, b5, b6, b7, b8, b9, b10] = Ok (t, off')"
  shows "[a1, a2, a3, a4, a5, a6, a7, a8, a9, a10] = [b1, b2, b3, b4, b5, b6, b7, b8, b9, b10]
    \<and> off = TRANSCRIPT_INPUT_LENGTH \<and> length t = TRANSCRIPT_INPUT_LENGTH"
  using append_transcript [OF assms(1)] append_transcript [OF assms(2)] assms(3,4) transcript_inject [OF assms(1,2)]
  by simp

end
