(* ===== verification/Protocol.thy ===== *)
theory Protocol
  imports Opaque_Types
begin

text \<open>
  Model of \<^verbatim>\<open>opaque-core/src/protocol.rs\<close>: the six wire messages. Every message starts with a
  version byte and has fixed-width fields. The writers fill a caller's buffer and the
  parsers return views of a received one; both are modelled slice by slice, with the panics
  of an out-of-range slice. The locale \<open>wire_codec\<close> states what the rest of the program
  relies on, and each of the six codecs is an interpretation of it.
\<close>

section \<open>Offsets\<close>

definition REG_REQ_PAYLOAD_OFFSET :: nat where [simp]: "REG_REQ_PAYLOAD_OFFSET = VERSION_PREFIX_LENGTH"
definition REG_RESP_EVALUATED_OFFSET :: nat where
  [simp]: "REG_RESP_EVALUATED_OFFSET = VERSION_PREFIX_LENGTH"
definition REG_RESP_RESPONDER_KEY_OFFSET :: nat where
  [simp]: "REG_RESP_RESPONDER_KEY_OFFSET = VERSION_PREFIX_LENGTH + REGISTRATION_REQUEST_LENGTH"
definition REG_RECORD_MASKING_KEY_OFFSET :: nat where
  [simp]: "REG_RECORD_MASKING_KEY_OFFSET = VERSION_PREFIX_LENGTH"
definition REG_RECORD_ENVELOPE_OFFSET :: nat where
  [simp]: "REG_RECORD_ENVELOPE_OFFSET = VERSION_PREFIX_LENGTH + MASKING_KEY_LENGTH"
definition REG_RECORD_INITIATOR_KEY_OFFSET :: nat where
  [simp]: "REG_RECORD_INITIATOR_KEY_OFFSET = VERSION_PREFIX_LENGTH + REGISTRATION_CREDENTIAL_LENGTH"
definition KE1_CRED_REQ_OFFSET :: nat where [simp]: "KE1_CRED_REQ_OFFSET = VERSION_PREFIX_LENGTH"
definition KE1_INITIATOR_PK_OFFSET :: nat where
  [simp]: "KE1_INITIATOR_PK_OFFSET = VERSION_PREFIX_LENGTH + REGISTRATION_REQUEST_LENGTH"
definition KE1_INITIATOR_NONCE_OFFSET :: nat where
  [simp]: "KE1_INITIATOR_NONCE_OFFSET =
     VERSION_PREFIX_LENGTH + REGISTRATION_REQUEST_LENGTH + PUBLIC_KEY_LENGTH"
definition KE1_PQ_PK_OFFSET :: nat where
  [simp]: "KE1_PQ_PK_OFFSET = VERSION_PREFIX_LENGTH + KE1_BASE_LENGTH"
definition KE2_RESP_NONCE_OFFSET :: nat where [simp]: "KE2_RESP_NONCE_OFFSET = VERSION_PREFIX_LENGTH"
definition KE2_RESP_PK_OFFSET :: nat where
  [simp]: "KE2_RESP_PK_OFFSET = VERSION_PREFIX_LENGTH + NONCE_LENGTH"
definition KE2_CRED_RESP_OFFSET :: nat where
  [simp]: "KE2_CRED_RESP_OFFSET = VERSION_PREFIX_LENGTH + NONCE_LENGTH + PUBLIC_KEY_LENGTH"
definition KE2_RESP_MAC_OFFSET :: nat where
  [simp]: "KE2_RESP_MAC_OFFSET =
     VERSION_PREFIX_LENGTH + NONCE_LENGTH + PUBLIC_KEY_LENGTH + CREDENTIAL_RESPONSE_LENGTH"
definition KE2_KEM_CT_OFFSET :: nat where
  [simp]: "KE2_KEM_CT_OFFSET = VERSION_PREFIX_LENGTH + KE2_BASE_LENGTH"
definition KE3_MAC_OFFSET :: nat where [simp]: "KE3_MAC_OFFSET = VERSION_PREFIX_LENGTH"

section \<open>Message views\<close>

record RegistrationResponseRef =
  rr_evaluated_element :: bytes
  rr_responder_public_key :: bytes

record RegistrationRecordRef =
  rec_masking_key :: bytes
  rec_envelope :: bytes
  rec_initiator_public_key :: bytes

record Ke1Ref =
  k1_credential_request :: bytes
  k1_initiator_public_key :: bytes
  k1_initiator_nonce :: bytes
  k1_pq_ephemeral_public_key :: bytes

record Ke2Ref =
  k2_responder_nonce :: bytes
  k2_responder_public_key :: bytes
  k2_credential_response :: bytes
  k2_responder_mac :: bytes
  k2_kem_ciphertext :: bytes

record Ke3Ref =
  k3_initiator_mac :: bytes

section \<open>Parsers\<close>

definition check_version :: "bytes \<Rightarrow> unit OpaqueResult" where
  "check_version data =
     (case data of [] \<Rightarrow> Err InvalidProtocolMessage
      | b # _ \<Rightarrow> if b = PROTOCOL_VERSION_2 then Ok () else Err UnsupportedVersion)"

definition parse_registration_request :: "bytes \<Rightarrow> bytes OpaqueResult" where
  "parse_registration_request data =
     (if length data \<noteq> REGISTRATION_REQUEST_WIRE_LENGTH then Err InvalidProtocolMessage
      else and_then (check_version data) (\<lambda>_. slice_from data REG_REQ_PAYLOAD_OFFSET))"

definition parse_registration_response :: "bytes \<Rightarrow> RegistrationResponseRef OpaqueResult" where
  "parse_registration_response data =
     (if length data \<noteq> REGISTRATION_RESPONSE_WIRE_LENGTH then Err InvalidProtocolMessage
      else and_then (check_version data) (\<lambda>_.
        and_then (subslice data REG_RESP_EVALUATED_OFFSET REG_RESP_RESPONDER_KEY_OFFSET) (\<lambda>ev.
        and_then (slice_from data REG_RESP_RESPONDER_KEY_OFFSET) (\<lambda>pk.
        Ok \<lparr>rr_evaluated_element = ev, rr_responder_public_key = pk\<rparr>))))"

definition parse_registration_record :: "bytes \<Rightarrow> RegistrationRecordRef OpaqueResult" where
  "parse_registration_record data =
     (if length data \<noteq> REGISTRATION_RECORD_LENGTH then Err InvalidProtocolMessage
      else and_then (check_version data) (\<lambda>_.
        and_then (subslice data REG_RECORD_MASKING_KEY_OFFSET REG_RECORD_ENVELOPE_OFFSET) (\<lambda>mk.
        and_then (subslice data REG_RECORD_ENVELOPE_OFFSET REG_RECORD_INITIATOR_KEY_OFFSET) (\<lambda>env.
        and_then (slice_from data REG_RECORD_INITIATOR_KEY_OFFSET) (\<lambda>pk.
        Ok \<lparr>rec_masking_key = mk, rec_envelope = env, rec_initiator_public_key = pk\<rparr>)))))"

definition parse_ke1 :: "bytes \<Rightarrow> Ke1Ref OpaqueResult" where
  "parse_ke1 data =
     (if length data \<noteq> KE1_LENGTH then Err InvalidProtocolMessage
      else and_then (check_version data) (\<lambda>_.
        and_then (subslice data KE1_CRED_REQ_OFFSET KE1_INITIATOR_PK_OFFSET) (\<lambda>cr.
        and_then (subslice data KE1_INITIATOR_PK_OFFSET KE1_INITIATOR_NONCE_OFFSET) (\<lambda>pk.
        and_then (subslice data KE1_INITIATOR_NONCE_OFFSET KE1_PQ_PK_OFFSET) (\<lambda>n.
        and_then (slice_from data KE1_PQ_PK_OFFSET) (\<lambda>ek.
        Ok \<lparr>k1_credential_request = cr, k1_initiator_public_key = pk,
            k1_initiator_nonce = n, k1_pq_ephemeral_public_key = ek\<rparr>))))))"

definition parse_ke2 :: "bytes \<Rightarrow> Ke2Ref OpaqueResult" where
  "parse_ke2 data =
     (if length data \<noteq> KE2_LENGTH then Err InvalidProtocolMessage
      else and_then (check_version data) (\<lambda>_.
        and_then (subslice data KE2_RESP_NONCE_OFFSET KE2_RESP_PK_OFFSET) (\<lambda>n.
        and_then (subslice data KE2_RESP_PK_OFFSET KE2_CRED_RESP_OFFSET) (\<lambda>pk.
        and_then (subslice data KE2_CRED_RESP_OFFSET KE2_RESP_MAC_OFFSET) (\<lambda>cr.
        and_then (subslice data KE2_RESP_MAC_OFFSET KE2_KEM_CT_OFFSET) (\<lambda>m.
        and_then (slice_from data KE2_KEM_CT_OFFSET) (\<lambda>ct.
        Ok \<lparr>k2_responder_nonce = n, k2_responder_public_key = pk,
            k2_credential_response = cr, k2_responder_mac = m, k2_kem_ciphertext = ct\<rparr>)))))))"

definition parse_ke3 :: "bytes \<Rightarrow> Ke3Ref OpaqueResult" where
  "parse_ke3 data =
     (if length data \<noteq> KE3_LENGTH then Err InvalidProtocolMessage
      else and_then (check_version data) (\<lambda>_.
        and_then (slice_from data KE3_MAC_OFFSET) (\<lambda>m. Ok \<lparr>k3_initiator_mac = m\<rparr>)))"

section \<open>Writers\<close>

text \<open>On success a writer returns the caller's buffer with its new contents.\<close>

definition write_registration_record :: "bytes \<Rightarrow> bytes \<Rightarrow> bytes \<Rightarrow> bytes OpaqueResult" where
  "write_registration_record credential_storage initiator_public_key out =
     (if length credential_storage \<noteq> REGISTRATION_CREDENTIAL_LENGTH
         \<or> length initiator_public_key \<noteq> PUBLIC_KEY_LENGTH
         \<or> length out < REGISTRATION_RECORD_LENGTH
      then Err InvalidProtocolMessage
      else and_then (store_first out PROTOCOL_VERSION) (\<lambda>out.
        and_then (copy_into out REG_RECORD_MASKING_KEY_OFFSET REG_RECORD_INITIATOR_KEY_OFFSET
                    credential_storage) (\<lambda>out.
        copy_into out REG_RECORD_INITIATOR_KEY_OFFSET REGISTRATION_RECORD_LENGTH
          initiator_public_key)))"

definition write_ke1 :: "bytes \<Rightarrow> bytes \<Rightarrow> bytes \<Rightarrow> bytes \<Rightarrow> bytes \<Rightarrow> bytes OpaqueResult" where
  "write_ke1 credential_request initiator_public_key initiator_nonce pq_ephemeral_public_key out =
     (if length credential_request \<noteq> REGISTRATION_REQUEST_LENGTH
         \<or> length initiator_public_key \<noteq> PUBLIC_KEY_LENGTH
         \<or> length initiator_nonce \<noteq> NONCE_LENGTH
         \<or> length pq_ephemeral_public_key \<noteq> KEM_PUBLIC_KEY_LENGTH
         \<or> length out < KE1_LENGTH
      then Err InvalidProtocolMessage
      else and_then (store_first out PROTOCOL_VERSION) (\<lambda>out.
        and_then (copy_into out KE1_CRED_REQ_OFFSET KE1_INITIATOR_PK_OFFSET credential_request) (\<lambda>out.
        and_then (copy_into out KE1_INITIATOR_PK_OFFSET KE1_INITIATOR_NONCE_OFFSET
                    initiator_public_key) (\<lambda>out.
        and_then (copy_into out KE1_INITIATOR_NONCE_OFFSET KE1_PQ_PK_OFFSET initiator_nonce) (\<lambda>out.
        copy_into out KE1_PQ_PK_OFFSET KE1_LENGTH pq_ephemeral_public_key)))))"

definition write_ke2 ::
  "bytes \<Rightarrow> bytes \<Rightarrow> bytes \<Rightarrow> bytes \<Rightarrow> bytes \<Rightarrow> bytes \<Rightarrow> bytes OpaqueResult" where
  "write_ke2 responder_nonce responder_public_key credential_response responder_mac
     kem_ciphertext out =
     (if length responder_nonce \<noteq> NONCE_LENGTH
         \<or> length responder_public_key \<noteq> PUBLIC_KEY_LENGTH
         \<or> length credential_response \<noteq> CREDENTIAL_RESPONSE_LENGTH
         \<or> length responder_mac \<noteq> MAC_LENGTH
         \<or> length kem_ciphertext \<noteq> KEM_CIPHERTEXT_LENGTH
         \<or> length out < KE2_LENGTH
      then Err InvalidProtocolMessage
      else and_then (store_first out PROTOCOL_VERSION) (\<lambda>out.
        and_then (copy_into out KE2_RESP_NONCE_OFFSET KE2_RESP_PK_OFFSET responder_nonce) (\<lambda>out.
        and_then (copy_into out KE2_RESP_PK_OFFSET KE2_CRED_RESP_OFFSET responder_public_key) (\<lambda>out.
        and_then (copy_into out KE2_CRED_RESP_OFFSET KE2_RESP_MAC_OFFSET credential_response) (\<lambda>out.
        and_then (copy_into out KE2_RESP_MAC_OFFSET KE2_KEM_CT_OFFSET responder_mac) (\<lambda>out.
        copy_into out KE2_KEM_CT_OFFSET KE2_LENGTH kem_ciphertext))))))"

definition write_ke3 :: "bytes \<Rightarrow> bytes \<Rightarrow> bytes OpaqueResult" where
  "write_ke3 initiator_mac out =
     (if length initiator_mac \<noteq> MAC_LENGTH \<or> length out < KE3_LENGTH
      then Err InvalidProtocolMessage
      else and_then (store_first out PROTOCOL_VERSION) (\<lambda>out.
        copy_into out KE3_MAC_OFFSET KE3_LENGTH initiator_mac))"

definition write_registration_request :: "bytes \<Rightarrow> bytes \<Rightarrow> bytes OpaqueResult" where
  "write_registration_request payload out =
     (if length payload \<noteq> REGISTRATION_REQUEST_LENGTH
         \<or> length out < REGISTRATION_REQUEST_WIRE_LENGTH
      then Err InvalidProtocolMessage
      else and_then (store_first out PROTOCOL_VERSION) (\<lambda>out.
        copy_into out REG_REQ_PAYLOAD_OFFSET REGISTRATION_REQUEST_WIRE_LENGTH payload))"

definition write_registration_response :: "bytes \<Rightarrow> bytes \<Rightarrow> bytes \<Rightarrow> bytes OpaqueResult" where
  "write_registration_response evaluated_element responder_public_key out =
     (if length evaluated_element \<noteq> REGISTRATION_REQUEST_LENGTH
         \<or> length responder_public_key \<noteq> PUBLIC_KEY_LENGTH
         \<or> length out < REGISTRATION_RESPONSE_WIRE_LENGTH
      then Err InvalidProtocolMessage
      else and_then (store_first out PROTOCOL_VERSION) (\<lambda>out.
        and_then (copy_into out REG_RESP_EVALUATED_OFFSET REG_RESP_RESPONDER_KEY_OFFSET
                    evaluated_element) (\<lambda>out.
        copy_into out REG_RESP_RESPONDER_KEY_OFFSET REGISTRATION_RESPONSE_WIRE_LENGTH
          responder_public_key)))"

section \<open>The contract of a wire codec\<close>

text \<open>
  \<open>wire m\<close> is the one byte string that stands for \<open>m\<close>, \<open>well_sized m\<close> says that every
  field of \<open>m\<close> has the width the format gives it.
\<close>

locale wire_codec =
  fixes wire_len :: nat
    and parse :: "bytes \<Rightarrow> 'm OpaqueResult"
    and emit :: "'m \<Rightarrow> bytes \<Rightarrow> bytes OpaqueResult"
    and well_sized :: "'m \<Rightarrow> bool"
    and wire :: "'m \<Rightarrow> bytes"
  assumes write_fits: "well_sized m \<Longrightarrow> wire_len \<le> length out \<Longrightarrow>
      emit m out = Ok (wire m @ drop wire_len out)"
    and write_short: "length out < wire_len \<Longrightarrow> emit m out = Err InvalidProtocolMessage"
    and wire_length: "well_sized m \<Longrightarrow> length (wire m) = wire_len"
    and parse_wire: "well_sized m \<Longrightarrow> parse (wire m) = Ok m"
    and parse_sound: "parse data = Ok m \<Longrightarrow> well_sized m \<and> wire m = data"
    and parse_length: "length data \<noteq> wire_len \<Longrightarrow> parse data = Err InvalidProtocolMessage"
    and parse_version: "length data = wire_len \<Longrightarrow> hd data \<noteq> PROTOCOL_VERSION_2 \<Longrightarrow>
      parse data = Err UnsupportedVersion"
    and parse_accepts: "length data = wire_len \<Longrightarrow> hd data = PROTOCOL_VERSION_2 \<Longrightarrow>
      is_ok (parse data)"
begin

lemma round_trip_sized:
  assumes "well_sized m" "emit m out = Ok buf"
  shows "parse (take wire_len buf) = Ok m" and "drop wire_len buf = drop wire_len out"
    and "length buf = length out"
proof -
  have fits: "wire_len \<le> length out"
    using assms(2) write_short [of out m] by (cases "length out < wire_len") auto
  then have "buf = wire m @ drop wire_len out"
    using assms write_fits by simp
  with fits assms(1) show "parse (take wire_len buf) = Ok m"
    and "drop wire_len buf = drop wire_len out" and "length buf = length out"
    by (simp_all add: wire_length parse_wire)
qed

lemma reserialize:
  assumes "parse data = Ok m" "length out = wire_len"
  shows "emit m out = Ok data"
  using parse_sound [OF assms(1)] assms(2) write_fits [of m out] by simp

lemma parse_injective: "parse d = Ok m \<Longrightarrow> parse d' = Ok m \<Longrightarrow> d = d'"
  using parse_sound by blast

lemma parse_iff:
  "parse data = Ok m \<longleftrightarrow> well_sized m \<and> data = wire m"
  using parse_sound parse_wire by blast

lemma parse_no_panic: "parse data \<noteq> Panic"
  using parse_length [of data] parse_version [of data] parse_accepts [of data] by fastforce

end

text \<open>A strict codec also refuses to emit a message with a field of the wrong width.\<close>

locale strict_wire_codec = wire_codec +
  assumes write_rejects: "\<not> well_sized m \<Longrightarrow> emit m out = Err InvalidProtocolMessage"
begin

lemma emit_Ok_iff:
  "emit m out = Ok buf \<longleftrightarrow>
     well_sized m \<and> wire_len \<le> length out \<and> buf = wire m @ drop wire_len out"
  using write_fits [of m out] write_rejects [of m out] write_short [of out m]
  by (cases "well_sized m \<and> wire_len \<le> length out") auto

lemma emit_no_panic: "emit m out \<noteq> Panic"
  using write_fits [of m out] write_rejects [of m out] write_short [of out m]
  by (cases "well_sized m \<and> wire_len \<le> length out") auto

lemma round_trip:
  assumes "emit m out = Ok buf"
  shows "parse (take wire_len buf) = Ok m"
  using assms round_trip_sized(1) by (simp add: emit_Ok_iff)

end

section \<open>The six codecs\<close>

text \<open>Specifications: what each message looks like on the wire.\<close>

definition registration_request_wire :: "bytes \<Rightarrow> bytes" where
  "registration_request_wire payload = PROTOCOL_VERSION # payload"

definition registration_response_wire :: "RegistrationResponseRef \<Rightarrow> bytes" where
  "registration_response_wire m =
     PROTOCOL_VERSION # rr_evaluated_element m @ rr_responder_public_key m"

definition registration_record_wire :: "RegistrationRecordRef \<Rightarrow> bytes" where
  "registration_record_wire m =
     PROTOCOL_VERSION # rec_masking_key m @ rec_envelope m @ rec_initiator_public_key m"

definition ke1_wire :: "Ke1Ref \<Rightarrow> bytes" where
  "ke1_wire m = PROTOCOL_VERSION # k1_credential_request m @ k1_initiator_public_key m
     @ k1_initiator_nonce m @ k1_pq_ephemeral_public_key m"

definition ke2_wire :: "Ke2Ref \<Rightarrow> bytes" where
  "ke2_wire m = PROTOCOL_VERSION # k2_responder_nonce m @ k2_responder_public_key m
     @ k2_credential_response m @ k2_responder_mac m @ k2_kem_ciphertext m"

definition ke3_wire :: "Ke3Ref \<Rightarrow> bytes" where
  "ke3_wire m = PROTOCOL_VERSION # k3_initiator_mac m"

definition registration_response_sized :: "RegistrationResponseRef \<Rightarrow> bool" where
  "registration_response_sized m \<longleftrightarrow> length (rr_evaluated_element m) = REGISTRATION_REQUEST_LENGTH
     \<and> length (rr_responder_public_key m) = PUBLIC_KEY_LENGTH"

definition registration_record_sized :: "RegistrationRecordRef \<Rightarrow> bool" where
  "registration_record_sized m \<longleftrightarrow> length (rec_masking_key m) = MASKING_KEY_LENGTH
     \<and> length (rec_envelope m) = ENVELOPE_LENGTH
     \<and> length (rec_initiator_public_key m) = PUBLIC_KEY_LENGTH"

definition ke1_sized :: "Ke1Ref \<Rightarrow> bool" where
  "ke1_sized m \<longleftrightarrow> length (k1_credential_request m) = REGISTRATION_REQUEST_LENGTH
     \<and> length (k1_initiator_public_key m) = PUBLIC_KEY_LENGTH
     \<and> length (k1_initiator_nonce m) = NONCE_LENGTH
     \<and> length (k1_pq_ephemeral_public_key m) = KEM_PUBLIC_KEY_LENGTH"

definition ke2_sized :: "Ke2Ref \<Rightarrow> bool" where
  "ke2_sized m \<longleftrightarrow> length (k2_responder_nonce m) = NONCE_LENGTH
     \<and> length (k2_responder_public_key m) = PUBLIC_KEY_LENGTH
     \<and> length (k2_credential_response m) = CREDENTIAL_RESPONSE_LENGTH
     \<and> length (k2_responder_mac m) = MAC_LENGTH
     \<and> length (k2_kem_ciphertext m) = KEM_CIPHERTEXT_LENGTH"

lemmas wire_defs = registration_request_wire_def registration_response_wire_def
  registration_record_wire_def ke1_wire_def ke2_wire_def ke3_wire_def
  registration_response_sized_def registration_record_sized_def ke1_sized_def ke2_sized_def

lemmas parse_defs = parse_registration_request_def parse_registration_response_def
  parse_registration_record_def parse_ke1_def parse_ke2_def parse_ke3_def

lemmas write_defs = write_registration_request_def write_registration_response_def
  write_registration_record_def write_ke1_def write_ke2_def write_ke3_def

text \<open>Adjacent slices of a buffer join up again, behind the version byte.\<close>

lemma slices_join: "m = n + k \<Longrightarrow> take n (drop k xs) @ drop m xs = drop k xs"
  by (metis append_take_drop_id drop_drop)

lemma version_join: "0 < length xs \<Longrightarrow> hd xs = b \<Longrightarrow> b # drop (Suc 0) xs = xs"
  by (cases xs) auto

lemma drop_of_tl: "drop n (tl xs) = drop (Suc n) xs"
  by (simp add: drop_Suc)

lemma check_version_hd:
  "0 < length data \<Longrightarrow>
     check_version data = (if hd data = PROTOCOL_VERSION_2 then Ok () else Err UnsupportedVersion)"
  by (cases data) (simp_all add: check_version_def)

lemmas codec_simps = wire_defs parse_defs write_defs slice_simps copy_into_def check_version_hd
  slices_join version_join drop_of_tl

interpretation registration_request_codec: strict_wire_codec REGISTRATION_REQUEST_WIRE_LENGTH parse_registration_request
  write_registration_request "\<lambda>m. length m = REGISTRATION_REQUEST_LENGTH" registration_request_wire
  by unfold_locales (auto simp: codec_simps split: if_splits)

interpretation registration_response_codec: strict_wire_codec REGISTRATION_RESPONSE_WIRE_LENGTH
  parse_registration_response
  "\<lambda>m. write_registration_response (rr_evaluated_element m) (rr_responder_public_key m)"
  registration_response_sized registration_response_wire
  by unfold_locales (auto simp: codec_simps split: if_splits)

text \<open>
  The record writer takes masking key and envelope as one string, so it checks only their
  total width; it is a codec on well-sized records, not a strict one.
\<close>

interpretation registration_record_codec: wire_codec REGISTRATION_RECORD_LENGTH
  parse_registration_record
  "\<lambda>m. write_registration_record (rec_masking_key m @ rec_envelope m) (rec_initiator_public_key m)"
  registration_record_sized registration_record_wire
  by unfold_locales (auto simp: codec_simps split: if_splits)

interpretation ke1_codec: strict_wire_codec KE1_LENGTH parse_ke1
  "\<lambda>m. write_ke1 (k1_credential_request m) (k1_initiator_public_key m) (k1_initiator_nonce m)
     (k1_pq_ephemeral_public_key m)"
  ke1_sized ke1_wire
  by unfold_locales (auto simp: codec_simps split: if_splits)

interpretation ke2_codec: strict_wire_codec KE2_LENGTH parse_ke2
  "\<lambda>m. write_ke2 (k2_responder_nonce m) (k2_responder_public_key m) (k2_credential_response m)
     (k2_responder_mac m) (k2_kem_ciphertext m)"
  ke2_sized ke2_wire
  by unfold_locales (auto simp: codec_simps split: if_splits)

interpretation ke3_codec: strict_wire_codec KE3_LENGTH parse_ke3 "\<lambda>m. write_ke3 (k3_initiator_mac m)"
  "\<lambda>m. length (k3_initiator_mac m) = MAC_LENGTH" ke3_wire
  by unfold_locales (auto simp: codec_simps split: if_splits)

lemmas parsers_no_panic [no_panic] = registration_request_codec.parse_no_panic
  registration_response_codec.parse_no_panic registration_record_codec.parse_no_panic
  ke1_codec.parse_no_panic ke2_codec.parse_no_panic ke3_codec.parse_no_panic

section \<open>Properties\<close>

text \<open>
  \<open>reads_exactly n parse\<close>: the parser accepts exactly the strings of \<open>n\<close> bytes that start
  with the current version, tells the two kinds of rejection apart, never unwinds, and maps
  different strings to different messages.
\<close>

definition reads_exactly :: "nat \<Rightarrow> (bytes \<Rightarrow> 'm OpaqueResult) \<Rightarrow> bool" where
  "reads_exactly n parse \<longleftrightarrow>
     (\<forall>data. if length data \<noteq> n then parse data = Err InvalidProtocolMessage
        else if hd data \<noteq> PROTOCOL_VERSION_2 then parse data = Err UnsupportedVersion
        else \<exists>m. parse data = Ok m) \<and>
     (\<forall>d d' m. parse d = Ok m \<longrightarrow> parse d' = Ok m \<longrightarrow> d = d')"

context wire_codec
begin

lemma codec_reads_exactly: "reads_exactly wire_len parse"
  unfolding reads_exactly_def
  using parse_length parse_version parse_accepts parse_injective by (auto simp: is_ok_def)

end

text \<open>
  C36: each of the six parsers accepts exactly the strings of its wire length with version
  byte 2, answers a wrong length with \<open>InvalidProtocolMessage\<close> and a wrong version with
  \<open>UnsupportedVersion\<close>, never panics on an out-of-range slice, and is injective on what it
  accepts.
\<close>

theorem parsers_read_exactly:
  "reads_exactly 33 parse_registration_request \<and> reads_exactly 65 parse_registration_response \<and>
   reads_exactly 201 parse_registration_record \<and> reads_exactly 1273 parse_ke1 \<and>
   reads_exactly 1377 parse_ke2 \<and> reads_exactly 65 parse_ke3"
  using registration_request_codec.codec_reads_exactly registration_response_codec.codec_reads_exactly
    registration_record_codec.codec_reads_exactly ke1_codec.codec_reads_exactly
    ke2_codec.codec_reads_exactly ke3_codec.codec_reads_exactly
  by simp

text \<open>
  Whatever \<open>write_ke1\<close> puts at the start of the caller's buffer, \<open>parse_ke1\<close> reads back
  field by field; the rest of the buffer is untouched.
\<close>

lemma ke1_round_trip:
  assumes "write_ke1 cr pk n ek out = Ok buf"
  shows "parse_ke1 (take KE1_LENGTH buf) = Ok \<lparr>k1_credential_request = cr, k1_initiator_public_key = pk,
      k1_initiator_nonce = n, k1_pq_ephemeral_public_key = ek\<rparr>
    \<and> drop KE1_LENGTH buf = drop KE1_LENGTH out \<and> length buf = length out"
proof -
  let ?m = "\<lparr>k1_credential_request = cr, k1_initiator_public_key = pk, k1_initiator_nonce = n,
    k1_pq_ephemeral_public_key = ek\<rparr>"
  have w: "ke1_sized ?m" using ke1_codec.emit_Ok_iff [of ?m out buf] assms by simp
  show ?thesis using ke1_codec.round_trip_sized [OF w, of out buf] assms by simp
qed

text \<open>
  The same for KE2, the message with five fields: \<open>parse_ke2\<close> reads back exactly what
  \<open>write_ke2\<close> wrote.
\<close>

lemma ke2_round_trip:
  assumes "write_ke2 n pk cr mac ct out = Ok buf"
  shows "parse_ke2 (take KE2_LENGTH buf) = Ok \<lparr>k2_responder_nonce = n, k2_responder_public_key = pk,
      k2_credential_response = cr, k2_responder_mac = mac, k2_kem_ciphertext = ct\<rparr>
    \<and> drop KE2_LENGTH buf = drop KE2_LENGTH out \<and> length buf = length out"
proof -
  let ?m = "\<lparr>k2_responder_nonce = n, k2_responder_public_key = pk, k2_credential_response = cr,
    k2_responder_mac = mac, k2_kem_ciphertext = ct\<rparr>"
  have w: "ke2_sized ?m" using ke2_codec.emit_Ok_iff [of ?m out buf] assms by simp
  show ?thesis using ke2_codec.round_trip_sized [OF w, of out buf] assms by simp
qed

text \<open>
  A registration record written from masking key and envelope, as the client stores
  them in one string, is split by \<open>parse_registration_record\<close> at the right place.
\<close>

lemma registration_record_round_trip:
  assumes "write_registration_record (mk @ env) pk out = Ok buf" "length mk = MASKING_KEY_LENGTH"
  shows "parse_registration_record (take REGISTRATION_RECORD_LENGTH buf) =
      Ok \<lparr>rec_masking_key = mk, rec_envelope = env, rec_initiator_public_key = pk\<rparr>
    \<and> drop REGISTRATION_RECORD_LENGTH buf = drop REGISTRATION_RECORD_LENGTH out"
proof -
  let ?m = "\<lparr>rec_masking_key = mk, rec_envelope = env, rec_initiator_public_key = pk\<rparr>"
  have w: "registration_record_sized ?m"
    using assms by (auto simp: write_registration_record_def registration_record_sized_def split: if_splits)
  show ?thesis using registration_record_codec.round_trip_sized [OF w, of out buf] assms by simp
qed

end
