(* ===== verification/Agent_State.thy ===== *)
theory Agent_State
  imports Key_Schedule Protocol
begin

text \<open>
  Model of \<^verbatim>\<open>opaque-agent/src/state.rs\<close>: the client's session state with its phases and its
  deadline, the messages it fills and the pinned server key. The flag that only
  test builds have stands beside the session in \<open>Session_Tests\<close>.
\<close>

section \<open>Phases and state\<close>

datatype InitiatorPhase = ICreated | RegistrationRequested | RegistrationFinalized
  | Ke1Generated | Ke3Generated | IFinished

record InitiatorState =
  i_phase :: InitiatorPhase
  i_created_at :: nat
  i_secure_key :: bytes
  i_secure_key_len :: nat
  i_private_key :: bytes
  i_public_key :: bytes
  i_ephemeral_private_key :: bytes
  i_ephemeral_public_key :: bytes
  i_responder_public_key :: bytes
  i_session_key :: bytes
  i_blind_scalar :: bytes
  i_nonce :: bytes
  i_account_context_hash :: bytes
  i_export_key :: bytes
  i_pq_public_key :: bytes
  i_pq_secret_key :: bytes
  i_pq_shared_secret :: bytes

text \<open>The clock is read only in the phases that can expire.\<close>

definition initiator_is_expired :: "InitiatorState \<Rightarrow> world \<Rightarrow> bool \<times> world" where
  "initiator_is_expired s w =
     (if i_phase s \<in> {ICreated, RegistrationFinalized, IFinished} then (False, w)
      else let (now, w) = instant_now w in
        (case checked_duration_since now (i_created_at s) of
           None \<Rightarrow> True | Some d \<Rightarrow> STATE_MAX_LIFETIME_SECS \<le> as_secs d, w))"

definition initiator_refresh_deadline :: "InitiatorState \<Rightarrow> world \<Rightarrow> InitiatorState \<times> world" where
  "initiator_refresh_deadline s w =
     (let (now, w) = instant_now w in (s\<lparr>i_created_at := now\<rparr>, w))"

text \<open>The derived \<open>Zeroize\<close>: every field but the two that are marked to be skipped.\<close>

definition initiator_zeroize :: "('s, 'p, 'ek, 'dk) deps \<Rightarrow> InitiatorState \<Rightarrow> InitiatorState" where
  "initiator_zeroize D s = s\<lparr>
     i_secure_key := zeroize D (i_secure_key s),
     i_secure_key_len := zeroize_usize D (i_secure_key_len s),
     i_private_key := zeroize D (i_private_key s),
     i_public_key := zeroize D (i_public_key s),
     i_ephemeral_private_key := zeroize D (i_ephemeral_private_key s),
     i_ephemeral_public_key := zeroize D (i_ephemeral_public_key s),
     i_responder_public_key := zeroize D (i_responder_public_key s),
     i_session_key := zeroize D (i_session_key s),
     i_blind_scalar := zeroize D (i_blind_scalar s),
     i_nonce := zeroize D (i_nonce s),
     i_account_context_hash := zeroize D (i_account_context_hash s),
     i_export_key := zeroize D (i_export_key s),
     i_pq_public_key := zeroize D (i_pq_public_key s),
     i_pq_secret_key := zeroize D (i_pq_secret_key s),
     i_pq_shared_secret := zeroize D (i_pq_shared_secret s)\<rparr>"

definition initiator_invalidate :: "('s, 'p, 'ek, 'dk) deps \<Rightarrow> InitiatorState \<Rightarrow> InitiatorState" where
  "initiator_invalidate D s = (initiator_zeroize D s)\<lparr>i_phase := IFinished\<rparr>"

definition InitiatorState_new :: "world \<Rightarrow> InitiatorState \<times> world" where
  "InitiatorState_new w =
     (let (now, w) = instant_now w in
      (\<lparr>i_phase = ICreated, i_created_at = now,
        i_secure_key = zeros MAX_SECURE_KEY_LENGTH, i_secure_key_len = 0,
        i_private_key = zeros PRIVATE_KEY_LENGTH, i_public_key = zeros PUBLIC_KEY_LENGTH,
        i_ephemeral_private_key = zeros PRIVATE_KEY_LENGTH,
        i_ephemeral_public_key = zeros PUBLIC_KEY_LENGTH,
        i_responder_public_key = zeros PUBLIC_KEY_LENGTH,
        i_session_key = zeros HASH_LENGTH, i_blind_scalar = zeros PRIVATE_KEY_LENGTH,
        i_nonce = zeros NONCE_LENGTH, i_account_context_hash = zeros HASH_LENGTH,
        i_export_key = zeros EXPORT_KEY_LENGTH,
        i_pq_public_key = zeros KEM_PUBLIC_KEY_LENGTH,
        i_pq_secret_key = zeros KEM_SECRET_KEY_LENGTH,
        i_pq_shared_secret = zeros KEM_SHARED_SECRET_LENGTH\<rparr>, w))"

section \<open>Messages and configuration\<close>

record RegistrationRequest =
  rq_data :: bytes

definition RegistrationRequest_new :: RegistrationRequest where
  "RegistrationRequest_new = \<lparr>rq_data = zeros REGISTRATION_REQUEST_LENGTH\<rparr>"

record RegistrationRecord =
  rd_envelope :: bytes
  rd_initiator_public_key :: bytes

definition RegistrationRecord_new :: RegistrationRecord where
  "RegistrationRecord_new = \<lparr>rd_envelope = zeros REGISTRATION_CREDENTIAL_LENGTH,
     rd_initiator_public_key = zeros PUBLIC_KEY_LENGTH\<rparr>"

record Ke1Message =
  m1_initiator_nonce :: bytes
  m1_initiator_public_key :: bytes
  m1_credential_request :: bytes
  m1_pq_ephemeral_public_key :: bytes

definition Ke1Message_new :: Ke1Message where
  "Ke1Message_new = \<lparr>m1_initiator_nonce = zeros NONCE_LENGTH,
     m1_initiator_public_key = zeros PUBLIC_KEY_LENGTH,
     m1_credential_request = zeros REGISTRATION_REQUEST_LENGTH,
     m1_pq_ephemeral_public_key = zeros KEM_PUBLIC_KEY_LENGTH\<rparr>"

record Ke3Message =
  m3_initiator_mac :: bytes

definition Ke3Message_new :: Ke3Message where
  "Ke3Message_new = \<lparr>m3_initiator_mac = zeros MAC_LENGTH\<rparr>"

record OpaqueInitiator =
  oi_responder_public_key :: bytes

definition OpaqueInitiator_new ::
  "('s, 'p, 'ek, 'dk) deps \<Rightarrow> bytes \<Rightarrow> OpaqueInitiator OpaqueResult" where
  "OpaqueInitiator_new D responder_public_key =
     and_then (validate_public_key D responder_public_key) (\<lambda>_.
     and_then (copy_into (zeros PUBLIC_KEY_LENGTH) 0 PUBLIC_KEY_LENGTH responder_public_key) (\<lambda>key.
     Ok \<lparr>oi_responder_public_key = key\<rparr>))"

text \<open>The derived \<open>Zeroize\<close> of the configuration.\<close>

definition OpaqueInitiator_zeroize :: "('s, 'p, 'ek, 'dk) deps \<Rightarrow> OpaqueInitiator \<Rightarrow> OpaqueInitiator" where
  "OpaqueInitiator_zeroize D i = i\<lparr>oi_responder_public_key := zeroize D (oi_responder_public_key i)\<rparr>"

section \<open>Well-formed states\<close>

text \<open>The array types of the struct, and that the recorded password length fits its buffer.\<close>

definition initiator_wf :: "InitiatorState \<Rightarrow> bool" where
  "initiator_wf s \<longleftrightarrow>
     length (i_secure_key s) = MAX_SECURE_KEY_LENGTH \<and>
     i_secure_key_len s \<le> MAX_SECURE_KEY_LENGTH \<and>
     length (i_private_key s) = PRIVATE_KEY_LENGTH \<and>
     length (i_public_key s) = PUBLIC_KEY_LENGTH \<and>
     length (i_ephemeral_private_key s) = PRIVATE_KEY_LENGTH \<and>
     length (i_ephemeral_public_key s) = PUBLIC_KEY_LENGTH \<and>
     length (i_responder_public_key s) = PUBLIC_KEY_LENGTH \<and>
     length (i_session_key s) = HASH_LENGTH \<and>
     length (i_blind_scalar s) = PRIVATE_KEY_LENGTH \<and>
     length (i_nonce s) = NONCE_LENGTH \<and>
     length (i_account_context_hash s) = HASH_LENGTH \<and>
     length (i_export_key s) = EXPORT_KEY_LENGTH \<and>
     length (i_pq_public_key s) = KEM_PUBLIC_KEY_LENGTH \<and>
     length (i_pq_secret_key s) = KEM_SECRET_KEY_LENGTH \<and>
     length (i_pq_shared_secret s) = KEM_SHARED_SECRET_LENGTH"

text \<open>No secret is left: the password, the private keys, the blind and the derived keys.\<close>

definition initiator_wiped :: "InitiatorState \<Rightarrow> bool" where
  "initiator_wiped s \<longleftrightarrow>
     i_secure_key s = zeros MAX_SECURE_KEY_LENGTH \<and> i_secure_key_len s = 0 \<and>
     i_private_key s = zeros PRIVATE_KEY_LENGTH \<and>
     i_ephemeral_private_key s = zeros PRIVATE_KEY_LENGTH \<and>
     i_session_key s = zeros HASH_LENGTH \<and> i_blind_scalar s = zeros PRIVATE_KEY_LENGTH \<and>
     i_account_context_hash s = zeros HASH_LENGTH \<and> i_export_key s = zeros EXPORT_KEY_LENGTH \<and>
     i_pq_secret_key s = zeros KEM_SECRET_KEY_LENGTH \<and>
     i_pq_shared_secret s = zeros KEM_SHARED_SECRET_LENGTH"

text \<open>What invalidation makes of any well-formed state; only the time stamp survives.\<close>

definition invalidated_initiator :: "nat \<Rightarrow> InitiatorState" where
  "invalidated_initiator t =
     (fst (InitiatorState_new \<lparr>w_rng = (\<lambda>_. 0), w_clk = (\<lambda>_. t)\<rparr>))\<lparr>i_phase := IFinished\<rparr>"

lemma initiator_invalidate_wf:
  "zeroize_laws D \<Longrightarrow> initiator_wf s \<Longrightarrow>
     initiator_invalidate D s = invalidated_initiator (i_created_at s)"
  by (simp add: initiator_invalidate_def initiator_zeroize_def initiator_wf_def
      invalidated_initiator_def InitiatorState_new_def instant_now_def)

lemma invalidated_initiator_props [simp]:
  "initiator_wf (invalidated_initiator t)" "initiator_wiped (invalidated_initiator t)"
  "i_phase (invalidated_initiator t) = IFinished"
  by (simp_all add: invalidated_initiator_def InitiatorState_new_def instant_now_def
      initiator_wf_def initiator_wiped_def)

lemma InitiatorState_new_props:
  "initiator_wf (fst (InitiatorState_new w))" "i_phase (fst (InitiatorState_new w)) = ICreated"
  by (simp_all add: InitiatorState_new_def instant_now_def initiator_wf_def)

lemma initiator_is_expired_iff:
  "fst (initiator_is_expired s w) \<longleftrightarrow>
     i_phase s \<in> {RegistrationRequested, Ke1Generated, Ke3Generated} \<and>
     (w_clk w 0 < i_created_at s \<or> 900 * 1000000000 \<le> w_clk w 0 - i_created_at s)"
  by (cases "i_phase s")
    (auto simp: initiator_is_expired_def instant_now_def checked_duration_since_def as_secs_def
      div_greater_zero_iff less_eq_div_iff_mult_less_eq)

lemma initiator_is_expired_untimed [simp]:
  "i_phase s = ICreated \<Longrightarrow> initiator_is_expired s w = (False, w)"
  by (simp add: initiator_is_expired_def)

lemma OpaqueInitiator_new_Ok_iff:
  assumes "group_laws D" "subtle_laws D"
  shows "OpaqueInitiator_new D b = Ok i \<longleftrightarrow>
     (\<exists>p. p \<noteq> point_identity D \<and> b = point_compress D p \<and> i = \<lparr>oi_responder_public_key = b\<rparr>)"
  using assms by (auto simp: OpaqueInitiator_new_def result_simps validate_public_key_Ok_iff copy_into_whole)

text \<open>Field by field, so that a chain of updates is well-formed by rewriting.\<close>

lemma initiator_wf_updates:
  assumes "initiator_wf s"
  shows "initiator_wf (s\<lparr>i_phase := p\<rparr>)" "initiator_wf (s\<lparr>i_created_at := t\<rparr>)"
    "length b = 4096 \<Longrightarrow> initiator_wf (s\<lparr>i_secure_key := b\<rparr>)"
    "n \<le> 4096 \<Longrightarrow> initiator_wf (s\<lparr>i_secure_key_len := n\<rparr>)"
    "length b = 32 \<Longrightarrow> initiator_wf (s\<lparr>i_private_key := b\<rparr>)"
    "length b = 32 \<Longrightarrow> initiator_wf (s\<lparr>i_public_key := b\<rparr>)"
    "length b = 32 \<Longrightarrow> initiator_wf (s\<lparr>i_ephemeral_private_key := b\<rparr>)"
    "length b = 32 \<Longrightarrow> initiator_wf (s\<lparr>i_ephemeral_public_key := b\<rparr>)"
    "length b = 32 \<Longrightarrow> initiator_wf (s\<lparr>i_responder_public_key := b\<rparr>)"
    "length b = 64 \<Longrightarrow> initiator_wf (s\<lparr>i_session_key := b\<rparr>)"
    "length b = 32 \<Longrightarrow> initiator_wf (s\<lparr>i_blind_scalar := b\<rparr>)"
    "length b = 24 \<Longrightarrow> initiator_wf (s\<lparr>i_nonce := b\<rparr>)"
    "length b = 64 \<Longrightarrow> initiator_wf (s\<lparr>i_account_context_hash := b\<rparr>)"
    "length b = 32 \<Longrightarrow> initiator_wf (s\<lparr>i_export_key := b\<rparr>)"
    "length b = 1184 \<Longrightarrow> initiator_wf (s\<lparr>i_pq_public_key := b\<rparr>)"
    "length b = 2400 \<Longrightarrow> initiator_wf (s\<lparr>i_pq_secret_key := b\<rparr>)"
    "length b = 32 \<Longrightarrow> initiator_wf (s\<lparr>i_pq_shared_secret := b\<rparr>)"
  using assms by (simp_all add: initiator_wf_def)

lemma initiator_wf_lengths:
  assumes "initiator_wf s"
  shows "length (i_secure_key s) = 4096" "i_secure_key_len s \<le> 4096" "length (i_private_key s) = 32"
    "length (i_public_key s) = 32" "length (i_ephemeral_private_key s) = 32"
    "length (i_ephemeral_public_key s) = 32" "length (i_responder_public_key s) = 32"
    "length (i_session_key s) = 64" "length (i_blind_scalar s) = 32" "length (i_nonce s) = 24"
    "length (i_account_context_hash s) = 64" "length (i_export_key s) = 32"
    "length (i_pq_public_key s) = 1184" "length (i_pq_secret_key s) = 2400"
    "length (i_pq_shared_secret s) = 32"
  using assms by (simp_all add: initiator_wf_def)

section \<open>The session invariant\<close>

text \<open>
  A finished session holds no secret; a finished registration holds no password, blind or
  private key; an established login no longer holds the password, the blind or the KEM key.
\<close>

definition initiator_inv :: "InitiatorState \<Rightarrow> bool" where
  "initiator_inv s \<longleftrightarrow> initiator_wf s \<and>
     (i_phase s = IFinished \<longrightarrow> initiator_wiped s) \<and>
     (i_phase s \<in> {RegistrationFinalized, Ke3Generated} \<longrightarrow>
        i_secure_key s = zeros MAX_SECURE_KEY_LENGTH \<and> i_secure_key_len s = 0 \<and>
        i_blind_scalar s = zeros PRIVATE_KEY_LENGTH) \<and>
     (i_phase s = RegistrationFinalized \<longrightarrow> i_private_key s = zeros PRIVATE_KEY_LENGTH) \<and>
     (i_phase s = Ke3Generated \<longrightarrow> i_pq_secret_key s = zeros KEM_SECRET_KEY_LENGTH)"

lemmas initiator_inv_defs = initiator_inv_def initiator_wf_def initiator_wiped_def

lemma initiator_inv_wf: "initiator_inv s \<Longrightarrow> initiator_wf s"
  by (simp add: initiator_inv_def)

lemma initiator_invalidate_inv [simp]:
  assumes "zeroize_laws D" "initiator_wf s"
  shows "initiator_inv (initiator_invalidate D s)" "i_phase (initiator_invalidate D s) = IFinished"
    "initiator_wiped (initiator_invalidate D s)"
  by (simp_all add: initiator_inv_def initiator_invalidate_wf [OF assms])

text \<open>
  What every call on a session guarantees, from \<open>s\<close> to \<open>s'\<close>: it does not unwind, it keeps
  the invariant, a success takes the one edge \<open>from\<close> to \<open>to\<close> of the state machine, and a
  failure stays or ends the session.
\<close>

definition initiator_call :: "InitiatorPhase \<Rightarrow> InitiatorPhase \<Rightarrow> InitiatorState \<Rightarrow> unit OpaqueResult \<Rightarrow> InitiatorState \<Rightarrow> bool" where
  "initiator_call from to s r s' \<longleftrightarrow> r \<noteq> Panic \<and> initiator_inv s' \<and>
     (r = Ok () \<longrightarrow> i_phase s = from \<and> i_phase s' = to) \<and>
     (r \<noteq> Ok () \<longrightarrow> i_phase s' = i_phase s \<or> i_phase s' = IFinished)"

lemma initiator_call_Err:
  "initiator_inv s' \<Longrightarrow> i_phase s' = i_phase s \<or> i_phase s' = IFinished \<Longrightarrow> initiator_call p q s (Err e) s'"
  by (simp add: initiator_call_def)

lemma initiator_call_Ok:
  "initiator_inv s' \<Longrightarrow> i_phase s = p \<Longrightarrow> i_phase s' = q \<Longrightarrow> initiator_call p q s (Ok ()) s'"
  by (simp add: initiator_call_def)

text \<open>In the phases in which nothing has to be wiped yet, the invariant is well-formedness.\<close>

lemma initiator_inv_early [simp]:
  "i_phase s \<in> {ICreated, RegistrationRequested, Ke1Generated} \<Longrightarrow> initiator_inv s \<longleftrightarrow> initiator_wf s"
  by (auto simp: initiator_inv_def)

lemma initiator_refresh_deadline_eq:
  "initiator_refresh_deadline s w = (s\<lparr>i_created_at := fst (instant_now w)\<rparr>, snd (instant_now w))"
  by (simp add: initiator_refresh_deadline_def instant_now_def)

end
