(* ===== verification/Agent_Registration.thy ===== *)
theory Agent_Registration
  imports Agent_State
begin

text \<open>
  Model of \<^verbatim>\<open>opaque-agent/src/registration.rs\<close>: the client's two registration handlers. Each
  returns its result together with the message, the session state and the surroundings as
  the call leaves them, on every exit.
\<close>

section \<open>Handlers\<close>

definition create_registration_request ::
  "('s, 'p, 'ek, 'dk) deps \<Rightarrow> bytes \<Rightarrow> RegistrationRequest \<Rightarrow> InitiatorState \<Rightarrow> world
     \<Rightarrow> unit OpaqueResult \<times> RegistrationRequest \<times> InitiatorState \<times> world" where
  "create_registration_request D secure_key request state w =
     (if secure_key = [] \<or> MAX_SECURE_KEY_LENGTH < length secure_key
      then (Err InvalidInput, request, state, w)
      else if i_phase state \<noteq> ICreated then (Err ValidationError, request, state, w)
      else let (expired, w) = initiator_is_expired state w in
      if expired then (Err ValidationError, request, initiator_invalidate D state, w)
      else let (r, w) = random_nonzero_scalar D w in
        qmark r (request, state, w) (\<lambda>private_key.
        let state = state\<lparr>i_private_key := private_key\<rparr> in
        qmark (scalarmult_base D (i_private_key state)) (request, state, w) (\<lambda>public_key.
        let state = state\<lparr>i_public_key := public_key\<rparr>;
            state = state\<lparr>i_secure_key := zeroize D (i_secure_key state)\<rparr> in
        qmark (copy_into (i_secure_key state) 0 (length secure_key) secure_key) (request, state, w) (\<lambda>key_buf.
        let state = state\<lparr>i_secure_key := key_buf, i_secure_key_len := length secure_key\<rparr>;
            (r, scalar, w) = blind D secure_key (i_blind_scalar state) w;
            state = state\<lparr>i_blind_scalar := scalar\<rparr> in
        qmark r (request, state, w) (\<lambda>data.
        let request = request\<lparr>rq_data := data\<rparr>;
            (state, w) = initiator_refresh_deadline state w in
        (Ok (), request, state\<lparr>i_phase := RegistrationRequested\<rparr>, w))))))"

definition finalize_registration ::
  "('s, 'p, 'ek, 'dk) deps \<Rightarrow> OpaqueInitiator \<Rightarrow> bytes \<Rightarrow> InitiatorState \<Rightarrow> RegistrationRecord \<Rightarrow> world
     \<Rightarrow> unit OpaqueResult \<times> RegistrationRecord \<times> InitiatorState \<times> world" where
  "finalize_registration D initiator registration_response state record w =
     (if length registration_response \<noteq> REGISTRATION_RESPONSE_WIRE_LENGTH
      then (Err InvalidProtocolMessage, record, state, w)
      else if i_phase state \<noteq> RegistrationRequested then (Err ValidationError, record, state, w)
      else let (expired, w) = initiator_is_expired state w in
      if expired then (Err ValidationError, record, initiator_invalidate D state, w)
      else qmark (parse_registration_response registration_response) (record, state, w) (\<lambda>view.
        let responder_public_key = rr_responder_public_key view;
            expected_rpk = oi_responder_public_key initiator in
        qmark (validate_public_key D responder_public_key) (record, state, w) (\<lambda>_.
        if \<not> constant_time_eq D responder_public_key expected_rpk
        then (Err AuthenticationError, record, initiator_invalidate D state, w)
        else qmark (subslice (i_secure_key state) 0 (i_secure_key_len state)) (record, state, w) (\<lambda>secure_key.
        qmark (try_into PUBLIC_KEY_LENGTH (rr_evaluated_element view) InvalidProtocolMessage)
          (record, state, w) (\<lambda>evaluated.
        qmark (finalize D secure_key (i_blind_scalar state) evaluated) (record, state, w) (\<lambda>oprf_output.
        qmark (derive_randomized_password D oprf_output secure_key HASH_LENGTH)
          (record, state, w) (\<lambda>randomized_pwd.
        let state = state\<lparr>i_secure_key := zeroize D (i_secure_key state), i_secure_key_len := 0,
              i_blind_scalar := zeroize D (i_blind_scalar state)\<rparr> in
        qmark (try_into PUBLIC_KEY_LENGTH responder_public_key InvalidProtocolMessage)
          (record, state, w) (\<lambda>rpk.
        let (r, env, w) = seal D randomized_pwd rpk (i_private_key state) (i_public_key state)
              Envelope_new w in
        qmark r (record, state, w) (\<lambda>_.
        qmark (copy_into (i_responder_public_key state) 0 (length (i_responder_public_key state)) rpk)
          (record, state, w) (\<lambda>rpk_buf.
        let state = state\<lparr>i_responder_public_key := rpk_buf\<rparr> in
        qmark (derive_masking_key D randomized_pwd) (record, state, w) (\<lambda>masking_key.
        let record = record\<lparr>rd_envelope :=
                masking_key @ env_nonce env @ env_ciphertext env @ env_auth_tag env,
              rd_initiator_public_key := i_public_key state\<rparr>;
            state = state\<lparr>i_secure_key := zeroize D (i_secure_key state), i_secure_key_len := 0,
              i_blind_scalar := zeroize D (i_blind_scalar state),
              i_private_key := zeroize D (i_private_key state)\<rparr> in
        (Ok (), record, state\<lparr>i_phase := RegistrationFinalized\<rparr>, w))))))))))))"

section \<open>What a successful request holds\<close>

definition registration_pending ::
  "('s, 'p, 'ek, 'dk) deps \<Rightarrow> bytes \<Rightarrow> InitiatorState \<Rightarrow> bytes \<Rightarrow> bool" where
  "registration_pending D pwd st blinded \<longleftrightarrow>
     initiator_wf st \<and> i_phase st = RegistrationRequested \<and> pwd \<noteq> [] \<and>
     take (i_secure_key_len st) (i_secure_key st) = pwd \<and>
     (\<exists>s. s \<noteq> scalar_zero D \<and> i_private_key st = scalar_bytes D s \<and>
        i_public_key st = point_compress D (base_mul D s)) \<and>
     (\<exists>r. r \<noteq> scalar_zero D \<and> i_blind_scalar st = scalar_bytes D r \<and>
        password_point D pwd \<noteq> point_identity D \<and>
        blinded = point_compress D (point_mul D r (password_point D pwd)))"

lemma create_registration_request_Ok:
  assumes laws: "deps_laws D" and wf: "initiator_wf st"
    and run: "create_registration_request D pwd req st w = (Ok (), req', st', w')"
  shows "registration_pending D pwd st' (rq_data req')"
proof -
  note D [simp] = deps_lawsD [OF laws]
  have guards: "pwd \<noteq> []" "length pwd \<le> 4096" "i_phase st = ICreated" "length (i_secure_key st) = 4096"
    using run wf by (auto simp: create_registration_request_def initiator_wf_def split: if_splits)
  obtain x w1 where x: "random_nonzero_scalar D w = (x, w1)" by fastforce
  obtain y bs w2 where y: "blind D pwd (i_blind_scalar st) w1 = (y, bs, w2)" by (metis prod.collapse)
  from run guards obtain s b where s: "s \<noteq> scalar_zero D" "x = Ok (scalar_bytes D s)" "y = Ok b"
    by (cases rule: random_nonzero_scalar_cases [OF D(6,1) x]; cases y)
      (auto simp: create_registration_request_def x y copy_into_def Let_def)
  then have st': "st' = st\<lparr>i_private_key := scalar_bytes D s, i_public_key := point_compress D (base_mul D s),
      i_secure_key := pwd @ zeros (4096 - length pwd), i_secure_key_len := length pwd, i_blind_scalar := bs,
      i_created_at := fst (instant_now w2), i_phase := RegistrationRequested\<rparr>" "rq_data req' = b"
    using run guards
    by (auto simp: create_registration_request_def x y copy_into_def Let_def zeros_def initiator_refresh_deadline_def
      split: prod.splits)
  obtain r where "r \<noteq> scalar_zero D" "bs = scalar_bytes D r" "password_point D pwd \<noteq> point_identity D"
    "b = point_compress D (point_mul D r (password_point D pwd))"
    using blind_Ok [OF D(6,1) y [unfolded s]] .
  with s st' guards wf show ?thesis by (auto simp: registration_pending_def initiator_wf_def)
qed

lemma create_registration_request_call:
  assumes laws: "deps_laws D" and inv: "initiator_inv st"
  shows "leaves (create_registration_request D pwd req st w)
     (\<lambda>r (req', st', w'). initiator_call ICreated RegistrationRequested st r st')"
proof (cases "pwd = [] \<or> 4096 < length pwd \<or> i_phase st \<noteq> ICreated")
  case True
  with inv show ?thesis
    by (auto simp: create_registration_request_def leaves_def initiator_call_Err)
next
  case False
  note D [simp] = deps_lawsD [OF laws]
  from False inv have [simp]: "initiator_wf st" "i_phase st = ICreated" "\<not> 4096 < length pwd" "length pwd \<le> 4096" "pwd \<noteq> []" by auto
  note wf [simp] = initiator_wf_lengths [OF \<open>initiator_wf st\<close>] initiator_wf_updates
  show ?thesis
    apply (simp add: create_registration_request_def Let_def)
    apply (rule leaves_random_scalar [OF D(6,1)])
    apply (simp add: leaves_def initiator_call_Err)
    apply (simp add: copy_into_def)
    apply (rule leaves_blind [OF D(6,1)])
    apply (simp_all add: leaves_def initiator_call_Err initiator_call_Ok initiator_refresh_deadline_eq)
    done
qed

section \<open>Finalization\<close>

text \<open>Once the server's answer is accepted and unblinded, finalization succeeds.\<close>

definition registration_finalized :: "InitiatorState \<Rightarrow> bytes \<Rightarrow> InitiatorState" where
  "registration_finalized st rpk = st\<lparr>i_phase := RegistrationFinalized,
     i_secure_key := zeros MAX_SECURE_KEY_LENGTH, i_secure_key_len := 0,
     i_blind_scalar := zeros PRIVATE_KEY_LENGTH, i_private_key := zeros PRIVATE_KEY_LENGTH,
     i_responder_public_key := rpk\<rparr>"

lemma registration_finalized_inv:
  "initiator_wf st \<Longrightarrow> length rpk = 32 \<Longrightarrow> initiator_inv (registration_finalized st rpk)"
  by (simp add: registration_finalized_def initiator_inv_def initiator_wf_updates)

lemma registration_finalized_phase [simp]: "i_phase (registration_finalized st rpk) = RegistrationFinalized"
  by (simp add: registration_finalized_def)

lemma finalize_registration_accepts:
  assumes laws: "deps_laws D" and wf: "initiator_wf st" and phase: "i_phase st = RegistrationRequested"
    and fresh: "initiator_is_expired st w = (False, w1)"
    and view: "parse_registration_response resp = Ok view"
    and rpk: "validate_public_key D rpk = Ok ()" "rr_responder_public_key view = rpk"
      "oi_responder_public_key init = rpk"
    and fin: "finalize D pwd (i_blind_scalar st) (rr_evaluated_element view) = Ok out"
    and pwd: "pwd = take (i_secure_key_len st) (i_secure_key st)"
    and rwd: "rwd = randomized_password_of D out pwd"
  obtains env where "finalize_registration D init resp st rec w = (Ok (),
      rec\<lparr>rd_envelope := masking_key_of D rwd @ env_nonce env @ env_ciphertext env @ env_auth_tag env,
          rd_initiator_public_key := i_public_key st\<rparr>,
      registration_finalized st rpk, snd (fill_bytes 24 w1))"
    "seal D rwd rpk (i_private_key st) (i_public_key st) Envelope_new w1 = (Ok (), env, snd (fill_bytes 24 w1))"
    "rwd \<noteq> []"
proof -
  note D [simp] = deps_lawsD [OF laws]
  note lens [simp] = initiator_wf_lengths [OF wf]
  have v: "length resp = 65" "length (rr_evaluated_element view) = 32" "length rpk = 32"
    using registration_response_codec.parse_sound [OF view] registration_response_codec.parse_length [of resp] view rpk
    by (auto simp: registration_response_sized_def)
  have ne: "out \<noteq> []" "pwd \<noteq> []" using finalize_length [OF D(3) fin] finalize_Ok_input [OF fin] by auto
  note r = derive_randomized_password_Ok [OF D(3,4) ne, folded rwd]
  have "rwd \<noteq> []" using r(2) by auto
  obtain env where env: "seal D rwd rpk (i_private_key st) (i_public_key st) Envelope_new w1
      = (Ok (), env, snd (fill_bytes 24 w1))"
    by (rule seal_Ok [OF D(3,5) \<open>rwd \<noteq> []\<close> v(3), of "i_private_key st" "i_public_key st" Envelope_new])
      (simp_all add: Envelope_new_def)
  have "finalize_registration D init resp st rec w = (Ok (),
      rec\<lparr>rd_envelope := masking_key_of D rwd @ env_nonce env @ env_ciphertext env @ env_auth_tag env,
          rd_initiator_public_key := i_public_key st\<rparr>,
      registration_finalized st rpk, snd (fill_bytes 24 w1))"
    using v phase rpk fin pwd r(1) env \<open>rwd \<noteq> []\<close>
    by (simp add: finalize_registration_def fresh view slice_simps derive_masking_key_Ok copy_into_whole
        registration_finalized_def)
  then show thesis using env \<open>rwd \<noteq> []\<close> by (rule that)
qed

text \<open>Otherwise the call fails, and the session is as before or wiped.\<close>

lemma finalize_registration_cases:
  assumes laws: "deps_laws D" and wf: "initiator_wf st"
    and run: "finalize_registration D init resp st rec w = (r, rec', st', w')"
    and pwd: "pwd = take (i_secure_key_len st) (i_secure_key st)"
  obtains e where "Err e = r" "rec' = rec" "st' = st \<or> st' = initiator_invalidate D st"
  | view out w1 where "i_phase st = RegistrationRequested"
      "initiator_is_expired st w = (False, w1)" "parse_registration_response resp = Ok view"
      "validate_public_key D (rr_responder_public_key view) = Ok ()"
      "oi_responder_public_key init = rr_responder_public_key view"
      "finalize D pwd (i_blind_scalar st) (rr_evaluated_element view) = Ok out"
proof (cases "length resp = 65 \<and> i_phase st = RegistrationRequested")
  case False
  with run show thesis by (auto simp: finalize_registration_def intro: that split: if_splits)
next
  case True
  note D [simp] = deps_lawsD [OF laws]
  note lens [simp] = initiator_wf_lengths [OF wf]
  obtain ex w1 where ex: "initiator_is_expired st w = (ex, w1)" by fastforce
  show thesis
  proof (cases "parse_registration_response resp")
    fix view assume view: "parse_registration_response resp = Ok view"
    have v [simp]: "length (rr_evaluated_element view) = 32"
      using registration_response_codec.parse_sound [OF view] by (auto simp: registration_response_sized_def)
    show thesis
    proof (cases "validate_public_key D (rr_responder_public_key view)")
      case (Ok u)
      show thesis
      proof (cases "finalize D pwd (i_blind_scalar st) (rr_evaluated_element view)")
        case fin: (Ok out)
        show thesis
          by (cases "ex \<or> rr_responder_public_key view \<noteq> oi_responder_public_key init")
            (use True run ex view Ok fin in \<open>auto simp: finalize_registration_def intro: that split: if_splits\<close>)
      qed (use True run ex view Ok pwd in
          \<open>auto simp: finalize_registration_def Let_def slice_simps no_panic intro: that split: if_splits\<close>)
    qed (use True run ex view in \<open>auto simp: finalize_registration_def no_panic intro: that split: if_splits\<close>)
  qed (use True run ex in \<open>auto simp: finalize_registration_def no_panic intro: that split: if_splits\<close>)
qed

lemma finalize_registration_call:
  assumes laws: "deps_laws D" and inv: "initiator_inv st"
    and run: "finalize_registration D init resp st rec w = (r, rec', st', w')"
  shows "initiator_call RegistrationRequested RegistrationFinalized st r st'"
proof (cases rule: finalize_registration_cases [OF laws initiator_inv_wf [OF inv] run refl])
  case (1 e)
  with inv laws show ?thesis by (auto intro!: initiator_call_Err simp: initiator_inv_wf)
next
  case accepted: (2 view out w1)
  have "length (rr_responder_public_key view) = 32"
    using registration_response_codec.parse_sound [OF accepted(3)] by (simp add: registration_response_sized_def)
  note len = this
  show ?thesis
    by (rule finalize_registration_accepts
        [OF laws initiator_inv_wf [OF inv] accepted(1-4) refl accepted(5-) refl refl, of rec])
      (use run accepted(1) len in \<open>simp add: registration_finalized_inv initiator_inv_wf [OF inv]
        initiator_call_Ok\<close>)
qed

section \<open>Progress\<close>

lemma create_registration_request_succeeds:
  assumes laws: "deps_laws D" and wf: "initiator_wf st" and phase: "i_phase st = ICreated"
    and pwd: "pwd \<noteq> []" "length pwd \<le> 4096" "password_point D pwd \<noteq> point_identity D"
    and tape: "nonzero_tape D (w_rng w)"
  shows "\<exists>req' st' w'. create_registration_request D pwd req st w = (Ok (), req', st', w')"
proof -
  note D [simp] = deps_lawsD [OF laws]
  obtain s where s: "s \<noteq> scalar_zero D" "random_nonzero_scalar D w = (Ok (scalar_bytes D s), snd (fill_bytes 64 w))"
    using random_nonzero_scalar_tape [OF D(6,1) tape] .
  obtain b bs w2 where b: "blind D pwd (i_blind_scalar st) (snd (fill_bytes 64 w)) = (Ok b, bs, w2)"
    using blind_succeeds [OF D(6,1) nonzero_tape_fill [OF tape] pwd(1,3)] by metis
  show ?thesis
    using s b pwd phase initiator_wf_lengths [OF wf]
    by (simp add: create_registration_request_def copy_into_def initiator_refresh_deadline_eq)
qed

end
