(* ===== verification/Agent_Authentication.thy ===== *)
theory Agent_Authentication
  imports Agent_State
begin

text \<open>
  Model of \<^verbatim>\<open>opaque-agent/src/authentication.rs\<close>: the client's three login handlers.
\<close>

section \<open>Handlers\<close>

definition generate_ke1 ::
  "('s, 'p, 'ek, 'dk) deps \<Rightarrow> bytes \<Rightarrow> bytes \<Rightarrow> Ke1Message \<Rightarrow> InitiatorState \<Rightarrow> world
     \<Rightarrow> unit OpaqueResult \<times> Ke1Message \<times> InitiatorState \<times> world" where
  "generate_ke1 D secure_key account_id ke1 state w =
     (if secure_key = [] \<or> MAX_SECURE_KEY_LENGTH < length secure_key
      then (Err InvalidInput, ke1, state, w)
      else if account_id = [] then (Err InvalidInput, ke1, state, w)
      else if i_phase state \<noteq> ICreated then (Err ValidationError, ke1, state, w)
      else let (expired, w) = initiator_is_expired state w in
      if expired then (Err ValidationError, ke1, initiator_invalidate D state, w)
      else let state = state\<lparr>i_secure_key := zeroize D (i_secure_key state)\<rparr> in
        qmark (copy_into (i_secure_key state) 0 (length secure_key) secure_key) (ke1, state, w) (\<lambda>key_buf.
        let state = state\<lparr>i_secure_key := key_buf, i_secure_key_len := length secure_key,
              i_account_context_hash := sha512_multi D [ACCOUNT_CONTEXT_BINDING, account_id]\<rparr>;
            (r, w) = random_nonzero_scalar D w in
        qmark r (ke1, state, w) (\<lambda>ephemeral_private_key.
        let state = state\<lparr>i_ephemeral_private_key := ephemeral_private_key\<rparr> in
        qmark (scalarmult_base D (i_ephemeral_private_key state)) (ke1, state, w) (\<lambda>ephemeral_public_key.
        let state = state\<lparr>i_ephemeral_public_key := ephemeral_public_key,
              i_pq_public_key := zeros KEM_PUBLIC_KEY_LENGTH,
              i_pq_secret_key := zeros KEM_SECRET_KEY_LENGTH\<rparr>;
            (r, w) = keypair_generate D (i_pq_public_key state) (i_pq_secret_key state) w in
        qmark r (ke1, state, w) (\<lambda>(pq_pk, pq_sk).
        let state = state\<lparr>i_pq_public_key := pq_pk, i_pq_secret_key := pq_sk\<rparr>;
            (r, w) = random_bytes (length (m1_initiator_nonce ke1)) w in
        qmark r (ke1, state, w) (\<lambda>nonce.
        let ke1 = ke1\<lparr>m1_initiator_nonce := nonce\<rparr>;
            state = state\<lparr>i_nonce := m1_initiator_nonce ke1\<rparr>;
            ke1 = ke1\<lparr>m1_initiator_public_key := i_ephemeral_public_key state\<rparr>;
            (r, scalar, w) = blind D secure_key (i_blind_scalar state) w;
            state = state\<lparr>i_blind_scalar := scalar\<rparr> in
        qmark r (ke1, state, w) (\<lambda>credential_request.
        let ke1 = ke1\<lparr>m1_credential_request := credential_request,
              m1_pq_ephemeral_public_key := i_pq_public_key state\<rparr>;
            (state, w) = initiator_refresh_deadline state w in
        (Ok (), ke1, state\<lparr>i_phase := Ke1Generated\<rparr>, w))))))))"

text \<open>
  The closure of \<open>generate_ke3\<close> in two parts: the second runs once the envelope has been
  opened and the recovered server key compared with the pinned one.
\<close>

definition generate_ke3_keys ::
  "('s, 'p, 'ek, 'dk) deps \<Rightarrow> Ke2Ref \<Rightarrow> bytes \<Rightarrow> bytes \<Rightarrow> bytes \<Rightarrow> bytes \<Rightarrow> InitiatorState \<Rightarrow> Ke3Message
     \<Rightarrow> world \<Rightarrow> unit OpaqueResult \<times> Ke3Message \<times> InitiatorState \<times> world" where
  "generate_ke3_keys D view randomized_pwd recovered_rpk recovered_isk recovered_ipk state ke3 w =
     (let responder_nonce = k2_responder_nonce view;
          credential_response = k2_credential_response view;
          kem_ciphertext = k2_kem_ciphertext view in
      qmark (try_into PUBLIC_KEY_LENGTH (k2_responder_public_key view) InvalidProtocolMessage)
        (ke3, state, w) (\<lambda>resp_eph_pk.
      qmark (scalar_mult D recovered_isk recovered_rpk) (ke3, state, w) (\<lambda>dh1.
      qmark (scalar_mult D (i_ephemeral_private_key state) recovered_rpk) (ke3, state, w) (\<lambda>dh2.
      qmark (scalar_mult D recovered_isk resp_eph_pk) (ke3, state, w) (\<lambda>dh3.
      qmark (scalar_mult D (i_ephemeral_private_key state) resp_eph_pk) (ke3, state, w) (\<lambda>dh4.
      qmark (decapsulate D (i_pq_secret_key state) kem_ciphertext (zeros KEM_SHARED_SECRET_LENGTH))
        (ke3, state, w) (\<lambda>kem_ss.
      let state = state\<lparr>i_pq_secret_key := zeroize D (i_pq_secret_key state),
            i_pq_shared_secret := kem_ss\<rparr> in
      qmark (fill_classical_ikm dh1 dh2 dh3 dh4) (ke3, state, w) (\<lambda>classical_ikm.
      qmark (append_all (zeros TRANSCRIPT_INPUT_LENGTH) 0
               [i_ephemeral_public_key state, resp_eph_pk, i_nonce state, responder_nonce,
                recovered_ipk, recovered_rpk, credential_response, i_pq_public_key state,
                kem_ciphertext, i_account_context_hash state]) (ke3, state, w) (\<lambda>(mac_input, off).
      qmark (subslice mac_input 0 off) (ke3, state, w) (\<lambda>mac_input.
      let transcript_hash = sha512_multi D [TRANSCRIPT_CONTEXT, mac_input] in
      qmark (combine_key_material D classical_ikm kem_ss transcript_hash) (ke3, state, w) (\<lambda>prk.
      qmark (key_derivation_expand D prk PQ_SESSION_KEY_INFO HASH_LENGTH) (ke3, state, w) (\<lambda>session_key.
      qmark (key_derivation_expand D prk PQ_RESPONDER_MAC_INFO MAC_LENGTH) (ke3, state, w) (\<lambda>resp_mac_key.
      qmark (hmac_sha512 D resp_mac_key mac_input) (ke3, state, w) (\<lambda>expected_resp_mac.
      if \<not> constant_time_eq D (k2_responder_mac view) expected_resp_mac
      then (Err AuthenticationError, ke3, state, w)
      else qmark (derive_client_export_key D randomized_pwd (i_account_context_hash state)
               EXPORT_KEY_LENGTH) (ke3, state, w) (\<lambda>export_key.
      qmark (key_derivation_expand D prk PQ_INITIATOR_MAC_INFO MAC_LENGTH) (ke3, state, w) (\<lambda>init_mac_key.
      qmark (hmac_sha512 D init_mac_key mac_input) (ke3, state, w) (\<lambda>initiator_mac.
      let ke3 = ke3\<lparr>m3_initiator_mac := initiator_mac\<rparr>;
          state = state\<lparr>i_responder_public_key := recovered_rpk, i_private_key := recovered_isk,
            i_public_key := recovered_ipk, i_export_key := export_key,
            i_session_key := session_key\<rparr>;
          (state, w) = initiator_refresh_deadline state w in
      (Ok (), ke3, state\<lparr>i_phase := Ke3Generated\<rparr>, w))))))))))))))))))"

definition generate_ke3_body ::
  "('s, 'p, 'ek, 'dk) deps \<Rightarrow> OpaqueInitiator \<Rightarrow> bytes \<Rightarrow> InitiatorState \<Rightarrow> Ke3Message \<Rightarrow> world
     \<Rightarrow> unit OpaqueResult \<times> Ke3Message \<times> InitiatorState \<times> world" where
  "generate_ke3_body D initiator ke2_data state ke3 w =
     (let responder_public_key = oi_responder_public_key initiator in
      qmark (validate_public_key D responder_public_key) (ke3, state, w) (\<lambda>_.
      qmark (parse_ke2 ke2_data) (ke3, state, w) (\<lambda>view.
      let responder_nonce = k2_responder_nonce view;
          credential_response = k2_credential_response view in
      qmark (validate_public_key D (k2_responder_public_key view)) (ke3, state, w) (\<lambda>_.
      qmark (subslice credential_response 0 PUBLIC_KEY_LENGTH) (ke3, state, w) (\<lambda>evaluated_elem.
      qmark (slice_from credential_response PUBLIC_KEY_LENGTH) (ke3, state, w) (\<lambda>masked_envelope_data.
      qmark (subslice (i_secure_key state) 0 (i_secure_key_len state)) (ke3, state, w) (\<lambda>secure_key.
      qmark (try_into PUBLIC_KEY_LENGTH evaluated_elem InvalidProtocolMessage) (ke3, state, w) (\<lambda>evaluated.
      qmark (finalize D secure_key (i_blind_scalar state) evaluated) (ke3, state, w) (\<lambda>oprf_output.
      qmark (derive_randomized_password D oprf_output secure_key HASH_LENGTH) (ke3, state, w) (\<lambda>randomized_pwd.
      let state = state\<lparr>i_secure_key := zeroize D (i_secure_key state), i_secure_key_len := 0,
            i_blind_scalar := zeroize D (i_blind_scalar state)\<rparr> in
      qmark (derive_masking_key D randomized_pwd) (ke3, state, w) (\<lambda>masking_key.
      qmark (try_into ENVELOPE_LENGTH masked_envelope_data InvalidProtocolMessage) (ke3, state, w)
        (\<lambda>masked_envelope.
      qmark (mask_credential_envelope D masking_key responder_nonce evaluated_elem
               (i_account_context_hash state) masked_envelope) (ke3, state, w) (\<lambda>envelope_data.
      let ct_size = ENVELOPE_LENGTH - NONCE_LENGTH - SECRETBOX_MAC_LENGTH in
      qmark (subslice envelope_data 0 NONCE_LENGTH) (ke3, state, w) (\<lambda>nonce.
      qmark (subslice envelope_data NONCE_LENGTH (NONCE_LENGTH + ct_size)) (ke3, state, w) (\<lambda>ciphertext.
      qmark (slice_from envelope_data (NONCE_LENGTH + ct_size)) (ke3, state, w) (\<lambda>auth_tag.
      qmark (open_raw D nonce ciphertext auth_tag randomized_pwd responder_public_key) (ke3, state, w)
        (\<lambda>(recovered_rpk, recovered_isk, recovered_ipk).
      if \<not> constant_time_eq D recovered_rpk responder_public_key
      then (Err AuthenticationError, ke3, state, w)
      else generate_ke3_keys D view randomized_pwd recovered_rpk recovered_isk recovered_ipk
             state ke3 w)))))))))))))))))"

definition ke3_result ::
  "('s, 'p, 'ek, 'dk) deps \<Rightarrow> unit OpaqueResult \<times> Ke3Message \<times> InitiatorState \<times> world
     \<Rightarrow> unit OpaqueResult \<times> Ke3Message \<times> InitiatorState \<times> world" where
  "ke3_result D result =
     (case result of (r, ke3, state, w) \<Rightarrow>
        (case r of
           Ok u \<Rightarrow> (Ok u, ke3, state, w)
         | Err err \<Rightarrow> (Err err, ke3, initiator_invalidate D state, w)
         | Panic \<Rightarrow> (Panic, ke3, state, w)))"

definition generate_ke3 ::
  "('s, 'p, 'ek, 'dk) deps \<Rightarrow> OpaqueInitiator \<Rightarrow> bytes \<Rightarrow> InitiatorState \<Rightarrow> Ke3Message \<Rightarrow> world
     \<Rightarrow> unit OpaqueResult \<times> Ke3Message \<times> InitiatorState \<times> world" where
  "generate_ke3 D initiator ke2_data state ke3 w =
     (if length ke2_data \<noteq> KE2_LENGTH then (Err InvalidProtocolMessage, ke3, state, w)
      else if i_phase state \<noteq> Ke1Generated then (Err ValidationError, ke3, state, w)
      else let (expired, w) = initiator_is_expired state w in
      if expired then (Err ValidationError, ke3, initiator_invalidate D state, w)
      else if is_all_zero D (i_account_context_hash state) then (Err ValidationError, ke3, state, w)
      else ke3_result D (generate_ke3_body D initiator ke2_data state ke3 w))"

text \<open>\<open>initiator_finish\<close> overwrites the caller's two key buffers on success only.\<close>

definition initiator_finish ::
  "('s, 'p, 'ek, 'dk) deps \<Rightarrow> InitiatorState \<Rightarrow> bytes \<Rightarrow> bytes
     \<Rightarrow> unit OpaqueResult \<times> bytes \<times> bytes \<times> InitiatorState" where
  "initiator_finish D state session_key export_key =
     (if i_phase state \<noteq> Ke3Generated then (Err ValidationError, session_key, export_key, state)
      else if is_all_zero D (i_session_key state)
      then (Err InvalidInput, session_key, export_key, initiator_invalidate D state)
      else qmark (copy_into session_key 0 (length session_key) (i_session_key state))
          (session_key, export_key, state) (\<lambda>session_key.
        qmark (copy_into export_key 0 (length export_key) (i_export_key state))
          (session_key, export_key, state) (\<lambda>export_key.
        let state = state\<lparr>i_session_key := zeroize D (i_session_key state),
              i_export_key := zeroize D (i_export_key state),
              i_pq_shared_secret := zeroize D (i_pq_shared_secret state),
              i_pq_secret_key := zeroize D (i_pq_secret_key state),
              i_secure_key := zeroize D (i_secure_key state), i_secure_key_len := 0,
              i_account_context_hash := zeroize D (i_account_context_hash state),
              i_blind_scalar := zeroize D (i_blind_scalar state),
              i_private_key := zeroize D (i_private_key state),
              i_ephemeral_private_key := zeroize D (i_ephemeral_private_key state)\<rparr> in
        (Ok (), session_key, export_key, state\<lparr>i_phase := IFinished\<rparr>))))"


section \<open>What the client recovers from KE2\<close>

record Recovered =
  rc_rpk :: bytes
  rc_isk :: bytes
  rc_ipk :: bytes
  rc_rwd :: bytes
  rc_kem_ss :: bytes
  rc_prk :: bytes
  rc_transcript :: bytes

text \<open>
  The specification of the closure: no buffers, no wiping, no intermediate states. It fails
  with the first error of the code's sequence of checks.
\<close>

definition recover_keys ::
  "('s, 'p, 'ek, 'dk) deps \<Rightarrow> InitiatorState \<Rightarrow> Ke2Ref \<Rightarrow> bytes \<Rightarrow> bytes \<Rightarrow> bytes \<Rightarrow> bytes \<Rightarrow> Recovered OpaqueResult" where
  "recover_keys D st m rwd rpk isk ipk =
     (let reph = k2_responder_public_key m in
      and_then (scalar_mult D isk rpk) (\<lambda>dh1.
      and_then (scalar_mult D (i_ephemeral_private_key st) rpk) (\<lambda>dh2.
      and_then (scalar_mult D isk reph) (\<lambda>dh3.
      and_then (scalar_mult D (i_ephemeral_private_key st) reph) (\<lambda>dh4.
      and_then (decapsulate D (i_pq_secret_key st) (k2_kem_ciphertext m) (zeros 32)) (\<lambda>ss.
      let tr = transcript (i_ephemeral_public_key st) reph (i_nonce st)
                 (k2_responder_nonce m) ipk rpk (k2_credential_response m) (i_pq_public_key st)
                 (k2_kem_ciphertext m) (i_account_context_hash st);
          prk = schedule_prk D (dh1 @ dh2 @ dh3 @ dh4) ss tr in
      if k2_responder_mac m \<noteq> responder_mac_of D prk tr then Err AuthenticationError
      else Ok \<lparr>rc_rpk = rpk, rc_isk = isk, rc_ipk = ipk, rc_rwd = rwd, rc_kem_ss = ss,
        rc_prk = prk, rc_transcript = tr\<rparr>))))))"

definition recover_session ::
  "('s, 'p, 'ek, 'dk) deps \<Rightarrow> bytes \<Rightarrow> bytes \<Rightarrow> InitiatorState \<Rightarrow> Recovered OpaqueResult" where
  "recover_session D rpk ke2_data st =
     and_then (validate_public_key D rpk) (\<lambda>_.
     and_then (parse_ke2 ke2_data) (\<lambda>m.
     and_then (validate_public_key D (k2_responder_public_key m)) (\<lambda>_.
     let pwd = take (i_secure_key_len st) (i_secure_key st);
         ev = take 32 (k2_credential_response m) in
     and_then (finalize D pwd (i_blind_scalar st) ev) (\<lambda>out.
     let rwd = randomized_password_of D out pwd in
     and_then (mask_credential_envelope D (masking_key_of D rwd) (k2_responder_nonce m) ev
                 (i_account_context_hash st) (drop 32 (k2_credential_response m))) (\<lambda>env.
     and_then (open_raw D (take 24 env) (take 96 (drop 24 env)) (drop 120 env) rwd rpk) (\<lambda>(rpk', isk, ipk).
     if rpk' \<noteq> rpk then Err AuthenticationError
     else recover_keys D st m rwd rpk' isk ipk))))))"

definition established :: "('s, 'p, 'ek, 'dk) deps \<Rightarrow> InitiatorState \<Rightarrow> Recovered \<Rightarrow> nat \<Rightarrow> InitiatorState" where
  "established D st S now = st\<lparr>
     i_phase := Ke3Generated, i_created_at := now,
     i_secure_key := zeros MAX_SECURE_KEY_LENGTH, i_secure_key_len := 0,
     i_private_key := rc_isk S, i_public_key := rc_ipk S, i_responder_public_key := rc_rpk S,
     i_session_key := session_key_of D (rc_prk S), i_blind_scalar := zeros PRIVATE_KEY_LENGTH,
     i_export_key := client_export_key_of D (rc_rwd S) (i_account_context_hash st),
     i_pq_secret_key := zeros KEM_SECRET_KEY_LENGTH, i_pq_shared_secret := rc_kem_ss S\<rparr>"

definition ke3_expected ::
  "('s, 'p, 'ek, 'dk) deps \<Rightarrow> InitiatorState \<Rightarrow> Ke3Message \<Rightarrow> world \<Rightarrow> Recovered OpaqueResult
     \<Rightarrow> unit OpaqueResult \<times> Ke3Message \<times> InitiatorState \<times> world" where
  "ke3_expected D st ke3 w r =
     (case r of
        Ok S \<Rightarrow> (Ok (), ke3\<lparr>m3_initiator_mac := initiator_mac_of D (rc_prk S) (rc_transcript S)\<rparr>,
                 established D st S (fst (instant_now w)), snd (instant_now w))
      | Err e \<Rightarrow> (Err e, ke3, initiator_invalidate D st, w)
      | Panic \<Rightarrow> (Panic, ke3, st, w))"

text \<open>One step of the code against one step of the specification.\<close>

lemma ke3_step:
  assumes "\<And>x. r = Ok x \<Longrightarrow> ke3_result D (k x) = ke3_expected D st ke3 w (g x)"
    and "r \<noteq> Panic" "initiator_invalidate D s = initiator_invalidate D st"
  shows "ke3_result D (qmark r (ke3, s, w) k) = ke3_expected D st ke3 w (and_then r g)"
  using assms by (cases r) (auto simp: ke3_result_def ke3_expected_def)

lemma ke3_ok: "r = Ok v \<Longrightarrow> ke3_result D (k v) = E \<Longrightarrow> ke3_result D (qmark r s k) = E"
  by simp

lemma ke3_fail:
  "initiator_invalidate D s = initiator_invalidate D st \<Longrightarrow>
     ke3_result D (Err e, ke3, s, w) = ke3_expected D st ke3 w (Err e)"
  by (simp add: ke3_result_def ke3_expected_def)

text \<open>Whatever the closure has wiped or filled in, invalidation leaves the same state.\<close>

definition ke3_progress :: "('s, 'p, 'ek, 'dk) deps \<Rightarrow> InitiatorState \<Rightarrow> InitiatorState" where
  "ke3_progress D st = st\<lparr>i_secure_key := zeroize D (i_secure_key st), i_secure_key_len := 0,
     i_blind_scalar := zeroize D (i_blind_scalar st)\<rparr>"

lemma invalidate_absorbs:
  assumes "zeroize_laws D" "initiator_wf st"
  shows "initiator_invalidate D (ke3_progress D st) = initiator_invalidate D st"
    and "length ss = 32 \<Longrightarrow> initiator_invalidate D ((ke3_progress D st)\<lparr>i_pq_secret_key := zeros 2400,
           i_pq_shared_secret := ss\<rparr>) = initiator_invalidate D st"
  using assms
  by (simp_all add: ke3_progress_def initiator_invalidate_def initiator_zeroize_def initiator_wf_def)

lemma generate_ke3_keys_refines:
  assumes laws: "deps_laws D" and wf: "initiator_wf st" and ctx: "i_account_context_hash st \<noteq> zeros 64"
    and m: "ke2_sized m" and lens: "length rpk = 32" "length ipk = 32" "rwd \<noteq> []"
  shows "ke3_result D (generate_ke3_keys D m rwd rpk isk ipk (ke3_progress D st) ke3 w)
     = ke3_expected D st ke3 w (recover_keys D st m rwd rpk isk ipk)"
proof -
  note D [simp] = deps_lawsD [OF laws]
  note absorbs [simp] = invalidate_absorbs [OF D(2) wf]
  have fields [simp]: "i_ephemeral_private_key (ke3_progress D st) = i_ephemeral_private_key st"
    "i_ephemeral_public_key (ke3_progress D st) = i_ephemeral_public_key st"
    "i_pq_secret_key (ke3_progress D st) = i_pq_secret_key st"
    "i_pq_public_key (ke3_progress D st) = i_pq_public_key st" "i_nonce (ke3_progress D st) = i_nonce st"
    "i_account_context_hash (ke3_progress D st) = i_account_context_hash st"
    by (simp_all add: ke3_progress_def)
  have wfs [simp]: "length (i_account_context_hash st) = 64" "length (i_nonce st) = 24" 
    "length (i_ephemeral_public_key st) = 32" "length (i_pq_public_key st) = 1184" "length (i_pq_secret_key st) = 2400"
    using wf by (auto simp: initiator_wf_def)
  have [simp]: "length (k2_credential_response m) = 168" "length (k2_responder_nonce m) = 24"
    "length (k2_responder_public_key m) = 32" "length (k2_kem_ciphertext m) = 1088"
    using m by (auto simp: ke2_sized_def)
  show ?thesis
    unfolding generate_ke3_keys_def recover_keys_def Let_def KEM_SHARED_SECRET_LENGTH_def fields
    apply (rule ke3_ok, simp add: slice_simps)
    apply (rule ke3_step, rule ke3_step, rule ke3_step, rule ke3_step, rule ke3_step)
    subgoal premises prems for dh1 dh2 dh3 dh4 ss
    proof -
      have [simp]: "length dh1 = 32" "length dh2 = 32" "length dh3 = 32" "length dh4 = 32" "length ss = 32"
         using prems(1-4)[THEN scalar_mult_length [OF D(6,1)]] decapsulate_length [OF D(7) prems(5)] by auto
      have tr: "transcript_sized (i_ephemeral_public_key st) (k2_responder_public_key m) (i_nonce st)
        (k2_responder_nonce m) ipk rpk (k2_credential_response m) (i_pq_public_key st)
        (k2_kem_ciphertext m) (i_account_context_hash st)"
        using lens by (simp add: transcript_sized_def)
      note tr = append_transcript [OF tr]
      show ?thesis
        using lens ctx tr(2,3)
        by (simp add: fill_classical_ikm_Ok tr [simplified] slice_simps combine_schedule schedule_expand
            responder_mac_of_def derive_client_export_key_Ok ke3_fail)
          (simp add: ke3_result_def ke3_expected_def established_def initiator_refresh_deadline_def
            ke3_progress_def instant_now_def session_key_of_def initiator_mac_of_def
            client_export_key_of_def wf [unfolded initiator_wf_def])
    qed
    by (simp_all add: no_panic)
qed


lemma generate_ke3_body_refines:
  assumes laws: "deps_laws D" and wf: "initiator_wf st" and ctx: "i_account_context_hash st \<noteq> zeros 64"
  shows "ke3_result D (generate_ke3_body D init ke2_data st ke3 w)
     = ke3_expected D st ke3 w (recover_session D (oi_responder_public_key init) ke2_data st)"
proof -
  note D [simp] = deps_lawsD [OF laws]
  note absorbs [simp] = invalidate_absorbs [OF D(2) wf]
  have wfs [simp]: "length (i_secure_key st) = 4096" "i_secure_key_len st \<le> 4096"
    using wf by (auto simp: initiator_wf_def)
  have ctx_field [simp]: "i_account_context_hash (ke3_progress D st) = i_account_context_hash st"
    by (simp add: ke3_progress_def)
  show ?thesis
    unfolding generate_ke3_body_def recover_session_def Let_def ke3_progress_def [symmetric]
    apply (rule ke3_step, rule ke3_step, rule ke3_step)
    subgoal premises prems for x m y
    proof -
      have sized: "ke2_sized m" using ke2_codec.parse_sound [OF prems(2)] by simp
      then have [simp]: "length (k2_credential_response m) = 168" "length (k2_responder_nonce m) = 24"
        by (simp_all add: ke2_sized_def)
      show ?thesis
        apply (simp add: slice_simps)
        apply (rule ke3_step)
        subgoal premises prems for out
        proof -
          let ?pwd = "take (i_secure_key_len st) (i_secure_key st)"
          have out: "out \<noteq> []" "?pwd \<noteq> []"
            using finalize_length [OF D(3) prems] finalize_Ok_input [OF prems] by auto
          note rwd = derive_randomized_password_Ok [OF D(3,4) out]
          have rwd': "randomized_password_of D out ?pwd \<noteq> []" using rwd(2) by auto
          show ?thesis
            apply (simp add: rwd derive_masking_key_Ok rwd' slice_simps)
            apply (rule ke3_step)
            subgoal premises prems for env
            proof -
              have "length env = 136"
                using mask_credential_envelope_length [OF D(3,1) _ prems] by simp
              then show ?thesis
                apply (simp add: slice_simps)
                apply (rule ke3_step)
                apply (auto simp: ke3_fail no_panic intro!: generate_ke3_keys_refines [OF laws wf ctx sized]
                    elim!: open_raw_Ok [OF D(6,1)])
                done
            qed
            apply (simp_all add: no_panic)
            done
        qed
        by (simp_all add: no_panic)
    qed
    by (simp_all add: no_panic ke2_codec.parse_no_panic)
qed


section \<open>KE1\<close>

text \<open>What a client that has sent KE1 holds.\<close>

definition login_pending ::
  "('s, 'p, 'ek, 'dk) deps \<Rightarrow> bytes \<Rightarrow> bytes \<Rightarrow> InitiatorState \<Rightarrow> Ke1Message \<Rightarrow> bool" where
  "login_pending D pwd account_id st ke1 \<longleftrightarrow>
     initiator_wf st \<and> i_phase st = Ke1Generated \<and> pwd \<noteq> [] \<and>
     take (i_secure_key_len st) (i_secure_key st) = pwd \<and>
     i_account_context_hash st = account_context D account_id \<and>
     (\<exists>s. s \<noteq> scalar_zero D \<and> i_ephemeral_private_key st = scalar_bytes D s \<and>
        i_ephemeral_public_key st = point_compress D (base_mul D s)) \<and>
     (\<exists>r. r \<noteq> scalar_zero D \<and> i_blind_scalar st = scalar_bytes D r \<and>
        password_point D pwd \<noteq> point_identity D \<and>
        m1_credential_request ke1 = point_compress D (point_mul D r (password_point D pwd))) \<and>
     (\<exists>ek dk rng rng'. kem_generate D rng = ((dk, ek), rng') \<and>
        i_pq_public_key st = ek_to_bytes D ek \<and> i_pq_secret_key st = dk_to_expanded D dk) \<and>
     m1_initiator_public_key ke1 = i_ephemeral_public_key st \<and>
     m1_initiator_nonce ke1 = i_nonce st \<and> m1_pq_ephemeral_public_key ke1 = i_pq_public_key st"

lemma generate_ke1_call:
  assumes laws: "deps_laws D" and inv: "initiator_inv st" and ke1: "length (m1_initiator_nonce ke1) = 24"
  shows "leaves (generate_ke1 D pwd account_id ke1 st w)
     (\<lambda>r (ke1', st', w'). initiator_call ICreated Ke1Generated st r st' \<and>
        (r = Ok () \<longrightarrow> login_pending D pwd account_id st' ke1'))"
proof (cases "pwd = [] \<or> 4096 < length pwd \<or> account_id = [] \<or> i_phase st \<noteq> ICreated")
  case True
  with inv show ?thesis by (auto simp: generate_ke1_def leaves_def initiator_call_Err)
next
  case False
  note D [simp] = deps_lawsD [OF laws]
  from False inv have [simp]: "initiator_wf st" "i_phase st = ICreated" "\<not> 4096 < length pwd"
    "length pwd \<le> 4096" "pwd \<noteq> []" "account_id \<noteq> []" by auto
  note wf [simp] = initiator_wf_lengths [OF \<open>initiator_wf st\<close>] initiator_wf_updates
  show ?thesis
    apply (simp add: generate_ke1_def Let_def copy_into_def ke1)
    apply (rule leaves_random_scalar [OF D(6,1)])
     apply (simp add: leaves_def initiator_call_Err)
    apply simp
    apply (rule leaves_keypair [OF D(7)], simp, simp)
    apply simp
    apply (rule leaves_blind [OF D(6,1)])
    apply (simp_all add: leaves_def initiator_call_Err initiator_call_Ok initiator_refresh_deadline_eq login_pending_def account_context_def)
    apply blast
    done
qed

section \<open>KE3 and the end of the session\<close>

lemma recover_session_no_panic: "deps_laws D \<Longrightarrow> recover_session D rpk ke2 st \<noteq> Panic"
  by (auto simp: recover_session_def recover_keys_def result_simps no_panic Let_def split: if_splits prod.splits)

lemma recover_session_Ok:
  assumes laws: "deps_laws D" and run: "recover_session D rpk ke2_data st = Ok S"
  obtains m where "parse_ke2 ke2_data = Ok m" "rc_rpk S = rpk" "length rpk = 32" "length (rc_isk S) = 32"
    "length (rc_ipk S) = 32" "length (rc_kem_ss S) = 32"
    "rc_transcript S = transcript (i_ephemeral_public_key st) (k2_responder_public_key m) (i_nonce st)
       (k2_responder_nonce m) (rc_ipk S) rpk (k2_credential_response m) (i_pq_public_key st)
       (k2_kem_ciphertext m) (i_account_context_hash st)"
    "k2_responder_mac m = responder_mac_of D (rc_prk S) (rc_transcript S)"
proof -
  note D [simp] = deps_lawsD [OF laws]
  have "length rpk = 32" if "validate_public_key D rpk = Ok ()" 
     using that by (auto simp: validate_public_key_Ok_iff)
  then show thesis
  using run that
  apply (auto simp: recover_session_def recover_keys_def result_simps Let_def split: if_splits prod.splits
    elim!: open_raw_Ok [OF D(6,1)] dest!: decapsulate_length [OF D(7)])
  done
qed

lemma generate_ke3_refines:
  assumes laws: "deps_laws D" and wf: "initiator_wf st" and phase: "i_phase st = Ke1Generated"
    and len: "length ke2_data = KE2_LENGTH" and fresh: "initiator_is_expired st w = (False, w1)"
    and ctx: "i_account_context_hash st \<noteq> zeros 64"
  shows "generate_ke3 D init ke2_data st ke3 w =
     ke3_expected D st ke3 w1 (recover_session D (oi_responder_public_key init) ke2_data st)"
  using assms
  by (simp add: generate_ke3_def initiator_wf_lengths generate_ke3_body_refines [simplified] del: len)

lemma established_inv:
  assumes "deps_laws D" "initiator_wf st" "recover_session D rpk ke2_data st = Ok S"
  shows "initiator_inv (established D st S now)" "i_phase (established D st S now) = Ke3Generated"
  by (rule recover_session_Ok [OF assms(1,3)])
    (use assms(1,2) in \<open>simp_all add: initiator_inv_def established_def initiator_wf_updates\<close>)

lemma ke3_expected_call:
  assumes laws: "deps_laws D" and wf: "initiator_wf st" and phase: "i_phase st = Ke1Generated"
    and run: "ke3_expected D st ke3 w (recover_session D rpk ke2_data st) = (r, ke3', st', w')"
  shows "initiator_call Ke1Generated Ke3Generated st r st'"
proof (cases "recover_session D rpk ke2_data st")
  case (Ok S)
  with assms show ?thesis
    by (auto simp: ke3_expected_def initiator_call_Ok established_inv)
next
  case (Err e)
  with assms show ?thesis by (auto simp: ke3_expected_def initiator_call_Err)
qed (use recover_session_no_panic [OF laws] in auto)

lemma generate_ke3_call:
  assumes laws: "deps_laws D" and inv: "initiator_inv st"
    and run: "generate_ke3 D init ke2_data st ke3 w = (r, ke3', st', w')"
  shows "initiator_call Ke1Generated Ke3Generated st r st'"
proof -
  obtain ex w1 where ex: "initiator_is_expired st w = (ex, w1)" by fastforce
  show ?thesis
  proof (cases "length ke2_data = KE2_LENGTH \<and> i_phase st = Ke1Generated \<and> \<not> ex
      \<and> i_account_context_hash st \<noteq> zeros 64")
    case True
    with run ex show ?thesis
      by (auto simp: generate_ke3_refines [OF laws initiator_inv_wf [OF inv]] simp del: KE2_LENGTH_def
          intro: ke3_expected_call [OF laws initiator_inv_wf [OF inv]])
  next
    case False
    with run ex laws inv show ?thesis
      by (auto simp: generate_ke3_def initiator_call_Err initiator_inv_wf
          initiator_wf_lengths [OF initiator_inv_wf [OF inv]] split: if_splits)
  qed
qed

text \<open>
  Finishing hands out the two keys exactly once: it succeeds in the phase after KE3 if the
  session key is not all zero, and the state it leaves holds no secret.
\<close>

lemma initiator_finish_eq:
  assumes laws: "deps_laws D" and wf: "initiator_wf st" and out: "length sk = 64" "length ek = 32"
  shows "initiator_finish D st sk ek =
     (if i_phase st \<noteq> Ke3Generated then (Err ValidationError, sk, ek, st)
      else if i_session_key st = zeros 64 then (Err InvalidInput, sk, ek, initiator_invalidate D st)
      else (Ok (), i_session_key st, i_export_key st,
        st\<lparr>i_phase := IFinished, i_session_key := zeros 64, i_export_key := zeros 32,
           i_pq_shared_secret := zeros 32, i_pq_secret_key := zeros 2400, i_secure_key := zeros 4096,
           i_secure_key_len := 0, i_account_context_hash := zeros 64, i_blind_scalar := zeros 32,
           i_private_key := zeros 32, i_ephemeral_private_key := zeros 32\<rparr>))"
  using laws out initiator_wf_lengths [OF wf] by (simp add: initiator_finish_def copy_into_whole)

lemma initiator_finish_call:
  assumes laws: "deps_laws D" and inv: "initiator_inv st" and out: "length sk = 64" "length ek = 32"
    and run: "initiator_finish D st sk ek = (r, sk', ek', st')"
  shows "initiator_call Ke3Generated IFinished st r st'" "r = Ok () \<or> sk' = sk \<and> ek' = ek"
  using run laws inv
  by (auto simp: initiator_finish_eq [OF laws initiator_inv_wf [OF inv] out] initiator_inv_wf
      initiator_call_Err split: if_splits
      intro!: initiator_call_Ok)
    (auto simp: initiator_inv_defs)

section \<open>Progress\<close>

lemma generate_ke1_succeeds:
  assumes laws: "deps_laws D" and wf: "initiator_wf st" and phase: "i_phase st = ICreated"
    and pwd: "pwd \<noteq> []" "length pwd \<le> 4096" "password_point D pwd \<noteq> point_identity D" and a: "account_id \<noteq> []"
    and ke1: "length (m1_initiator_nonce ke1) = 24"
    and tape: "nonzero_tape D (w_rng w)" "nonzero_tape D (snd (kem_generate D (w_rng (snd (fill_bytes 64 w)))))"
  shows "\<exists>ke1' st' w'. generate_ke1 D pwd account_id ke1 st w = (Ok (), ke1', st', w')"
proof -
  note D [simp] = deps_lawsD [OF laws]
  let ?w1 = "snd (fill_bytes 64 w)"
  obtain s where s: "s \<noteq> scalar_zero D" "random_nonzero_scalar D w = (Ok (scalar_bytes D s), ?w1)"
    using random_nonzero_scalar_tape [OF D(6,1) tape(1)] .
  obtain dk ek rng where g: "kem_generate D (w_rng ?w1) = ((dk, ek), rng)" by (metis surj_pair)
  then have "nonzero_tape D (w_rng (?w1\<lparr>w_rng := rng\<rparr>))" using tape(2) by simp
  then obtain b bs w2 where
    "blind D pwd (i_blind_scalar st) (snd (fill_bytes 24 (?w1\<lparr>w_rng := rng\<rparr>))) = (Ok b, bs, w2)"
    using blind_succeeds [OF D(6,1) nonzero_tape_fill pwd(1,3)] by metis
  with s g pwd a phase ke1 initiator_wf_lengths [OF wf] show ?thesis
    by (simp add: generate_ke1_def copy_into_def keypair_generate_Ok initiator_refresh_deadline_eq)
qed

section \<open>A session over the sample dependencies\<close>

definition sample_awaiting :: InitiatorState where
  "sample_awaiting = (fst (InitiatorState_new sample_world))
     \<lparr>i_phase := Ke1Generated, i_account_context_hash := replicate 64 1\<rparr>"

lemma sample_awaiting_props:
  "initiator_wf sample_awaiting" "i_phase sample_awaiting = Ke1Generated"
  "i_account_context_hash sample_awaiting \<noteq> zeros 64"
  "initiator_is_expired sample_awaiting sample_world = (False, snd (instant_now sample_world))"
  using InitiatorState_new_props [of sample_world]
  by (simp_all add: sample_awaiting_def initiator_wf_updates zeros_def)
    (simp add: initiator_is_expired_def InitiatorState_new_def instant_now_def sample_world_def
      checked_duration_since_def as_secs_def)

lemma sample_awaiting_rejects:
  "recover_session sample (z3_encode Z2) (zeros 1377) sample_awaiting = Err UnsupportedVersion"
proof -
  have "parse_ke2 (zeros 1377) = Err UnsupportedVersion"
    using ke2_codec.parse_version [of "zeros 1377"] by (simp add: zeros_def)
  moreover have "validate_public_key sample (z3_encode Z2) = Ok ()" using validate_compress(1) [of sample Z2] by simp
  ultimately show ?thesis by (simp add: recover_session_def)
qed

section \<open>Properties\<close>

text \<open>
  A new session, a password of 1 to 4096 bytes that does not hash to the identity and a
  non-empty account always get a KE1 message, unless the random source fails; message and
  session then hold the same ephemeral key, nonce and KEM key, the session holds the
  matching secrets, and the request is the blinded password point.
\<close>

lemma ke1_progress:
  assumes "deps_laws D" "initiator_inv st" "i_phase st = ICreated"
    and "pwd \<noteq> []" "length pwd \<le> MAX_SECURE_KEY_LENGTH" "password_point D pwd \<noteq> point_identity D" "account_id \<noteq> []"
    and "nonzero_tape D (w_rng w)" "nonzero_tape D (snd (kem_generate D (w_rng (snd (fill_bytes 64 w)))))"
  shows "\<exists>ke1 st' w'. generate_ke1 D pwd account_id Ke1Message_new st w = (Ok (), ke1, st', w') \<and>
     login_pending D pwd account_id st' ke1"
proof -
  have n: "length (m1_initiator_nonce Ke1Message_new) = 24" by (simp add: Ke1Message_new_def)
  obtain ke1 st' w' where run: "generate_ke1 D pwd account_id Ke1Message_new st w = (Ok (), ke1, st', w')"
    using generate_ke1_succeeds [of D st pwd account_id Ke1Message_new w] assms n by (auto simp: initiator_inv_wf)
  with leavesD [OF generate_ke1_call [OF assms(1,2) n] run] show ?thesis by auto
qed

text \<open>
  C4: \<open>generate_ke3\<close> implements its specification on every exit. Its guards come in the
  order length, phase, deadline, account context; behind them the call succeeds exactly
  when \<open>recover_session\<close> does, the message and the new state are the ones derived from the
  recovered session, and every error is passed on with the state wiped, however far the
  stepwise computation got.
\<close>

theorem generate_ke3_exact:
  assumes "deps_laws D" "initiator_wf st" "initiator_is_expired st w = (ex, w1)"
  shows "generate_ke3 D init ke2_data st ke3 w =
     (if length ke2_data \<noteq> KE2_LENGTH then (Err InvalidProtocolMessage, ke3, st, w)
      else if i_phase st \<noteq> Ke1Generated then (Err ValidationError, ke3, st, w)
      else if ex then (Err ValidationError, ke3, initiator_invalidate D st, w1)
      else if i_account_context_hash st = zeros 64 then (Err ValidationError, ke3, st, w1)
      else ke3_expected D st ke3 w1 (recover_session D (oi_responder_public_key init) ke2_data st))"
proof (cases "length ke2_data = KE2_LENGTH \<and> i_phase st = Ke1Generated \<and> \<not> ex \<and> i_account_context_hash st \<noteq> zeros 64")
  case True
  then show ?thesis using generate_ke3_refines [OF assms(1,2), of ke2_data w w1 init ke3] assms(3) by simp
next
  case False
  then show ?thesis
    using deps_lawsD [OF assms(1)] initiator_wf_lengths [OF assms(2)] assms(3) by (auto simp: generate_ke3_def)
qed

theorem generate_ke3_exact_witness:
  "generate_ke3 sample \<lparr>oi_responder_public_key = z3_encode Z2\<rparr> (zeros 1377) sample_awaiting Ke3Message_new sample_world
   = (Err UnsupportedVersion, Ke3Message_new, initiator_invalidate sample sample_awaiting, snd (instant_now sample_world))"
  using generate_ke3_exact [OF sample_laws sample_awaiting_props(1,4)] sample_awaiting_props(2,3)
  by (simp add: sample_awaiting_rejects ke3_expected_def)

text \<open>
  A login that fails leaves nothing behind. Once KE1 has been sent, a full-length KE2
  that the client does not accept, for whatever reason, ends the session with every secret
  wiped, and the caller's KE3 message is not written.
\<close>

lemma ke3_failure_wipes:
  assumes "deps_laws D" "initiator_wf st" "i_phase st = Ke1Generated" "i_account_context_hash st \<noteq> zeros 64"
    and "length ke2_data = KE2_LENGTH"
    and "generate_ke3 D init ke2_data st ke3 w = (Err e, ke3', st', w')"
  shows "ke3' = ke3 \<and> i_phase st' = IFinished \<and> initiator_wiped st'"
proof -
  obtain ex w1 where ex: "initiator_is_expired st w = (ex, w1)" by fastforce
  have "ke3' = ke3 \<and> st' = initiator_invalidate D st"
  proof (cases ex)
    case True
    then show ?thesis using assms deps_lawsD [OF assms(1)] ex by (simp add: generate_ke3_def)
  next
    case False
    then show ?thesis
      using generate_ke3_refines [OF assms(1-3,5) _ assms(4), of w w1 init ke3] assms(6) ex
        recover_session_no_panic [OF assms(1)]
      by (auto simp: ke3_expected_def split: result.splits)
  qed
  then show ?thesis using deps_lawsD(2) [OF assms(1)] assms(2) by simp
qed

text \<open>
  \<open>initiator_finish\<close> on every exit: it hands out the session key and the export key in
  the one phase after KE3 unless the session key is all zero, and leaves a state from which
  every secret is wiped. The deadline of the session plays no part in it.
\<close>

lemma initiator_finish_exact:
  assumes "deps_laws D" "initiator_wf st" "length sk = HASH_LENGTH" "length ek = EXPORT_KEY_LENGTH"
  shows "\<exists>done_st. initiator_wiped done_st \<and> i_phase done_st = IFinished \<and> initiator_finish D st sk ek =
     (if i_phase st \<noteq> Ke3Generated then (Err ValidationError, sk, ek, st)
      else if i_session_key st = zeros 64 then (Err InvalidInput, sk, ek, initiator_invalidate D st)
      else (Ok (), i_session_key st, i_export_key st, done_st))"
  by (rule exI [of _ "st\<lparr>i_phase := IFinished, i_session_key := zeros 64, i_export_key := zeros 32,
           i_pq_shared_secret := zeros 32, i_pq_secret_key := zeros 2400, i_secure_key := zeros 4096,
           i_secure_key_len := 0, i_account_context_hash := zeros 64, i_blind_scalar := zeros 32,
           i_private_key := zeros 32, i_ephemeral_private_key := zeros 32\<rparr>"])
    (use assms in \<open>simp add: initiator_finish_eq initiator_wiped_def\<close>)

end
