(* ===== verification/Session_Machine.thy ===== *)
theory Session_Machine
  imports Opaque_Prelude "HOL-Library.Sublist"
begin

text \<open>
  The contract both session types keep: a call either succeeds along one edge of a graph of
  phases, or fails and leaves the phase alone or ends the session. The locale derives, once
  for both roles, what holds of every sequence of calls.
\<close>

section \<open>Sequences of calls\<close>

inductive run :: "('st \<Rightarrow> 'ev \<Rightarrow> 'st \<Rightarrow> bool) \<Rightarrow> 'st \<Rightarrow> 'ev list \<Rightarrow> 'st \<Rightarrow> bool"
  for step :: "'st \<Rightarrow> 'ev \<Rightarrow> 'st \<Rightarrow> bool" where
  run_Nil: "run step s [] s"
| run_Cons: "step s e t \<Longrightarrow> run step t es u \<Longrightarrow> run step s (e # es) u"

inductive_simps run_Nil_iff [simp]: "run step s [] t"
inductive_simps run_Cons_iff: "run step s (e # es) u"

lemma run_append: "run step s es t \<Longrightarrow> run step t fs u \<Longrightarrow> run step s (es @ fs) u"
  by (induction rule: run.induct) (auto intro: run_Cons)

text \<open>A sequence of edges that starts in \<open>p\<close> and joins end to end.\<close>

primrec chain :: "('ev \<Rightarrow> 'ph) \<Rightarrow> ('ev \<Rightarrow> 'ph) \<Rightarrow> 'ph \<Rightarrow> 'ev list \<Rightarrow> bool" where
  "chain src dst p [] = True"
| "chain src dst p (e # es) = (src e = p \<and> chain src dst (dst e) es)"

section \<open>The contract\<close>

locale session_machine =
  fixes step :: "'st \<Rightarrow> 'ev \<Rightarrow> 'st \<Rightarrow> bool"
    and inv :: "'st \<Rightarrow> bool"
    and phase :: "'st \<Rightarrow> 'ph"
    and ended :: 'ph
    and succeeds :: "'ev \<Rightarrow> bool"
    and src :: "'ev \<Rightarrow> 'ph"
    and dst :: "'ev \<Rightarrow> 'ph"
    and rank :: "'ph \<Rightarrow> nat"
  assumes step_inv: "inv s \<Longrightarrow> step s e t \<Longrightarrow> inv t"
    and step_succeeds: "inv s \<Longrightarrow> step s e t \<Longrightarrow> succeeds e \<Longrightarrow> phase s = src e \<and> phase t = dst e"
    and step_fails: "inv s \<Longrightarrow> step s e t \<Longrightarrow> \<not> succeeds e \<Longrightarrow> phase t = phase s \<or> phase t = ended"
    and src_open: "succeeds e \<Longrightarrow> src e \<noteq> ended"
    and rank_edge: "succeeds e \<Longrightarrow> rank (src e) < rank (dst e)"
    and rank_ended: "rank p \<le> rank ended"
begin

lemma run_inv: "run step s es t \<Longrightarrow> inv s \<Longrightarrow> inv t"
  by (induction rule: run.induct) (auto dest: step_inv)

lemma step_rank: "inv s \<Longrightarrow> step s e t \<Longrightarrow> rank (phase s) \<le> rank (phase t)"
  using step_succeeds [of s e t] step_fails [of s e t] rank_edge [of e] rank_ended [of "phase s"]
  by (cases "succeeds e") auto

lemma run_rank: "run step s es t \<Longrightarrow> inv s \<Longrightarrow> rank (phase s) \<le> rank (phase t)"
  by (induction rule: run.induct) (auto dest: step_inv step_rank order_trans)

text \<open>A session that has ended stays ended, and no call on it succeeds.\<close>

lemma ended_step:
  assumes "inv s" "phase s = ended" "step s e t"
  shows "\<not> succeeds e" "phase t = ended"
  using assms step_succeeds [of s e t] step_fails [of s e t] src_open [of e] by auto

lemma ended_run:
  "run step s es t \<Longrightarrow> inv s \<Longrightarrow> phase s = ended \<Longrightarrow> filter succeeds es = [] \<and> phase t = ended"
proof (induction rule: run.induct)
  case (run_Cons s e t es u)
  then show ?case using ended_step [of s e t] step_inv [of s e t] by simp
qed simp

text \<open>The successful calls of a session follow the edges of the graph.\<close>

lemma run_chain: "run step s es t \<Longrightarrow> inv s \<Longrightarrow> chain src dst (phase s) (filter succeeds es)"
proof (induction rule: run.induct)
  case (run_Cons s e t es u)
  then have inv: "inv t" by (auto dest: step_inv)
  show ?case
  proof (cases "succeeds e")
    case True
    with run_Cons inv show ?thesis using step_succeeds [of s e t] by auto
  next
    case False
    with run_Cons inv show ?thesis
      using step_fails [of s e t] ended_run [of t es u] by auto
  qed
qed simp

text \<open>Every success raises the rank, so their number is bounded.\<close>

lemma chain_bounded:
  "chain src dst p es \<Longrightarrow> (\<And>e. e \<in> set es \<Longrightarrow> succeeds e) \<Longrightarrow> rank p + length es \<le> rank ended"
proof (induction es arbitrary: p)
  case Nil
  then show ?case by (simp add: rank_ended)
next
  case (Cons e es)
  then have "rank (dst e) + length es \<le> rank ended" by simp
  with Cons.prems rank_edge [of e] show ?case by auto
qed

lemma run_bounded:
  assumes "run step s es t" "inv s"
  shows "rank (phase s) + length (filter succeeds es) \<le> rank ended"
  using run_chain [OF assms] by (rule chain_bounded) simp

text \<open>At most one call reaches the end by success.\<close>

lemma one_completion:
  "run step s es t \<Longrightarrow> inv s \<Longrightarrow> length (filter (\<lambda>e. succeeds e \<and> dst e = ended) es) \<le> 1"
proof (induction rule: run.induct)
  case (run_Cons s e t es u)
  then have inv: "inv t" by (auto dest: step_inv)
  show ?case
  proof (cases "succeeds e \<and> dst e = ended")
    case True
    with run_Cons have "phase t = ended" using step_succeeds [of s e t] by simp
    with run_Cons inv have "filter succeeds es = []" using ended_run [of t es u] by simp
    then have "filter (\<lambda>e. succeeds e \<and> dst e = ended) es = []"
      by (auto simp: filter_empty_conv)
    with True show ?thesis by simp
  qed (use run_Cons inv in auto)
qed simp

end

end
