(* ===== verification/Agent_Session.thy ===== *)
theory Agent_Session
  imports Agent_Registration Agent_Authentication Session_Machine
begin

text \<open>
  The client's session as a step relation: one step per call of a public operation, with any
  arguments and any surroundings. The relation keeps the contract \<open>session_machine\<close>.
\<close>

section \<open>Calls\<close>

datatype InitiatorEvent =
    CreateRegistrationRequest "unit OpaqueResult"
  | FinalizeRegistration "unit OpaqueResult"
  | GenerateKe1 "unit OpaqueResult"
  | GenerateKe3 "unit OpaqueResult"
  | InitiatorFinish "unit OpaqueResult" bytes bytes
  | InitiatorInvalidate

inductive initiator_step ::
  "('s, 'p, 'ek, 'dk) deps \<Rightarrow> InitiatorState \<Rightarrow> InitiatorEvent \<Rightarrow> InitiatorState \<Rightarrow> bool"
  for D :: "('s, 'p, 'ek, 'dk) deps" where
  step_request: "create_registration_request D pwd req s w = (r, req', s', w') \<Longrightarrow>
     initiator_step D s (CreateRegistrationRequest r) s'"
| step_finalize: "finalize_registration D init resp s rec w = (r, rec', s', w') \<Longrightarrow>
     initiator_step D s (FinalizeRegistration r) s'"
| step_ke1: "length (m1_initiator_nonce ke1) = NONCE_LENGTH \<Longrightarrow>
     generate_ke1 D pwd account_id ke1 s w = (r, ke1', s', w') \<Longrightarrow> initiator_step D s (GenerateKe1 r) s'"
| step_ke3: "generate_ke3 D init ke2_data s ke3 w = (r, ke3', s', w') \<Longrightarrow>
     initiator_step D s (GenerateKe3 r) s'"
| step_finish: "length sk = HASH_LENGTH \<Longrightarrow> length ek = EXPORT_KEY_LENGTH \<Longrightarrow>
     initiator_finish D s sk ek = (r, sk', ek', s') \<Longrightarrow> initiator_step D s (InitiatorFinish r sk' ek') s'"
| step_invalidate: "initiator_step D s InitiatorInvalidate (initiator_invalidate D s)"

inductive_cases initiator_stepE: "initiator_step D s e s'"

fun initiator_result :: "InitiatorEvent \<Rightarrow> unit OpaqueResult option" where
  "initiator_result (CreateRegistrationRequest r) = Some r"
| "initiator_result (FinalizeRegistration r) = Some r"
| "initiator_result (GenerateKe1 r) = Some r"
| "initiator_result (GenerateKe3 r) = Some r"
| "initiator_result (InitiatorFinish r _ _) = Some r"
| "initiator_result InitiatorInvalidate = None"

definition initiator_succeeds :: "InitiatorEvent \<Rightarrow> bool" where
  "initiator_succeeds e \<longleftrightarrow> initiator_result e = Some (Ok ())"

fun initiator_src :: "InitiatorEvent \<Rightarrow> InitiatorPhase" where
  "initiator_src (CreateRegistrationRequest _) = ICreated"
| "initiator_src (FinalizeRegistration _) = RegistrationRequested"
| "initiator_src (GenerateKe1 _) = ICreated"
| "initiator_src (GenerateKe3 _) = Ke1Generated"
| "initiator_src (InitiatorFinish _ _ _) = Ke3Generated"
| "initiator_src InitiatorInvalidate = IFinished"

fun initiator_dst :: "InitiatorEvent \<Rightarrow> InitiatorPhase" where
  "initiator_dst (CreateRegistrationRequest _) = RegistrationRequested"
| "initiator_dst (FinalizeRegistration _) = RegistrationFinalized"
| "initiator_dst (GenerateKe1 _) = Ke1Generated"
| "initiator_dst (GenerateKe3 _) = Ke3Generated"
| "initiator_dst (InitiatorFinish _ _ _) = IFinished"
| "initiator_dst InitiatorInvalidate = IFinished"

fun initiator_rank :: "InitiatorPhase \<Rightarrow> nat" where
  "initiator_rank ICreated = 0"
| "initiator_rank RegistrationRequested = 1"
| "initiator_rank Ke1Generated = 1"
| "initiator_rank RegistrationFinalized = 2"
| "initiator_rank Ke3Generated = 2"
| "initiator_rank IFinished = 3"

section \<open>The contract holds\<close>

lemma initiator_step_call:
  assumes laws: "deps_laws D" and inv: "initiator_inv s" and step: "initiator_step D s e s'"
  shows "(\<exists>r. initiator_result e = Some r \<and> initiator_call (initiator_src e) (initiator_dst e) s r s')
     \<or> e = InitiatorInvalidate \<and> s' = initiator_invalidate D s"
  using step
proof cases
  case (step_request pwd req w r req' w')
  then show ?thesis using leavesD [OF create_registration_request_call [OF laws inv]] by force
next
  case (step_finalize init resp rec w r rec' w')
  then show ?thesis using finalize_registration_call [OF laws inv] by force
next
  case (step_ke1 ke1 pwd account_id w r ke1' w')
  then show ?thesis using leavesD [OF generate_ke1_call [OF laws inv]] by force
next
  case (step_ke3 init ke2_data ke3 w r ke3' w')
  then show ?thesis using generate_ke3_call [OF laws inv] by force
next
  case (step_finish sk ek r sk' ek')
  then show ?thesis using initiator_finish_call [OF laws inv] by force
qed simp

interpretation initiator_session: session_machine "initiator_step D"
  "\<lambda>s. deps_laws D \<and> initiator_inv s" i_phase IFinished initiator_succeeds initiator_src initiator_dst
  initiator_rank for D :: "('s, 'p, 'ek, 'dk) deps"
proof (unfold_locales, goal_cases)
  case (1 s e t)
  then show ?case using initiator_step_call [of D s e t] by (auto simp: initiator_call_def initiator_inv_wf)
next
  case (2 s e t)
  then show ?case using initiator_step_call [of D s e t] by (auto simp: initiator_call_def initiator_succeeds_def)
next
  case (3 s e t)
  then show ?case using initiator_step_call [of D s e t]
    by (auto simp: initiator_call_def initiator_succeeds_def initiator_inv_wf)
next
  case (4 e)
  then show ?case by (cases e) (auto simp: initiator_succeeds_def)
next
  case (5 e)
  then show ?case by (cases e) (auto simp: initiator_succeeds_def)
next
  case (6 p)
  then show ?case by (cases p) auto
qed

section \<open>Sequences of calls\<close>

lemma initiator_run_no_panic:
  "run (initiator_step D) s es t \<Longrightarrow> deps_laws D \<Longrightarrow> initiator_inv s \<Longrightarrow>
     (\<forall>e \<in> set es. initiator_result e \<noteq> Some Panic)"
proof (induction rule: run.induct)
  case (run_Cons s e t es u)
  then have "initiator_inv t" "initiator_result e \<noteq> Some Panic"
    using initiator_step_call [of D s e t] by (auto simp: initiator_call_def initiator_inv_wf)
  with run_Cons show ?case by simp
qed simp

definition initiator_edge :: "InitiatorEvent \<Rightarrow> InitiatorPhase \<times> InitiatorPhase" where
  "initiator_edge e = (initiator_src e, initiator_dst e)"

text \<open>From the last phases there is at most one edge left, from the first ones a fixed path.\<close>

lemma initiator_chain_ended:
  assumes "chain initiator_src initiator_dst p es" "\<forall>e \<in> set es. initiator_succeeds e"
    and "p \<in> {RegistrationFinalized, IFinished}"
  shows "es = []"
proof (cases es)
  case (Cons e es')
  then show ?thesis using assms by (cases e) (auto simp: initiator_succeeds_def)
qed simp

lemma initiator_chain_step:
  assumes "chain initiator_src initiator_dst p es" "\<forall>e \<in> set es. initiator_succeeds e"
    and "p \<in> {RegistrationRequested, Ke1Generated, Ke3Generated}"
    and "q = (if p = RegistrationRequested then RegistrationFinalized else if p = Ke1Generated then Ke3Generated else IFinished)"
  obtains "es = []" | e es' where "es = e # es'" "initiator_edge e = (p, q)" "chain initiator_src initiator_dst q es'"
    "\<forall>e \<in> set es'. initiator_succeeds e"
proof (cases es)
  case (Cons e es')
  then show ?thesis using assms that by (cases e) (auto simp: initiator_succeeds_def initiator_edge_def)
qed (use that in blast)

lemma initiator_chain_created:
  assumes "chain initiator_src initiator_dst ICreated es" "\<forall>e \<in> set es. initiator_succeeds e"
  obtains "es = []" | e es' q where "es = e # es'" "q \<in> {RegistrationRequested, Ke1Generated}" "initiator_edge e = (ICreated, q)"
    "chain initiator_src initiator_dst q es'" "\<forall>e \<in> set es'. initiator_succeeds e"
proof (cases es)
  case (Cons e es')
  then show ?thesis using assms that by (cases e) (auto simp: initiator_succeeds_def initiator_edge_def)
qed (use that in blast)

abbreviation registration_path :: "(InitiatorPhase \<times> InitiatorPhase) list" where
  "registration_path \<equiv> [(ICreated, RegistrationRequested), (RegistrationRequested, RegistrationFinalized)]"

abbreviation login_path :: "(InitiatorPhase \<times> InitiatorPhase) list" where
  "login_path \<equiv> [(ICreated, Ke1Generated), (Ke1Generated, Ke3Generated), (Ke3Generated, IFinished)]"

lemma registration_chain:
  assumes "chain initiator_src initiator_dst RegistrationRequested es" "\<forall>e \<in> set es. initiator_succeeds e"
  shows "prefix (map initiator_edge es) (tl registration_path)"
  using assms by (rule initiator_chain_step [where q = RegistrationFinalized])
    (auto dest: initiator_chain_ended)

lemma login_chain_end:
  assumes "chain initiator_src initiator_dst Ke3Generated es" "\<forall>e \<in> set es. initiator_succeeds e"
  shows "prefix (map initiator_edge es) [(Ke3Generated, IFinished)]"
  using assms by (rule initiator_chain_step [where q = IFinished]) (auto dest: initiator_chain_ended)

lemma login_chain:
  assumes "chain initiator_src initiator_dst Ke1Generated es" "\<forall>e \<in> set es. initiator_succeeds e"
  shows "prefix (map initiator_edge es) (tl login_path)"
  using assms by (rule initiator_chain_step [where q = Ke3Generated]) (auto dest: login_chain_end)

lemma initiator_chain_paths:
  assumes "chain initiator_src initiator_dst ICreated es" "\<forall>e \<in> set es. initiator_succeeds e"
  shows "prefix (map initiator_edge es) registration_path \<or> prefix (map initiator_edge es) login_path"
  using assms by (rule initiator_chain_created) (auto dest: registration_chain login_chain)

lemma sample_client_run:
  "\<exists>s. run (initiator_step sample) (fst (InitiatorState_new sample_world)) [GenerateKe1 (Ok ()), InitiatorInvalidate] s"
proof -
  have "\<exists>ke1 s w. generate_ke1 sample [1] [7] Ke1Message_new (fst (InitiatorState_new sample_world)) sample_world = (Ok (), ke1, s, w)"
    by (rule generate_ke1_succeeds [OF sample_laws])
      (simp_all add: InitiatorState_new_props password_point_def Ke1Message_new_def sample_tape)
  moreover have n: "length (m1_initiator_nonce Ke1Message_new) = NONCE_LENGTH" by (simp add: Ke1Message_new_def)
  ultimately obtain s where "initiator_step sample (fst (InitiatorState_new sample_world)) (GenerateKe1 (Ok ())) s"
    by (metis step_ke1 n)
  then show ?thesis by (auto simp: run_Cons_iff intro: step_invalidate)
qed

section \<open>Properties\<close>

text \<open>
  C11: in every state a client session reaches from a new one, by any sequence of calls with
  any arguments, random bytes and clock readings, the buffers have their widths, a finished
  session holds no secret, a finalized registration no password, blind or private key, and
  an established login no password, blind or KEM key. No call of the sequence panics.
\<close>

theorem client_session_invariant:
  assumes "deps_laws D" "run (initiator_step D) (fst (InitiatorState_new w)) es s"
  shows "initiator_inv s \<and> (\<forall>e \<in> set es. initiator_result e \<noteq> Some Panic)"
proof -
  have i: "initiator_inv (fst (InitiatorState_new w))" using InitiatorState_new_props [of w] by simp
  then show ?thesis using initiator_session.run_inv [OF assms(2)] initiator_run_no_panic [OF assms(2,1)] assms(1) by simp
qed

theorem client_session_invariant_witness:
  "\<exists>s. run (initiator_step sample) (fst (InitiatorState_new sample_world)) [GenerateKe1 (Ok ()), InitiatorInvalidate] s
     \<and> initiator_inv s"
  using sample_client_run client_session_invariant [OF sample_laws] by blast

text \<open>
  C12: whatever calls are made on a client session, in whatever order and number, the calls
  that succeed form a prefix of a registration (request, finalize) or of a login (KE1, KE3,
  finish): no step is skipped, repeated or mixed, and the keys are handed out at most once.
\<close>

theorem client_call_order:
  assumes "deps_laws D" "run (initiator_step D) (fst (InitiatorState_new w)) es s"
  shows "prefix (map initiator_edge (filter initiator_succeeds es)) registration_path \<or>
     prefix (map initiator_edge (filter initiator_succeeds es)) login_path"
proof (rule initiator_chain_paths)
  have i: "initiator_inv (fst (InitiatorState_new w))" using InitiatorState_new_props [of w] by simp
  then show "chain initiator_src initiator_dst ICreated (filter initiator_succeeds es)"
    using initiator_session.run_chain [OF assms(2)] assms(1) InitiatorState_new_props(2) [of w] by simp
qed simp

theorem client_call_order_witness:
  "prefix (map initiator_edge (filter initiator_succeeds [GenerateKe1 (Ok ()), InitiatorInvalidate])) login_path"
  using sample_client_run client_call_order [OF sample_laws, of sample_world "[GenerateKe1 (Ok ()), InitiatorInvalidate]"]
  by (auto simp: initiator_succeeds_def initiator_edge_def)

text \<open>
  A client session that has finished, by success, failure or invalidation, stays
  finished and empty: no later call on it succeeds and it never holds a secret again.
\<close>

lemma client_finished_is_final:
  assumes "deps_laws D" "initiator_inv s" "i_phase s = IFinished" "run (initiator_step D) s es t"
  shows "i_phase t = IFinished \<and> initiator_wiped t \<and> (\<forall>e \<in> set es. \<not> initiator_succeeds e)"
proof -
  have "initiator_inv t" "i_phase t = IFinished" "filter initiator_succeeds es = []"
    using initiator_session.run_inv [OF assms(4)] initiator_session.ended_run [OF assms(4)] assms(1-3) by auto
  then show ?thesis by (auto simp: initiator_inv_def filter_empty_conv)
qed

end
