(* ===== verification/Relay_State.thy ===== *)
theory Relay_State
  imports Key_Schedule Protocol
begin

text \<open>
  Model of \<^verbatim>\<open>opaque-relay/src/state.rs\<close>: the server's session state, its long-term key pair, the
  stored credentials of an account, and the server object with its OPRF evaluator.
\<close>

section \<open>Phases and state\<close>

datatype ResponderPhase = RCreated | Ke2Generated | RFinished

record ResponderState =
  r_phase :: ResponderPhase
  r_created_at :: nat
  r_private_key :: bytes
  r_public_key :: bytes
  r_ephemeral_private_key :: bytes
  r_ephemeral_public_key :: bytes
  r_initiator_public_key :: bytes
  r_session_key :: bytes
  r_expected_initiator_mac :: bytes
  r_handshake_complete :: bool
  r_pq_shared_secret :: bytes

definition responder_is_expired :: "ResponderState \<Rightarrow> world \<Rightarrow> bool \<times> world" where
  "responder_is_expired s w =
     (if r_phase s \<in> {RCreated, RFinished} then (False, w)
      else let (now, w) = instant_now w in
        (case checked_duration_since now (r_created_at s) of
           None \<Rightarrow> True | Some d \<Rightarrow> STATE_MAX_LIFETIME_SECS \<le> as_secs d, w))"

definition responder_refresh_deadline :: "ResponderState \<Rightarrow> world \<Rightarrow> ResponderState \<times> world" where
  "responder_refresh_deadline s w =
     (let (now, w) = instant_now w in (s\<lparr>r_created_at := now\<rparr>, w))"

definition responder_zeroize :: "('s, 'p, 'ek, 'dk) deps \<Rightarrow> ResponderState \<Rightarrow> ResponderState" where
  "responder_zeroize D s = s\<lparr>
     r_private_key := zeroize D (r_private_key s),
     r_public_key := zeroize D (r_public_key s),
     r_ephemeral_private_key := zeroize D (r_ephemeral_private_key s),
     r_ephemeral_public_key := zeroize D (r_ephemeral_public_key s),
     r_initiator_public_key := zeroize D (r_initiator_public_key s),
     r_session_key := zeroize D (r_session_key s),
     r_expected_initiator_mac := zeroize D (r_expected_initiator_mac s),
     r_pq_shared_secret := zeroize D (r_pq_shared_secret s)\<rparr>"

definition responder_invalidate :: "('s, 'p, 'ek, 'dk) deps \<Rightarrow> ResponderState \<Rightarrow> ResponderState" where
  "responder_invalidate D s =
     (responder_zeroize D s)\<lparr>r_phase := RFinished, r_handshake_complete := False\<rparr>"

definition ResponderState_new :: "world \<Rightarrow> ResponderState \<times> world" where
  "ResponderState_new w =
     (let (now, w) = instant_now w in
      (\<lparr>r_phase = RCreated, r_created_at = now,
        r_private_key = zeros PRIVATE_KEY_LENGTH, r_public_key = zeros PUBLIC_KEY_LENGTH,
        r_ephemeral_private_key = zeros PRIVATE_KEY_LENGTH,
        r_ephemeral_public_key = zeros PUBLIC_KEY_LENGTH,
        r_initiator_public_key = zeros PUBLIC_KEY_LENGTH,
        r_session_key = zeros HASH_LENGTH, r_expected_initiator_mac = zeros MAC_LENGTH,
        r_handshake_complete = False,
        r_pq_shared_secret = zeros KEM_SHARED_SECRET_LENGTH\<rparr>, w))"

section \<open>Key pairs, messages, credentials\<close>

record ResponderKeyPair =
  kp_private_key :: bytes
  kp_public_key :: bytes

definition ResponderKeyPair_zeroize :: "('s, 'p, 'ek, 'dk) deps \<Rightarrow> ResponderKeyPair \<Rightarrow> ResponderKeyPair" where
  "ResponderKeyPair_zeroize D kp =
     \<lparr>kp_private_key = zeroize D (kp_private_key kp), kp_public_key = zeroize D (kp_public_key kp)\<rparr>"

definition ResponderKeyPair_generate ::
  "('s, 'p, 'ek, 'dk) deps \<Rightarrow> world \<Rightarrow> ResponderKeyPair OpaqueResult \<times> world" where
  "ResponderKeyPair_generate D w =
     (let (r, w) = random_nonzero_scalar D w in
      qmark r w (\<lambda>private_key.
      qmark (scalarmult_base D private_key) w (\<lambda>public_key.
      (Ok \<lparr>kp_private_key = private_key, kp_public_key = public_key\<rparr>, w))))"

definition ResponderKeyPair_from_keys ::
  "('s, 'p, 'ek, 'dk) deps \<Rightarrow> bytes \<Rightarrow> bytes \<Rightarrow> ResponderKeyPair OpaqueResult" where
  "ResponderKeyPair_from_keys D private_key public_key =
     (if length private_key \<noteq> PRIVATE_KEY_LENGTH \<or> length public_key \<noteq> PUBLIC_KEY_LENGTH
      then Err InvalidInput
      else and_then (validate_public_key D public_key) (\<lambda>_.
        and_then (try_into PRIVATE_KEY_LENGTH private_key InvalidInput) (\<lambda>sk.
        and_then (scalarmult_base D sk) (\<lambda>derived.
        if \<not> constant_time_eq D public_key derived then Err InvalidPublicKey
        else and_then (copy_into (zeros PRIVATE_KEY_LENGTH) 0 PRIVATE_KEY_LENGTH private_key) (\<lambda>sk_buf.
          and_then (copy_into (zeros PUBLIC_KEY_LENGTH) 0 PUBLIC_KEY_LENGTH public_key) (\<lambda>pk_buf.
          Ok \<lparr>kp_private_key = sk_buf, kp_public_key = pk_buf\<rparr>))))))"

record RegistrationResponse =
  rs_data :: bytes

definition RegistrationResponse_new :: RegistrationResponse where
  "RegistrationResponse_new = \<lparr>rs_data = zeros REGISTRATION_RESPONSE_LENGTH\<rparr>"

record Ke2Message =
  m2_responder_nonce :: bytes
  m2_responder_public_key :: bytes
  m2_credential_response :: bytes
  m2_responder_mac :: bytes
  m2_kem_ciphertext :: bytes

definition Ke2Message_new :: Ke2Message where
  "Ke2Message_new = \<lparr>m2_responder_nonce = zeros NONCE_LENGTH,
     m2_responder_public_key = zeros PUBLIC_KEY_LENGTH,
     m2_credential_response = zeros CREDENTIAL_RESPONSE_LENGTH,
     m2_responder_mac = zeros MAC_LENGTH,
     m2_kem_ciphertext = zeros KEM_CIPHERTEXT_LENGTH\<rparr>"

record ResponderCredentials =
  c_envelope :: bytes
  c_masking_key :: bytes
  c_initiator_public_key :: bytes
  c_registered :: bool

definition ResponderCredentials_new :: ResponderCredentials where
  "ResponderCredentials_new = \<lparr>c_envelope = zeros ENVELOPE_LENGTH,
     c_masking_key = zeros MASKING_KEY_LENGTH,
     c_initiator_public_key = zeros PUBLIC_KEY_LENGTH, c_registered = False\<rparr>"

section \<open>The server object\<close>

record 'e OpaqueResponder =
  or_keypair :: ResponderKeyPair
  or_evaluator :: "'e OprfEvaluator"

definition OpaqueResponder_zeroize ::
  "('s, 'p, 'ek, 'dk) deps \<Rightarrow> 'e OpaqueResponder \<Rightarrow> 'e OpaqueResponder" where
  "OpaqueResponder_zeroize D r = r\<lparr>
     or_keypair := ResponderKeyPair_zeroize D (or_keypair r),
     or_evaluator := (or_evaluator r)\<lparr>ev_self :=
        ev_zeroize_secret (or_evaluator r) (ev_self (or_evaluator r))\<rparr>\<rparr>"

definition OpaqueResponder_new ::
  "('s, 'p, 'ek, 'dk) deps \<Rightarrow> ResponderKeyPair \<Rightarrow> bytes \<Rightarrow> InMemoryEvaluator OpaqueResponder OpaqueResult" where
  "OpaqueResponder_new D keypair oprf_seed =
     and_then (validate_public_key D (kp_public_key keypair)) (\<lambda>_.
     and_then (InMemoryEvaluator_new D oprf_seed) (\<lambda>evaluator.
     Ok \<lparr>or_keypair = keypair, or_evaluator = InMemoryEvaluator_dyn D evaluator\<rparr>))"

definition OpaqueResponder_with_evaluator ::
  "('s, 'p, 'ek, 'dk) deps \<Rightarrow> ResponderKeyPair \<Rightarrow> 'e OprfEvaluator \<Rightarrow> 'e OpaqueResponder OpaqueResult" where
  "OpaqueResponder_with_evaluator D keypair evaluator =
     and_then (validate_public_key D (kp_public_key keypair)) (\<lambda>_.
     Ok \<lparr>or_keypair = keypair, or_evaluator = evaluator\<rparr>)"

definition OpaqueResponder_generate ::
  "('s, 'p, 'ek, 'dk) deps \<Rightarrow> world \<Rightarrow> InMemoryEvaluator OpaqueResponder OpaqueResult \<times> world" where
  "OpaqueResponder_generate D w =
     (let (r, w) = ResponderKeyPair_generate D w in
      qmark r w (\<lambda>keypair.
      let (r, w) = random_bytes OPRF_SEED_LENGTH w in
      qmark r w (\<lambda>oprf_seed.
      qmark (InMemoryEvaluator_new D oprf_seed) w (\<lambda>evaluator.
      (Ok \<lparr>or_keypair = keypair, or_evaluator = InMemoryEvaluator_dyn D evaluator\<rparr>, w)))))"

text \<open>\<open>responder.evaluator().evaluate_oprf(..)\<close> and \<open>derive_fake_material(..)\<close>.\<close>

definition responder_evaluate_oprf :: "'e OpaqueResponder \<Rightarrow> bytes \<Rightarrow> bytes \<Rightarrow> bytes OpaqueResult" where
  "responder_evaluate_oprf r = ev_evaluate_oprf (or_evaluator r) (ev_self (or_evaluator r))"

definition responder_fake_material :: "'e OpaqueResponder \<Rightarrow> bytes \<Rightarrow> bytes OpaqueResult" where
  "responder_fake_material r = ev_derive_fake_material (or_evaluator r) (ev_self (or_evaluator r))"

section \<open>Well-formed states\<close>

definition responder_wf :: "ResponderState \<Rightarrow> bool" where
  "responder_wf s \<longleftrightarrow>
     length (r_private_key s) = PRIVATE_KEY_LENGTH \<and>
     length (r_public_key s) = PUBLIC_KEY_LENGTH \<and>
     length (r_ephemeral_private_key s) = PRIVATE_KEY_LENGTH \<and>
     length (r_ephemeral_public_key s) = PUBLIC_KEY_LENGTH \<and>
     length (r_initiator_public_key s) = PUBLIC_KEY_LENGTH \<and>
     length (r_session_key s) = HASH_LENGTH \<and>
     length (r_expected_initiator_mac s) = MAC_LENGTH \<and>
     length (r_pq_shared_secret s) = KEM_SHARED_SECRET_LENGTH"

definition responder_wiped :: "ResponderState \<Rightarrow> bool" where
  "responder_wiped s \<longleftrightarrow>
     r_private_key s = zeros PRIVATE_KEY_LENGTH \<and>
     r_ephemeral_private_key s = zeros PRIVATE_KEY_LENGTH \<and>
     r_session_key s = zeros HASH_LENGTH \<and> r_expected_initiator_mac s = zeros MAC_LENGTH \<and>
     r_pq_shared_secret s = zeros KEM_SHARED_SECRET_LENGTH"

lemma responder_invalidate_props:
  assumes "zeroize_laws D" "responder_wf s"
  shows "responder_wf (responder_invalidate D s)" "responder_wiped (responder_invalidate D s)"
    "r_phase (responder_invalidate D s) = RFinished" "\<not> r_handshake_complete (responder_invalidate D s)"
  using assms by (simp_all add: responder_invalidate_def responder_zeroize_def responder_wf_def responder_wiped_def)

lemma ResponderState_new_props:
  "responder_wf (fst (ResponderState_new w))" "r_phase (fst (ResponderState_new w)) = RCreated"
  "\<not> r_handshake_complete (fst (ResponderState_new w))"
  by (simp_all add: ResponderState_new_def instant_now_def responder_wf_def)

lemma responder_is_expired_iff:
  "fst (responder_is_expired s w) \<longleftrightarrow> r_phase s = Ke2Generated \<and>
     (w_clk w 0 < r_created_at s \<or> 900 * 1000000000 \<le> w_clk w 0 - r_created_at s)"
  by (cases "r_phase s")
    (auto simp: responder_is_expired_def instant_now_def checked_duration_since_def as_secs_def
      less_eq_div_iff_mult_less_eq)

lemma responder_is_expired_untimed [simp]:
  "r_phase s = RCreated \<Longrightarrow> responder_is_expired s w = (False, w)"
  by (simp add: responder_is_expired_def)

lemma ResponderKeyPair_from_keys_Ok_iff:
  assumes "group_laws D" "subtle_laws D"
  shows "ResponderKeyPair_from_keys D sk pk = Ok kp \<longleftrightarrow>
     (\<exists>s. s \<noteq> scalar_zero D \<and> sk = scalar_bytes D s \<and> pk = point_compress D (base_mul D s)
        \<and> kp = \<lparr>kp_private_key = sk, kp_public_key = pk\<rparr>)"
  using assms
  by (auto simp: ResponderKeyPair_from_keys_def result_simps scalarmult_base_Ok_iff
      validate_public_key_Ok_iff slice_simps copy_into_whole split: if_splits)

text \<open>Field by field, as for the client.\<close>

lemma responder_wf_updates:
  assumes "responder_wf s"
  shows "responder_wf (s\<lparr>r_phase := p\<rparr>)" "responder_wf (s\<lparr>r_created_at := t\<rparr>)"
    "responder_wf (s\<lparr>r_handshake_complete := c\<rparr>)"
    "length b = 32 \<Longrightarrow> responder_wf (s\<lparr>r_private_key := b\<rparr>)"
    "length b = 32 \<Longrightarrow> responder_wf (s\<lparr>r_public_key := b\<rparr>)"
    "length b = 32 \<Longrightarrow> responder_wf (s\<lparr>r_ephemeral_private_key := b\<rparr>)"
    "length b = 32 \<Longrightarrow> responder_wf (s\<lparr>r_ephemeral_public_key := b\<rparr>)"
    "length b = 32 \<Longrightarrow> responder_wf (s\<lparr>r_initiator_public_key := b\<rparr>)"
    "length b = 64 \<Longrightarrow> responder_wf (s\<lparr>r_session_key := b\<rparr>)"
    "length b = 64 \<Longrightarrow> responder_wf (s\<lparr>r_expected_initiator_mac := b\<rparr>)"
    "length b = 32 \<Longrightarrow> responder_wf (s\<lparr>r_pq_shared_secret := b\<rparr>)"
  using assms by (simp_all add: responder_wf_def)

lemma responder_wf_lengths:
  assumes "responder_wf s"
  shows "length (r_private_key s) = 32" "length (r_public_key s) = 32"
    "length (r_ephemeral_private_key s) = 32" "length (r_ephemeral_public_key s) = 32"
    "length (r_initiator_public_key s) = 32" "length (r_session_key s) = 64"
    "length (r_expected_initiator_mac s) = 64" "length (r_pq_shared_secret s) = 32"
  using assms by (simp_all add: responder_wf_def)

lemma responder_refresh_deadline_eq:
  "responder_refresh_deadline s w = (s\<lparr>r_created_at := fst (instant_now w)\<rparr>, snd (instant_now w))"
  by (simp add: responder_refresh_deadline_def instant_now_def)

section \<open>The session invariant\<close>

text \<open>
  A finished session holds no secret, and the handshake counts as complete only in a
  finished one.
\<close>

definition responder_inv :: "ResponderState \<Rightarrow> bool" where
  "responder_inv s \<longleftrightarrow> responder_wf s \<and> (r_phase s = RFinished \<longrightarrow> responder_wiped s) \<and>
     (r_handshake_complete s \<longrightarrow> r_phase s = RFinished)"

lemma responder_inv_early [simp]:
  "r_phase s \<noteq> RFinished \<Longrightarrow> responder_inv s \<longleftrightarrow> responder_wf s \<and> \<not> r_handshake_complete s"
  by (auto simp: responder_inv_def)

lemma responder_inv_wf: "responder_inv s \<Longrightarrow> responder_wf s"
  by (simp add: responder_inv_def)

lemma responder_invalidate_inv [simp]:
  assumes "zeroize_laws D" "responder_wf s"
  shows "responder_inv (responder_invalidate D s)"
  using responder_invalidate_props [OF assms] by (simp add: responder_inv_def)

definition responder_call :: "ResponderPhase \<Rightarrow> ResponderPhase \<Rightarrow> ResponderState \<Rightarrow> unit OpaqueResult \<Rightarrow> ResponderState \<Rightarrow> bool" where
  "responder_call from to s r s' \<longleftrightarrow> r \<noteq> Panic \<and> responder_inv s' \<and>
     (r = Ok () \<longrightarrow> r_phase s = from \<and> r_phase s' = to) \<and>
     (r \<noteq> Ok () \<longrightarrow> r_phase s' = r_phase s \<or> r_phase s' = RFinished)"

lemma responder_call_Err:
  "responder_inv s' \<Longrightarrow> r_phase s' = r_phase s \<or> r_phase s' = RFinished \<Longrightarrow> responder_call p q s (Err e) s'"
  by (simp add: responder_call_def)

lemma responder_call_Ok:
  "responder_inv s' \<Longrightarrow> r_phase s = p \<Longrightarrow> r_phase s' = q \<Longrightarrow> responder_call p q s (Ok ()) s'"
  by (simp add: responder_call_def)

section \<open>Server objects\<close>

text \<open>
  The widths that the types of the key pair and of the evaluator trait give, and that an
  evaluator returns rather than unwinds.
\<close>

definition OpaqueResponder_wf :: "'e OpaqueResponder \<Rightarrow> bool" where
  "OpaqueResponder_wf r \<longleftrightarrow>
     length (kp_private_key (or_keypair r)) = PRIVATE_KEY_LENGTH \<and>
     length (kp_public_key (or_keypair r)) = PUBLIC_KEY_LENGTH \<and>
     (\<forall>b a. responder_evaluate_oprf r b a \<noteq> Panic) \<and> (\<forall>a. responder_fake_material r a \<noteq> Panic) \<and>
     (\<forall>b a out. responder_evaluate_oprf r b a = Ok out \<longrightarrow> length out = PUBLIC_KEY_LENGTH) \<and>
     (\<forall>a out. responder_fake_material r a = Ok out \<longrightarrow> length out = HASH_LENGTH)"

lemma OpaqueResponder_wfD:
  assumes "OpaqueResponder_wf r"
  shows "length (kp_private_key (or_keypair r)) = 32" "length (kp_public_key (or_keypair r)) = 32"
    "responder_evaluate_oprf r b a \<noteq> Panic" "responder_fake_material r a \<noteq> Panic"
    "responder_evaluate_oprf r b a = Ok out \<Longrightarrow> length out = 32"
    "responder_fake_material r a = Ok out \<Longrightarrow> length out = 64"
  using assms by (simp_all add: OpaqueResponder_wf_def)

text \<open>A server built from a checked key pair and the in-memory evaluator is one of them.\<close>

lemma OpaqueResponder_new_wf:
  assumes "deps_laws D" "OpaqueResponder_new D kp seed = Ok r" "length (kp_private_key kp) = 32"
  shows "OpaqueResponder_wf r" "or_keypair r = kp"
    "\<exists>e. or_evaluator r = InMemoryEvaluator_dyn D e \<and> mem_oprf_seed e = seed \<and> seed \<noteq> zeros (length seed)"
proof -
  note D [simp] = deps_lawsD [OF assms(1)]
  have len: "length out = 32" if "mem_evaluate_oprf D e b a = Ok out" for e b a out
    using that by (auto simp: mem_evaluate_oprf_def evaluate_def result_simps dest: scalar_mult_length [OF D(6,1)])
  show "or_keypair r = kp" "\<exists>e. or_evaluator r = InMemoryEvaluator_dyn D e \<and> mem_oprf_seed e = seed \<and> seed \<noteq> zeros (length seed)"
    using assms(2) by (auto simp: OpaqueResponder_new_def InMemoryEvaluator_new_def result_simps split: if_splits)
  then show "OpaqueResponder_wf r"
    using assms(2,3) len validate_public_key_Ok_iff [OF D(6,1), of "kp_public_key kp"]
    by (auto simp: OpaqueResponder_wf_def OpaqueResponder_new_def responder_evaluate_oprf_def
        responder_fake_material_def InMemoryEvaluator_dyn_def result_simps no_panic
        mem_derive_fake_material_def)
qed

end
