(* ===== verification/Relay_Registration.thy ===== *)
theory Relay_Registration
  imports Relay_State
begin

text \<open>
  Model of \<^verbatim>\<open>opaque-relay/src/registration.rs\<close>: answering a registration request and storing the
  record of a finished registration.
\<close>

definition create_registration_response ::
  "('s, 'p, 'ek, 'dk) deps \<Rightarrow> 'e OpaqueResponder \<Rightarrow> bytes \<Rightarrow> bytes \<Rightarrow> RegistrationResponse
     \<Rightarrow> unit OpaqueResult \<times> RegistrationResponse" where
  "create_registration_response D responder registration_request account_id response =
     qmark (parse_registration_request registration_request) response (\<lambda>payload.
     if account_id = [] then (Err InvalidInput, response)
     else qmark (validate_ristretto_point D payload) response (\<lambda>_.
     qmark (try_into PUBLIC_KEY_LENGTH payload InvalidProtocolMessage) response (\<lambda>blinded.
     qmark (responder_evaluate_oprf responder blinded account_id) response (\<lambda>evaluated.
     qmark (copy_into (rs_data response) 0 PUBLIC_KEY_LENGTH evaluated) response (\<lambda>data.
     let response = response\<lparr>rs_data := data\<rparr> in
     qmark (copy_into (rs_data response) PUBLIC_KEY_LENGTH (length (rs_data response))
              (kp_public_key (or_keypair responder))) response (\<lambda>data.
     (Ok (), response\<lparr>rs_data := data\<rparr>)))))))"

definition build_credentials ::
  "('s, 'p, 'ek, 'dk) deps \<Rightarrow> bytes \<Rightarrow> ResponderCredentials \<Rightarrow> unit OpaqueResult \<times> ResponderCredentials" where
  "build_credentials D registration_record credentials =
     (if c_registered credentials then (Err AlreadyRegistered, credentials)
      else qmark (parse_registration_record registration_record) credentials (\<lambda>view.
        qmark (validate_public_key D (rec_initiator_public_key view)) credentials (\<lambda>_.
        let credentials = credentials\<lparr>c_envelope := rec_envelope view\<rparr> in
        qmark (copy_into (c_masking_key credentials) 0 (length (c_masking_key credentials))
                 (rec_masking_key view)) credentials (\<lambda>mk.
        let credentials = credentials\<lparr>c_masking_key := mk\<rparr> in
        qmark (copy_into (c_initiator_public_key credentials) 0
                 (length (c_initiator_public_key credentials)) (rec_initiator_public_key view))
          credentials (\<lambda>pk.
        (Ok (), credentials\<lparr>c_initiator_public_key := pk, c_registered := True\<rparr>))))))"

section \<open>Behaviour\<close>

text \<open>
  A server that answers honestly for an account: its key pair belongs to the scalar \<open>s\<close>,
  and its evaluator multiplies points by the account's OPRF key \<open>k\<close>.
\<close>

definition honest_responder :: "('s, 'p, 'ek, 'dk) deps \<Rightarrow> 'e OpaqueResponder \<Rightarrow> bytes \<Rightarrow> 's \<Rightarrow> 's \<Rightarrow> bool" where
  "honest_responder D resp account_id s k \<longleftrightarrow> OpaqueResponder_wf resp \<and> account_id \<noteq> [] \<and>
     s \<noteq> scalar_zero D \<and> kp_private_key (or_keypair resp) = scalar_bytes D s \<and>
     kp_public_key (or_keypair resp) = point_compress D (base_mul D s) \<and>
     k \<noteq> scalar_zero D \<and>
     (\<forall>p. p \<noteq> point_identity D \<longrightarrow>
        responder_evaluate_oprf resp (point_compress D p) account_id = Ok (point_compress D (point_mul D k p)))"

text \<open>The in-memory evaluator behind a checked key pair is honest for every account it has a key for.\<close>

lemma OpaqueResponder_new_honest:
  assumes laws: "deps_laws D" and kp: "ResponderKeyPair_from_keys D sk pk = Ok kp"
    and new: "OpaqueResponder_new D kp seed = Ok resp" and a: "account_id \<noteq> []"
    and key: "is_ok (derive_oprf_key D seed account_id)"
  shows "\<exists>s k. honest_responder D resp account_id s k"
proof -
  note D [simp] = deps_lawsD [OF laws]
  obtain s where s: "s \<noteq> scalar_zero D" "kp_private_key kp = scalar_bytes D s"
    "kp_public_key kp = point_compress D (base_mul D s)"
    using kp by (auto simp: ResponderKeyPair_from_keys_Ok_iff)
  note r = OpaqueResponder_new_wf [OF laws new]
  from r(3) s obtain e where e: "or_evaluator resp = InMemoryEvaluator_dyn D e" "mem_oprf_seed e = seed" by auto
  have usable: "mem_usable D e account_id" using key by (simp add: mem_usable_def e)
  have "honest_responder D resp account_id s (mem_account_key D e account_id)"
    using s r a e mem_oprf.key_nonzero [OF usable] mem_oprf.evaluates [OF usable]
    by (simp add: honest_responder_def responder_evaluate_oprf_def InMemoryEvaluator_dyn_def)
  then show ?thesis by blast
qed

lemma create_registration_response_Ok:
  assumes laws: "deps_laws D" and honest: "honest_responder D resp a s k" and p: "p \<noteq> point_identity D"
    and out: "length (rs_data response) = 64"
  shows "create_registration_response D resp (registration_request_wire (point_compress D p)) a response =
     (Ok (), response\<lparr>rs_data := point_compress D (point_mul D k p) @ point_compress D (base_mul D s)\<rparr>)"
proof -
  note D [simp] = deps_lawsD [OF laws]
  have "parse_registration_request (registration_request_wire (point_compress D p)) = Ok (point_compress D p)"
    by (rule registration_request_codec.parse_wire) simp
  then show ?thesis
    using honest p out
    by (simp add: create_registration_response_def honest_responder_def slice_simps copy_into_def)
qed

lemma build_credentials_eq:
  assumes laws: "deps_laws D" and c: "length (c_masking_key c) = 32" "length (c_initiator_public_key c) = 32"
  shows "build_credentials D data c =
     (if c_registered c then (Err AlreadyRegistered, c)
      else case parse_registration_record data of
        Ok m \<Rightarrow> (case validate_public_key D (rec_initiator_public_key m) of
            Ok _ \<Rightarrow> (Ok (), \<lparr>c_envelope = rec_envelope m, c_masking_key = rec_masking_key m,
               c_initiator_public_key = rec_initiator_public_key m, c_registered = True\<rparr>)
          | Err e \<Rightarrow> (Err e, c) | Panic \<Rightarrow> (Panic, c))
      | Err e \<Rightarrow> (Err e, c) | Panic \<Rightarrow> (Panic, c))"
proof (cases "parse_registration_record data")
  case (Ok m)
  then have "length (rec_masking_key m) = 32" "length (rec_initiator_public_key m) = 32"
    using registration_record_codec.parse_sound [OF Ok] by (auto simp: registration_record_sized_def)
  with Ok c show ?thesis
    by (cases "validate_public_key D (rec_initiator_public_key m)")
      (auto simp: build_credentials_def copy_into_whole)
qed (auto simp: build_credentials_def)

section \<open>Storing a record, on every exit\<close>

text \<open>
  \<open>build_credentials\<close> on every exit: a filled credential is never overwritten, a record
  is stored field by field exactly if it parses and its client key is valid, and a refused
  record leaves the credential as it was.
\<close>

lemma build_credentials_exact:
  assumes "deps_laws D" "length (c_masking_key c) = MASKING_KEY_LENGTH"
    and "length (c_initiator_public_key c) = PUBLIC_KEY_LENGTH"
  shows "build_credentials D data c =
     (if c_registered c then (Err AlreadyRegistered, c)
      else case parse_registration_record data of
        Ok m \<Rightarrow> if \<exists>p. p \<noteq> point_identity D \<and> rec_initiator_public_key m = point_compress D p
          then (Ok (), \<lparr>c_envelope = rec_envelope m, c_masking_key = rec_masking_key m,
                 c_initiator_public_key = rec_initiator_public_key m, c_registered = True\<rparr>)
          else (Err InvalidPublicKey, c)
      | Err e \<Rightarrow> (Err e, c) | Panic \<Rightarrow> (Panic, c))"
proof -
  note D = deps_lawsD [OF assms(1)]
  have "validate_public_key D b = (if \<exists>p. p \<noteq> point_identity D \<and> b = point_compress D p then Ok () else Err InvalidPublicKey)" for b
    using validate_public_key_Ok_iff [OF D(6,1), of b] decode_point_cases [of D b InvalidPublicKey]
    by (auto simp: validate_public_key_def split: if_splits)
  with assms show ?thesis by (auto simp: build_credentials_eq split: result.splits)
qed

end
