(* ===== verification/Relay_Authentication.thy ===== *)
theory Relay_Authentication
  imports Relay_State
begin

text \<open>
  Model of \<^verbatim>\<open>opaque-relay/src/authentication.rs\<close>: the server's side of a login.
\<close>

section \<open>Handlers\<close>

definition select_credentials ::
  "('s, 'p, 'ek, 'dk) deps \<Rightarrow> 'e OpaqueResponder \<Rightarrow> bytes \<Rightarrow> ResponderCredentials
     \<Rightarrow> (bytes \<times> bytes \<times> bytes) OpaqueResult" where
  "select_credentials D responder account_id credentials =
     and_then (responder_fake_material responder account_id) (\<lambda>fake_material.
     and_then (derive_key_pair D fake_material) (\<lambda>(_, fake_public_key).
     and_then (key_derivation_expand D fake_material FAKE_CREDENTIALS_CONTEXT ENVELOPE_LENGTH) (\<lambda>fake_envelope.
     and_then (derive_masking_key D fake_material) (\<lambda>fake_masking_key.
     and_then
       (if c_registered credentials
        then if length (c_envelope credentials) \<noteq> ENVELOPE_LENGTH
                \<or> is_all_zero D (c_masking_key credentials)
             then Err ValidationError
             else and_then (validate_public_key D (c_initiator_public_key credentials)) (\<lambda>_.
               and_then (try_into ENVELOPE_LENGTH (c_envelope credentials) ValidationError) (\<lambda>envelope.
               and_then (copy_into (zeros PUBLIC_KEY_LENGTH) 0 PUBLIC_KEY_LENGTH
                           (c_initiator_public_key credentials)) (\<lambda>real_public_key.
               and_then (copy_into (zeros ENVELOPE_LENGTH) 0 ENVELOPE_LENGTH envelope) (\<lambda>real_envelope.
               and_then (copy_into (zeros MASKING_KEY_LENGTH) 0 MASKING_KEY_LENGTH
                           (c_masking_key credentials)) (\<lambda>real_masking_key.
               Ok (real_public_key, real_envelope, real_masking_key))))))
        else Ok (zeros PUBLIC_KEY_LENGTH, zeros ENVELOPE_LENGTH, zeros MASKING_KEY_LENGTH))
       (\<lambda>(real_public_key, real_envelope, real_masking_key).
     let choice = c_registered credentials in
     and_then (ct_select_bytes D (zeros PUBLIC_KEY_LENGTH) real_public_key fake_public_key choice)
       (\<lambda>selected_public_key.
     and_then (ct_select_bytes D (zeros MASKING_KEY_LENGTH) real_masking_key fake_masking_key choice)
       (\<lambda>selected_masking_key.
     and_then (ct_select_bytes D (zeros ENVELOPE_LENGTH) real_envelope fake_envelope choice)
       (\<lambda>selected_envelope.
     Ok (selected_public_key, selected_envelope, selected_masking_key)))))))))"

text \<open>The last part of \<open>generate_ke2\<close>, once all shared secrets are computed.\<close>

definition generate_ke2_keys ::
  "('s, 'p, 'ek, 'dk) deps \<Rightarrow> ResponderKeyPair \<Rightarrow> Ke1Ref \<Rightarrow> bytes \<Rightarrow> bytes \<Rightarrow> bytes \<Rightarrow> bytes \<Rightarrow> bytes \<Rightarrow> bytes
     \<Rightarrow> bytes \<Rightarrow> bytes \<Rightarrow> Ke2Message \<Rightarrow> ResponderState \<Rightarrow> world
     \<Rightarrow> unit OpaqueResult \<times> Ke2Message \<times> ResponderState \<times> world" where
  "generate_ke2_keys D kp ke1 init_eph_pk selected_pk account_context_hash dh1 dh2 dh3 dh4 kem_ss
     ke2 state w =
     qmark (fill_classical_ikm dh1 dh2 dh3 dh4) (ke2, state, w) (\<lambda>classical_ikm.
     qmark (append_all (zeros TRANSCRIPT_INPUT_LENGTH) 0
              [init_eph_pk, r_ephemeral_public_key state, k1_initiator_nonce ke1,
               m2_responder_nonce ke2, selected_pk, kp_public_key kp, m2_credential_response ke2,
               k1_pq_ephemeral_public_key ke1, m2_kem_ciphertext ke2, account_context_hash])
       (ke2, state, w) (\<lambda>(mac_input, off).
     qmark (subslice mac_input 0 off) (ke2, state, w) (\<lambda>mac_input.
     let transcript_hash = sha512_multi D [TRANSCRIPT_CONTEXT, mac_input] in
     qmark (combine_key_material D classical_ikm kem_ss transcript_hash) (ke2, state, w) (\<lambda>prk.
     let state = state\<lparr>r_session_key := zeros HASH_LENGTH\<rparr> in
     qmark (key_derivation_expand D prk PQ_SESSION_KEY_INFO HASH_LENGTH) (ke2, state, w) (\<lambda>session_key.
     let state = state\<lparr>r_session_key := session_key\<rparr> in
     qmark (key_derivation_expand D prk PQ_RESPONDER_MAC_INFO MAC_LENGTH) (ke2, state, w) (\<lambda>resp_mac_key.
     qmark (hmac_sha512 D resp_mac_key mac_input) (ke2, state, w) (\<lambda>responder_mac.
     let ke2 = ke2\<lparr>m2_responder_mac := responder_mac\<rparr> in
     qmark (key_derivation_expand D prk PQ_INITIATOR_MAC_INFO MAC_LENGTH) (ke2, state, w) (\<lambda>init_mac_key.
     qmark (hmac_sha512 D init_mac_key mac_input) (ke2, state, w) (\<lambda>initiator_mac.
     let state = state\<lparr>r_expected_initiator_mac := initiator_mac\<rparr>;
         (state, w) = responder_refresh_deadline state w in
     (Ok (), ke2, state\<lparr>r_phase := Ke2Generated\<rparr>, w))))))))))"

definition generate_ke2 ::
  "('s, 'p, 'ek, 'dk) deps \<Rightarrow> 'e OpaqueResponder \<Rightarrow> bytes \<Rightarrow> bytes \<Rightarrow> ResponderCredentials
     \<Rightarrow> Ke2Message \<Rightarrow> ResponderState \<Rightarrow> world
     \<Rightarrow> unit OpaqueResult \<times> Ke2Message \<times> ResponderState \<times> world" where
  "generate_ke2 D responder ke1_data account_id credentials ke2 state w =
     (if length ke1_data \<noteq> KE1_LENGTH then (Err InvalidProtocolMessage, ke2, state, w)
      else if r_phase state \<noteq> RCreated then (Err ValidationError, ke2, state, w)
      else let (expired, w) = responder_is_expired state w in
      if expired then (Err ValidationError, ke2, responder_invalidate D state, w)
      else if account_id = [] then (Err InvalidInput, ke2, state, w)
      else qmark (parse_ke1 ke1_data) (ke2, state, w) (\<lambda>ke1.
      let kp = or_keypair responder in
      qmark (try_into PUBLIC_KEY_LENGTH (k1_initiator_public_key ke1) InvalidProtocolMessage)
        (ke2, state, w) (\<lambda>init_eph_pk.
      qmark (select_credentials D responder account_id credentials) (ke2, state, w)
        (\<lambda>(selected_pk, selected_envelope, selected_masking_key).
      let account_context_hash = sha512_multi D [ACCOUNT_CONTEXT_BINDING, account_id] in
      qmark (validate_ristretto_point D (k1_credential_request ke1)) (ke2, state, w) (\<lambda>_.
      qmark (validate_public_key D init_eph_pk) (ke2, state, w) (\<lambda>_.
      qmark (validate_public_key D selected_pk) (ke2, state, w) (\<lambda>_.
      let state = state\<lparr>r_initiator_public_key := init_eph_pk,
            r_private_key := kp_private_key kp, r_public_key := kp_public_key kp,
            r_handshake_complete := False\<rparr>;
          (r, w) = random_nonzero_scalar D w in
      qmark r (ke2, state, w) (\<lambda>ephemeral_private_key.
      let state = state\<lparr>r_ephemeral_private_key := ephemeral_private_key\<rparr> in
      qmark (scalarmult_base D (r_ephemeral_private_key state)) (ke2, state, w) (\<lambda>ephemeral_public_key.
      let state = state\<lparr>r_ephemeral_public_key := ephemeral_public_key\<rparr>;
          (r, w) = random_bytes (length (m2_responder_nonce ke2)) w in
      qmark r (ke2, state, w) (\<lambda>responder_nonce.
      let ke2 = ke2\<lparr>m2_responder_nonce := responder_nonce,
            m2_responder_public_key := r_ephemeral_public_key state\<rparr> in
      qmark (try_into PUBLIC_KEY_LENGTH (k1_credential_request ke1) InvalidProtocolMessage)
        (ke2, state, w) (\<lambda>cred_req.
      qmark (responder_evaluate_oprf responder cred_req account_id) (ke2, state, w) (\<lambda>evaluated_elem.
      qmark (copy_into (m2_credential_response ke2) 0 PUBLIC_KEY_LENGTH evaluated_elem)
        (ke2, state, w) (\<lambda>cr.
      let ke2 = ke2\<lparr>m2_credential_response := cr\<rparr> in
      qmark (mask_credential_envelope D selected_masking_key (m2_responder_nonce ke2) evaluated_elem
               account_context_hash selected_envelope) (ke2, state, w) (\<lambda>masked_envelope.
      qmark (copy_into (m2_credential_response ke2) PUBLIC_KEY_LENGTH
               (length (m2_credential_response ke2)) masked_envelope) (ke2, state, w) (\<lambda>cr.
      let ke2 = ke2\<lparr>m2_credential_response := cr\<rparr> in
      qmark (scalar_mult D (kp_private_key kp) selected_pk) (ke2, state, w) (\<lambda>dh1.
      qmark (scalar_mult D (kp_private_key kp) init_eph_pk) (ke2, state, w) (\<lambda>dh2.
      qmark (scalar_mult D (r_ephemeral_private_key state) selected_pk) (ke2, state, w) (\<lambda>dh3.
      qmark (scalar_mult D (r_ephemeral_private_key state) init_eph_pk) (ke2, state, w) (\<lambda>dh4.
      let (r, w) = encapsulate D (k1_pq_ephemeral_public_key ke1) (m2_kem_ciphertext ke2)
            (zeros KEM_SHARED_SECRET_LENGTH) w in
      qmark r (ke2, state, w) (\<lambda>(kem_ciphertext, kem_ss).
      let ke2 = ke2\<lparr>m2_kem_ciphertext := kem_ciphertext\<rparr>;
          state = state\<lparr>r_pq_shared_secret := kem_ss\<rparr> in
      generate_ke2_keys D kp ke1 init_eph_pk selected_pk account_context_hash dh1 dh2 dh3 dh4 kem_ss
        ke2 state w))))))))))))))))))))"

text \<open>
  The three exits of \<open>responder_finish\<close> after the length, phase and expiry checks clear the
  same five fields and differ in \<open>handshake_complete\<close>.
\<close>

definition responder_close ::
  "('s, 'p, 'ek, 'dk) deps \<Rightarrow> bool \<Rightarrow> ResponderState \<Rightarrow> ResponderState" where
  "responder_close D complete state = state\<lparr>
     r_session_key := zeroize D (r_session_key state),
     r_pq_shared_secret := zeroize D (r_pq_shared_secret state),
     r_expected_initiator_mac := zeroize D (r_expected_initiator_mac state),
     r_ephemeral_private_key := zeroize D (r_ephemeral_private_key state),
     r_private_key := zeroize D (r_private_key state),
     r_handshake_complete := complete, r_phase := RFinished\<rparr>"

definition responder_finish ::
  "('s, 'p, 'ek, 'dk) deps \<Rightarrow> bytes \<Rightarrow> ResponderState \<Rightarrow> bytes \<Rightarrow> world
     \<Rightarrow> unit OpaqueResult \<times> bytes \<times> ResponderState \<times> world" where
  "responder_finish D ke3_data state session_key w =
     (if length ke3_data \<noteq> KE3_LENGTH then (Err InvalidProtocolMessage, session_key, state, w)
      else if r_phase state \<noteq> Ke2Generated then (Err ValidationError, session_key, state, w)
      else let (expired, w) = responder_is_expired state w in
      if expired then (Err ValidationError, session_key, responder_invalidate D state, w)
      else if is_all_zero D (r_session_key state) then (Err ValidationError, session_key, state, w)
      else case parse_ke3 ke3_data of
          Err e \<Rightarrow> (Err e, session_key, responder_close D False state, w)
        | Panic \<Rightarrow> (Panic, session_key, state, w)
        | Ok ke3 \<Rightarrow>
          if \<not> constant_time_eq D (k3_initiator_mac ke3) (r_expected_initiator_mac state)
          then (Err AuthenticationError, session_key, responder_close D False state, w)
          else qmark (copy_into session_key 0 (length session_key) (r_session_key state))
            (session_key, state, w) (\<lambda>session_key.
            (Ok (), session_key, responder_close D True state, w)))"


section \<open>Selection of credentials\<close>

lemma derive_key_pair_Ok:
  assumes "group_laws D" "subtle_laws D" "seed \<noteq> []"
  shows "derive_key_pair D seed =
     (let s = scalar_from_wide D (sha512_digest D (DERIVE_KEYPAIR_CONTEXT @ seed)) in
      if s = scalar_zero D then Err InvalidInput
      else Ok (scalar_bytes D s, point_compress D (base_mul D s)))"
  using assms by (auto simp: derive_key_pair_def Let_def)

lemma derive_key_pair_no_panic [no_panic]: "derive_key_pair D seed \<noteq> Panic"
  by (simp add: derive_key_pair_def Let_def)

text \<open>The credentials of an unknown account, computed from its fake material.\<close>

definition fake_credentials :: "('s, 'p, 'ek, 'dk) deps \<Rightarrow> bytes \<Rightarrow> bytes \<times> bytes \<times> bytes" where
  "fake_credentials D material =
     (point_compress D (base_mul D (scalar_from_wide D (sha512_digest D (DERIVE_KEYPAIR_CONTEXT @ material)))),
      hkdf_expand D material FAKE_CREDENTIALS_CONTEXT 136, masking_key_of D material)"

definition credentials_sized :: "ResponderCredentials \<Rightarrow> bool" where
  "credentials_sized c \<longleftrightarrow> length (c_masking_key c) = MASKING_KEY_LENGTH \<and>
     length (c_initiator_public_key c) = PUBLIC_KEY_LENGTH"

lemma select_credentials_eq:
  assumes laws: "deps_laws D" and wf: "OpaqueResponder_wf resp" and sized: "credentials_sized c"
    and fake: "responder_fake_material resp a = Ok material"
  shows "select_credentials D resp a c =
     (if scalar_from_wide D (sha512_digest D (DERIVE_KEYPAIR_CONTEXT @ material)) = scalar_zero D
      then Err InvalidInput
      else if \<not> c_registered c then Ok (fake_credentials D material)
      else if length (c_envelope c) \<noteq> 136 \<or> c_masking_key c = zeros 32 then Err ValidationError
      else and_then (validate_public_key D (c_initiator_public_key c)) (\<lambda>_.
        Ok (c_initiator_public_key c, c_envelope c, c_masking_key c)))"
proof -
  note D [simp] = deps_lawsD [OF laws]
  have mat: "length material = 64" "material \<noteq> []" using OpaqueResponder_wfD(6) [OF wf fake] by auto
  have [simp]: "length (masking_key_of D x) = 32" for x by (simp add: masking_key_of_def)
  show ?thesis
    using mat sized
    by (cases "validate_public_key D (c_initiator_public_key c)")
      (auto simp: select_credentials_def fake derive_key_pair_Ok key_derivation_expand_Ok
      derive_masking_key_Ok fake_credentials_def credentials_sized_def slice_simps copy_into_whole Let_def)
qed

lemma select_credentials_no_panic [no_panic]:
  assumes "deps_laws D" "OpaqueResponder_wf resp" "credentials_sized c"
  shows "select_credentials D resp a c \<noteq> Panic"
proof (cases "responder_fake_material resp a")
  case (Ok m)
  with assms show ?thesis by (simp add: select_credentials_eq result_simps no_panic)
qed (use OpaqueResponder_wfD(4) [OF assms(2)] in \<open>auto simp: select_credentials_def\<close>)

lemma select_credentials_sized:
  assumes "deps_laws D" "OpaqueResponder_wf resp" "credentials_sized c"
    and "select_credentials D resp a c = Ok (pk, env, mk)"
  shows "length pk = 32" "length env = 136" "length mk = 32"
proof -
  obtain m where m: "responder_fake_material resp a = Ok m"
    using assms(4) by (auto simp: select_credentials_def result_simps)
  show "length pk = 32" "length env = 136" "length mk = 32"
    using assms(4) deps_lawsD [OF assms(1)] assms(3)
    by (auto simp: select_credentials_eq [OF assms(1-3) m] fake_credentials_def masking_key_of_def
        credentials_sized_def result_simps split: if_splits)
qed

section \<open>KE2\<close>

lemma generate_ke2_keys_Ok:
  assumes laws: "deps_laws D" and dh: "length dh1 = 32" "length dh2 = 32" "length dh3 = 32" "length dh4 = 32"
    and ss: "length ss = 32"
    and sized: "transcript_sized ieph (r_ephemeral_public_key st) (k1_initiator_nonce ke1)
       (m2_responder_nonce ke2) pk (kp_public_key kp) (m2_credential_response ke2)
       (k1_pq_ephemeral_public_key ke1) (m2_kem_ciphertext ke2) ctx"
    and tr: "tr = transcript ieph (r_ephemeral_public_key st) (k1_initiator_nonce ke1)
       (m2_responder_nonce ke2) pk (kp_public_key kp) (m2_credential_response ke2)
       (k1_pq_ephemeral_public_key ke1) (m2_kem_ciphertext ke2) ctx"
    and prk: "prk = schedule_prk D (dh1 @ dh2 @ dh3 @ dh4) ss tr"
  shows "generate_ke2_keys D kp ke1 ieph pk ctx dh1 dh2 dh3 dh4 ss ke2 st w =
     (Ok (), ke2\<lparr>m2_responder_mac := responder_mac_of D prk tr\<rparr>,
      st\<lparr>r_phase := Ke2Generated, r_created_at := fst (instant_now w),
         r_session_key := session_key_of D prk,
         r_expected_initiator_mac := initiator_mac_of D prk tr\<rparr>, snd (instant_now w))"
proof -
  note D [simp] = deps_lawsD [OF laws]
  note t = append_transcript [OF sized, folded tr]
  show ?thesis
    using t(2,3) dh ss
    by (simp add: generate_ke2_keys_def fill_classical_ikm_Ok t [simplified] slice_simps combine_schedule
        schedule_expand responder_mac_of_def initiator_mac_of_def session_key_of_def prk
        responder_refresh_deadline_eq)
qed


text \<open>The widths of the arrays in the message the caller passes.\<close>

definition ke2_message_sized :: "Ke2Message \<Rightarrow> bool" where
  "ke2_message_sized m \<longleftrightarrow> length (m2_responder_nonce m) = NONCE_LENGTH \<and>
     length (m2_credential_response m) = CREDENTIAL_RESPONSE_LENGTH \<and>
     length (m2_kem_ciphertext m) = KEM_CIPHERTEXT_LENGTH"

text \<open>
  What a server that has answered \<open>m\<close> with KE2 has computed: every value is determined by
  the request, the selected credentials, the fresh ephemeral scalar \<open>e\<close> and the encapsulation.
\<close>

definition ke2_answer ::
  "('s, 'p, 'ek, 'dk) deps \<Rightarrow> 'e OpaqueResponder \<Rightarrow> bytes \<Rightarrow> Ke1Ref \<Rightarrow> bytes \<Rightarrow> bytes \<Rightarrow> bytes
     \<Rightarrow> 's \<Rightarrow> bytes \<Rightarrow> bytes \<Rightarrow> bytes \<Rightarrow> bytes \<Rightarrow> Ke2Message \<Rightarrow> ResponderState \<Rightarrow> bool" where
  "ke2_answer D resp account_id m pk env mk e ev masked ikm ss ke2 st \<longleftrightarrow>
     (\<exists>dh1 dh2 dh3 dh4 ek rng rng' tr prk.
       e \<noteq> scalar_zero D \<and> m2_responder_public_key ke2 = point_compress D (base_mul D e) \<and>
       length (m2_responder_nonce ke2) = 24 \<and>
       responder_evaluate_oprf resp (k1_credential_request m) account_id = Ok ev \<and>
       mask_credential_envelope D mk (m2_responder_nonce ke2) ev (account_context D account_id) env = Ok masked \<and>
       m2_credential_response ke2 = ev @ masked \<and> length ev = 32 \<and> length masked = 136 \<and>
       scalar_mult D (kp_private_key (or_keypair resp)) pk = Ok dh1 \<and>
       scalar_mult D (kp_private_key (or_keypair resp)) (k1_initiator_public_key m) = Ok dh2 \<and>
       scalar_mult D (scalar_bytes D e) pk = Ok dh3 \<and>
       scalar_mult D (scalar_bytes D e) (k1_initiator_public_key m) = Ok dh4 \<and>
       ikm = dh1 @ dh2 @ dh3 @ dh4 \<and>
       k1_pq_ephemeral_public_key m = ek_to_bytes D ek \<and>
       kem_encapsulate D ek rng = ((m2_kem_ciphertext ke2, ss), rng') \<and>
       tr = transcript (k1_initiator_public_key m) (m2_responder_public_key ke2) (k1_initiator_nonce m)
         (m2_responder_nonce ke2) pk (kp_public_key (or_keypair resp)) (m2_credential_response ke2)
         (k1_pq_ephemeral_public_key m) (m2_kem_ciphertext ke2) (account_context D account_id) \<and>
       prk = schedule_prk D ikm ss tr \<and>
       m2_responder_mac ke2 = responder_mac_of D prk tr \<and>
       r_session_key st = session_key_of D prk \<and> r_pq_shared_secret st = ss \<and>
       r_expected_initiator_mac st = initiator_mac_of D prk tr)"

text \<open>What a call of \<open>generate_ke2\<close> guarantees on every exit.\<close>

definition ke2_outcome ::
  "('s, 'p, 'ek, 'dk) deps \<Rightarrow> 'e OpaqueResponder \<Rightarrow> bytes \<Rightarrow> ResponderCredentials \<Rightarrow> bytes \<Rightarrow> ResponderState
     \<Rightarrow> unit OpaqueResult \<Rightarrow> Ke2Message \<Rightarrow> ResponderState \<Rightarrow> bool" where
  "ke2_outcome D resp account_id c ke1_data st r ke2' st' \<longleftrightarrow>
     responder_call RCreated Ke2Generated st r st' \<and>
     (r = Ok () \<longrightarrow> (\<exists>m pk env mk e ev masked ikm ss. parse_ke1 ke1_data = Ok m \<and>
        select_credentials D resp account_id c = Ok (pk, env, mk) \<and>
        ke2_answer D resp account_id m pk env mk e ev masked ikm ss ke2' st'))"

lemma ke2_outcome_Err:
  "responder_inv st' \<Longrightarrow> r_phase st' = r_phase st \<or> r_phase st' = RFinished \<Longrightarrow>
     ke2_outcome D resp a c ke1_data st (Err e) ke2' st'"
  by (simp add: ke2_outcome_def responder_call_Err)

lemma generate_ke2_keys_outcome:
  assumes laws: "deps_laws D" and parsed: "parse_ke1 ke1_data = Ok m"
    and sel: "select_credentials D resp a c = Ok (pk, env, mk)" and e: "e \<noteq> scalar_zero D"
    and ev: "responder_evaluate_oprf resp (k1_credential_request m) a = Ok ev"
    and mask: "mask_credential_envelope D mk (m2_responder_nonce ke2) ev (account_context D a) env = Ok masked"
    and dh: "scalar_mult D (kp_private_key (or_keypair resp)) pk = Ok dh1"
      "scalar_mult D (kp_private_key (or_keypair resp)) (k1_initiator_public_key m) = Ok dh2"
      "scalar_mult D (scalar_bytes D e) pk = Ok dh3"
      "scalar_mult D (scalar_bytes D e) (k1_initiator_public_key m) = Ok dh4"
    and kem: "k1_pq_ephemeral_public_key m = ek_to_bytes D ek"
      "kem_encapsulate D ek rng = ((m2_kem_ciphertext ke2, ss), rng')"
    and lens: "length pk = 32" "length ev = 32" "length masked = 136" "length (m2_responder_nonce ke2) = 24"
      "length (kp_public_key (or_keypair resp)) = 32"
    and msg: "m2_responder_public_key ke2 = point_compress D (base_mul D e)"
      "r_ephemeral_public_key st1 = m2_responder_public_key ke2" "m2_credential_response ke2 = ev @ masked"
    and st: "responder_wf st1" "\<not> r_handshake_complete st1" "r_phase st = RCreated"
      "r_pq_shared_secret st1 = ss"
  shows "leaves (generate_ke2_keys D (or_keypair resp) m (k1_initiator_public_key m) pk (account_context D a)
      dh1 dh2 dh3 dh4 ss ke2 st1 w) (\<lambda>r (ke2', st', w'). ke2_outcome D resp a c ke1_data st r ke2' st')"
proof -
  note D [simp] = deps_lawsD [OF laws]
  note dhs = dh [THEN scalar_mult_length [OF D(6,1)]]
  note k = kem_encapsulate_lengths [OF D(7) kem(2)]
  have "transcript_sized (k1_initiator_public_key m) (r_ephemeral_public_key st1) (k1_initiator_nonce m)
       (m2_responder_nonce ke2) pk (kp_public_key (or_keypair resp)) (m2_credential_response ke2)
       (k1_pq_ephemeral_public_key m) (m2_kem_ciphertext ke2) (account_context D a)"
    using ke1_codec.parse_sound [OF parsed] lens msg k by (simp add: transcript_sized_def ke1_sized_def)
  note keys = generate_ke2_keys_Ok [OF laws dhs k(2) this refl refl, of w]
  show ?thesis
    unfolding keys leaves_def ke2_outcome_def using st k(2)
    apply (simp add: responder_call_Ok responder_wf_updates parsed sel)
    apply (intro exI)
    unfolding ke2_answer_def
    apply (intro exI conjI)
    apply (rule assms | simp add: msg lens)+
    done
qed

lemma generate_ke2_call:
  assumes laws: "deps_laws D" and wf: "OpaqueResponder_wf resp" and c: "credentials_sized c"
    and inv: "responder_inv st" and ke2: "ke2_message_sized ke2"
  shows "leaves (generate_ke2 D resp ke1_data account_id c ke2 st w)
     (\<lambda>r (ke2', st', w'). ke2_outcome D resp account_id c ke1_data st r ke2' st')"
proof (cases "length ke1_data = KE1_LENGTH \<and> r_phase st = RCreated \<and> account_id \<noteq> []")
  case False
  with inv show ?thesis
    by (cases "r_phase st = RCreated") (auto simp: generate_ke2_def leaves_def ke2_outcome_Err)
next
  case True
  note D [simp] = deps_lawsD [OF laws]
  from True inv have st [simp]: "responder_wf st" "r_phase st = RCreated" "\<not> r_handshake_complete st" by auto
  note r [simp] = OpaqueResponder_wfD [OF wf]
  note upd [simp] = responder_wf_lengths [OF st(1)] responder_wf_updates
  have k [simp]: "length (m2_responder_nonce ke2) = 24" "length (m2_credential_response ke2) = 168"
    "length (m2_kem_ciphertext ke2) = 1088" using ke2 by (simp_all add: ke2_message_sized_def)
  have e [simp]: "ke2_outcome D resp account_id c ke1_data st (Err x) k1 s1"
    if "responder_wf s1" "r_phase s1 = RCreated" "\<not> r_handshake_complete s1" for x k1 s1
    using that by (simp add: ke2_outcome_Err)
  show ?thesis
    using True
    apply (simp add: generate_ke2_def del: KE1_LENGTH_def)
    apply (rule leaves_qmark)
    subgoal premises p for m
    proof -
      note parsed = p(2)
      have m [simp]: "length (k1_initiator_public_key m) = 32" "length (k1_credential_request m) = 32"
        using ke1_codec.parse_sound [OF parsed] by (auto simp: ke1_sized_def)
      show ?thesis
        apply (simp add: slice_simps Let_def account_context_def [symmetric])
        apply (rule leaves_qmark)
        subgoal premises p for sel
        proof -
          obtain pk env mk where sel: "select_credentials D resp account_id c = Ok (pk, env, mk)" "sel = (pk, env, mk)"
            using p by (metis prod.collapse)
          note sz [simp] = select_credentials_sized [OF laws wf c sel(1)]
          show ?thesis
            apply (simp add: sel(2))
            apply (rule leaves_qmark, rule leaves_qmark, rule leaves_qmark)
            apply (rule leaves_random_scalar [OF D(6,1)], simp add: leaves_def, simp)
            apply (rule leaves_qmark)
            subgoal premises p for e w1 ev
            proof -
              have [simp]: "length ev = 32" using r(5) p by blast
              show ?thesis
                apply (simp add: copy_into_def)
                apply (rule leaves_qmark)
                apply (frule mask_credential_envelope_length [OF D(3,1), rotated], simp, simp)
                apply (rule leaves_qmark, rule leaves_qmark, rule leaves_qmark, rule leaves_qmark)
                apply (rule leaves_encapsulate [OF D(7) k(3)], simp, simp add: leaves_def, simp)
                apply (rule generate_ke2_keys_outcome [OF laws parsed sel(1)])
                using p apply (assumption | simp add: no_panic)+
                done
            qed
            apply (simp_all add: no_panic)
            done
        qed
        using select_credentials_no_panic [OF laws wf c] by simp_all
    qed
    by (simp_all add: no_panic)
qed

section \<open>The end of the session\<close>

lemma responder_close_props:
  assumes "zeroize_laws D" "responder_wf st"
  shows "responder_inv (responder_close D b st)" "r_phase (responder_close D b st) = RFinished"
    "r_handshake_complete (responder_close D b st) = b" "responder_wiped (responder_close D b st)"
  using assms by (simp_all add: responder_close_def responder_inv_def responder_wiped_def responder_wf_def)

text \<open>
  The exact behaviour: the session key is handed out if and only if the message is a KE3 of
  this version that carries the expected MAC, in the right phase and in time.
\<close>

lemma responder_finish_eq:
  assumes laws: "deps_laws D" and wf: "responder_wf st" and out: "length sk = 64"
    and ex: "responder_is_expired st w = (ex, w1)"
  shows "responder_finish D ke3 st sk w =
     (if length ke3 \<noteq> KE3_LENGTH then (Err InvalidProtocolMessage, sk, st, w)
      else if r_phase st \<noteq> Ke2Generated then (Err ValidationError, sk, st, w)
      else if ex then (Err ValidationError, sk, responder_invalidate D st, w1)
      else if r_session_key st = zeros 64 then (Err ValidationError, sk, st, w1)
      else if hd ke3 \<noteq> PROTOCOL_VERSION_2 then (Err UnsupportedVersion, sk, responder_close D False st, w1)
      else if tl ke3 \<noteq> r_expected_initiator_mac st
      then (Err AuthenticationError, sk, responder_close D False st, w1)
      else (Ok (), r_session_key st, responder_close D True st, w1))"
proof -
  note D [simp] = deps_lawsD [OF laws]
  have parse: "parse_ke3 ke3 = (if hd ke3 \<noteq> PROTOCOL_VERSION_2 then Err UnsupportedVersion
     else Ok \<lparr>k3_initiator_mac = tl ke3\<rparr>)" if "length ke3 = KE3_LENGTH"
    using that by (cases ke3) (auto simp: parse_ke3_def check_version_def slice_simps)
  show ?thesis
    using out responder_wf_lengths [OF wf]
    by (auto simp: responder_finish_def ex parse copy_into_whole simp del: KE3_LENGTH_def)
qed

lemma responder_finish_call:
  assumes laws: "deps_laws D" and inv: "responder_inv st" and out: "length sk = 64"
    and run: "responder_finish D ke3 st sk w = (r, sk', st', w')"
  shows "responder_call Ke2Generated RFinished st r st'" "r = Ok () \<or> sk' = sk"
proof -
  obtain ex w1 where ex: "responder_is_expired st w = (ex, w1)" by fastforce
  note wf = responder_inv_wf [OF inv]
  show "responder_call Ke2Generated RFinished st r st'" "r = Ok () \<or> sk' = sk"
    using run inv wf laws responder_close_props [OF _ wf, of D] responder_invalidate_props [OF _ wf, of D]
    by (auto simp: responder_finish_eq [OF laws wf out ex] split: if_splits
        intro!: responder_call_Ok responder_call_Err)
qed

section \<open>Progress\<close>

lemma generate_ke2_succeeds:
  assumes laws: "deps_laws D" and wf: "OpaqueResponder_wf resp" and st: "responder_wf st" "r_phase st = RCreated"
    and a: "account_id \<noteq> []" and ke2: "ke2_message_sized ke2" and parsed: "parse_ke1 ke1_data = Ok m"
    and points: "k1_credential_request m = point_compress D p" "p \<noteq> point_identity D"
      "k1_initiator_public_key m = point_compress D q" "q \<noteq> point_identity D"
      "k1_pq_ephemeral_public_key m = ek_to_bytes D ek"
    and sel: "select_credentials D resp account_id c = Ok (point_compress D t, env, mk)" "t \<noteq> point_identity D"
      "length env = 136" "length mk = 32" "mk \<noteq> zeros 32"
    and sk: "kp_private_key (or_keypair resp) = scalar_bytes D s" "s \<noteq> scalar_zero D"
    and ev: "responder_evaluate_oprf resp (point_compress D p) account_id = Ok ev"
    and ctx: "account_context D account_id \<noteq> zeros 64" and tape: "nonzero_tape D (w_rng w)"
  shows "\<exists>ke2' st' w'. generate_ke2 D resp ke1_data account_id c ke2 st w = (Ok (), ke2', st', w')"
proof -
  note D [simp] = deps_lawsD [OF laws]
  have len: "length ke1_data = KE1_LENGTH" using parsed ke1_codec.parse_length [of ke1_data] by auto
  have m: "length (k1_initiator_nonce m) = 24" using ke1_codec.parse_sound [OF parsed] by (simp add: ke1_sized_def)
  have k: "length (m2_responder_nonce ke2) = 24" "length (m2_credential_response ke2) = 168"
    "length (m2_kem_ciphertext ke2) = 1088" using ke2 by (simp_all add: ke2_message_sized_def)
  have l: "length ev = 32" "length (kp_public_key (or_keypair resp)) = 32" using OpaqueResponder_wfD [OF wf] ev by auto
  obtain e where e: "e \<noteq> scalar_zero D" "random_nonzero_scalar D w = (Ok (scalar_bytes D e), snd (fill_bytes 64 w))"
    using random_nonzero_scalar_tape [OF D(6,1) tape] .
  let ?w1 = "snd (fill_bytes 24 (snd (fill_bytes 64 w)))" and ?n = "fst (fill_bytes 24 (snd (fill_bytes 64 w)))"
  obtain masked where mask: "mask_credential_envelope D mk ?n ev (account_context D account_id) env = Ok masked"
    using sel ctx l by (simp add: mask_credential_envelope_eq)
  have ml: "length masked = 136" using mask_credential_envelope_length [OF D(3,1) sel(3) mask] .
  obtain ct ss rng where kem: "kem_encapsulate D ek (w_rng ?w1) = ((ct, ss), rng)" by (metis surj_pair)
  note kl = kem_encapsulate_lengths [OF D(7) kem]
  show ?thesis
    using len st(2) a points sel(2) sk ev e mask
    by (simp add: generate_ke2_def parsed slice_simps sel(1) k l ml Let_def copy_into_def encapsulate_Ok kem
        account_context_def [symmetric] del: KE1_LENGTH_def)
      (subst generate_ke2_keys_Ok [OF laws _ _ _ _ kl(2) _ refl refl], simp_all add: transcript_sized_def m k l kl ml)
qed

section \<open>Properties\<close>

text \<open>A server that can evaluate nothing but fails cleanly, over the sample dependencies.\<close>

definition sample_refusing :: "unit OpaqueResponder" where
  "sample_refusing = \<lparr>or_keypair = \<lparr>kp_private_key = z3_encode Z2, kp_public_key = z3_encode Z2\<rparr>,
     or_evaluator = \<lparr>ev_self = (), ev_evaluate_oprf = (\<lambda>_ _ _. Err CryptoError),
       ev_derive_fake_material = (\<lambda>_ _. Ok (replicate 64 1)), ev_zeroize_secret = (\<lambda>e. e)\<rparr>\<rparr>"

lemma sample_refusing_wf: "OpaqueResponder_wf sample_refusing"
  by (simp add: OpaqueResponder_wf_def sample_refusing_def responder_evaluate_oprf_def
      responder_fake_material_def z3_encode_laws)

text \<open>
  The credentials served for an account are its own record if it is registered and
  deterministic fake ones, derived from the account's fake material, if it is not; both
  have the same widths. The fake ones are computed on either path, so that a failure of
  their derivation shows for registered accounts too.
\<close>

lemma select_credentials_exact:
  assumes "deps_laws D" "OpaqueResponder_wf resp" "credentials_sized c"
    and "responder_fake_material resp account_id = Ok material"
  shows "select_credentials D resp account_id c =
     (if scalar_from_wide D (sha512_digest D (DERIVE_KEYPAIR_CONTEXT @ material)) = scalar_zero D
      then Err InvalidInput
      else if \<not> c_registered c then Ok (fake_credentials D material)
      else if length (c_envelope c) \<noteq> 136 \<or> c_masking_key c = zeros 32 then Err ValidationError
      else and_then (validate_public_key D (c_initiator_public_key c)) (\<lambda>_.
        Ok (c_initiator_public_key c, c_envelope c, c_masking_key c))) \<and>
    (\<forall>pk env mk. select_credentials D resp account_id c = Ok (pk, env, mk) \<longrightarrow>
      length pk = PUBLIC_KEY_LENGTH \<and> length env = ENVELOPE_LENGTH \<and> length mk = MASKING_KEY_LENGTH)"
  using select_credentials_eq [OF assms] select_credentials_sized [OF assms(1-3), of account_id] by simp

text \<open>
  C3: \<open>responder_finish\<close> on every exit: the session key is handed out if and only if the
  message has the length and version of a KE3 and carries exactly the expected MAC, in the
  phase after KE2 and within the lifetime. Every other message that reaches the MAC check
  ends the session; every exit behind the checks leaves a wiped state.
\<close>

theorem responder_finish_exact:
  assumes "deps_laws D" "responder_wf st" "length sk = HASH_LENGTH" "responder_is_expired st w = (ex, w1)"
  shows "responder_finish D ke3 st sk w =
     (if length ke3 \<noteq> KE3_LENGTH then (Err InvalidProtocolMessage, sk, st, w)
      else if r_phase st \<noteq> Ke2Generated then (Err ValidationError, sk, st, w)
      else if ex then (Err ValidationError, sk, responder_invalidate D st, w1)
      else if r_session_key st = zeros 64 then (Err ValidationError, sk, st, w1)
      else if hd ke3 \<noteq> PROTOCOL_VERSION_2 then (Err UnsupportedVersion, sk, responder_close D False st, w1)
      else if tl ke3 \<noteq> r_expected_initiator_mac st
      then (Err AuthenticationError, sk, responder_close D False st, w1)
      else (Ok (), r_session_key st, responder_close D True st, w1)) \<and>
    responder_wiped (responder_close D b st) \<and> r_handshake_complete (responder_close D b st) = b"
  using responder_finish_eq [OF assms(1,2) _ assms(4)] responder_close_props [OF deps_lawsD(2) [OF assms(1)] assms(2)]
    assms(3) by simp

theorem responder_finish_exact_witness:
  "\<exists>st'. responder_finish sample (2 # zeros 64)
       ((fst (ResponderState_new sample_world))\<lparr>r_phase := Ke2Generated, r_session_key := replicate 64 1\<rparr>)
       (zeros 64) sample_world = (Ok (), replicate 64 1, st', snd (instant_now sample_world)) \<and> r_handshake_complete st'"
proof -
  let ?st = "(fst (ResponderState_new sample_world))\<lparr>r_phase := Ke2Generated, r_session_key := replicate 64 1\<rparr>"
  have wf: "responder_wf ?st" using ResponderState_new_props [of sample_world] by (simp add: responder_wf_updates)
  have ex: "responder_is_expired ?st sample_world = (False, snd (instant_now sample_world))"
    by (simp add: responder_is_expired_def ResponderState_new_def instant_now_def sample_world_def
        checked_duration_since_def as_secs_def)
  have "r_expected_initiator_mac ?st = zeros 64" "r_session_key ?st \<noteq> zeros 64"
    by (simp_all add: ResponderState_new_def instant_now_def zeros_def)
  then show ?thesis
    using responder_finish_exact [OF sample_laws wf _ ex, of "zeros 64" "2 # zeros 64" True] by simp
qed

text \<open>
  \<open>generate_ke2\<close> answers only what it has checked, and everything in the answer is
  determined: on success the request parsed, the credentials were selected for the account,
  the response carries the OPRF evaluation and the masked envelope, and the MAC, the session
  key and the expected client MAC are those of the key schedule over the four
  Diffie-Hellman results, the encapsulated secret and the whole transcript. On failure no
  call panics and the session is unchanged in phase or finished.
\<close>

lemma generate_ke2_determined:
  assumes "deps_laws D" "OpaqueResponder_wf resp" "credentials_sized c" "responder_inv st"
    and "generate_ke2 D resp ke1_data account_id c Ke2Message_new st w = (r, ke2, st', w')"
  shows "responder_call RCreated Ke2Generated st r st' \<and>
     (r = Ok () \<longrightarrow> (\<exists>m pk env mk e ev masked ikm ss. parse_ke1 ke1_data = Ok m \<and>
        select_credentials D resp account_id c = Ok (pk, env, mk) \<and>
        ke2_answer D resp account_id m pk env mk e ev masked ikm ss ke2 st'))"
  using leavesD [OF generate_ke2_call [OF assms(1-4)] assms(5)]
  by (simp add: ke2_outcome_def Ke2Message_new_def ke2_message_sized_def)

end
