(* ===== verification/Relay_Session.thy ===== *)
theory Relay_Session
  imports Relay_Registration Relay_Authentication Session_Machine
begin

text \<open>
  The server's session as a step relation, with the same contract as the client's.
\<close>

datatype ResponderEvent =
    GenerateKe2 "unit OpaqueResult"
  | ResponderFinish "unit OpaqueResult" bytes
  | ResponderInvalidate

inductive responder_step ::
  "('s, 'p, 'ek, 'dk) deps \<Rightarrow> 'e OpaqueResponder \<Rightarrow> ResponderState \<Rightarrow> ResponderEvent \<Rightarrow> ResponderState \<Rightarrow> bool"
  for D :: "('s, 'p, 'ek, 'dk) deps" and resp :: "'e OpaqueResponder" where
  step_ke2: "credentials_sized c \<Longrightarrow> ke2_message_sized ke2 \<Longrightarrow>
     generate_ke2 D resp ke1_data account_id c ke2 s w = (r, ke2', s', w') \<Longrightarrow>
     responder_step D resp s (GenerateKe2 r) s'"
| step_rfinish: "length sk = HASH_LENGTH \<Longrightarrow> responder_finish D ke3_data s sk w = (r, sk', s', w') \<Longrightarrow>
     responder_step D resp s (ResponderFinish r sk') s'"
| step_rinvalidate: "responder_step D resp s ResponderInvalidate (responder_invalidate D s)"

fun responder_result :: "ResponderEvent \<Rightarrow> unit OpaqueResult option" where
  "responder_result (GenerateKe2 r) = Some r"
| "responder_result (ResponderFinish r _) = Some r"
| "responder_result ResponderInvalidate = None"

definition responder_succeeds :: "ResponderEvent \<Rightarrow> bool" where
  "responder_succeeds e \<longleftrightarrow> responder_result e = Some (Ok ())"

fun responder_src :: "ResponderEvent \<Rightarrow> ResponderPhase" where
  "responder_src (GenerateKe2 _) = RCreated"
| "responder_src (ResponderFinish _ _) = Ke2Generated"
| "responder_src ResponderInvalidate = RFinished"

fun responder_dst :: "ResponderEvent \<Rightarrow> ResponderPhase" where
  "responder_dst (GenerateKe2 _) = Ke2Generated"
| "responder_dst (ResponderFinish _ _) = RFinished"
| "responder_dst ResponderInvalidate = RFinished"

fun responder_rank :: "ResponderPhase \<Rightarrow> nat" where
  "responder_rank RCreated = 0"
| "responder_rank Ke2Generated = 1"
| "responder_rank RFinished = 2"

lemma responder_step_call:
  assumes laws: "deps_laws D" and wf: "OpaqueResponder_wf resp" and inv: "responder_inv s"
    and step: "responder_step D resp s e s'"
  shows "(\<exists>r. responder_result e = Some r \<and> responder_call (responder_src e) (responder_dst e) s r s')
     \<or> e = ResponderInvalidate \<and> s' = responder_invalidate D s"
  using step
proof cases
  case (step_ke2 c ke2 ke1_data account_id w r ke2' w')
  then show ?thesis using leavesD [OF generate_ke2_call [OF laws wf step_ke2(2) inv step_ke2(3)] step_ke2(4)]
    by (simp add: ke2_outcome_def)
next
  case (step_rfinish sk ke3_data w r sk' w')
  then show ?thesis using responder_finish_call [OF laws inv] by force
qed simp

interpretation responder_session: session_machine "responder_step D resp"
  "\<lambda>s. deps_laws D \<and> OpaqueResponder_wf resp \<and> responder_inv s" r_phase RFinished responder_succeeds
  responder_src responder_dst responder_rank
  for D :: "('s, 'p, 'ek, 'dk) deps" and resp :: "'e OpaqueResponder"
proof (unfold_locales, goal_cases)
  case (1 s e t)
  then show ?case using responder_step_call [of D resp s e t] by (auto simp: responder_call_def responder_inv_wf)
next
  case (2 s e t)
  then show ?case using responder_step_call [of D resp s e t] by (auto simp: responder_call_def responder_succeeds_def)
next
  case (3 s e t)
  then show ?case using responder_step_call [of D resp s e t]
    by (auto simp: responder_call_def responder_succeeds_def responder_inv_wf responder_invalidate_def)
next
  case (4 e)
  then show ?case by (cases e) (auto simp: responder_succeeds_def)
next
  case (5 e)
  then show ?case by (cases e) (auto simp: responder_succeeds_def)
next
  case (6 p)
  then show ?case by (cases p) auto
qed

section \<open>Sequences of calls\<close>

lemma responder_run_no_panic:
  "run (responder_step D resp) s es t \<Longrightarrow> deps_laws D \<Longrightarrow> OpaqueResponder_wf resp \<Longrightarrow> responder_inv s \<Longrightarrow>
     (\<forall>e \<in> set es. responder_result e \<noteq> Some Panic)"
proof (induction rule: run.induct)
  case (run_Cons s e t es u)
  then have "responder_inv t" "responder_result e \<noteq> Some Panic"
    using responder_step_call [of D resp s e t] by (auto simp: responder_call_def responder_inv_wf)
  with run_Cons show ?case by simp
qed simp

definition responder_edge :: "ResponderEvent \<Rightarrow> ResponderPhase \<times> ResponderPhase" where
  "responder_edge e = (responder_src e, responder_dst e)"

abbreviation answer_path :: "(ResponderPhase \<times> ResponderPhase) list" where
  "answer_path \<equiv> [(RCreated, Ke2Generated), (Ke2Generated, RFinished)]"

lemma responder_chain_step:
  assumes "chain responder_src responder_dst p es" "\<forall>e \<in> set es. responder_succeeds e"
  obtains "es = []" | e es' q where "es = e # es'" "responder_edge e = (p, q)" "p \<noteq> RFinished"
    "q = (if p = RCreated then Ke2Generated else RFinished)"
    "chain responder_src responder_dst q es'" "\<forall>e \<in> set es'. responder_succeeds e"
proof (cases es)
  case (Cons e es')
  then show ?thesis using assms that by (cases e) (auto simp: responder_succeeds_def responder_edge_def)
qed (use that in blast)

lemma responder_chain_ended:
  "chain responder_src responder_dst RFinished es \<Longrightarrow> \<forall>e \<in> set es. responder_succeeds e \<Longrightarrow> es = []"
  by (erule (1) responder_chain_step) auto

lemma responder_chain_answered:
  "chain responder_src responder_dst Ke2Generated es \<Longrightarrow> \<forall>e \<in> set es. responder_succeeds e \<Longrightarrow>
     prefix (map responder_edge es) (tl answer_path)"
  by (erule (1) responder_chain_step) (auto dest: responder_chain_ended)

lemma responder_chain_created:
  "chain responder_src responder_dst RCreated es \<Longrightarrow> \<forall>e \<in> set es. responder_succeeds e \<Longrightarrow>
     prefix (map responder_edge es) answer_path"
  by (erule (1) responder_chain_step) (auto dest: responder_chain_answered)

lemma ResponderState_new_inv: "responder_inv (fst (ResponderState_new w))"
  using ResponderState_new_props [of w] by simp

text \<open>A server over the sample dependencies.\<close>

definition sample_keypair :: ResponderKeyPair where
  "sample_keypair = \<lparr>kp_private_key = z3_encode Z2, kp_public_key = z3_encode Z2\<rparr>"

definition sample_evaluator :: InMemoryEvaluator where
  "sample_evaluator = \<lparr>mem_oprf_seed = replicate 32 1\<rparr>"

definition sample_responder :: "InMemoryEvaluator OpaqueResponder" where
  "sample_responder = \<lparr>or_keypair = sample_keypair,
     or_evaluator = InMemoryEvaluator_dyn sample sample_evaluator\<rparr>"

lemma sample_responder_new:
  "ResponderKeyPair_from_keys sample (z3_encode Z2) (z3_encode Z2) = Ok sample_keypair"
  "OpaqueResponder_new sample sample_keypair (replicate 32 1) = Ok sample_responder"
proof -
  show "ResponderKeyPair_from_keys sample (z3_encode Z2) (z3_encode Z2) = Ok sample_keypair"
    by (auto simp: ResponderKeyPair_from_keys_Ok_iff sample_keypair_def)
  have "replicate 32 (1 :: u8) \<noteq> zeros 32" by (simp add: zeros_def)
  moreover have "validate_public_key sample (z3_encode Z2) = Ok ()"
    using validate_compress(1) [of sample Z2] by simp
  ultimately show "OpaqueResponder_new sample sample_keypair (replicate 32 1) = Ok sample_responder"
    by (simp add: OpaqueResponder_new_def InMemoryEvaluator_new_def sample_keypair_def sample_responder_def
        sample_evaluator_def)
qed

lemma sample_responder_wf: "OpaqueResponder_wf sample_responder"
  by (rule OpaqueResponder_new_wf(1) [OF sample_laws sample_responder_new(2)])
    (simp add: sample_keypair_def z3_encode_laws)

lemma sample_server_run:
  "\<exists>s. run (responder_step sample sample_responder) (fst (ResponderState_new w))
     [GenerateKe2 (Err InvalidProtocolMessage), ResponderInvalidate] s"
proof -
  have sized: "credentials_sized ResponderCredentials_new" "ke2_message_sized Ke2Message_new"
    by (simp_all add: credentials_sized_def ResponderCredentials_new_def ke2_message_sized_def Ke2Message_new_def)
  have "generate_ke2 sample sample_responder [] [7] ResponderCredentials_new Ke2Message_new (fst (ResponderState_new w)) w
      = (Err InvalidProtocolMessage, Ke2Message_new, fst (ResponderState_new w), w)"
    by (simp add: generate_ke2_def)
  from step_ke2 [OF sized this] show ?thesis by (auto simp: run_Cons_iff intro: step_rinvalidate)
qed

section \<open>Properties\<close>

text \<open>
  C13: in every state a server session reaches from a new one, by any sequence of calls, the
  buffers have their widths, a finished session holds no secret, and the handshake counts
  as complete only in a finished session. No call of the sequence panics.
\<close>

theorem server_session_invariant:
  assumes "deps_laws D" "OpaqueResponder_wf resp" "run (responder_step D resp) (fst (ResponderState_new w)) es s"
  shows "responder_inv s \<and> (\<forall>e \<in> set es. responder_result e \<noteq> Some Panic)"
  using responder_session.run_inv [OF assms(3)] responder_run_no_panic [OF assms(3,1,2)] ResponderState_new_inv [of w]
    assms(1,2) by simp

theorem server_session_invariant_witness:
  "\<exists>s. run (responder_step sample sample_responder) (fst (ResponderState_new sample_world))
     [GenerateKe2 (Err InvalidProtocolMessage), ResponderInvalidate] s \<and> responder_inv s"
  using sample_server_run [of sample_world] server_session_invariant [OF sample_laws sample_responder_wf] by blast



text \<open>
  A server session that has finished stays finished and empty, and no later call on it
  succeeds: a captured KE3 cannot be replayed into it.
\<close>

lemma server_finished_is_final:
  assumes "deps_laws D" "OpaqueResponder_wf resp" "responder_inv s" "r_phase s = RFinished"
    and "run (responder_step D resp) s es t"
  shows "r_phase t = RFinished \<and> responder_wiped t \<and> (\<forall>e \<in> set es. \<not> responder_succeeds e)"
proof -
  have "responder_inv t" "r_phase t = RFinished" "filter responder_succeeds es = []"
    using responder_session.run_inv [OF assms(5)] responder_session.ended_run [OF assms(5)] assms(1-4) by auto
  then show ?thesis by (auto simp: responder_inv_def filter_empty_conv)
qed

end
