(* ===== verification/Handshake.thy ===== *)
theory Handshake
  imports Agent_Session Relay_Session
begin

text \<open>
  Registration and login end to end: the client's and the server's handlers, joined by the
  wire messages the writers produce.
\<close>

section \<open>Registration\<close>

text \<open>The record of a registered account, and the password under which it opens.\<close>

definition account_ready ::
  "('s, 'p, 'ek, 'dk) deps \<Rightarrow> bytes \<Rightarrow> bytes \<Rightarrow> ResponderCredentials \<Rightarrow> bool" where
  "account_ready D rwd rpk c \<longleftrightarrow> c_registered c \<and> c_masking_key c = masking_key_of D rwd \<and> rwd \<noteq> [] \<and>
     (\<exists>si. si \<noteq> scalar_zero D \<and> c_initiator_public_key c = point_compress D (base_mul D si) \<and>
        sealed_keys D rwd rpk (scalar_bytes D si) (c_initiator_public_key c) (c_envelope c))"

definition password_key :: "('s, 'p, 'ek, 'dk) deps \<Rightarrow> 's \<Rightarrow> bytes \<Rightarrow> bytes" where
  "password_key D k pwd = randomized_password_of D (oprf_value D k pwd) pwd"

lemma length_masking_key_of [simp]: "hash_laws D \<Longrightarrow> length (masking_key_of D rwd) = 32"
  by (simp add: masking_key_of_def)

lemma registration_completes_aux:
  assumes laws: "deps_laws D" and honest: "honest_responder D resp a s k"
    and init: "oi_responder_public_key init = kp_public_key (or_keypair resp)"
    and pend: "registration_pending D pwd st1 blinded"
    and fresh: "initiator_is_expired st1 w2 = (False, w3)"
  obtains rs rec st2 w4 cred where
    "create_registration_response D resp (registration_request_wire blinded) a RegistrationResponse_new = (Ok (), rs)"
    "finalize_registration D init (PROTOCOL_VERSION # rs_data rs) st1 RegistrationRecord_new w2 = (Ok (), rec, st2, w4)"
    "length (rs_data rs) = 64" "length (rd_envelope rec) = 168" "length (rd_initiator_public_key rec) = 32"
    "build_credentials D (PROTOCOL_VERSION # rd_envelope rec @ rd_initiator_public_key rec)
       ResponderCredentials_new = (Ok (), cred)"
    "account_ready D (password_key D k pwd) (kp_public_key (or_keypair resp)) cred"
proof -
  note D [simp] = deps_lawsD [OF laws]
  from pend obtain si r where p: "initiator_wf st1" "i_phase st1 = RegistrationRequested" "pwd \<noteq> []"
    "take (i_secure_key_len st1) (i_secure_key st1) = pwd"
    "si \<noteq> scalar_zero D" "i_private_key st1 = scalar_bytes D si" "i_public_key st1 = point_compress D (base_mul D si)"
    "r \<noteq> scalar_zero D" "i_blind_scalar st1 = scalar_bytes D r" "password_point D pwd \<noteq> point_identity D"
    "blinded = point_compress D (point_mul D r (password_point D pwd))"
    unfolding registration_pending_def by blast
  have h: "OpaqueResponder_wf resp" "s \<noteq> scalar_zero D" "k \<noteq> scalar_zero D"
    "kp_public_key (or_keypair resp) = point_compress D (base_mul D s)"
    using honest by (auto simp: honest_responder_def)
  let ?ev = "point_compress D (point_mul D k (point_mul D r (password_point D pwd)))"
  let ?rpk = "point_compress D (base_mul D s)" and ?rwd = "password_key D k pwd"
  let ?rs = "\<lparr>rs_data = ?ev @ ?rpk\<rparr>" and ?view = "\<lparr>rr_evaluated_element = ?ev, rr_responder_public_key = ?rpk\<rparr>"
  have resp: "create_registration_response D resp (registration_request_wire blinded) a RegistrationResponse_new = (Ok (), ?rs)"
    using create_registration_response_Ok [OF laws honest, of "point_mul D r (password_point D pwd)" RegistrationResponse_new] p
    by (simp add: RegistrationResponse_new_def)
  have view: "parse_registration_response (PROTOCOL_VERSION # rs_data ?rs) = Ok ?view"
    using registration_response_codec.parse_wire [of ?view]
    by (simp add: registration_response_wire_def registration_response_sized_def)
  have fin: "finalize D pwd (i_blind_scalar st1) (rr_evaluated_element ?view) = Ok (oprf_value D k pwd)"
    using p h by (simp add: finalize_blinded)
  have valid: "validate_public_key D ?rpk = Ok ()" using h by simp
  obtain env where fr: "finalize_registration D init (PROTOCOL_VERSION # rs_data ?rs) st1 RegistrationRecord_new w2 = (Ok (),
      RegistrationRecord_new\<lparr>rd_envelope := masking_key_of D ?rwd @ env_nonce env @ env_ciphertext env @ env_auth_tag env,
          rd_initiator_public_key := i_public_key st1\<rparr>, registration_finalized st1 ?rpk, snd (fill_bytes 24 w3))"
    and seal: "seal D ?rwd ?rpk (i_private_key st1) (i_public_key st1) Envelope_new w3 = (Ok (), env, snd (fill_bytes 24 w3))"
    and ne: "?rwd \<noteq> []"
    by (rule finalize_registration_accepts [OF laws p(1,2) fresh view valid _ _ fin])
      (use init h p in \<open>auto simp: password_key_def\<close>)
  obtain env' where "seal D ?rwd ?rpk (i_private_key st1) (i_public_key st1) Envelope_new w3 = (Ok (), env', snd (fill_bytes 24 w3))"
    "sealed_keys D ?rwd ?rpk (i_private_key st1) (i_public_key st1) (env_nonce env' @ env_ciphertext env' @ env_auth_tag env')"
    by (rule seal_then_open [OF D(3,5,6,1) ne _ p(5-7), of ?rpk Envelope_new w3]) (auto simp: Envelope_new_def)
  with seal have sealed: "sealed_keys D ?rwd ?rpk (i_private_key st1) (i_public_key st1)
      (env_nonce env @ env_ciphertext env @ env_auth_tag env)" by simp
  let ?e = "env_nonce env @ env_ciphertext env @ env_auth_tag env"
  let ?m = "\<lparr>rec_masking_key = masking_key_of D ?rwd, rec_envelope = ?e, rec_initiator_public_key = i_public_key st1\<rparr>"
  have len: "length ?e = 136" using sealed by (simp add: sealed_keys_def)
  have parse: "parse_registration_record (PROTOCOL_VERSION # (masking_key_of D ?rwd @ ?e) @ i_public_key st1) = Ok ?m"
    using registration_record_codec.parse_wire [of ?m] len p
    by (simp add: registration_record_wire_def registration_record_sized_def)
  let ?c = "\<lparr>c_envelope = ?e, c_masking_key = masking_key_of D ?rwd,
      c_initiator_public_key = i_public_key st1, c_registered = True\<rparr>"
  have build: "build_credentials D (PROTOCOL_VERSION # (masking_key_of D ?rwd @ ?e) @ i_public_key st1)
      ResponderCredentials_new = (Ok (), ?c)"
    using p(5) by (simp add: build_credentials_eq ResponderCredentials_new_def
        parse [unfolded p(7), simplified] p(7) laws)
  have ready: "account_ready D ?rwd ?rpk ?c" using sealed ne p(5-7) by (auto simp: account_ready_def)
  show thesis
    by (rule that [OF resp fr _ _ _ _ ready [folded h(4)]])
      (use build len p(7) in \<open>simp_all add: h(4)\<close>)
qed


section \<open>Login\<close>

text \<open>A registered account is served its own record.\<close>

lemma select_registered:
  assumes "deps_laws D" "OpaqueResponder_wf resp" "credentials_sized c" "c_registered c"
    and "select_credentials D resp a c = Ok (pk, env, mk)"
  shows "pk = c_initiator_public_key c" "env = c_envelope c" "mk = c_masking_key c"
proof -
  obtain mat where "responder_fake_material resp a = Ok mat"
    using assms(5) by (auto simp: select_credentials_def result_simps)
  then show "pk = c_initiator_public_key c" "env = c_envelope c" "mk = c_masking_key c"
    using assms by (auto simp: select_credentials_eq result_simps split: if_splits)
qed

text \<open>Both sides compute the four Diffie-Hellman results from their own halves.\<close>

lemma dh_agree:
  assumes "group_laws D" "subtle_laws D" "s \<noteq> scalar_zero D" "t \<noteq> scalar_zero D"
  shows "scalar_mult D (scalar_bytes D s) (point_compress D (base_mul D t))
     = scalar_mult D (scalar_bytes D t) (point_compress D (base_mul D s))"
  using assms by (simp add: point_mul_commute(2) [of D s t])

lemma recover_session_agrees:
  assumes laws: "deps_laws D" and honest: "honest_responder D resp a s k"
    and init: "rpk = kp_public_key (or_keypair resp)"
    and ready: "account_ready D (password_key D k pwd) rpk c"
    and pend: "login_pending D pwd a st ke1"
    and m: "m = \<lparr>k1_credential_request = m1_credential_request ke1,
      k1_initiator_public_key = m1_initiator_public_key ke1, k1_initiator_nonce = m1_initiator_nonce ke1,
      k1_pq_ephemeral_public_key = m1_pq_ephemeral_public_key ke1\<rparr>"
    and ans: "ke2_answer D resp a m (c_initiator_public_key c) (c_envelope c) (c_masking_key c) e ev masked ikm ss ke2 rst"
    and ke2: "parse_ke2 ke2_data = Ok \<lparr>k2_responder_nonce = m2_responder_nonce ke2,
      k2_responder_public_key = m2_responder_public_key ke2, k2_credential_response = m2_credential_response ke2,
      k2_responder_mac = m2_responder_mac ke2, k2_kem_ciphertext = m2_kem_ciphertext ke2\<rparr>"
    and kem: "decapsulate D (i_pq_secret_key st) (m2_kem_ciphertext ke2) (zeros 32) = Ok ss"
  shows "\<exists>S. recover_session D rpk ke2_data st = Ok S \<and> rc_rwd S = password_key D k pwd \<and>
     session_key_of D (rc_prk S) = r_session_key rst \<and>
     initiator_mac_of D (rc_prk S) (rc_transcript S) = r_expected_initiator_mac rst"
proof -
  note D [simp] = deps_lawsD [OF laws]
  from pend obtain ie r where p: "initiator_wf st" "pwd \<noteq> []"
    "take (i_secure_key_len st) (i_secure_key st) = pwd" "i_account_context_hash st = account_context D a"
    "ie \<noteq> scalar_zero D" "i_ephemeral_private_key st = scalar_bytes D ie"
    "i_ephemeral_public_key st = point_compress D (base_mul D ie)"
    "r \<noteq> scalar_zero D" "i_blind_scalar st = scalar_bytes D r" "password_point D pwd \<noteq> point_identity D"
    "m1_credential_request ke1 = point_compress D (point_mul D r (password_point D pwd))"
    "m1_initiator_public_key ke1 = point_compress D (base_mul D ie)"
    "m1_initiator_nonce ke1 = i_nonce st" "m1_pq_ephemeral_public_key ke1 = i_pq_public_key st"
    unfolding login_pending_def by metis
  have h: "s \<noteq> scalar_zero D" "k \<noteq> scalar_zero D" "kp_private_key (or_keypair resp) = scalar_bytes D s"
    "rpk = point_compress D (base_mul D s)"
    "\<And>p. p \<noteq> point_identity D \<Longrightarrow> responder_evaluate_oprf resp (point_compress D p) a = Ok (point_compress D (point_mul D k p))"
    using honest init by (auto simp: honest_responder_def)
  from ready obtain si where c: "c_masking_key c = masking_key_of D (password_key D k pwd)"
    "si \<noteq> scalar_zero D" "c_initiator_public_key c = point_compress D (base_mul D si)"
    "length (c_envelope c) = 136" 
    "open_raw D (take 24 (c_envelope c)) (take 96 (drop 24 (c_envelope c))) (drop 120 (c_envelope c))
       (password_key D k pwd) rpk = Ok (rpk, scalar_bytes D si, point_compress D (base_mul D si))"
    unfolding account_ready_def sealed_keys_def by auto
  have ev: "ev = point_compress D (point_mul D k (point_mul D r (password_point D pwd)))"
    using ans h p by (auto simp: ke2_answer_def m)
  have fin: "finalize D pwd (scalar_bytes D r) ev = Ok (oprf_value D k pwd)"
    using p h by (simp add: ev finalize_blinded)
  have rest: "e \<noteq> scalar_zero D" "m2_responder_public_key ke2 = point_compress D (base_mul D e)"
     "mask_credential_envelope D (c_masking_key c) (m2_responder_nonce ke2) ev (account_context D a) (c_envelope c) = Ok masked"
     "m2_credential_response ke2 = ev @ masked" "length ev = 32" "length masked = 136"
     using ans by (auto simp: ke2_answer_def)
  note unmask = mask_unmask [OF D(3,1) c(4) rest(3)]
  let ?dh = "\<lambda>x y. point_compress D (point_mul D x (base_mul D y))"
  let ?tr = "transcript (point_compress D (base_mul D ie)) (point_compress D (base_mul D e)) (i_nonce st)
    (m2_responder_nonce ke2) (point_compress D (base_mul D si)) rpk (ev @ masked) (i_pq_public_key st)
    (m2_kem_ciphertext ke2) (account_context D a)"
  let ?prk = "schedule_prk D (?dh s si @ ?dh s ie @ ?dh e si @ ?dh e ie) ss ?tr"
  have keys: "m2_responder_mac ke2 = responder_mac_of D ?prk ?tr" "r_session_key rst = session_key_of D ?prk"
    "r_expected_initiator_mac rst = initiator_mac_of D ?prk ?tr"
    using ans rest p(5) p(12-) h(1,3) c(2,3) init by (auto simp: ke2_answer_def m)
  have comm: "?dh si s = ?dh s si" "?dh ie s = ?dh s ie" "?dh si e = ?dh e si" "?dh ie e = ?dh e ie"
    by (simp_all add: point_mul_commute(2) [OF D(6), of si s] point_mul_commute(2) [OF D(6), of ie s]
        point_mul_commute(2) [OF D(6), of si e] point_mul_commute(2) [OF D(6), of ie e])
  have "recover_keys D st \<lparr>k2_responder_nonce = m2_responder_nonce ke2,
      k2_responder_public_key = m2_responder_public_key ke2, k2_credential_response = m2_credential_response ke2,
      k2_responder_mac = m2_responder_mac ke2, k2_kem_ciphertext = m2_kem_ciphertext ke2\<rparr>
      (password_key D k pwd) rpk (scalar_bytes D si) (point_compress D (base_mul D si))
     = Ok \<lparr>rc_rpk = rpk, rc_isk = scalar_bytes D si, rc_ipk = point_compress D (base_mul D si),
        rc_rwd = password_key D k pwd, rc_kem_ss = ss, rc_prk = ?prk, rc_transcript = ?tr\<rparr>"
    using p(4-7) h(1,4) c(2) rest kem
    by (simp add: recover_keys_def keys comm [unfolded h(4)] Let_def)
  with p(1-4,9) h(1,4) rest c show ?thesis
    by (simp add: recover_session_def ke2 fin unmask [unfolded c] password_key_def [symmetric] keys Let_def)
qed

section \<open>Messages in transit\<close>

text \<open>The views the receiver's parser returns of a message its sender has filled.\<close>

definition ke1_view :: "Ke1Message \<Rightarrow> Ke1Ref" where
  "ke1_view m = \<lparr>k1_credential_request = m1_credential_request m,
     k1_initiator_public_key = m1_initiator_public_key m, k1_initiator_nonce = m1_initiator_nonce m,
     k1_pq_ephemeral_public_key = m1_pq_ephemeral_public_key m\<rparr>"

definition ke2_view :: "Ke2Message \<Rightarrow> Ke2Ref" where
  "ke2_view m = \<lparr>k2_responder_nonce = m2_responder_nonce m,
     k2_responder_public_key = m2_responder_public_key m, k2_credential_response = m2_credential_response m,
     k2_responder_mac = m2_responder_mac m, k2_kem_ciphertext = m2_kem_ciphertext m\<rparr>"

lemma ke1_delivered:
  assumes "write_ke1 (m1_credential_request m) (m1_initiator_public_key m) (m1_initiator_nonce m)
      (m1_pq_ephemeral_public_key m) (zeros KE1_LENGTH) = Ok data"
  shows "parse_ke1 data = Ok (ke1_view m)" "length data = KE1_LENGTH"
proof -
  have e: "ke1_sized (ke1_view m) \<and> data = ke1_wire (ke1_view m)"
    using ke1_codec.emit_Ok_iff [of "ke1_view m" "zeros KE1_LENGTH" data] assms
    by (simp add: ke1_view_def)
  then show "parse_ke1 data = Ok (ke1_view m)" "length data = KE1_LENGTH"
    using ke1_codec.parse_wire [of "ke1_view m"] ke1_codec.wire_length [of "ke1_view m"] by simp_all
qed

lemma ke2_delivered:
  assumes "write_ke2 (m2_responder_nonce m) (m2_responder_public_key m) (m2_credential_response m)
      (m2_responder_mac m) (m2_kem_ciphertext m) (zeros KE2_LENGTH) = Ok data"
  shows "parse_ke2 data = Ok (ke2_view m)" "length data = KE2_LENGTH"
proof -
  have e: "ke2_sized (ke2_view m) \<and> data = ke2_wire (ke2_view m)"
    using ke2_codec.emit_Ok_iff [of "ke2_view m" "zeros KE2_LENGTH" data] assms
    by (simp add: ke2_view_def)
  then show "parse_ke2 data = Ok (ke2_view m)" "length data = KE2_LENGTH"
    using ke2_codec.parse_wire [of "ke2_view m"] ke2_codec.wire_length [of "ke2_view m"] by simp_all
qed

lemma ke3_delivered:
  assumes "length mac = 64"
  shows "write_ke3 mac (zeros KE3_LENGTH) = Ok (PROTOCOL_VERSION # mac)"
  using ke3_codec.write_fits [of "\<lparr>k3_initiator_mac = mac\<rparr>" "zeros KE3_LENGTH"] assms
  by (simp add: ke3_wire_def)

lemma generate_ke1_pending:
  assumes "deps_laws D" "initiator_inv st"
    and "generate_ke1 D pwd a Ke1Message_new st w = (Ok (), ke1, st', w')"
  shows "login_pending D pwd a st' ke1"
  using leavesD [OF generate_ke1_call [OF assms(1,2)] assms(3)]
  by (simp add: Ke1Message_new_def)

lemma generate_ke2_answers:
  assumes laws: "deps_laws D" and wf: "OpaqueResponder_wf resp" and c: "credentials_sized c" "c_registered c"
    and inv: "responder_inv st" and parsed: "parse_ke1 ke1_data = Ok m"
    and run: "generate_ke2 D resp ke1_data a c Ke2Message_new st w = (Ok (), ke2, st', w')"
  obtains e ev masked ikm where "r_phase st' = Ke2Generated" "responder_wf st'"
    "ke2_answer D resp a m (c_initiator_public_key c) (c_envelope c) (c_masking_key c) e ev masked ikm
       (r_pq_shared_secret st') ke2 st'"
proof -
  have "ke2_outcome D resp a c ke1_data st (Ok ()) ke2 st'"
    using leavesD [OF generate_ke2_call [OF laws wf c(1) inv] run]
    by (simp add: Ke2Message_new_def ke2_message_sized_def)
  then obtain pk env mk e ev masked ikm ss where o: "responder_call RCreated Ke2Generated st (Ok ()) st'"
    "select_credentials D resp a c = Ok (pk, env, mk)" "ke2_answer D resp a m pk env mk e ev masked ikm ss ke2 st'"
    using parsed unfolding ke2_outcome_def by auto
  then have "ss = r_pq_shared_secret st'" by (auto simp: ke2_answer_def)
  moreover have "responder_wf st'" "r_phase st' = Ke2Generated"
    using o(1) by (auto simp: responder_call_def responder_inv_wf)
  ultimately show thesis
    using that select_registered [OF laws wf c o(2)] o(3) by blast
qed

lemma request_delivered:
  "length payload = 32 \<Longrightarrow>
     write_registration_request payload (zeros REGISTRATION_REQUEST_WIRE_LENGTH) = Ok (registration_request_wire payload)"
  using registration_request_codec.write_fits [of payload "zeros REGISTRATION_REQUEST_WIRE_LENGTH"] by simp

lemma response_delivered:
  assumes "length data = 64"
  shows "write_registration_response (take 32 data) (drop 32 data) (zeros REGISTRATION_RESPONSE_WIRE_LENGTH)
     = Ok (PROTOCOL_VERSION # data)"
  using registration_response_codec.write_fits [of "\<lparr>rr_evaluated_element = take 32 data,
      rr_responder_public_key = drop 32 data\<rparr>" "zeros REGISTRATION_RESPONSE_WIRE_LENGTH"] assms
  by (simp add: registration_response_sized_def registration_response_wire_def)

lemma record_delivered:
  assumes "length cs = 168" "length pk = 32"
  shows "write_registration_record cs pk (zeros REGISTRATION_RECORD_LENGTH) = Ok (PROTOCOL_VERSION # cs @ pk)"
  using registration_record_codec.write_fits [of "\<lparr>rec_masking_key = take 32 cs, rec_envelope = drop 32 cs,
      rec_initiator_public_key = pk\<rparr>" "zeros REGISTRATION_RECORD_LENGTH"] assms
  by (simp add: registration_record_sized_def registration_record_wire_def)

text \<open>The client's last two calls, from the session recovered to the keys handed out.\<close>

lemma client_completes:
  assumes laws: "deps_laws D" and st: "initiator_wf st" "i_phase st = Ke1Generated" "i_account_context_hash st \<noteq> zeros 64"
    and fresh: "initiator_is_expired st w = (False, w1)" and len: "length ke2_data = KE2_LENGTH"
    and S: "recover_session D (oi_responder_public_key init) ke2_data st = Ok S" "session_key_of D (rc_prk S) \<noteq> zeros 64"
  obtains st2 w2 st3 where
    "generate_ke3 D init ke2_data st Ke3Message_new w =
       (Ok (), \<lparr>m3_initiator_mac = initiator_mac_of D (rc_prk S) (rc_transcript S)\<rparr>, st2, w2)"
    "initiator_finish D st2 (zeros HASH_LENGTH) (zeros EXPORT_KEY_LENGTH) = (Ok (), session_key_of D (rc_prk S),
       client_export_key_of D (rc_rwd S) (i_account_context_hash st), st3)"
proof -
  let ?st = "established D st S (fst (instant_now w1))"
  have est: "initiator_wf ?st" "i_phase ?st = Ke3Generated"
    using established_inv [OF laws st(1) S(1)] by (auto simp: initiator_inv_wf)
  have keys: "i_session_key ?st = session_key_of D (rc_prk S)"
    "i_export_key ?st = client_export_key_of D (rc_rwd S) (i_account_context_hash st)"
    by (simp_all add: established_def)
  have "generate_ke3 D init ke2_data st Ke3Message_new w =
      (Ok (), \<lparr>m3_initiator_mac = initiator_mac_of D (rc_prk S) (rc_transcript S)\<rparr>, ?st, snd (instant_now w1))"
    using generate_ke3_refines [OF laws st(1,2) len fresh st(3), of init Ke3Message_new]
    by (simp add: S ke3_expected_def Ke3Message_new_def)
  moreover have "\<exists>st3. initiator_finish D ?st (zeros HASH_LENGTH) (zeros EXPORT_KEY_LENGTH) = (Ok (),
      session_key_of D (rc_prk S), client_export_key_of D (rc_rwd S) (i_account_context_hash st), st3)"
    using S(2) est(2) by (simp add: initiator_finish_eq [OF laws est(1)] keys)
  ultimately show thesis using that by blast
qed

text \<open>The server accepts the expected MAC.\<close>

lemma server_completes:
  assumes "deps_laws D" "responder_wf st" "r_phase st = Ke2Generated" "r_session_key st \<noteq> zeros 64"
    and "\<not> fst (responder_is_expired st w)"
  obtains st2 w2 where "responder_finish D (PROTOCOL_VERSION # r_expected_initiator_mac st) st (zeros HASH_LENGTH) w
     = (Ok (), r_session_key st, st2, w2)" "r_handshake_complete st2"
proof -
  obtain w1 where ex: "responder_is_expired st w = (False, w1)" using assms(5) by (metis prod.collapse)
  show thesis
    using that [of "responder_close D True st" w1] assms(3,4) responder_wf_lengths [OF assms(2)]
      responder_close_props(3) [OF deps_lawsD(2) [OF assms(1)] assms(2)]
    by (simp add: responder_finish_eq [OF assms(1,2) _ ex])
qed

text \<open>A login of a registered account, once KE2 is on its way, runs to completion on both sides.\<close>

lemma login_completes:
  assumes laws: "deps_laws D" and honest: "honest_responder D resp a s k"
    and init: "OpaqueInitiator_new D (kp_public_key (or_keypair resp)) = Ok init"
    and ready: "account_ready D (password_key D k pwd) (kp_public_key (or_keypair resp)) c" "credentials_sized c"
    and inv: "initiator_inv ist" "responder_inv rst"
    and ke1: "generate_ke1 D pwd a Ke1Message_new ist w = (Ok (), ke1, ist1, w1)"
      "write_ke1 (m1_credential_request ke1) (m1_initiator_public_key ke1) (m1_initiator_nonce ke1)
         (m1_pq_ephemeral_public_key ke1) (zeros KE1_LENGTH) = Ok ke1_data"
    and ke2: "generate_ke2 D resp ke1_data a c Ke2Message_new rst v = (Ok (), ke2, rst1, v1)"
      "write_ke2 (m2_responder_nonce ke2) (m2_responder_public_key ke2) (m2_credential_response ke2)
         (m2_responder_mac ke2) (m2_kem_ciphertext ke2) (zeros KE2_LENGTH) = Ok ke2_data"
    and kem: "decapsulate D (i_pq_secret_key ist1) (m2_kem_ciphertext ke2) (zeros 32) = Ok (r_pq_shared_secret rst1)"
    and fresh: "\<not> fst (initiator_is_expired ist1 w2)" "\<not> fst (responder_is_expired rst1 v2)"
    and nonzero: "account_context D a \<noteq> zeros 64" "r_session_key rst1 \<noteq> zeros 64"
  shows "\<exists>ke3 ist2 w3 ke3_data rst2 v3 ist3.
     generate_ke3 D init ke2_data ist1 Ke3Message_new w2 = (Ok (), ke3, ist2, w3) \<and>
     write_ke3 (m3_initiator_mac ke3) (zeros KE3_LENGTH) = Ok ke3_data \<and>
     responder_finish D ke3_data rst1 (zeros HASH_LENGTH) v2 = (Ok (), r_session_key rst1, rst2, v3) \<and>
     r_handshake_complete rst2 \<and>
     initiator_finish D ist2 (zeros HASH_LENGTH) (zeros EXPORT_KEY_LENGTH) = (Ok (), r_session_key rst1,
       client_export_key_of D (password_key D k pwd) (account_context D a), ist3)"
proof -
  note D = deps_lawsD [OF laws]
  have wf: "OpaqueResponder_wf resp" and reg: "c_registered c"
    using honest ready by (simp_all add: honest_responder_def account_ready_def)
  have pend: "login_pending D pwd a ist1 ke1" by (rule generate_ke1_pending [OF laws inv(1) ke1(1)])
  then have i1: "initiator_wf ist1" "i_phase ist1 = Ke1Generated" "i_account_context_hash ist1 = account_context D a"
    by (auto simp: login_pending_def)
  obtain e ev masked ikm where r1: "r_phase rst1 = Ke2Generated" "responder_wf rst1"
    and ans: "ke2_answer D resp a (ke1_view ke1) (c_initiator_public_key c) (c_envelope c) (c_masking_key c)
      e ev masked ikm (r_pq_shared_secret rst1) ke2 rst1"
    by (rule generate_ke2_answers [OF laws wf ready(2) reg inv(2) ke1_delivered(1) [OF ke1(2)] ke2(1)])
  have pin: "oi_responder_public_key init = kp_public_key (or_keypair resp)"
    using init by (auto simp: OpaqueInitiator_new_Ok_iff [OF D(6,1)])
  obtain S where S: "recover_session D (oi_responder_public_key init) ke2_data ist1 = Ok S"
    "rc_rwd S = password_key D k pwd" "session_key_of D (rc_prk S) = r_session_key rst1"
    "initiator_mac_of D (rc_prk S) (rc_transcript S) = r_expected_initiator_mac rst1"
    using recover_session_agrees [OF laws honest pin _ pend ke1_view_def ans
        ke2_delivered(1) [OF ke2(2), unfolded ke2_view_def] kem] ready(1) unfolding pin by blast
  obtain w2' where w2': "initiator_is_expired ist1 w2 = (False, w2')" using fresh(1) by (metis prod.collapse)
  obtain ist2 w3 ist3 where client: "generate_ke3 D init ke2_data ist1 Ke3Message_new w2 =
      (Ok (), \<lparr>m3_initiator_mac = r_expected_initiator_mac rst1\<rparr>, ist2, w3)"
    "initiator_finish D ist2 (zeros HASH_LENGTH) (zeros EXPORT_KEY_LENGTH) = (Ok (), r_session_key rst1,
       client_export_key_of D (password_key D k pwd) (account_context D a), ist3)"
    using client_completes [OF laws i1(1,2) nonzero(1) [folded i1(3)] w2' ke2_delivered(2) [OF ke2(2)] S(1)
        nonzero(2) [folded S(3)]] unfolding S(2-4) i1(3) by blast
  obtain rst2 v3 where "responder_finish D (PROTOCOL_VERSION # r_expected_initiator_mac rst1) rst1 (zeros HASH_LENGTH) v2
      = (Ok (), r_session_key rst1, rst2, v3)" "r_handshake_complete rst2"
    by (rule server_completes [OF laws r1(2,1) nonzero(2) fresh(2)])
  moreover have "write_ke3 (r_expected_initiator_mac rst1) (zeros KE3_LENGTH) = Ok (PROTOCOL_VERSION # r_expected_initiator_mac rst1)"
    using r1 by (intro ke3_delivered) (simp add: responder_wf_def)
  ultimately show ?thesis using client by auto
qed

end
