(* ===== verification/Sample_Handshake.thy ===== *)
theory Sample_Handshake
  imports Handshake Sample_Dependencies
begin

text \<open>
  A concrete server, client and registered account over the sample dependencies, at which
  the theorems about whole sessions are applied.
\<close>

definition sample_initiator :: OpaqueInitiator where
  "sample_initiator = \<lparr>oi_responder_public_key = z3_encode Z2\<rparr>"

definition sample_account :: bytes where "sample_account = [7]"
definition sample_password :: bytes where "sample_password = [1, 2, 3]"

definition sample_credentials :: ResponderCredentials where
  "sample_credentials = \<lparr>c_envelope = zeros 24 @ (z3_encode Z2 @ z3_encode Z1 @ z3_encode Z1) @ zeros 16,
     c_masking_key = masking_key_of sample (password_key sample Z2 sample_password),
     c_initiator_public_key = z3_encode Z1, c_registered = True\<rparr>"

lemma sample_honest: "honest_responder sample sample_responder sample_account Z2 Z2"
proof -
  have "responder_evaluate_oprf sample_responder (z3_encode p) sample_account = Ok (z3_encode (z3_mul Z2 p))"
    if "p \<noteq> Z0" for p
    using that scalar_mult_compress [of sample Z2 p]
    by (simp add: responder_evaluate_oprf_def sample_responder_def InMemoryEvaluator_dyn_def mem_evaluate_oprf_def
        sample_evaluator_def evaluate_def sample_account_def)
  then show ?thesis
    by (simp add: honest_responder_def sample_responder_wf)
      (simp add: sample_responder_def sample_keypair_def sample_account_def)
qed

lemma sample_initiator_new: "OpaqueInitiator_new sample (z3_encode Z2) = Ok sample_initiator"
  by (auto simp: OpaqueInitiator_new_Ok_iff sample_initiator_def)

lemma sample_account_ready:
  "account_ready sample (password_key sample Z2 sample_password) (z3_encode Z2) sample_credentials"
  "credentials_sized sample_credentials"
proof -
  let ?rwd = "password_key sample Z2 sample_password"
  have out: "oprf_value sample Z2 sample_password \<noteq> []" "sample_password \<noteq> []"
    by (simp_all add: oprf_value_def sha512_multi_def sample_password_def)
  have rwd: "?rwd \<noteq> []"
    using derive_randomized_password_Ok(2) [of sample, OF _ _ out] by (auto simp: password_key_def)
  let ?ct = "z3_encode Z2 @ z3_encode Z1 @ z3_encode Z1"
  have dec: "secretbox_decrypt sample key n (zeros 16 @ m) = Some m" for key n m
    by (simp add: sample_def)
  have "decrypt_envelope sample (envelope_key sample (z3_encode Z2) ?rwd) ?ct (zeros 24) (zeros 16) (zeros 96) = Ok ?ct"
    by (simp add: decrypt_envelope_def copy_into_def z3_encode_laws dec)
      (simp add: z3_encode_def)
  then have "open_raw sample (zeros 24) ?ct (zeros 16) ?rwd (z3_encode Z2) = Ok (z3_encode Z2, z3_encode Z1, z3_encode Z1)"
    by (intro open_sealed [where s = Z1]) (simp_all add: rwd z3_encode_laws)
  then show "account_ready sample ?rwd (z3_encode Z2) sample_credentials"
    by (simp add: account_ready_def sample_credentials_def rwd sealed_keys_def z3_encode_laws exI [of _ Z1])
  show "credentials_sized sample_credentials"
    by (simp add: credentials_sized_def sample_credentials_def z3_encode_laws)
qed

section \<open>A login over the sample dependencies\<close>

abbreviation sample_ist :: InitiatorState where "sample_ist \<equiv> fst (InitiatorState_new sample_world)"
abbreviation sample_rst :: ResponderState where "sample_rst \<equiv> fst (ResponderState_new sample_world)"

lemma sample_sessions: "initiator_inv sample_ist" "responder_inv sample_rst"
  using InitiatorState_new_props [of sample_world] ResponderState_new_props [of sample_world]
  by (simp_all add: responder_inv_def)

lemma sample_ke1_run:
  obtains ke1 ist1 w1 data where
    "generate_ke1 sample sample_password sample_account Ke1Message_new sample_ist sample_world = (Ok (), ke1, ist1, w1)"
    "write_ke1 (m1_credential_request ke1) (m1_initiator_public_key ke1) (m1_initiator_nonce ke1)
       (m1_pq_ephemeral_public_key ke1) (zeros KE1_LENGTH) = Ok data"
    "login_pending sample sample_password sample_account ist1 ke1"
proof -
  have "\<exists>ke1 ist1 w1. generate_ke1 sample sample_password sample_account Ke1Message_new sample_ist sample_world = (Ok (), ke1, ist1, w1)"
    by (rule generate_ke1_succeeds [OF sample_laws])
      (simp_all add: InitiatorState_new_props sample_password_def sample_account_def password_point_def
        Ke1Message_new_def sample_tape)
  then obtain ke1 ist1 w1 where run: "generate_ke1 sample sample_password sample_account Ke1Message_new sample_ist sample_world = (Ok (), ke1, ist1, w1)"
    by blast
  note pend = generate_ke1_pending [OF sample_laws sample_sessions(1) run]
  have "ke1_sized (ke1_view ke1)"
    using pend by (auto simp: login_pending_def ke1_view_def ke1_sized_def initiator_wf_def z3_encode_laws)
  from ke1_codec.write_fits [OF this, of "zeros KE1_LENGTH"] run pend that show thesis
    by (simp add: ke1_view_def)
qed

lemma sample_select:
  "select_credentials sample sample_responder sample_account sample_credentials =
     Ok (z3_encode Z1, c_envelope sample_credentials, c_masking_key sample_credentials)"
proof -
  have mat: "responder_fake_material sample_responder sample_account = Ok (replicate 64 1)"
    by (simp add: responder_fake_material_def sample_responder_def InMemoryEvaluator_dyn_def
        mem_derive_fake_material_def sha512_multi_def)
  have "scalar_from_wide sample (replicate 64 1) = Z1"
    by (simp add: numeral_eq_Suc) (simp add: sample_def z3_of_byte_def)
  moreover have "masking_key_of sample rwd \<noteq> zeros 32" for rwd
    by (simp add: masking_key_of_def sample_expand zeros_def)
  moreover have "validate_public_key sample (z3_encode Z1) = Ok ()" using validate_compress(1) [of sample Z1] by simp
  ultimately show ?thesis
    by (simp add: select_credentials_eq [OF sample_laws sample_responder_wf sample_account_ready(2) mat])
      (simp add: sample_credentials_def z3_encode_laws)
qed

lemma sample_ke2_run:
  assumes pend: "login_pending sample sample_password sample_account ist1 ke1"
    and ke1: "write_ke1 (m1_credential_request ke1) (m1_initiator_public_key ke1) (m1_initiator_nonce ke1)
       (m1_pq_ephemeral_public_key ke1) (zeros KE1_LENGTH) = Ok data"
  obtains ke2 rst1 v1 data' where
    "generate_ke2 sample sample_responder data sample_account sample_credentials Ke2Message_new sample_rst sample_world
       = (Ok (), ke2, rst1, v1)"
    "write_ke2 (m2_responder_nonce ke2) (m2_responder_public_key ke2) (m2_credential_response ke2)
       (m2_responder_mac ke2) (m2_kem_ciphertext ke2) (zeros KE2_LENGTH) = Ok data'"
    "m2_kem_ciphertext ke2 = replicate 1088 5" "r_pq_shared_secret rst1 = replicate 32 9"
    "r_session_key rst1 = replicate 64 2"
proof -
  from pend obtain r ie where p: "m1_credential_request ke1 = z3_encode (z3_mul r Z1)" "r \<noteq> Z0"
    "m1_initiator_public_key ke1 = z3_encode ie" "ie \<noteq> Z0" "m1_pq_ephemeral_public_key ke1 = replicate 1184 7"
    by (auto simp: login_pending_def password_point_def)
  have parse: "parse_ke1 data = Ok (ke1_view ke1)" by (rule ke1_delivered [OF ke1])
  have pt: "z3_mul r Z1 \<noteq> Z0" using p by (cases r) auto
  have ctx: "account_context sample sample_account \<noteq> zeros 64"
    by (simp add: account_context_def sha512_multi_def zeros_def)
  have env: "length (c_envelope sample_credentials) = 136" "sample_account \<noteq> []"
    by (simp_all add: sample_credentials_def sample_account_def z3_encode_laws)
  have mk: "length (c_masking_key sample_credentials) = 32" "c_masking_key sample_credentials \<noteq> zeros 32"
    by (simp_all add: sample_credentials_def masking_key_of_def sample_expand zeros_def)
  have "\<exists>ke2 rst1 v1. generate_ke2 sample sample_responder data sample_account sample_credentials Ke2Message_new
      sample_rst sample_world = (Ok (), ke2, rst1, v1)"
    using generate_ke2_succeeds [OF sample_laws sample_responder_wf, of sample_rst sample_account Ke2Message_new data
        "ke1_view ke1" "z3_mul r Z1" ie "()" sample_credentials Z1 "c_envelope sample_credentials"
        "c_masking_key sample_credentials" Z2 "z3_encode (z3_mul Z2 (z3_mul r Z1))" sample_world]
      sample_honest pt p parse mk env ctx sample_tape ResponderState_new_props [of sample_world]
    by (simp add: ke1_view_def sample_select honest_responder_def Ke2Message_new_def ke2_message_sized_def)
  then obtain ke2 rst1 v1 where run: "generate_ke2 sample sample_responder data sample_account sample_credentials
      Ke2Message_new sample_rst sample_world = (Ok (), ke2, rst1, v1)" by blast
  obtain e ev masked ikm where ans: "ke2_answer sample sample_responder sample_account (ke1_view ke1)
      (c_initiator_public_key sample_credentials) (c_envelope sample_credentials) (c_masking_key sample_credentials)
      e ev masked ikm (r_pq_shared_secret rst1) ke2 rst1"
    by (rule generate_ke2_answers [OF sample_laws sample_responder_wf sample_account_ready(2) _ sample_sessions(2) parse run])
      (simp add: sample_credentials_def)
  then have kem: "m2_kem_ciphertext ke2 = replicate 1088 5" "r_pq_shared_secret rst1 = replicate 32 9"
    "r_session_key rst1 = replicate 64 2"
    by (auto simp: ke2_answer_def session_key_of_def sample_expand)
  with ans have "ke2_sized (ke2_view ke2)"
    by (auto simp: ke2_answer_def ke2_view_def ke2_sized_def z3_encode_laws)
  from ke2_codec.write_fits [OF this, of "zeros KE2_LENGTH"] run kem that show thesis
    by (simp add: ke2_view_def)
qed

text \<open>Surroundings in which the clock stands still at a given time.\<close>

definition world_at :: "nat \<Rightarrow> world" where
  "world_at t = \<lparr>w_rng = (\<lambda>_. 2), w_clk = (\<lambda>_. t)\<rparr>"

lemma world_at_fresh [simp]:
  "\<not> fst (initiator_is_expired s (world_at (i_created_at s)))"
  "\<not> fst (responder_is_expired r (world_at (r_created_at r)))"
  by (simp_all add: initiator_is_expired_iff responder_is_expired_iff world_at_def)

section \<open>A registration over the sample dependencies\<close>

lemma sample_request_run:
  obtains req ist1 w1 where
    "create_registration_request sample sample_password RegistrationRequest_new sample_ist sample_world = (Ok (), req, ist1, w1)"
    "registration_pending sample sample_password ist1 (rq_data req)" "length (rq_data req) = 32"
proof -
  have "\<exists>req ist1 w1. create_registration_request sample sample_password RegistrationRequest_new sample_ist sample_world
      = (Ok (), req, ist1, w1)"
    by (rule create_registration_request_succeeds [OF sample_laws])
      (simp_all add: InitiatorState_new_props sample_password_def password_point_def sample_tape)
  then obtain req ist1 w1 where run: "create_registration_request sample sample_password RegistrationRequest_new
      sample_ist sample_world = (Ok (), req, ist1, w1)" by blast
  note pend = create_registration_request_Ok [OF sample_laws InitiatorState_new_props(1) run]
  then have "length (rq_data req) = 32" by (auto simp: registration_pending_def z3_encode_laws)
  with run pend that show thesis by blast
qed

section \<open>The whole login\<close>

lemma sample_server_key: "kp_public_key (or_keypair sample_responder) = z3_encode Z2"
  by (simp add: sample_responder_def sample_keypair_def)

lemma sample_context: "account_context sample a \<noteq> zeros 64"
  by (simp add: account_context_def sha512_multi_def zeros_def)

lemma sample_decapsulates:
  assumes "login_pending sample pwd a ist1 ke1"
  shows "decapsulate sample (i_pq_secret_key ist1) (replicate 1088 5) (zeros 32) = Ok (replicate 32 9)"
proof -
  have "i_pq_secret_key ist1 = replicate 2400 8" using assms by (auto simp: login_pending_def)
  then show ?thesis using decapsulate_Ok [of sample "replicate 1088 5" "zeros 32" "()"] by simp
qed

lemma sample_ke3_run:
  obtains ke2_data ist1 w2 ke3 ist2 w3 where "initiator_wf ist1"
    "generate_ke3 sample sample_initiator ke2_data ist1 Ke3Message_new w2 = (Ok (), ke3, ist2, w3)"
proof -
  obtain ke1 ist1 w1 ke1_data where ke1:
    "write_ke1 (m1_credential_request ke1) (m1_initiator_public_key ke1) (m1_initiator_nonce ke1)
       (m1_pq_ephemeral_public_key ke1) (zeros KE1_LENGTH) = Ok ke1_data"
    and pend: "login_pending sample sample_password sample_account ist1 ke1" by (rule sample_ke1_run)
  obtain ke2 rst1 v1 ke2_data where ke2:
    "generate_ke2 sample sample_responder ke1_data sample_account sample_credentials Ke2Message_new sample_rst sample_world
       = (Ok (), ke2, rst1, v1)"
    "write_ke2 (m2_responder_nonce ke2) (m2_responder_public_key ke2) (m2_credential_response ke2)
       (m2_responder_mac ke2) (m2_kem_ciphertext ke2) (zeros KE2_LENGTH) = Ok ke2_data"
    "m2_kem_ciphertext ke2 = replicate 1088 5" "r_pq_shared_secret rst1 = replicate 32 9"
    "r_session_key rst1 = replicate 64 2" by (rule sample_ke2_run [OF pend ke1])
  have reg: "c_registered sample_credentials" by (simp add: sample_credentials_def)
  obtain e ev masked ikm where ans: "ke2_answer sample sample_responder sample_account (ke1_view ke1)
      (c_initiator_public_key sample_credentials) (c_envelope sample_credentials) (c_masking_key sample_credentials)
      e ev masked ikm (r_pq_shared_secret rst1) ke2 rst1"
    by (rule generate_ke2_answers [OF sample_laws sample_responder_wf sample_account_ready(2) reg sample_sessions(2)
          ke1_delivered(1) [OF ke1] ke2(1)])
  obtain S where S: "recover_session sample (z3_encode Z2) ke2_data ist1 = Ok S"
      "session_key_of sample (rc_prk S) = replicate 64 2"
    using recover_session_agrees [OF sample_laws sample_honest sample_server_key [symmetric] sample_account_ready(1)
        pend ke1_view_def ans ke2_delivered(1) [OF ke2(2), unfolded ke2_view_def]
        sample_decapsulates [OF pend, folded ke2(3,4)]] ke2(5) by auto
  have i1: "initiator_wf ist1" "i_phase ist1 = Ke1Generated" "i_account_context_hash ist1 \<noteq> zeros 64"
    using pend sample_context by (auto simp: login_pending_def)
  obtain v where v: "initiator_is_expired ist1 (world_at (i_created_at ist1)) = (False, v)"
    using world_at_fresh(1) [of ist1] by (metis prod.collapse)
  have nz: "session_key_of sample (rc_prk S) \<noteq> zeros 64" by (simp add: S zeros_def)
  have pin: "oi_responder_public_key sample_initiator = z3_encode Z2" by (simp add: sample_initiator_def)
  show thesis
    by (rule client_completes [OF sample_laws i1 v ke2_delivered(2) [OF ke2(2)] S(1) [folded pin] nz])
      (use that i1 in blast)
qed

end
