(* ===== verification/Enumeration.thy ===== *)
theory Enumeration
  imports Sample_Handshake
begin

text \<open>
  What a login request reveals about whether an account exists: two runs of \<open>generate_ke2\<close>
  for a registered and for an unknown account, compared step by step.
\<close>

section \<open>Two runs side by side\<close>

text \<open>Two outcomes with the same result, whose states are related.\<close>

definition agree :: "('s \<Rightarrow> 's \<Rightarrow> bool) \<Rightarrow> 'r \<times> 's \<Rightarrow> 'r \<times> 's \<Rightarrow> bool" where
  "agree Q x y \<longleftrightarrow> fst x = fst y \<and> Q (snd x) (snd y)"

lemma agree_pair: "Q s t \<Longrightarrow> agree Q (r, s) (r, t)"
  by (simp add: agree_def)

lemma agree_refl: "(\<And>s. Q s s) \<Longrightarrow> agree Q x x"
  by (simp add: agree_def)

lemma agree_qmark:
  assumes "Q s t" "\<And>v. r = Ok v \<Longrightarrow> agree Q (f v) (g v)"
  shows "agree Q (qmark r s f) (qmark r t g)"
  using assms by (cases r) (auto simp: agree_def)

text \<open>
  The parts of an answer an observer of the network sees in the clear, and the course of the
  call: same result, same draws of randomness and clock, same phase and deadline, and
  messages of the same widths that agree everywhere but in the masked envelope and the MAC.
\<close>

definition ke2_alike ::
  "Ke2Message \<times> ResponderState \<times> world \<Rightarrow> Ke2Message \<times> ResponderState \<times> world \<Rightarrow> bool" where
  "ke2_alike = (\<lambda>(m, st, w) (m', st', w'). w = w' \<and> r_phase st = r_phase st' \<and> r_created_at st = r_created_at st' \<and>
     m2_responder_nonce m = m2_responder_nonce m' \<and> m2_responder_public_key m = m2_responder_public_key m' \<and>
     take 32 (m2_credential_response m) = take 32 (m2_credential_response m') \<and>
     length (m2_credential_response m) = length (m2_credential_response m') \<and>
     m2_kem_ciphertext m = m2_kem_ciphertext m' \<and> length (m2_responder_mac m) = length (m2_responder_mac m'))"

lemma ke2_alike_refl [simp]: "ke2_alike s s"
  by (cases s) (simp add: ke2_alike_def)

section \<open>Credentials that serve alike\<close>

definition servable :: "('s, 'p, 'ek, 'dk) deps \<Rightarrow> bytes \<times> bytes \<times> bytes \<Rightarrow> bool" where
  "servable D = (\<lambda>(pk, env, mk). (\<exists>p. p \<noteq> point_identity D \<and> pk = point_compress D p) \<and>
     length env = ENVELOPE_LENGTH \<and> length mk = MASKING_KEY_LENGTH \<and> mk \<noteq> zeros MASKING_KEY_LENGTH)"

lemma masked_alike:
  assumes "hash_laws D" "subtle_laws D" "servable D (pk, env, mk)" "length nonce = 24" "length ev = 32"
    and "ctx \<noteq> zeros (length ctx)"
  obtains masked where "mask_credential_envelope D mk nonce ev ctx env = Ok masked" "length masked = 136"
proof -
  obtain masked where m: "mask_credential_envelope D mk nonce ev ctx env = Ok masked"
    using assms by (auto simp: mask_credential_envelope_eq servable_def)
  moreover have "length masked = 136"
    using mask_credential_envelope_length [OF assms(1,2) _ m] assms(3) by (simp add: servable_def)
  ultimately show thesis using that by blast
qed

lemma ke2_keys_agree:
  assumes laws: "deps_laws D" and dh: "length dh1 = 32" "length dh2 = 32" "length dh3 = 32" "length dh4 = 32"
      "length dh1' = 32" "length dh3' = 32"
    and lens: "length ieph = 32" "length (r_ephemeral_public_key st) = 32" "length (k1_initiator_nonce m) = 24"
      "length (k1_pq_ephemeral_public_key m) = 1184"
      "length (m2_responder_nonce ke2) = 24" "length pk = 32" "length pk' = 32" "length (kp_public_key kp) = 32"
      "length (m2_kem_ciphertext ke2) = 1088" "length ctx = 64" "length cr = 168" "length cr' = 168" "take 32 cr = take 32 cr'"
  shows "agree ke2_alike
     (case encapsulate D (k1_pq_ephemeral_public_key m) (m2_kem_ciphertext ke2) (zeros 32) w of (r, w) \<Rightarrow>
        qmark r (ke2\<lparr>m2_credential_response := cr\<rparr>, st, w) (\<lambda>(ct, ss).
          generate_ke2_keys D kp m ieph pk ctx dh1 dh2 dh3 dh4 ss
            (ke2\<lparr>m2_credential_response := cr, m2_kem_ciphertext := ct\<rparr>) (st\<lparr>r_pq_shared_secret := ss\<rparr>) w))
     (case encapsulate D (k1_pq_ephemeral_public_key m) (m2_kem_ciphertext ke2) (zeros 32) w of (r, w) \<Rightarrow>
        qmark r (ke2\<lparr>m2_credential_response := cr'\<rparr>, st, w) (\<lambda>(ct, ss).
          generate_ke2_keys D kp m ieph pk' ctx dh1' dh2 dh3' dh4 ss
            (ke2\<lparr>m2_credential_response := cr', m2_kem_ciphertext := ct\<rparr>) (st\<lparr>r_pq_shared_secret := ss\<rparr>) w))"
proof -
  note D [simp] = deps_lawsD [OF laws]
  obtain r w' where enc: "encapsulate D (k1_pq_ephemeral_public_key m) (m2_kem_ciphertext ke2) (zeros 32) w = (r, w')" by fastforce
  from encapsulate_cases [OF D(7) enc] show ?thesis
  proof
    assume "r = Err InvalidKemInput"
    then show ?thesis using lens by (simp add: enc agree_def ke2_alike_def)
  next
    assume "\<exists>ct ss. r = Ok (ct, ss) \<and> length ct = 1088 \<and> length ss = 32"
    then obtain ct ss where k: "r = Ok (ct, ss)" "length ct = 1088" "length ss = 32" by blast
    show ?thesis
      unfolding enc k(1) using dh lens k
      by (simp add: generate_ke2_keys_Ok [OF laws _ _ _ _ k(3) _ refl refl] transcript_sized_def agree_def ke2_alike_def)
  qed
qed

lemma generate_ke2_agree:
  assumes laws: "deps_laws D" and wf: "OpaqueResponder_wf resp" and ke2: "ke2_message_sized ke2"
    and sk: "kp_private_key (or_keypair resp) = scalar_bytes D s" "s \<noteq> scalar_zero D"
    and sel: "select_credentials D resp a c = Ok (pk, env, mk)" "servable D (pk, env, mk)"
    and sel': "select_credentials D resp a c' = Ok (pk', env', mk')" "servable D (pk', env', mk')"
  shows "agree ke2_alike (generate_ke2 D resp ke1_data a c ke2 st w) (generate_ke2 D resp ke1_data a c' ke2 st w)"
proof (cases "length ke1_data = KE1_LENGTH \<and> r_phase st = RCreated \<and> a \<noteq> []")
  case False
  then show ?thesis by (auto simp: generate_ke2_def agree_def)
next
  case True
  note D [simp] = deps_lawsD [OF laws]
  note r [simp] = OpaqueResponder_wfD [OF wf]
  have k [simp]: "length (m2_responder_nonce ke2) = 24" "length (m2_credential_response ke2) = 168"
    "length (m2_kem_ciphertext ke2) = 1088" using ke2 by (simp_all add: ke2_message_sized_def)
  obtain p p' where pk: "pk = point_compress D p" "p \<noteq> point_identity D" "pk' = point_compress D p'" "p' \<noteq> point_identity D"
    using sel(2) sel'(2) by (auto simp: servable_def)
  show ?thesis
    using True
    apply (simp add: generate_ke2_def del: KE1_LENGTH_def)
    apply (rule agree_qmark, simp)
    subgoal premises prems for m
    proof -
      have m [simp]: "length (k1_initiator_public_key m) = 32" "length (k1_credential_request m) = 32"
        "length (k1_initiator_nonce m) = 24" "length (k1_pq_ephemeral_public_key m) = 1184"
        using ke1_codec.parse_sound [OF prems(2)] by (auto simp: ke1_sized_def)
      obtain rr w1 where rnd: "random_nonzero_scalar D w = (rr, w1)" by fastforce
      show ?thesis
      proof (cases rule: random_nonzero_scalar_cases [OF D(6,1) rnd])
        case 1
        then show ?thesis
          by (simp add: slice_simps Let_def account_context_def [symmetric] sel(1) sel'(1) pk rnd)
            (intro agree_qmark agree_pair; simp)
      next
        case (2 e)
        then show ?thesis
          apply (simp add: slice_simps Let_def account_context_def [symmetric] sel(1) sel'(1) pk rnd)
          apply (rule agree_qmark, simp)
          apply (rule agree_qmark, simp)
          apply (rule agree_qmark, simp add: ke2_alike_def)
          subgoal premises q for u u' ev
          proof -
            have ev [simp]: "length ev = 32" using r(5) q by blast
            show ?thesis
            proof (cases "account_context D a = zeros 64")
              case True
              then show ?thesis using sel(2) sel'(2)
                by (simp add: copy_into_def mask_credential_envelope_eq servable_def agree_def ke2_alike_def)
            next
              case False
              obtain masked where m1: "mask_credential_envelope D mk (fst (fill_bytes 24 w1)) ev (account_context D a) env = Ok masked" "length masked = 136"
                by (rule masked_alike [OF D(3,1) sel(2), of "fst (fill_bytes 24 w1)" ev "account_context D a"]) (use False in simp_all)
              obtain masked' where m2: "mask_credential_envelope D mk' (fst (fill_bytes 24 w1)) ev (account_context D a) env' = Ok masked'" "length masked' = 136"
                by (rule masked_alike [OF D(3,1) sel'(2), of "fst (fill_bytes 24 w1)" ev "account_context D a"]) (use False in simp_all)
              show ?thesis using q
                apply (simp add: copy_into_def m1 m2 sk pk)
                apply (rule agree_qmark, simp add: ke2_alike_def m1 m2)
                apply (simp add: 2 pk)
                apply (rule agree_qmark, simp add: ke2_alike_def m1 m2)
                apply (rule ke2_keys_agree [OF laws, where ?ke2.0 = "ke2\<lparr>m2_responder_nonce := fst (fill_bytes 24 w1),
                      m2_responder_public_key := point_compress D (base_mul D e)\<rparr>", simplified])
                apply (simp_all add: scalar_mult_length [OF D(6,1)] m1 m2)
                done
            qed
          qed
          done
      qed
    qed
    done
qed

section \<open>Property\<close>

text \<open>The fake material of an account is usable unless a hash value of it happens to be zero.\<close>

definition fake_usable :: "('s, 'p, 'ek, 'dk) deps \<Rightarrow> bytes \<Rightarrow> bool" where
  "fake_usable D material \<longleftrightarrow>
     scalar_from_wide D (sha512_digest D (DERIVE_KEYPAIR_CONTEXT @ material)) \<noteq> scalar_zero D \<and>
     masking_key_of D material \<noteq> zeros MASKING_KEY_LENGTH"

lemma servable_unknown:
  assumes "deps_laws D" "OpaqueResponder_wf resp" "credentials_sized c" "\<not> c_registered c"
    and "responder_fake_material resp a = Ok material" "fake_usable D material"
  shows "\<exists>x. select_credentials D resp a c = Ok x \<and> servable D x"
  using assms deps_lawsD [OF assms(1)]
  by (auto simp: select_credentials_eq [OF assms(1-3,5)] fake_usable_def fake_credentials_def servable_def)

lemma servable_registered:
  assumes "deps_laws D" "OpaqueResponder_wf resp" "credentials_sized c" "c_registered c"
    and "responder_fake_material resp a = Ok material" "fake_usable D material"
    and "length (c_envelope c) = ENVELOPE_LENGTH" "c_masking_key c \<noteq> zeros MASKING_KEY_LENGTH"
    and "validate_public_key D (c_initiator_public_key c) = Ok ()"
  shows "\<exists>x. select_credentials D resp a c = Ok x \<and> servable D x"
  using assms deps_lawsD [OF assms(1)]
  by (auto simp: select_credentials_eq [OF assms(1-3,5)] fake_usable_def servable_def credentials_sized_def
      validate_public_key_Ok_iff)

text \<open>
  C8: a login request does not reveal whether the account exists. For the same request,
  session and surroundings, \<open>generate_ke2\<close> ends in the same way for an account with a
  valid record and for an unknown one: same result on every exit, same randomness and clock
  readings consumed, same phase and deadline, and answers that agree in nonce, ephemeral
  key, evaluated element, KEM ciphertext and all widths. Only the masked envelope and the
  MAC, which the client checks under its password, differ.
\<close>

theorem unknown_account_served_alike:
  assumes "deps_laws D" "OpaqueResponder_wf resp" "ke2_message_sized ke2"
    and "kp_private_key (or_keypair resp) = scalar_bytes D s" "s \<noteq> scalar_zero D"
    and "responder_fake_material resp a = Ok material" "fake_usable D material"
    and "credentials_sized c" "c_registered c" "length (c_envelope c) = ENVELOPE_LENGTH"
      "c_masking_key c \<noteq> zeros MASKING_KEY_LENGTH" "validate_public_key D (c_initiator_public_key c) = Ok ()"
    and "generate_ke2 D resp ke1_data a c ke2 st w = (r, m, st1, w1)"
    and "generate_ke2 D resp ke1_data a ResponderCredentials_new ke2 st w = (r', m', st2, w2)"
  shows "r = r' \<and> w1 = w2 \<and> r_phase st1 = r_phase st2 \<and> r_created_at st1 = r_created_at st2 \<and>
     m2_responder_nonce m = m2_responder_nonce m' \<and> m2_responder_public_key m = m2_responder_public_key m' \<and>
     take PUBLIC_KEY_LENGTH (m2_credential_response m) = take PUBLIC_KEY_LENGTH (m2_credential_response m') \<and>
     length (m2_credential_response m) = length (m2_credential_response m') \<and>
     m2_kem_ciphertext m = m2_kem_ciphertext m' \<and> length (m2_responder_mac m) = length (m2_responder_mac m')"
proof -
  have new: "credentials_sized ResponderCredentials_new" "\<not> c_registered ResponderCredentials_new"
    by (simp_all add: credentials_sized_def ResponderCredentials_new_def)
  obtain pk env mk where real: "select_credentials D resp a c = Ok (pk, env, mk)" "servable D (pk, env, mk)"
    using servable_registered [OF assms(1,2,8,9,6,7,10-12)] by auto
  obtain pk' env' mk' where fake: "select_credentials D resp a ResponderCredentials_new = Ok (pk', env', mk')" "servable D (pk', env', mk')"
    using servable_unknown [OF assms(1,2) new assms(6,7)] by auto
  show ?thesis
    using generate_ke2_agree [OF assms(1-5) real fake, of ke1_data st w] unfolding assms(13,14)
    by (simp add: agree_def ke2_alike_def)
qed

lemma sample_fake: "responder_fake_material sample_responder sample_account = Ok (replicate 64 1)" "fake_usable sample (replicate 64 1)"
proof -
  show "responder_fake_material sample_responder sample_account = Ok (replicate 64 1)"
    by (simp add: responder_fake_material_def sample_responder_def InMemoryEvaluator_dyn_def
        mem_derive_fake_material_def sha512_multi_def)
  have "scalar_from_wide sample (replicate 64 1) = Z1"
    by (simp add: numeral_eq_Suc) (simp add: sample_def z3_of_byte_def)
  then show "fake_usable sample (replicate 64 1)"
    by (simp add: fake_usable_def masking_key_of_def sample_expand zeros_def)
qed

theorem unknown_account_served_alike_witness:
  "\<exists>data m st w. generate_ke2 sample sample_responder data sample_account ResponderCredentials_new Ke2Message_new
     sample_rst sample_world = (Ok (), m, st, w) \<and> r_phase st = Ke2Generated"
proof -
  obtain ke1 ist1 w1 data where k1:
    "write_ke1 (m1_credential_request ke1) (m1_initiator_public_key ke1) (m1_initiator_nonce ke1)
       (m1_pq_ephemeral_public_key ke1) (zeros KE1_LENGTH) = Ok data"
    "login_pending sample sample_password sample_account ist1 ke1" by (rule sample_ke1_run)
  obtain ke2 rst1 v1 where k2: "generate_ke2 sample sample_responder data sample_account sample_credentials Ke2Message_new
      sample_rst sample_world = (Ok (), ke2, rst1, v1)" by (rule sample_ke2_run [OF k1(2,1)])
  have phase: "r_phase rst1 = Ke2Generated"
    by (rule generate_ke2_answers [OF sample_laws sample_responder_wf sample_account_ready(2) _ sample_sessions(2)
          ke1_delivered(1) [OF k1(1)] k2]) (simp_all add: sample_credentials_def)
  obtain r' m' st2 w2 where un: "generate_ke2 sample sample_responder data sample_account ResponderCredentials_new
      Ke2Message_new sample_rst sample_world = (r', m', st2, w2)" by (metis prod.collapse)
  have c: "c_registered sample_credentials" "length (c_envelope sample_credentials) = ENVELOPE_LENGTH"
    "c_masking_key sample_credentials \<noteq> zeros MASKING_KEY_LENGTH"
    "validate_public_key sample (c_initiator_public_key sample_credentials) = Ok ()"
    using validate_compress(1) [of sample Z1]
    by (simp_all add: sample_credentials_def z3_encode_laws masking_key_of_def sample_expand zeros_def)
  have "Ok () = r' \<and> r_phase rst1 = r_phase st2"
    using unknown_account_served_alike [OF sample_laws sample_responder_wf _ _ _ sample_fake sample_account_ready(2) c k2 un, of Z2]
    by (simp add: Ke2Message_new_def ke2_message_sized_def sample_responder_def sample_keypair_def)
  with un phase show ?thesis by auto
qed

end
