(* ===== verification/Audit_Demonstrations.thy ===== *)
theory Audit_Demonstrations
  imports Sample_Handshake
begin

text \<open>
  Model of the demonstration programs \<^verbatim>\<open>audit/poc/critical_001_*.rs\<close> and
  \<^verbatim>\<open>audit/poc/critical_002_*.rs\<close>, and what the present code makes of the attacks they
  describe. The other three programs call functions with signatures that the code no longer
  has.
\<close>

section \<open>The programs\<close>

text \<open>\<open>unwrap()\<close>: an error ends the program.\<close>

primrec unwrap :: "('a, 'e) result \<Rightarrow> ('a, 'e) result" where
  "unwrap (Ok x) = Ok x"
| "unwrap (Err e) = Panic"
| "unwrap Panic = Panic"

definition ACCOUNT_ID :: bytes where "ACCOUNT_ID = ascii ''alice@example.com''"

definition create_registration_record ::
  "('s, 'p, 'ek, 'dk) deps \<Rightarrow> bytes \<Rightarrow> 'e OpaqueResponder \<Rightarrow> world \<Rightarrow> bytes OpaqueResult \<times> world" where
  "create_registration_record D password responder w =
     qmark (unwrap (OpaqueInitiator_new D (kp_public_key (or_keypair responder)))) w (\<lambda>initiator.
     let (state, w) = InitiatorState_new w;
         (r, req, state, w) = create_registration_request D password RegistrationRequest_new state w in
     qmark (unwrap r) w (\<lambda>_.
     let (r, resp) = create_registration_response D responder (rq_data req) ACCOUNT_ID RegistrationResponse_new in
     qmark (unwrap r) w (\<lambda>_.
     let (r, record, state, w) = finalize_registration D initiator (rs_data resp) state RegistrationRecord_new w in
     qmark (unwrap r) w (\<lambda>_.
     (unwrap (write_registration_record (rd_envelope record) (rd_initiator_public_key record)
        (zeros REGISTRATION_RECORD_LENGTH)), w)))))"

definition guess_password_offline ::
  "('s, 'p, 'ek, 'dk) deps \<Rightarrow> bytes \<Rightarrow> bytes \<Rightarrow> bytes \<Rightarrow> bytes \<Rightarrow> bytes \<Rightarrow> world \<Rightarrow> bool OpaqueResult \<times> world" where
  "guess_password_offline D guess account_id stolen_oprf_seed stolen_server_pk registration_record w =
     qmark (unwrap (parse_registration_record registration_record)) w (\<lambda>parsed.
     let (r, blind, w) = blind D guess (zeros PRIVATE_KEY_LENGTH) w in
     qmark (unwrap r) w (\<lambda>blinded.
     qmark (unwrap (derive_oprf_key D stolen_oprf_seed account_id)) w (\<lambda>oprf_key.
     qmark (unwrap (evaluate D blinded oprf_key)) w (\<lambda>evaluated.
     qmark (unwrap (finalize D guess blind evaluated)) w (\<lambda>oprf_output.
     qmark (unwrap (derive_randomized_password D oprf_output guess HASH_LENGTH)) w (\<lambda>randomized_pwd.
     if length (rec_envelope parsed) < NONCE_LENGTH + SECRETBOX_MAC_LENGTH then (Panic, w)
     else let ct_size = length (rec_envelope parsed) - NONCE_LENGTH - SECRETBOX_MAC_LENGTH in
     qmark (subslice (rec_envelope parsed) 0 NONCE_LENGTH) w (\<lambda>nonce.
     qmark (subslice (rec_envelope parsed) NONCE_LENGTH (NONCE_LENGTH + ct_size)) w (\<lambda>ciphertext.
     qmark (slice_from (rec_envelope parsed) (NONCE_LENGTH + ct_size)) w (\<lambda>auth_tag.
     (case open_envelope D \<lparr>env_nonce = nonce, env_ciphertext = ciphertext, env_auth_tag = auth_tag\<rparr>
          randomized_pwd stolen_server_pk of
        Panic \<Rightarrow> (Panic, w)
      | Err _ \<Rightarrow> (Ok False, w)
      | Ok (recovered_rpk, recovered_isk, recovered_ipk) \<Rightarrow>
          (Ok (recovered_rpk = stolen_server_pk \<and> recovered_ipk = rec_initiator_public_key parsed), w)))))))))))"

text \<open>\<open>dictionary.iter().find(..)\<close>.\<close>

fun find_password ::
  "('s, 'p, 'ek, 'dk) deps \<Rightarrow> bytes \<Rightarrow> bytes \<Rightarrow> bytes \<Rightarrow> bytes \<Rightarrow> bytes list \<Rightarrow> world
     \<Rightarrow> bytes option OpaqueResult \<times> world" where
  "find_password D account_id seed pk record [] w = (Ok None, w)"
| "find_password D account_id seed pk record (guess # dictionary) w =
     (let (r, w) = guess_password_offline D guess account_id seed pk record w in
      qmark r w (\<lambda>found. if found then (Ok (Some guess), w)
        else find_password D account_id seed pk record dictionary w))"

definition offline_dictionary_main ::
  "('s, 'p, 'ek, 'dk) deps \<Rightarrow> world \<Rightarrow> bytes option OpaqueResult \<times> world" where
  "offline_dictionary_main D w =
     (let real_password = ascii ''correct horse battery staple'';
          stolen_oprf_seed = replicate OPRF_SEED_LENGTH 66;
          (r, w) = ResponderKeyPair_generate D w in
      qmark (unwrap r) w (\<lambda>keypair.
      qmark (unwrap (OpaqueResponder_new D keypair stolen_oprf_seed)) w (\<lambda>responder.
      let (r, w) = create_registration_record D real_password responder w in
      qmark r w (\<lambda>registration_record.
      let stolen_server_pk = kp_public_key (or_keypair responder);
          dictionary = map ascii [''123456'', ''password'', ''letmein'', ''correct horse battery staple'', ''qwerty'', ''admin''] in
      find_password D ACCOUNT_ID stolen_oprf_seed stolen_server_pk registration_record dictionary w))))"

text \<open>The program prints the error it got; a success ends it with a failed assertion.\<close>

definition identity_injection_main ::
  "('s, 'p, 'ek, 'dk) deps \<Rightarrow> world \<Rightarrow> OpaqueError OpaqueResult \<times> world" where
  "identity_injection_main D w =
     (let (r, w) = ResponderKeyPair_generate D w in
      qmark (unwrap r) w (\<lambda>keypair.
      qmark (unwrap (OpaqueResponder_new D keypair (replicate 32 7))) w (\<lambda>responder.
      let identity = point_compress D (point_identity D);
          (result, response) = create_registration_response D responder identity ACCOUNT_ID RegistrationResponse_new in
      (case result of Err e \<Rightarrow> (Ok e, w) | _ \<Rightarrow> (Panic, w)))))"

section \<open>Offline guessing\<close>

text \<open>The record opens under the password to the client's key pair, for this server.\<close>

definition opens_record :: "('s, 'p, 'ek, 'dk) deps \<Rightarrow> 's \<Rightarrow> bytes \<Rightarrow> RegistrationRecordRef \<Rightarrow> bytes \<Rightarrow> bool" where
  "opens_record D k rpk v pwd \<longleftrightarrow>
     (\<exists>isk. sealed_keys D (password_key D k pwd) rpk isk (rec_initiator_public_key v) (rec_envelope v))"

text \<open>With the seed and the record, one guess is decided without the server.\<close>

lemma guess_exact:
  assumes laws: "deps_laws D" and key: "derive_oprf_key D seed a = Ok (scalar_bytes D k)" "k \<noteq> scalar_zero D"
    and parsed: "parse_registration_record record = Ok v"
    and pwd: "pwd \<noteq> []" "password_point D pwd \<noteq> point_identity D" and tape: "nonzero_tape D (w_rng w)"
  shows "guess_password_offline D pwd a seed rpk record w = (Ok (opens_record D k rpk v pwd), snd (fill_bytes 64 w))"
proof -
  note D [simp] = deps_lawsD [OF laws]
  obtain s where s: "s \<noteq> scalar_zero D" "random_nonzero_scalar D w = (Ok (scalar_bytes D s), snd (fill_bytes 64 w))"
    using random_nonzero_scalar_tape [OF D(6,1) tape] .
  have blind: "blind D pwd bs w = (Ok (point_compress D (point_mul D s (password_point D pwd))), scalar_bytes D s, snd (fill_bytes 64 w))" for bs
    using s pwd by (simp add: blind_def oprf_hash_to_group_Ok)
  have fin: "finalize D pwd (scalar_bytes D s) (point_compress D (point_mul D k (point_mul D s (password_point D pwd)))) = Ok (oprf_value D k pwd)"
    using s(1) key(2) pwd by (intro finalize_blinded) simp_all
  have out: "oprf_value D k pwd \<noteq> []" by (simp add: oprf_value_def flip: length_greater_0_conv)
  have len: "length (rec_envelope v) = 136"
    using registration_record_codec.parse_sound [OF parsed] by (simp add: registration_record_sized_def)
  let ?o = "open_raw D (take 24 (rec_envelope v)) (take 96 (drop 24 (rec_envelope v))) (drop 120 (rec_envelope v)) (password_key D k pwd) rpk"
  have "guess_password_offline D pwd a seed rpk record w = (case ?o of Panic \<Rightarrow> (Panic, snd (fill_bytes 64 w))
      | Err _ \<Rightarrow> (Ok False, snd (fill_bytes 64 w))
      | Ok (rpk', isk, ipk) \<Rightarrow> (Ok (rpk' = rpk \<and> ipk = rec_initiator_public_key v), snd (fill_bytes 64 w)))"
    using s key pwd len
    by (simp add: guess_password_offline_def parsed blind evaluate_def fin derive_randomized_password_Ok out
        password_key_def [symmetric] slice_simps open_envelope_def Let_def)
  then show ?thesis using len open_raw_no_panic [OF D(3), of "take 24 (rec_envelope v)" "take 96 (drop 24 (rec_envelope v))"]
    by (cases ?o) (auto simp: opens_record_def sealed_keys_def)
qed

lemma find_password_exact:
  assumes "deps_laws D" "derive_oprf_key D seed a = Ok (scalar_bytes D k)" "k \<noteq> scalar_zero D"
    and "parse_registration_record record = Ok v" "nonzero_tape D (w_rng w)"
    and "\<And>g. g \<in> set dictionary \<Longrightarrow> g \<noteq> [] \<and> password_point D g \<noteq> point_identity D"
  shows "fst (find_password D a seed rpk record dictionary w) = Ok (find (opens_record D k rpk v) dictionary)"
  using assms(5,6)
proof (induction dictionary arbitrary: w)
  case (Cons g gs)
  then show ?case using guess_exact [OF assms(1-4), of g w rpk] by simp
qed simp

section \<open>The programs on the present code\<close>

text \<open>A registration request without the version byte has the wrong length.\<close>

lemma response_needs_version:
  "length data = 32 \<Longrightarrow> fst (create_registration_response D resp data a out) = Err InvalidProtocolMessage"
  by (simp add: create_registration_response_def registration_request_codec.parse_length)

text \<open>The request the client hands over has no version byte, so the demonstration cannot register.\<close>

lemma create_registration_record_panics:
  assumes laws: "deps_laws D"
  shows "fst (create_registration_record D pwd resp w) = Panic"
proof -
  obtain st w1 where new: "InitiatorState_new w = (st, w1)" by fastforce
  obtain r req st' w2 where run: "create_registration_request D pwd RegistrationRequest_new st w1 = (r, req, st', w2)"
    by (metis prod.collapse)
  have len: "length (rq_data req) = 32" if "r = Ok ()"
    using create_registration_request_Ok [OF laws _ run [unfolded that]] InitiatorState_new_props(1) [of w]
      deps_lawsD [OF laws] by (auto simp: registration_pending_def new)
  obtain r' rs where resp: "create_registration_response D resp (rq_data req) ACCOUNT_ID RegistrationResponse_new = (r', rs)"
    by fastforce
  have "r' = Err InvalidProtocolMessage" if "r = Ok ()"
    using response_needs_version [OF len [OF that], of D resp ACCOUNT_ID RegistrationResponse_new] resp by simp
  then show ?thesis
    by (cases r; cases "OpaqueInitiator_new D (kp_public_key (or_keypair resp))")
      (auto simp: create_registration_record_def new run resp)
qed

lemma unwrap_panics: "(\<And>x. r = Ok x \<Longrightarrow> fst (k x) = Panic) \<Longrightarrow> fst (qmark (unwrap r) s k) = Panic"
  by (cases r) simp_all

lemma offline_dictionary_main_panics:
  assumes "deps_laws D"
  shows "fst (offline_dictionary_main D w) = Panic"
  unfolding offline_dictionary_main_def Let_def case_prod_beta
  by (intro unwrap_panics) (simp add: create_registration_record_panics [OF assms])

text \<open>Framed as a request, the identity point is refused by the check of the point.\<close>

lemma identity_refused:
  assumes "deps_laws D" "a \<noteq> []"
  shows "fst (create_registration_response D resp (registration_request_wire (point_compress D (point_identity D))) a out)
     = Err InvalidInput"
proof -
  note D [simp] = deps_lawsD [OF assms(1)]
  have "parse_registration_request (registration_request_wire (point_compress D (point_identity D)))
      = Ok (point_compress D (point_identity D))"
    by (rule registration_request_codec.parse_wire) simp
  moreover have "validate_ristretto_point D (point_compress D (point_identity D)) = Err InvalidInput"
    by (simp add: validate_ristretto_point_def decode_non_identity_point_def)
  ultimately show ?thesis using assms by (simp add: create_registration_response_def)
qed

section \<open>Points from the network\<close>

definition valid_point :: "('s, 'p, 'ek, 'dk) deps \<Rightarrow> bytes \<Rightarrow> bool" where
  "valid_point D b \<longleftrightarrow> (\<exists>p. p \<noteq> point_identity D \<and> b = point_compress D p)"

lemma response_point:
  assumes "deps_laws D" "create_registration_response D resp data a out = (Ok (), out')"
  shows "\<exists>b. data = registration_request_wire b \<and> valid_point D b"
proof -
  note D = deps_lawsD [OF assms(1)]
  obtain b where b: "parse_registration_request data = Ok b" "validate_ristretto_point D b = Ok ()"
    using assms(2) by (auto simp: create_registration_response_def result_simps split: if_splits)
  then show ?thesis using registration_request_codec.parse_sound [OF b(1)] 
    by (auto simp: valid_point_def validate_ristretto_point_Ok_iff [OF D(6,1)])
qed

lemma record_point:
  assumes "deps_laws D" "build_credentials D data c = (Ok (), c')"
  shows "\<exists>v. parse_registration_record data = Ok v \<and> valid_point D (rec_initiator_public_key v)"
  using assms(2) deps_lawsD [OF assms(1)]
  by (auto simp: build_credentials_def result_simps Let_def valid_point_def validate_public_key_Ok_iff split: if_splits)

lemma ke1_points:
  assumes "deps_laws D" "generate_ke2 D resp data a c ke2 st w = (Ok (), ke2', st', w')"
  shows "\<exists>m. parse_ke1 data = Ok m \<and> valid_point D (k1_credential_request m) \<and> valid_point D (k1_initiator_public_key m)"
proof -
  note D = deps_lawsD [OF assms(1)]
  obtain m where m: "parse_ke1 data = Ok m"
    using assms(2) by (cases "parse_ke1 data") (auto simp: generate_ke2_def split: if_splits prod.splits)
  have [simp]: "length (k1_initiator_public_key m) = 32" using ke1_codec.parse_sound [OF m] by (simp add: ke1_sized_def)
  have refused: "fst (generate_ke2 D resp data a c ke2 st w) \<noteq> Ok ()"
    if "validate_ristretto_point D (k1_credential_request m) \<noteq> Ok () \<or> validate_public_key D (k1_initiator_public_key m) \<noteq> Ok ()"
    using that m
    by (cases "select_credentials D resp a c"; cases "validate_ristretto_point D (k1_credential_request m)";
        cases "validate_public_key D (k1_initiator_public_key m)")
      (simp_all add: generate_ke2_def slice_simps Let_def split: prod.split)
  then show ?thesis using assms(2) m D
    by (auto simp: valid_point_def validate_ristretto_point_Ok_iff validate_public_key_Ok_iff)
qed

lemma finalize_point:
  assumes "deps_laws D" "finalize D pwd r ev = Ok out"
  shows "valid_point D ev"
  using assms(2) deps_lawsD [OF assms(1)]
  by (auto simp: finalize_def result_simps scalar_mult_Ok_iff valid_point_def split: if_splits)

lemma registration_points:
  assumes "deps_laws D" "initiator_wf st" "finalize_registration D init data st rec w = (Ok (), rec', st', w')"
  shows "\<exists>v. parse_registration_response data = Ok v \<and> valid_point D (rr_evaluated_element v) \<and>
     valid_point D (rr_responder_public_key v) \<and> rr_responder_public_key v = oi_responder_public_key init"
  by (rule finalize_registration_cases [OF assms(1,2,3) refl])
    (use assms(1) deps_lawsD [OF assms(1)] finalize_point in
      \<open>auto simp: validate_public_key_Ok_iff valid_point_def [symmetric]\<close>)

lemma ke2_points:
  assumes laws: "deps_laws D" and wf: "initiator_wf st"
    and run: "generate_ke3 D init data st ke3 w = (Ok (), ke3', st', w')"
  shows "\<exists>m. parse_ke2 data = Ok m \<and> valid_point D (k2_responder_public_key m) \<and>
     valid_point D (take PUBLIC_KEY_LENGTH (k2_credential_response m)) \<and> valid_point D (oi_responder_public_key init)"
proof -
  note D = deps_lawsD [OF laws]
  obtain ex w1 where ex: "initiator_is_expired st w = (ex, w1)" by fastforce
  have g: "i_phase st = Ke1Generated" "length data = KE2_LENGTH" "\<not> ex" "i_account_context_hash st \<noteq> zeros 64"
    using run D wf ex by (auto simp: generate_ke3_def initiator_wf_def split: if_splits)
  obtain S where "recover_session D (oi_responder_public_key init) data st = Ok S"
    using run generate_ke3_refines [OF laws wf g(1,2) _ g(4), of w w1 init ke3] ex g(3)
    by (auto simp: ke3_expected_def split: result.splits)
  then show ?thesis using D finalize_point [OF laws]
    by (auto simp: recover_session_def result_simps Let_def validate_public_key_Ok_iff valid_point_def [symmetric])
qed

section \<open>Properties\<close>

text \<open>
  C38: with the server's seed and a stored record, passwords are guessed without the server.
  For an account registered with \<open>pwd\<close>, the loop over a dictionary that contains it ends
  with the first entry under which the record opens; \<open>pwd\<close> itself is such an entry, so a
  match is found. The record does not protect a guessable password once the seed is known.
\<close>

theorem offline_guessing_decides:
  assumes "deps_laws D" "derive_oprf_key D seed a = Ok (scalar_bytes D k)" "k \<noteq> scalar_zero D"
    and "parse_registration_record record = Ok v" "build_credentials D record ResponderCredentials_new = (Ok (), c)"
    and "account_ready D (password_key D k pwd) rpk c" "nonzero_tape D (w_rng w)" "pwd \<in> set dictionary"
    and "\<And>g. g \<in> set dictionary \<Longrightarrow> g \<noteq> [] \<and> password_point D g \<noteq> point_identity D"
  shows "\<exists>g n. fst (find_password D a seed rpk record dictionary w) = Ok (Some g) \<and> n < length dictionary \<and>
     g = dictionary ! n \<and> opens_record D k rpk v g \<and> (\<nexists>m. m < n \<and> opens_record D k rpk v (dictionary ! m)) \<and>
     opens_record D k rpk v pwd"
proof -
  have "opens_record D k rpk v pwd"
    using assms(4,5,6)
    by (auto simp: build_credentials_eq [OF assms(1)] ResponderCredentials_new_def account_ready_def opens_record_def
        split: result.splits)
  moreover obtain g where "find (opens_record D k rpk v) dictionary = Some g"
    using \<open>opens_record D k rpk v pwd\<close> assms(8) by (cases "find (opens_record D k rpk v) dictionary") (auto simp: find_None_iff)
  ultimately show ?thesis
    using find_password_exact [OF assms(1-4,7,9), where rpk = rpk] by (auto simp: find_Some_iff)
qed

text \<open>
  C39: on the present code both demonstration programs stop at the framing of the request.
  They pass the 32 bytes of a point where a version byte and a point are expected, so the
  first one always panics before it guesses anything, and the second one sees the same
  refusal for the identity as for any other point. The identity itself is refused once it is
  framed as a request.
\<close>

theorem demonstrations_stop_at_framing:
  assumes "deps_laws D" "nonzero_tape D (w_rng w)"
  shows "fst (offline_dictionary_main D w) = Panic \<and>
     fst (identity_injection_main D w) = Ok InvalidProtocolMessage \<and>
     fst (create_registration_response D resp (point_compress D p) ACCOUNT_ID out) = Err InvalidProtocolMessage \<and>
     fst (create_registration_response D resp (registration_request_wire (point_compress D (point_identity D))) ACCOUNT_ID out)
       = Err InvalidInput"
proof -
  note D [simp] = deps_lawsD [OF assms(1)]
  have first: "fst (offline_dictionary_main D w) = Panic" by (rule offline_dictionary_main_panics [OF assms(1)])
  obtain s where s: "s \<noteq> scalar_zero D" "random_nonzero_scalar D w = (Ok (scalar_bytes D s), snd (fill_bytes 64 w))"
    using random_nonzero_scalar_tape [OF D(6,1) assms(2)] .
  have seed: "replicate 32 7 \<noteq> (zeros 32 :: bytes)" by (simp add: zeros_def)
  have second: "fst (identity_injection_main D w) = Ok InvalidProtocolMessage"
    using s seed by (simp add: identity_injection_main_def ResponderKeyPair_generate_def OpaqueResponder_new_def
        InMemoryEvaluator_new_def Let_def case_prod_beta response_needs_version)
  show ?thesis
    by (intro conjI first second response_needs_version identity_refused [OF assms(1)])
      (simp_all add: ACCOUNT_ID_def ascii_def)
qed

text \<open>
  C32: no call succeeds on a group element that is not the canonical encoding of a point
  other than the identity. This covers every point a peer supplies: the blinded element of
  a registration request, the client key of a record, both points of KE1, the evaluated
  element and server key of a registration response, the server's ephemeral key and the
  evaluated element of KE2, and the key a client is set up with.
\<close>

theorem accepted_points_are_valid:
  assumes "deps_laws D" "initiator_wf st"
  shows "(create_registration_response D resp req a out = (Ok (), out') \<longrightarrow>
      (\<exists>b. req = registration_request_wire b \<and> valid_point D b)) \<and>
   (build_credentials D record c = (Ok (), c') \<longrightarrow>
      (\<exists>v. parse_registration_record record = Ok v \<and> valid_point D (rec_initiator_public_key v))) \<and>
   (generate_ke2 D resp ke1 a c ke2 rst w = (Ok (), ke2', rst', w') \<longrightarrow>
      (\<exists>m. parse_ke1 ke1 = Ok m \<and> valid_point D (k1_credential_request m) \<and> valid_point D (k1_initiator_public_key m))) \<and>
   (finalize_registration D init response st rec w = (Ok (), rec', st', w') \<longrightarrow>
      (\<exists>v. parse_registration_response response = Ok v \<and> valid_point D (rr_evaluated_element v) \<and>
         valid_point D (rr_responder_public_key v) \<and> rr_responder_public_key v = oi_responder_public_key init)) \<and>
   (generate_ke3 D init ke2_data st ke3 w = (Ok (), ke3', st', w') \<longrightarrow>
      (\<exists>m. parse_ke2 ke2_data = Ok m \<and> valid_point D (k2_responder_public_key m) \<and>
         valid_point D (take PUBLIC_KEY_LENGTH (k2_credential_response m)) \<and> valid_point D (oi_responder_public_key init))) \<and>
   (OpaqueInitiator_new D key = Ok init \<longrightarrow> valid_point D key \<and> oi_responder_public_key init = key)"
  using assms deps_lawsD [OF assms(1)]
  by (intro conjI impI response_point record_point ke1_points registration_points ke2_points)
    (auto simp: OpaqueInitiator_new_Ok_iff valid_point_def)

section \<open>Witnesses\<close>

definition sample_record :: bytes where
  "sample_record = registration_record_wire \<lparr>rec_masking_key = c_masking_key sample_credentials,
     rec_envelope = c_envelope sample_credentials, rec_initiator_public_key = z3_encode Z1\<rparr>"

lemma sample_record_parsed:
  "parse_registration_record sample_record = Ok \<lparr>rec_masking_key = c_masking_key sample_credentials,
     rec_envelope = c_envelope sample_credentials, rec_initiator_public_key = z3_encode Z1\<rparr>"
  unfolding sample_record_def
  by (rule registration_record_codec.parse_wire)
    (simp add: registration_record_sized_def sample_credentials_def z3_encode_laws)

lemma sample_record_built: "build_credentials sample sample_record ResponderCredentials_new = (Ok (), sample_credentials)"
  using validate_compress(1) [of sample Z1]
  by (simp add: build_credentials_eq [OF sample_laws] ResponderCredentials_new_def sample_record_parsed)
    (simp add: sample_credentials_def)

theorem offline_guessing_decides_witness:
  "\<exists>g. fst (find_password sample sample_account (replicate 32 1) (z3_encode Z2) sample_record
     [[9], sample_password] sample_world) = Ok (Some g)"
proof -
  have k: "derive_oprf_key sample (replicate 32 1) sample_account = Ok (scalar_bytes sample Z2)"
    by (simp add: sample_account_def)
  show ?thesis
    using offline_guessing_decides [OF sample_laws k _ sample_record_parsed sample_record_built sample_account_ready(1) sample_tape,
        of "[[9], sample_password]"]
    by (auto simp: sample_password_def password_point_def)
qed

theorem demonstrations_stop_at_framing_witness:
  "fst (offline_dictionary_main sample sample_world) = Panic \<and>
   fst (identity_injection_main sample sample_world) = Ok InvalidProtocolMessage"
  using demonstrations_stop_at_framing [OF sample_laws sample_tape] by blast

theorem accepted_points_are_valid_witness:
  "\<exists>ke1 ke2 m n. parse_ke1 ke1 = Ok m \<and> valid_point sample (k1_credential_request m) \<and>
     parse_ke2 ke2 = Ok n \<and> valid_point sample (k2_responder_public_key n)"
proof -
  obtain ke1 ist1 w1 data where k1:
    "write_ke1 (m1_credential_request ke1) (m1_initiator_public_key ke1) (m1_initiator_nonce ke1)
       (m1_pq_ephemeral_public_key ke1) (zeros KE1_LENGTH) = Ok data"
    "login_pending sample sample_password sample_account ist1 ke1" by (rule sample_ke1_run)
  obtain ke2 rst1 v1 where k2: "generate_ke2 sample sample_responder data sample_account sample_credentials Ke2Message_new
      sample_rst sample_world = (Ok (), ke2, rst1, v1)" by (rule sample_ke2_run [OF k1(2,1)])
  obtain ke2_data st w2 ke3 st2 w3 where k3: "initiator_wf st"
    "generate_ke3 sample sample_initiator ke2_data st Ke3Message_new w2 = (Ok (), ke3, st2, w3)" by (rule sample_ke3_run)
  show ?thesis
    using accepted_points_are_valid [OF sample_laws k3(1)] k2 k3(2) by meson
qed

end
