(* ===== verification/Surroundings.thy ===== *)
theory Surroundings
  imports Handshake
begin

text \<open>
  What the handlers do with the surroundings, whatever comes of the call: they consume random
  bytes and readings of the clock in order and never go back. The locale takes a property of the
  surroundings that consuming keeps, and concludes that every handler keeps it, and that a
  successful one which refreshes the deadline has stamped it with a reading taken under it.
\<close>

section \<open>Properties that consuming keeps\<close>

definition stamped :: "(world \<Rightarrow> bool) \<Rightarrow> nat \<Rightarrow> world \<Rightarrow> bool" where
  "stamped P c w \<longleftrightarrow> (\<exists>v. P v \<and> instant_now v = (c, w))"

lemma leaves_case_prod_applied:
  "(\<And>a b. v = (a, b) \<Longrightarrow> leaves (f a b c) Q) \<Longrightarrow> leaves ((case v of (a, b) \<Rightarrow> f a b) c) Q"
  by (cases v) simp

locale surroundings =
  fixes D :: "('s, 'p, 'ek, 'dk) deps" and P :: "world \<Rightarrow> bool"
  assumes fill: "P w \<Longrightarrow> P (snd (fill_bytes n w))"
    and now: "P w \<Longrightarrow> P (snd (instant_now w))"
    and generate: "P w \<Longrightarrow> P (w\<lparr>w_rng := snd (kem_generate D (w_rng w))\<rparr>)"
    and encapsulate_draws: "P w \<Longrightarrow> P (w\<lparr>w_rng := snd (kem_encapsulate D ek (w_rng w))\<rparr>)"
begin

lemma scalar_loop: "random_nonzero_scalar_loop D n w = (r, w') \<Longrightarrow> P w \<Longrightarrow> P w'"
proof (induction n arbitrary: w)
  case (Suc n)
  then show ?case using fill by (auto simp: Let_def split: if_splits prod.splits)
qed auto

lemma scalar: "random_nonzero_scalar D w = (r, w') \<Longrightarrow> P w \<Longrightarrow> P w'"
  by (auto simp: random_nonzero_scalar_def intro: scalar_loop)

lemma bytes: "random_bytes n w = (r, w') \<Longrightarrow> P w \<Longrightarrow> P w'"
  using fill [of w n] by (auto simp: random_bytes_def split: if_splits prod.splits)

lemma blinding: "blind D i b w = (r, c, w') \<Longrightarrow> P w \<Longrightarrow> P w'"
proof -
  assume "P w"
  then have "leaves (blind D i b w) (\<lambda>_ s. P (snd s))"
    unfolding blind_def by (intro leaves_rules) (auto dest: scalar)
  then show "blind D i b w = (r, c, w') \<Longrightarrow> P w'" by (auto dest: leavesD)
qed

lemma kem_pair: "keypair_generate D pk sk w = (r, w') \<Longrightarrow> P w \<Longrightarrow> P w'"
proof -
  assume "P w"
  from generate [OF this] this have "leaves (keypair_generate D pk sk w) (\<lambda>_. P)"
    unfolding keypair_generate_def Let_def by (intro leaves_case_prod_applied leaves_rules) simp_all
  then show "keypair_generate D pk sk w = (r, w') \<Longrightarrow> P w'" by (auto dest: leavesD)
qed

lemma kem_secret: "encapsulate D pk ct ss w = (r, w') \<Longrightarrow> P w \<Longrightarrow> P w'"
proof -
  assume P: "P w"
  have drawn: "P (w\<lparr>w_rng := rng\<rparr>)" if "kem_encapsulate D ek (w_rng w) = ((c, s), rng)" for ek c s rng
    using encapsulate_draws [OF P, of ek] that by simp
  from P have "leaves (encapsulate D pk ct ss w) (\<lambda>_. P)"
    unfolding encapsulate_def Let_def by (intro leaves_case_prod_applied leaves_rules) (simp_all add: drawn)
  then show "encapsulate D pk ct ss w = (r, w') \<Longrightarrow> P w'" by (auto dest: leavesD)
qed

lemma sealing: "seal D rwd rpk isk ipk e w = (r, e', w') \<Longrightarrow> P w \<Longrightarrow> P w'"
proof -
  assume "P w"
  then have "leaves (seal D rwd rpk isk ipk e w) (\<lambda>_ s. P (snd s))"
    unfolding seal_def by (intro leaves_rules) (auto dest: bytes intro: fill)
  then show "seal D rwd rpk isk ipk e w = (r, e', w') \<Longrightarrow> P w'" by (auto dest: leavesD)
qed

lemmas draws = scalar bytes blinding kem_pair kem_secret sealing

lemma client_clock: "initiator_is_expired st w = (b, w') \<Longrightarrow> P w \<Longrightarrow> P w'"
  using now [of w] by (auto simp: initiator_is_expired_def Let_def split: if_splits prod.splits)

lemma server_clock: "responder_is_expired st w = (b, w') \<Longrightarrow> P w \<Longrightarrow> P w'"
  using now [of w] by (auto simp: responder_is_expired_def Let_def split: if_splits prod.splits)

lemma client_stamp: "initiator_refresh_deadline st w = (st', w') \<Longrightarrow> P w \<Longrightarrow> P w' \<and> stamped P (i_created_at st') w'"
  using now [of w] by (auto simp: initiator_refresh_deadline_def stamped_def split: prod.splits)

lemma server_stamp: "responder_refresh_deadline st w = (st', w') \<Longrightarrow> P w \<Longrightarrow> P w' \<and> stamped P (r_created_at st') w'"
  using now [of w] by (auto simp: responder_refresh_deadline_def stamped_def split: prod.splits)

section \<open>The handlers\<close>

lemma request_keeps:
  "P w \<Longrightarrow> leaves (create_registration_request D pwd req st w)
     (\<lambda>r (_, st', w'). P w' \<and> (r = Ok () \<longrightarrow> stamped P (i_created_at st') w'))"
  unfolding create_registration_request_def
  by (intro leaves_rules) (auto dest: draws client_clock client_stamp)

lemma ke1_keeps:
  "P w \<Longrightarrow> leaves (generate_ke1 D pwd a ke1 st w)
     (\<lambda>r (_, st', w'). P w' \<and> (r = Ok () \<longrightarrow> stamped P (i_created_at st') w'))"
  unfolding generate_ke1_def
  by (intro leaves_rules) (auto dest!: draws client_clock client_stamp)

lemma ke2_keys_keeps:
  "P w \<Longrightarrow> leaves (generate_ke2_keys D kp m e pk h dh1 dh2 dh3 dh4 ss ke2 st w)
     (\<lambda>r (_, st', w'). P w' \<and> (r = Ok () \<longrightarrow> stamped P (r_created_at st') w'))"
  unfolding generate_ke2_keys_def
  by (intro leaves_rules) (auto dest!: server_stamp)

lemma ke2_keeps:
  "P w \<Longrightarrow> leaves (generate_ke2 D resp data a c ke2 st w)
     (\<lambda>r (_, st', w'). P w' \<and> (r = Ok () \<longrightarrow> stamped P (r_created_at st') w'))"
  unfolding generate_ke2_def
  by (intro leaves_rules ke2_keys_keeps) (auto dest!: draws server_clock)

lemma finalize_keeps:
  "P w \<Longrightarrow> leaves (finalize_registration D init data st rec w) (\<lambda>_ (_, _, w'). P w')"
  unfolding finalize_registration_def
  by (intro leaves_rules) (auto dest!: draws client_clock)

lemma ke3_keys_keeps:
  "P w \<Longrightarrow> leaves (generate_ke3_keys D m rwd rpk isk ipk st ke3 w) (\<lambda>_ (_, _, w'). P w')"
  unfolding generate_ke3_keys_def
  by (intro leaves_rules) (auto dest!: client_stamp)

lemma ke3_body_keeps: "P w \<Longrightarrow> leaves (generate_ke3_body D init data st ke3 w) (\<lambda>_ (_, _, w'). P w')"
  unfolding generate_ke3_body_def
  by (intro leaves_rules ke3_keys_keeps) auto

lemma ke3_keeps:
  "P w \<Longrightarrow> leaves (generate_ke3 D init data st ke3 w) (\<lambda>_ (_, _, w'). P w')"
proof -
  have result: "leaves m (\<lambda>_ (_, _, w'). P w') \<Longrightarrow> leaves (ke3_result D m) (\<lambda>_ (_, _, w'). P w')" for m
    by (cases m) (auto simp: leaves_def ke3_result_def split: result.splits)
  show "P w \<Longrightarrow> leaves (generate_ke3 D init data st ke3 w) (\<lambda>_ (_, _, w'). P w')"
    unfolding generate_ke3_def
    by (intro leaves_rules result ke3_body_keeps) (auto dest!: client_clock)
qed

lemma responder_keeps: "P w \<Longrightarrow> leaves (OpaqueResponder_generate D w) (\<lambda>_ w'. P w')"
proof -
  have "leaves (ResponderKeyPair_generate D v) (\<lambda>_ w'. P w')" if "P v" for v
    using that unfolding ResponderKeyPair_generate_def by (intro leaves_rules) (auto dest!: draws)
  then have pair: "ResponderKeyPair_generate D v = (r, v') \<Longrightarrow> P v \<Longrightarrow> P v'" for r v v' by (auto dest: leavesD)
  show "P w \<Longrightarrow> leaves (OpaqueResponder_generate D w) (\<lambda>_ w'. P w')"
    unfolding OpaqueResponder_generate_def by (intro leaves_rules) (auto dest!: draws pair intro: fill)
qed

lemma client_new: "P w \<Longrightarrow> P (snd (InitiatorState_new w))"
  using now by (simp add: InitiatorState_new_def instant_now_def)

lemma server_new: "P w \<Longrightarrow> P (snd (ResponderState_new w))"
  using now by (simp add: ResponderState_new_def instant_now_def)

end

section \<open>Clocks that do not stand in the way\<close>

text \<open>
  A session's lifetime is longer than anything else that goes on: the clock never runs backwards
  and no two of its readings are a lifetime apart.
\<close>

definition brisk :: "world \<Rightarrow> bool" where
  "brisk w \<longleftrightarrow> (\<forall>i j. i \<le> j \<longrightarrow> w_clk w i \<le> w_clk w j \<and> w_clk w j - w_clk w i < 900 * 1000000000)"

definition timely :: "nat \<Rightarrow> world \<Rightarrow> bool" where
  "timely c w \<longleftrightarrow> (\<forall>i. c \<le> w_clk w i \<and> w_clk w i - c < 900 * 1000000000)"

interpretation brisk_world: surroundings D brisk for D
  by unfold_locales (auto simp: brisk_def fill_bytes_def instant_now_def)

interpretation timely_world: surroundings D "timely c" for D c
  by unfold_locales (auto simp: timely_def fill_bytes_def instant_now_def)

lemma stamped_timely: "stamped brisk c w \<Longrightarrow> timely c w"
  by (auto simp: stamped_def brisk_def timely_def instant_now_def)

lemma timely_fresh:
  "timely (i_created_at st) w \<Longrightarrow> \<not> fst (initiator_is_expired st w)"
  "timely (r_created_at rst) w \<Longrightarrow> \<not> fst (responder_is_expired rst w)"
  unfolding initiator_is_expired_iff responder_is_expired_iff timely_def
  by (metis not_le not_less)+

lemma stamped_mono: "stamped P c w \<Longrightarrow> (\<And>v. P v \<Longrightarrow> Q v) \<Longrightarrow> stamped Q c w"
  by (auto simp: stamped_def)

end
