(* ===== verification/Delivery.thy ===== *)
theory Delivery
  imports Sample_Handshake
begin

text \<open>
  What the handlers of one side hand to the other: every message a handler fills in on
  success has the field widths its writer and the peer's parser require.
\<close>

section \<open>Message by message\<close>

lemma request_typed:
  assumes laws: "deps_laws D" and "initiator_wf st"
    and "create_registration_request D pwd req st w = (Ok (), req', st', w')"
  shows "\<exists>data. write_registration_request (rq_data req') (zeros REGISTRATION_REQUEST_WIRE_LENGTH) = Ok data \<and>
     length data = REGISTRATION_REQUEST_WIRE_LENGTH \<and> parse_registration_request data = Ok (rq_data req')"
proof -
  have len: "length (rq_data req') = REGISTRATION_REQUEST_LENGTH"
    using create_registration_request_Ok [OF assms] deps_lawsD [OF laws] by (auto simp: registration_pending_def)
  show ?thesis
    using request_delivered [of "rq_data req'"] registration_request_codec.wire_length [OF len]
      registration_request_codec.parse_wire [OF len] len by simp
qed

lemma response_typed:
  assumes laws: "deps_laws D" and wf: "OpaqueResponder_wf resp"
    and run: "create_registration_response D resp req a RegistrationResponse_new = (Ok (), out)"
  shows "\<exists>data. write_registration_response (take PUBLIC_KEY_LENGTH (rs_data out)) (drop PUBLIC_KEY_LENGTH (rs_data out))
       (zeros REGISTRATION_RESPONSE_WIRE_LENGTH) = Ok data \<and> length data = REGISTRATION_RESPONSE_WIRE_LENGTH \<and>
     parse_registration_response data = Ok \<lparr>rr_evaluated_element = take PUBLIC_KEY_LENGTH (rs_data out),
       rr_responder_public_key = kp_public_key (or_keypair resp)\<rparr>"
proof -
  note r = OpaqueResponder_wfD [OF wf]
  note pk [simp] = r(2)
  have out: "length (rs_data out) = 64" "drop 32 (rs_data out) = kp_public_key (or_keypair resp)"
    using run r(5)
    by (auto simp: create_registration_response_def RegistrationResponse_new_def result_simps copy_into_def Let_def split: if_splits)
  have "parse_registration_response (registration_response_wire \<lparr>rr_evaluated_element = take 32 (rs_data out),
       rr_responder_public_key = drop 32 (rs_data out)\<rparr>) = Ok \<lparr>rr_evaluated_element = take 32 (rs_data out),
       rr_responder_public_key = drop 32 (rs_data out)\<rparr>"
    by (rule registration_response_codec.parse_wire) (simp add: registration_response_sized_def out)
  then show ?thesis
    using response_delivered [OF out(1)] out append_take_drop_id [of 32 "rs_data out"]
    by (simp add: registration_response_wire_def)
qed

lemma record_typed:
  assumes laws: "deps_laws D" and wf: "initiator_wf st"
    and run: "finalize_registration D init data st rec w = (Ok (), rec', st', w')"
  shows "\<exists>data v. write_registration_record (rd_envelope rec') (rd_initiator_public_key rec') (zeros REGISTRATION_RECORD_LENGTH)
       = Ok data \<and> length data = REGISTRATION_RECORD_LENGTH \<and> parse_registration_record data = Ok v \<and>
     rec_masking_key v @ rec_envelope v = rd_envelope rec' \<and> rec_initiator_public_key v = rd_initiator_public_key rec'"
proof -
  note D [simp] = deps_lawsD [OF laws]
  have len: "length (rd_envelope rec') = 168 \<and> length (rd_initiator_public_key rec') = 32"
  proof (rule finalize_registration_cases [OF laws wf run refl])
    fix view out w1
    assume ok: "i_phase st = RegistrationRequested" "initiator_is_expired st w = (False, w1)"
      "parse_registration_response data = Ok view" "validate_public_key D (rr_responder_public_key view) = Ok ()"
      "oi_responder_public_key init = rr_responder_public_key view"
      "finalize D (take (i_secure_key_len st) (i_secure_key st)) (i_blind_scalar st) (rr_evaluated_element view) = Ok out"
    let ?rwd = "randomized_password_of D out (take (i_secure_key_len st) (i_secure_key st))"
    obtain env where env: "finalize_registration D init data st rec w = (Ok (),
        rec\<lparr>rd_envelope := masking_key_of D ?rwd @ env_nonce env @ env_ciphertext env @ env_auth_tag env,
            rd_initiator_public_key := i_public_key st\<rparr>,
        registration_finalized st (rr_responder_public_key view), snd (fill_bytes 24 w1))"
      "seal D ?rwd (rr_responder_public_key view) (i_private_key st) (i_public_key st) Envelope_new w1
         = (Ok (), env, snd (fill_bytes 24 w1))" "?rwd \<noteq> []"
      by (rule finalize_registration_accepts [OF laws wf ok(1-4) refl ok(5,6) refl refl])
    have "length (env_nonce env) = 24 \<and> length (env_ciphertext env) = 96 \<and> length (env_auth_tag env) = 16"
      by (rule seal_Ok [OF D(3,5) env(3), of "rr_responder_public_key view" "i_private_key st" "i_public_key st" Envelope_new w1])
        (use env(2) ok(4) initiator_wf_lengths [OF wf] in \<open>auto simp: Envelope_new_def validate_public_key_Ok_iff\<close>)
    with env(1) run initiator_wf_lengths [OF wf] show ?thesis by auto
  qed (simp_all)
  note len = conjunct1 [OF len] conjunct2 [OF len]
  let ?v = "\<lparr>rec_masking_key = take 32 (rd_envelope rec'), rec_envelope = drop 32 (rd_envelope rec'),
      rec_initiator_public_key = rd_initiator_public_key rec'\<rparr>"
  have "parse_registration_record (registration_record_wire ?v) = Ok ?v"
    by (rule registration_record_codec.parse_wire) (simp add: registration_record_sized_def len)
  then show ?thesis
    using record_delivered [OF len] len by (intro exI [of _ "registration_record_wire ?v"] exI [of _ ?v])
      (simp add: registration_record_wire_def)
qed

lemma ke1_typed:
  assumes laws: "deps_laws D" and "initiator_inv st"
    and "generate_ke1 D pwd a Ke1Message_new st w = (Ok (), ke1, st', w')"
  shows "\<exists>data. write_ke1 (m1_credential_request ke1) (m1_initiator_public_key ke1) (m1_initiator_nonce ke1)
       (m1_pq_ephemeral_public_key ke1) (zeros KE1_LENGTH) = Ok data \<and> length data = KE1_LENGTH \<and>
     parse_ke1 data = Ok (ke1_view ke1)"
proof -
  note D [simp] = deps_lawsD [OF laws]
  have "ke1_sized (ke1_view ke1)"
    using generate_ke1_pending [OF assms] by (auto simp: login_pending_def ke1_view_def ke1_sized_def initiator_wf_def)
  from ke1_codec.write_fits [OF this, of "zeros KE1_LENGTH"] show ?thesis
    using ke1_delivered [of ke1] by (simp add: ke1_view_def)
qed

lemma ke2_typed:
  assumes laws: "deps_laws D" and wf: "OpaqueResponder_wf resp" and c: "credentials_sized c" and inv: "responder_inv st"
    and run: "generate_ke2 D resp ke1_data a c Ke2Message_new st w = (Ok (), ke2, st', w')"
  shows "\<exists>data. write_ke2 (m2_responder_nonce ke2) (m2_responder_public_key ke2) (m2_credential_response ke2)
       (m2_responder_mac ke2) (m2_kem_ciphertext ke2) (zeros KE2_LENGTH) = Ok data \<and> length data = KE2_LENGTH \<and>
     parse_ke2 data = Ok (ke2_view ke2)"
proof -
  note D [simp] = deps_lawsD [OF laws]
  have "ke2_outcome D resp a c ke1_data st (Ok ()) ke2 st'"
    using leavesD [OF generate_ke2_call [OF laws wf c inv] run]
    by (simp add: Ke2Message_new_def ke2_message_sized_def)
  then have "ke2_sized (ke2_view ke2)"
    by (auto simp: ke2_outcome_def ke2_answer_def ke2_view_def ke2_sized_def dest: kem_encapsulate_lengths [OF D(7)])
  from ke2_codec.write_fits [OF this, of "zeros KE2_LENGTH"] show ?thesis
    using ke2_delivered [of ke2] by (simp add: ke2_view_def)
qed

lemma ke3_typed:
  assumes laws: "deps_laws D" and wf: "initiator_wf st"
    and run: "generate_ke3 D init data st ke3 w = (Ok (), ke3', st', w')"
  shows "\<exists>data. write_ke3 (m3_initiator_mac ke3') (zeros KE3_LENGTH) = Ok data \<and> length data = KE3_LENGTH \<and>
     parse_ke3 data = Ok \<lparr>k3_initiator_mac = m3_initiator_mac ke3'\<rparr>"
proof -
  note D [simp] = deps_lawsD [OF laws]
  obtain ex w1 where ex: "initiator_is_expired st w = (ex, w1)" by fastforce
  have g: "i_phase st = Ke1Generated" "length data = KE2_LENGTH" "\<not> ex" "i_account_context_hash st \<noteq> zeros 64"
    using run wf ex by (auto simp: generate_ke3_def initiator_wf_def split: if_splits)
  have mac: "length (m3_initiator_mac ke3') = 64"
    using run generate_ke3_refines [OF laws wf g(1,2) _ g(4), of w w1 init ke3] ex g(3)
    by (auto simp: ke3_expected_def split: result.splits)
  then have "parse_ke3 (ke3_wire \<lparr>k3_initiator_mac = m3_initiator_mac ke3'\<rparr>) = Ok \<lparr>k3_initiator_mac = m3_initiator_mac ke3'\<rparr>"
    by (intro ke3_codec.parse_wire) simp
  with mac show ?thesis using ke3_delivered [OF mac] by (simp add: ke3_wire_def)
qed

section \<open>Property\<close>

text \<open>
  C33: every message a handler produces on success is well-typed. From well-formed sessions,
  server objects and credentials, the message is accepted by its writer, fills exactly the
  length the wire format fixes for its kind, and the parser of the other side reads the same
  fields back. This holds for the request, the response and the record of a registration and
  for KE1, KE2 (for registered and unknown accounts) and KE3.
\<close>

theorem produced_messages_well_typed:
  assumes "deps_laws D" "initiator_inv ist" "OpaqueResponder_wf resp" "credentials_sized c" "responder_inv rst"
  shows "(create_registration_request D pwd req ist w = (Ok (), req', ist', w') \<longrightarrow>
      (\<exists>data. write_registration_request (rq_data req') (zeros REGISTRATION_REQUEST_WIRE_LENGTH) = Ok data \<and>
         length data = REGISTRATION_REQUEST_WIRE_LENGTH \<and> parse_registration_request data = Ok (rq_data req'))) \<and>
   (create_registration_response D resp rq a RegistrationResponse_new = (Ok (), out) \<longrightarrow>
      (\<exists>data. write_registration_response (take PUBLIC_KEY_LENGTH (rs_data out)) (drop PUBLIC_KEY_LENGTH (rs_data out))
           (zeros REGISTRATION_RESPONSE_WIRE_LENGTH) = Ok data \<and> length data = REGISTRATION_RESPONSE_WIRE_LENGTH \<and>
         parse_registration_response data = Ok \<lparr>rr_evaluated_element = take PUBLIC_KEY_LENGTH (rs_data out),
           rr_responder_public_key = kp_public_key (or_keypair resp)\<rparr>)) \<and>
   (finalize_registration D init rsp ist rec w = (Ok (), rec', ist', w') \<longrightarrow>
      (\<exists>data v. write_registration_record (rd_envelope rec') (rd_initiator_public_key rec')
           (zeros REGISTRATION_RECORD_LENGTH) = Ok data \<and> length data = REGISTRATION_RECORD_LENGTH \<and>
         parse_registration_record data = Ok v \<and> rec_masking_key v @ rec_envelope v = rd_envelope rec' \<and>
         rec_initiator_public_key v = rd_initiator_public_key rec')) \<and>
   (generate_ke1 D pwd a Ke1Message_new ist w = (Ok (), ke1, ist', w') \<longrightarrow>
      (\<exists>data. write_ke1 (m1_credential_request ke1) (m1_initiator_public_key ke1) (m1_initiator_nonce ke1)
           (m1_pq_ephemeral_public_key ke1) (zeros KE1_LENGTH) = Ok data \<and> length data = KE1_LENGTH \<and>
         parse_ke1 data = Ok (ke1_view ke1))) \<and>
   (generate_ke2 D resp ke1_data a c Ke2Message_new rst w = (Ok (), ke2, rst', w') \<longrightarrow>
      (\<exists>data. write_ke2 (m2_responder_nonce ke2) (m2_responder_public_key ke2) (m2_credential_response ke2)
           (m2_responder_mac ke2) (m2_kem_ciphertext ke2) (zeros KE2_LENGTH) = Ok data \<and> length data = KE2_LENGTH \<and>
         parse_ke2 data = Ok (ke2_view ke2))) \<and>
   (generate_ke3 D init ke2_data ist ke3 w = (Ok (), ke3', ist', w') \<longrightarrow>
      (\<exists>data. write_ke3 (m3_initiator_mac ke3') (zeros KE3_LENGTH) = Ok data \<and> length data = KE3_LENGTH \<and>
         parse_ke3 data = Ok \<lparr>k3_initiator_mac = m3_initiator_mac ke3'\<rparr>))"
proof -
  note wf = initiator_inv_wf [OF assms(2)]
  show ?thesis
    by (intro conjI impI request_typed [OF assms(1) wf] response_typed [OF assms(1,3)] record_typed [OF assms(1) wf]
        ke1_typed [OF assms(1,2)] ke2_typed [OF assms(1,3-5)] ke3_typed [OF assms(1) wf])
qed

theorem produced_messages_well_typed_witness:
  "\<exists>ke1 data ke2 data'. parse_ke1 data = Ok (ke1_view ke1) \<and> length data = 1273 \<and>
     parse_ke2 data' = Ok (ke2_view ke2) \<and> length data' = 1377"
proof -
  obtain ke1 ist1 w1 data where k1:
    "generate_ke1 sample sample_password sample_account Ke1Message_new sample_ist sample_world = (Ok (), ke1, ist1, w1)"
    "write_ke1 (m1_credential_request ke1) (m1_initiator_public_key ke1) (m1_initiator_nonce ke1)
       (m1_pq_ephemeral_public_key ke1) (zeros KE1_LENGTH) = Ok data"
    "login_pending sample sample_password sample_account ist1 ke1" by (rule sample_ke1_run)
  obtain ke2 rst1 v1 where k2: "generate_ke2 sample sample_responder data sample_account sample_credentials Ke2Message_new
      sample_rst sample_world = (Ok (), ke2, rst1, v1)" by (rule sample_ke2_run [OF k1(3,2)])
  note typed = produced_messages_well_typed [OF sample_laws sample_sessions(1) sample_responder_wf sample_account_ready(2)
      sample_sessions(2)]
  obtain d where "parse_ke1 d = Ok (ke1_view ke1)" "length d = KE1_LENGTH" using typed k1(1) by meson
  moreover obtain d' where "parse_ke2 d' = Ok (ke2_view ke2)" "length d' = KE2_LENGTH" using typed k2 by meson
  ultimately show ?thesis by auto
qed

end
