(* ===== verification/Ffi_Common.thy ===== *)
theory Ffi_Common
  imports Protocol
begin

text \<open>
  Model of \<^verbatim>\<open>opaque-ffi/src/lib.rs\<close> and of what the C interface works on: byte-addressed
  memory, pointer-sized slots that hold handles, and handles with a busy flag. Pointers
  and lengths are 64-bit words, the null pointer is zero. A call outside the documented
  contract, on a non-null handle that is not live, has no defined behaviour: it is \<open>None\<close>.
\<close>

section \<open>Memory\<close>

type_synonym addr = "64 word"
type_synonym memory = "addr \<Rightarrow> u8"

text \<open>\<open>slice::from_raw_parts\<close> and \<open>ptr::copy_nonoverlapping\<close>.\<close>

definition read_bytes :: "memory \<Rightarrow> addr \<Rightarrow> nat \<Rightarrow> bytes" where
  "read_bytes m p n = map (\<lambda>i. m (p + of_nat i)) [0..<n]"

definition write_bytes :: "memory \<Rightarrow> addr \<Rightarrow> bytes \<Rightarrow> memory" where
  "write_bytes m p bs = (\<lambda>a. if unat (a - p) < length bs then bs ! unat (a - p) else m a)"

text \<open>A pointer-sized slot holds the eight bytes of an address, least significant first.\<close>

definition ptr_bytes :: "addr \<Rightarrow> bytes" where
  "ptr_bytes a = map (\<lambda>i. of_nat (unat a div 256 ^ i)) [0..<8]"

definition ptr_of_bytes :: "bytes \<Rightarrow> addr" where
  "ptr_of_bytes bs = of_nat (\<Sum>i<8. unat (bs ! i) * 256 ^ i)"

definition write_ptr :: "memory \<Rightarrow> addr \<Rightarrow> addr \<Rightarrow> memory" where
  "write_ptr m p a = write_bytes m p (ptr_bytes a)"

definition read_ptr :: "memory \<Rightarrow> addr \<Rightarrow> addr" where
  "read_ptr m p = ptr_of_bytes (read_bytes m p 8)"

section \<open>Error codes and argument checks\<close>

definition FFI_PANIC :: int where "FFI_PANIC = -99"
definition FFI_BUSY :: int where "FFI_BUSY = -100"
definition FFI_CORRUPTED_RECORD :: int where "FFI_CORRUPTED_RECORD = -101"
definition MAX_ACCOUNT_ID_LENGTH :: nat where [simp]: "MAX_ACCOUNT_ID_LENGTH = 1024"

definition ffi_error_to_int :: "OpaqueError \<Rightarrow> int" where
  "ffi_error_to_int error = to_c_int error"

datatype HandleAccessError = InvalidHandle | Busy

fun handle_access_to_int :: "HandleAccessError \<Rightarrow> int" where
  "handle_access_to_int InvalidHandle = to_c_int InvalidInput"
| "handle_access_to_int Busy = -100"

definition checked_add :: "addr \<Rightarrow> addr \<Rightarrow> addr option" where
  "checked_add a b = (if unat a + unat b < 2 ^ 64 then Some (a + b) else None)"

definition ranges_overlap :: "addr \<Rightarrow> addr \<Rightarrow> addr \<Rightarrow> addr \<Rightarrow> bool" where
  "ranges_overlap left left_len right right_len =
     (if left_len = 0 \<or> right_len = 0 then False
      else case checked_add left left_len of None \<Rightarrow> True
      | Some left_end \<Rightarrow> (case checked_add right right_len of None \<Rightarrow> True
        | Some right_end \<Rightarrow> left < right_end \<and> right < left_end))"

text \<open>\<open>opaque_error_string\<close> and \<open>opaque_init\<close>.\<close>

definition opaque_error_string :: "int \<Rightarrow> string" where
  "opaque_error_string code =
     (if code = 0 then ''success''
      else if code = -1 then ''invalid input parameter''
      else if code = -2 then ''cryptographic operation failed''
      else if code = -3 then ''protocol message has invalid format or length''
      else if code = -4 then ''validation failed''
      else if code = -5 then ''authentication or protocol validation failed''
      else if code = -6 then ''invalid public key''
      else if code = -7 then ''account already registered''
      else if code = -8 then ''malformed ML-KEM key or ciphertext''
      else if code = -9 then ''envelope has invalid format''
      else if code = -10 then ''unsupported protocol version''
      else if code = -99 then ''internal FFI panic''
      else if code = -100 then ''handle is busy''
      else if code = -101 then ''provided credentials record is malformed''
      else ''unknown error'')"

section \<open>The surroundings of a call\<close>

text \<open>What both libraries share: the process memory, the random source and the clock.\<close>

record ffi_base =
  h_mem :: memory
  h_world :: world

section \<open>Calls on handles\<close>

text \<open>
  \<open>guarded\<close> is the shape of every call on a handle: acquire it or return the error's code,
  run the body, and clear the busy flag when the guard goes out of scope.
\<close>

definition guarded ::
  "('f \<Rightarrow> addr \<Rightarrow> ('h \<times> 'f, HandleAccessError) result option) \<Rightarrow> (addr \<Rightarrow> 'f \<Rightarrow> 'f) \<Rightarrow> addr \<Rightarrow> 'f
     \<Rightarrow> ('h \<Rightarrow> 'f \<Rightarrow> (int \<times> 'f) option) \<Rightarrow> (int \<times> 'f) option" where
  "guarded acquire release h f body =
     (case acquire f h of
        None \<Rightarrow> None
      | Some (Err e) \<Rightarrow> Some (handle_access_to_int e, f)
      | Some Panic \<Rightarrow> Some (FFI_PANIC, f)
      | Some (Ok (x, f)) \<Rightarrow>
          (case body x f of None \<Rightarrow> None | Some (code, f) \<Rightarrow> Some (code, release h f)))"

text \<open>
  What a kind of handle promises: \<open>lookup\<close> and \<open>put\<close> read and store the contents of the box
  at an address, \<open>busy\<close> and \<open>set_busy\<close> its flag. Admission is refused for null and for a
  busy handle; otherwise it sets the flag, and releasing clears it.
\<close>

locale busy_handles =
  fixes acquire :: "'f \<Rightarrow> addr \<Rightarrow> ('h \<times> 'f, HandleAccessError) result option"
    and release :: "addr \<Rightarrow> 'f \<Rightarrow> 'f"
    and lookup :: "'f \<Rightarrow> addr \<Rightarrow> 'h option"
    and put :: "addr \<Rightarrow> 'h \<Rightarrow> 'f \<Rightarrow> 'f"
    and busy :: "'h \<Rightarrow> bool"
    and set_busy :: "bool \<Rightarrow> 'h \<Rightarrow> 'h"
  assumes acquire_null: "acquire f 0 = Some (Err InvalidHandle)"
    and acquire_dead: "h \<noteq> 0 \<Longrightarrow> lookup f h = None \<Longrightarrow> acquire f h = None"
    and acquire_busy: "h \<noteq> 0 \<Longrightarrow> lookup f h = Some x \<Longrightarrow> busy x \<Longrightarrow> acquire f h = Some (Err Busy)"
    and acquire_free: "h \<noteq> 0 \<Longrightarrow> lookup f h = Some x \<Longrightarrow> \<not> busy x \<Longrightarrow>
      acquire f h = Some (Ok (set_busy True x, put h (set_busy True x) f))"
    and release_put: "lookup f h = Some x \<Longrightarrow> release h f = put h (set_busy False x) f"
    and lookup_put: "lookup (put h x f) k = (if k = h then Some x else lookup f k)"
    and put_put: "put h x (put h y f) = put h x f"
    and put_same: "lookup f h = Some x \<Longrightarrow> put h x f = f"
    and busy_set: "busy (set_busy b x) = b"
    and set_set: "set_busy b (set_busy c x) = set_busy b x"
    and set_same: "set_busy (busy x) x = x"
begin

text \<open>Mutual exclusion: while one call holds the handle, no other is admitted.\<close>

lemma exclusive:
  assumes "acquire f h = Some (Ok (x, f'))"
  shows "acquire f' h = Some (Err Busy)"
proof -
  have h: "h \<noteq> 0" using assms acquire_null [of f] by auto
  obtain y where y: "lookup f h = Some y" "\<not> busy y"
    using assms h acquire_dead [of h f] acquire_busy [of h f] by (cases "lookup f h") auto
  then have "f' = put h (set_busy True y) f" using assms acquire_free [OF h y] by auto
  then show ?thesis using h by (intro acquire_busy) (auto simp: lookup_put busy_set)
qed

text \<open>A call in terms of the box: every exit before the body leaves the heap as it was.\<close>

lemma guarded_eq:
  "guarded acquire release h f body =
     (if h = 0 then Some (-1, f)
      else case lookup f h of
        None \<Rightarrow> None
      | Some x \<Rightarrow>
          if busy x then Some (-100, f)
          else map_option (\<lambda>(code, g). (code, release h g)) (body (set_busy True x) (put h (set_busy True x) f)))"
  by (auto simp: guarded_def acquire_null acquire_dead acquire_busy acquire_free split: option.split)

text \<open>A body that ends with the box still marked leaves it free and otherwise unchanged.\<close>

lemma release_marked:
  assumes "lookup f h = Some x" "\<not> busy x"
  shows "release h (put h (set_busy True x) f) = f"
proof -
  have "set_busy False x = x" using set_same [of x] assms(2) by simp
  then show ?thesis
    using release_put [of "put h (set_busy True x) f" h "set_busy True x"] put_same [OF assms(1)]
    by (simp add: lookup_put set_set put_put)
qed

end

section \<open>Operations on a session\<close>

text \<open>
  The closure a call runs on the session behind a handle: it reads and writes the memory,
  draws from the surroundings, and changes the handle's contents in place.
\<close>

type_synonym 'h ffi_op =
  "'h \<Rightarrow> memory \<Rightarrow> world \<Rightarrow> unit OpaqueResult \<times> 'h \<times> memory \<times> world"

text \<open>The bytes of a buffer of \<open>n\<close> bytes at \<open>p\<close>.\<close>

definition window :: "addr \<Rightarrow> nat \<Rightarrow> addr set" where
  "window p n = {a. unat (a - p) < n}"

text \<open>The operation writes to memory only on success, and only inside \<open>A\<close>.\<close>

definition frame_post :: "addr set \<Rightarrow> memory \<Rightarrow> 'r OpaqueResult \<Rightarrow> memory \<Rightarrow> bool" where
  "frame_post A m r m' \<longleftrightarrow> ((\<forall>x. r \<noteq> Ok x) \<longrightarrow> m' = m) \<and> (\<forall>a. a \<notin> A \<longrightarrow> m' a = m a)"

definition writes_only :: "addr set \<Rightarrow> 'h ffi_op \<Rightarrow> bool" where
  "writes_only A operation \<longleftrightarrow>
     (\<forall>sh m w. leaves (operation sh m w) (\<lambda>r t. frame_post A m r (fst (snd t))))"

lemma write_bytes_outside: "a \<notin> window p n \<Longrightarrow> length bs \<le> n \<Longrightarrow> write_bytes m p bs a = m a"
  by (auto simp: write_bytes_def window_def)

lemma frame_post_error [intro]: "frame_post A m (Err e) m" "frame_post A m Panic m"
  by (simp_all add: frame_post_def)

text \<open>A step followed by the serialization of its message into the output buffer.\<close>

lemma frame_serialized:
  assumes "\<And>b. wire = Ok b \<Longrightarrow> length b \<le> n"
  shows "leaves (qmark r (sh, m, w) (\<lambda>_. qmark wire (sh, m, w) (\<lambda>b. (Ok (), sh', write_bytes m p b, w))))
     (\<lambda>r t. frame_post (window p n) m r (fst (snd t)))"
  using assms by (cases r; cases wire) (auto simp: leaves_def frame_post_def write_bytes_outside)

text \<open>The writers return rather than unwind, and fill exactly the buffer they are given.\<close>

lemma write_no_panic:
  "write_registration_request p out \<noteq> Panic" "write_registration_record cs pk out \<noteq> Panic"
  "write_registration_response ev pk out \<noteq> Panic"
  "write_ke1 cr pk n ek out \<noteq> Panic" "write_ke2 n pk cr mac ct out \<noteq> Panic" "write_ke3 mac out \<noteq> Panic"
  by (cases out; auto simp: write_registration_request_def write_registration_record_def
      write_registration_response_def write_ke1_def write_ke2_def write_ke3_def store_first_def copy_into_def)+

lemma written_length:
  "write_registration_request p out = Ok b \<Longrightarrow> length b = length out"
  "write_registration_record cs pk out = Ok b \<Longrightarrow> length b = length out"
  "write_registration_response ev pk out = Ok b \<Longrightarrow> length b = length out"
  "write_ke1 cr pk n ek out = Ok b \<Longrightarrow> length b = length out"
  "write_ke2 n pk cr mac ct out = Ok b \<Longrightarrow> length b = length out"
  "write_ke3 mac out = Ok b \<Longrightarrow> length b = length out"
  by (auto simp: write_registration_request_def write_registration_record_def write_registration_response_def
      write_ke1_def write_ke2_def write_ke3_def result_simps store_first_def dest!: copy_into_length
      split: if_splits list.splits)

lemma to_c_int_range: "-10 \<le> to_c_int e \<and> to_c_int e \<le> -1"
  by (cases e) simp_all

lemma to_c_int_bounds [simp]: "-10 \<le> to_c_int e" "to_c_int e \<le> 0" "to_c_int e \<noteq> 0"
  using to_c_int_range [of e] by auto

text \<open>
  What both \<open>run_agent_stateful\<close> and \<open>run_relay_stateful\<close> do with the outcome of the
  closure: zero on success, otherwise the error's code, with the session invalidated.
\<close>

locale stateful_calls =
  fixes runner :: "'h ffi_op \<Rightarrow> 'h \<Rightarrow> memory \<Rightarrow> world \<Rightarrow> int \<times> 'h \<times> memory \<times> world"
    and invalidate :: "'h \<Rightarrow> 'h"
  assumes runner_Ok: "operation h m w = (Ok (), h', t) \<Longrightarrow> runner operation h m w = (0, h', t)"
    and runner_Err: "operation h m w = (Err e, h', t) \<Longrightarrow> runner operation h m w = (to_c_int e, invalidate h', t)"
    and runner_Panic: "operation h m w = (Panic, h', t) \<Longrightarrow> runner operation h m w = (FFI_PANIC, invalidate h', t)"
begin

lemma runner_cases:
  assumes "runner operation h m w = (code, h', m', w')"
  obtains (success) "operation h m w = (Ok (), h', m', w')" "code = 0"
  | (failure) e h1 where "operation h m w = (Err e, h1, m', w')" "code = to_c_int e" "h' = invalidate h1"
  | (panic) h1 where "operation h m w = (Panic, h1, m', w')" "code = FFI_PANIC" "h' = invalidate h1"
proof -
  obtain r h1 m1 w1 where op: "operation h m w = (r, h1, m1, w1)" by (metis prod.collapse)
  show ?thesis
  proof (cases r)
    case (Ok u)
    then show ?thesis using op assms runner_Ok [of operation h m w] success by simp
  next
    case (Err e)
    then show ?thesis using op assms runner_Err [of operation h m w e] failure by simp
  next
    case Panic
    then show ?thesis using op assms runner_Panic [of operation h m w] panic by simp
  qed
qed

text \<open>Memory: nothing is written unless the call returns zero, and then only in the output.\<close>

lemma runner_frame:
  assumes "runner operation h m w = (code, h', m', w')" "writes_only A operation"
  shows "(code \<noteq> 0 \<longrightarrow> m' = m) \<and> (\<forall>a. a \<notin> A \<longrightarrow> m' a = m a)"
proof -
  have fr: "leaves (operation h m w) (\<lambda>r t. frame_post A m r (fst (snd t)))"
    using assms(2) by (simp add: writes_only_def)
  from assms(1) show ?thesis
    by (cases rule: runner_cases) (use leavesD [OF fr] in \<open>auto simp: frame_post_def\<close>)
qed

end

section \<open>Overlap\<close>

lemma unat_less_iff_word: "(a :: addr) < b \<longleftrightarrow> unat a < unat b"
  by (rule word_less_nat_alt)

lemma unat_checked_add: "checked_add a b = Some c \<Longrightarrow> unat c = unat a + unat b"
  by (auto simp: checked_add_def unat_word_ariths split: if_splits)

text \<open>The addresses of a range, without wrapping at the end of the address space.\<close>

definition range_addresses :: "addr \<Rightarrow> addr \<Rightarrow> nat set" where
  "range_addresses p n = {unat p ..< unat p + unat n}"

lemma checked_add_None: "checked_add a b = None \<longleftrightarrow> 2 ^ 64 \<le> unat a + unat b"
  by (simp add: checked_add_def not_less)

lemma ranges_overlap_nat:
  assumes "p_len \<noteq> 0" "q_len \<noteq> 0"
  shows "ranges_overlap p p_len q q_len \<longleftrightarrow> 2 ^ 64 \<le> unat p + unat p_len \<or> 2 ^ 64 \<le> unat q + unat q_len \<or>
     (unat p < unat q + unat q_len \<and> unat q < unat p + unat p_len)"
proof (cases "checked_add p p_len")
  case None
  then show ?thesis using assms iffD1 [OF checked_add_None None] by (simp add: ranges_overlap_def)
next
  case p_end: (Some e)
  show ?thesis
  proof (cases "checked_add q q_len")
    case None
    then show ?thesis using assms iffD1 [OF checked_add_None None] p_end by (simp add: ranges_overlap_def)
  next
    case (Some e')
    then have "unat e = unat p + unat p_len" "unat e' = unat q + unat q_len" "unat e < 2 ^ 64" "unat e' < 2 ^ 64"
      using unat_checked_add p_end unsigned_less [of e, where 'a = nat] unsigned_less [of e', where 'a = nat] by auto
    then show ?thesis using assms p_end Some by (simp add: ranges_overlap_def unat_less_iff_word)
  qed
qed

lemma window_no_wrap: "unat p + n < 2 ^ 64 \<Longrightarrow> a \<in> window p n \<longleftrightarrow> unat p \<le> unat a \<and> unat a < unat p + n"
  using unsigned_less [of a, where 'a = nat] unat_sub_if_size [of a p]
  by (auto simp: window_def word_size)

text \<open>Buffers that pass the check have no byte in common.\<close>

lemma disjoint_windows:
  assumes "\<not> ranges_overlap p (of_nat n) q (of_nat k)" "n < 2 ^ 64" "k < 2 ^ 64"
  shows "window p n \<inter> window q k = {}"
proof (cases "n = 0 \<or> k = 0")
  case True
  then show ?thesis by (auto simp: window_def)
next
  case False
  have u: "unat (of_nat n :: addr) = n" "unat (of_nat k :: addr) = k"
    using assms(2,3) by (simp_all add: unat_of_nat take_bit_nat_eq_self)
  then have "(of_nat n :: addr) \<noteq> 0" "(of_nat k :: addr) \<noteq> 0" using False by auto
  then have "unat p + n < 2 ^ 64" "unat q + k < 2 ^ 64" "\<not> (unat p < unat q + k \<and> unat q < unat p + n)"
    using ranges_overlap_nat [of "of_nat n" "of_nat k" p q] assms(1) by (auto simp: u)
  then show ?thesis by (auto simp: window_no_wrap)
qed

section \<open>Reading and writing\<close>

lemma length_read_bytes [simp]: "length (read_bytes m p n) = n"
  by (simp add: read_bytes_def)

lemma read_after_write:
  assumes "length bs < 2 ^ 64"
  shows "read_bytes (write_bytes m p bs) p (length bs) = bs"
proof (rule nth_equalityI)
  fix i assume "i < length (read_bytes (write_bytes m p bs) p (length bs))"
  then have i: "i < length bs" by simp
  then have "unat (of_nat i :: addr) = i" using assms by (simp add: unat_of_nat take_bit_nat_eq_self)
  then show "read_bytes (write_bytes m p bs) p (length bs) ! i = bs ! i"
    using i by (simp add: read_bytes_def write_bytes_def)
qed simp

lemma length_ptr_bytes [simp]: "length (ptr_bytes a) = 8"
  by (simp add: ptr_bytes_def)

lemma digits_sum: "(\<Sum>i<k. (n div B ^ i mod B) * B ^ i) = n mod (B ^ k :: nat)"
proof (induction k)
  case (Suc k)
  then show ?case by (simp add: mod_mult2_eq mult.commute [of B])
qed simp

lemma ptr_of_ptr_bytes: "ptr_of_bytes (ptr_bytes a) = a"
proof -
  have "unat (of_nat n :: u8) = n mod 256" for n by (simp add: unat_of_nat take_bit_eq_mod)
  then have "(\<Sum>i<8. unat (ptr_bytes a ! i) * 256 ^ i) = (\<Sum>i<8. (unat a div 256 ^ i mod 256) * 256 ^ i)"
    by (intro sum.cong) (simp_all add: ptr_bytes_def)
  also have "\<dots> = unat a" using unsigned_less [of a, where 'a = nat] by (simp add: digits_sum)
  finally show ?thesis by (simp add: ptr_of_bytes_def)
qed

lemma read_ptr_write_ptr [simp]: "read_ptr (write_ptr m p a) p = a"
  using read_after_write [of "ptr_bytes a" m p] by (simp add: read_ptr_def write_ptr_def ptr_of_ptr_bytes)

text \<open>A buffer keeps its bytes under a write into a disjoint one.\<close>

lemma read_bytes_window: "n < 2 ^ 64 \<Longrightarrow> (\<And>a. a \<in> window p n \<Longrightarrow> m a = m' a) \<Longrightarrow> read_bytes m p n = read_bytes m' p n"
  by (auto simp: read_bytes_def window_def unat_of_nat take_bit_nat_eq_self)

lemma read_disjoint_write:
  assumes "window p n \<inter> window q (length bs) = {}" "n < 2 ^ 64"
  shows "read_bytes (write_bytes m q bs) p n = read_bytes m p n"
  using assms by (intro read_bytes_window) (auto intro: write_bytes_outside)

section \<open>Properties\<close>

text \<open>
  C31: the check on caller-supplied buffers is exact on machine words: it refuses two ranges
  precisely when neither is empty and one of them runs past the end of the address space or
  they share an address; the wrap-around of the sum is never mistaken for a low address.
\<close>

theorem ranges_overlap_exact:
  "ranges_overlap p p_len q q_len \<longleftrightarrow> p_len \<noteq> 0 \<and> q_len \<noteq> 0 \<and>
     (2 ^ 64 \<le> unat p + unat p_len \<or> 2 ^ 64 \<le> unat q + unat q_len \<or>
      (\<exists>a. a \<in> range_addresses p p_len \<and> a \<in> range_addresses q q_len))"
proof (cases "p_len = 0 \<or> q_len = 0")
  case True
  then show ?thesis by (auto simp: ranges_overlap_def)
next
  case False
  then have pos: "0 < unat p_len" "0 < unat q_len" by (simp_all add: unat_gt_0)
  have "unat p < unat q + unat q_len \<and> unat q < unat p + unat p_len \<longleftrightarrow>
      max (unat p) (unat q) \<in> range_addresses p p_len \<and> max (unat p) (unat q) \<in> range_addresses q q_len"
    using pos by (auto simp: range_addresses_def)
  also have "\<dots> \<longleftrightarrow> (\<exists>a. a \<in> range_addresses p p_len \<and> a \<in> range_addresses q q_len)"
  proof
    assume "\<exists>a. a \<in> range_addresses p p_len \<and> a \<in> range_addresses q q_len"
    then show "max (unat p) (unat q) \<in> range_addresses p p_len \<and> max (unat p) (unat q) \<in> range_addresses q q_len"
      by (auto simp: range_addresses_def)
  qed blast
  finally show ?thesis using False ranges_overlap_nat [of p_len q_len p q] by blast
qed

end
