(* ===== verification/Agent_Ffi.thy ===== *)
theory Agent_Ffi
  imports Ffi_Common Agent_Session
begin

text \<open>
  Model of \<^verbatim>\<open>opaque-ffi/src/agent_ffi.rs\<close>: the C interface of the client. The heap maps the
  address of every live box to its contents; the address at which a new box is placed is an
  argument of the functions that allocate. \<open>h_dropped_agents\<close> and \<open>h_dropped_agent_states\<close>
  record what a box held when it was returned to the allocator. A call yields the returned
  code with the new heap, or \<open>None\<close> if it is outside the documented contract. The hooks that
  inject panics in test builds do nothing in a release and are not here (see \<open>Fault_Injection\<close>).
\<close>

section \<open>Handles\<close>

record AgentHandle =
  ah_initiator :: OpaqueInitiator
  ah_in_use :: bool

record AgentStateHandle =
  as_state :: InitiatorState
  as_ke3_exported :: bool
  as_in_use :: bool

record agent_heap = ffi_base +
  h_agents :: "addr \<rightharpoonup> AgentHandle"
  h_agent_states :: "addr \<rightharpoonup> AgentStateHandle"
  h_dropped_agents :: "AgentHandle list"
  h_dropped_agent_states :: "AgentStateHandle list"

definition AgentHandle_drop :: "('s, 'p, 'ek, 'dk) deps \<Rightarrow> AgentHandle \<Rightarrow> AgentHandle" where
  "AgentHandle_drop D ah = ah\<lparr>ah_initiator := OpaqueInitiator_zeroize D (ah_initiator ah)\<rparr>"

definition AgentStateHandle_drop :: "('s, 'p, 'ek, 'dk) deps \<Rightarrow> AgentStateHandle \<Rightarrow> AgentStateHandle" where
  "AgentStateHandle_drop D sh = sh\<lparr>as_state := initiator_zeroize D (as_state sh)\<rparr>"

definition acquire_agent ::
  "agent_heap \<Rightarrow> addr \<Rightarrow> (AgentHandle \<times> agent_heap, HandleAccessError) result option" where
  "acquire_agent f handle =
     (if handle = 0 then Some (Err InvalidHandle)
      else case h_agents f handle of
        None \<Rightarrow> None
      | Some ah \<Rightarrow>
          if ah_in_use ah then Some (Err Busy)
          else let ah = ah\<lparr>ah_in_use := True\<rparr>
               in Some (Ok (ah, f\<lparr>h_agents := (h_agents f)(handle \<mapsto> ah)\<rparr>)))"

definition acquire_agent_state ::
  "agent_heap \<Rightarrow> addr \<Rightarrow> (AgentStateHandle \<times> agent_heap, HandleAccessError) result option" where
  "acquire_agent_state f handle =
     (if handle = 0 then Some (Err InvalidHandle)
      else case h_agent_states f handle of
        None \<Rightarrow> None
      | Some sh \<Rightarrow>
          if as_in_use sh then Some (Err Busy)
          else let sh = sh\<lparr>as_in_use := True\<rparr>
               in Some (Ok (sh, f\<lparr>h_agent_states := (h_agent_states f)(handle \<mapsto> sh)\<rparr>)))"

text \<open>\<open>BusyGuard::drop\<close>, on the flag of either kind of handle.\<close>

definition release_agent :: "addr \<Rightarrow> agent_heap \<Rightarrow> agent_heap" where
  "release_agent handle f =
     f\<lparr>h_agents := (h_agents f)(handle := map_option (\<lambda>ah. ah\<lparr>ah_in_use := False\<rparr>) (h_agents f handle))\<rparr>"

definition release_agent_state :: "addr \<Rightarrow> agent_heap \<Rightarrow> agent_heap" where
  "release_agent_state handle f =
     f\<lparr>h_agent_states := (h_agent_states f)(handle :=
         map_option (\<lambda>sh. sh\<lparr>as_in_use := False\<rparr>) (h_agent_states f handle))\<rparr>"

definition invalidate_agent_state ::
  "('s, 'p, 'ek, 'dk) deps \<Rightarrow> AgentStateHandle \<Rightarrow> AgentStateHandle" where
  "invalidate_agent_state D sh =
     (let sh = sh\<lparr>as_state := initiator_zeroize D (as_state sh)\<rparr>;
          sh = sh\<lparr>as_state := (as_state sh)\<lparr>i_phase := IFinished\<rparr>\<rparr>
      in sh\<lparr>as_ke3_exported := False\<rparr>)"

type_synonym agent_op = "AgentStateHandle ffi_op"

definition run_agent_stateful ::
  "('s, 'p, 'ek, 'dk) deps \<Rightarrow> agent_op \<Rightarrow> AgentStateHandle \<Rightarrow> memory \<Rightarrow> world
     \<Rightarrow> int \<times> AgentStateHandle \<times> memory \<times> world" where
  "run_agent_stateful D operation sh m w =
     (case operation sh m w of (r, sh, m, w) \<Rightarrow>
        (case r of
           Ok _ \<Rightarrow> (0, sh, m, w)
         | Err error \<Rightarrow> (ffi_error_to_int error, invalidate_agent_state D sh, m, w)
         | Panic \<Rightarrow> (FFI_PANIC, invalidate_agent_state D sh, m, w)))"

text \<open>
  The shape of the five calls on a session: admission to both handles, then the operation on
  the state behind the second one.
\<close>

definition agent_call ::
  "('s, 'p, 'ek, 'dk) deps \<Rightarrow> addr \<Rightarrow> addr \<Rightarrow> (AgentHandle \<Rightarrow> agent_op) \<Rightarrow> agent_heap
     \<Rightarrow> (int \<times> agent_heap) option" where
  "agent_call D agent_handle state_handle operation f =
     guarded acquire_agent release_agent agent_handle f (\<lambda>ah f.
     guarded acquire_agent_state release_agent_state state_handle f (\<lambda>sh f.
     let (code, sh, m, w) = run_agent_stateful D (operation ah) sh (h_mem f) (h_world f)
     in Some (code, f\<lparr>h_agent_states := (h_agent_states f)(state_handle \<mapsto> sh), h_mem := m, h_world := w\<rparr>)))"

section \<open>Creation and destruction\<close>

definition opaque_init :: int where "opaque_init = 0"

definition opaque_agent_create ::
  "('s, 'p, 'ek, 'dk) deps \<Rightarrow> addr \<Rightarrow> addr \<Rightarrow> addr \<Rightarrow> addr \<Rightarrow> agent_heap \<Rightarrow> (int \<times> agent_heap) option" where
  "opaque_agent_create D relay_public_key key_length handle box f =
     (if handle = 0 then Some (to_c_int InvalidInput, f)
      else let f = f\<lparr>h_mem := write_ptr (h_mem f) handle 0\<rparr> in
        if relay_public_key = 0 \<or> unat key_length \<noteq> PUBLIC_KEY_LENGTH
           \<or> ranges_overlap relay_public_key key_length handle 8
        then Some (to_c_int InvalidInput, f)
        else let key = read_bytes (h_mem f) relay_public_key (unat key_length) in
          (case OpaqueInitiator_new D key of
             Err e \<Rightarrow> Some (ffi_error_to_int e, f)
           | Panic \<Rightarrow> Some (FFI_PANIC, f)
           | Ok initiator \<Rightarrow> Some (0,
               f\<lparr>h_agents := (h_agents f)(box \<mapsto> \<lparr>ah_initiator = initiator, ah_in_use = False\<rparr>),
                 h_mem := write_ptr (h_mem f) handle box\<rparr>)))"

definition opaque_agent_try_destroy ::
  "('s, 'p, 'ek, 'dk) deps \<Rightarrow> addr \<Rightarrow> agent_heap \<Rightarrow> (int \<times> agent_heap) option" where
  "opaque_agent_try_destroy D handle_ptr f =
     (if handle_ptr = 0 then Some (to_c_int InvalidInput, f)
      else let handle = read_ptr (h_mem f) handle_ptr in
        if handle = 0 then Some (0, f)
        else case h_agents f handle of
          None \<Rightarrow> None
        | Some ah \<Rightarrow>
            if ah_in_use ah then Some (FFI_BUSY, f)
            else Some (0, f\<lparr>h_mem := write_ptr (h_mem f) handle_ptr 0,
                   h_agents := (h_agents f)(handle := None),
                   h_dropped_agents := AgentHandle_drop D (ah\<lparr>ah_in_use := True\<rparr>) # h_dropped_agents f\<rparr>))"

definition opaque_agent_destroy ::
  "('s, 'p, 'ek, 'dk) deps \<Rightarrow> addr \<Rightarrow> agent_heap \<Rightarrow> agent_heap option" where
  "opaque_agent_destroy D handle_ptr f = map_option snd (opaque_agent_try_destroy D handle_ptr f)"

definition opaque_agent_state_create :: "addr \<Rightarrow> addr \<Rightarrow> agent_heap \<Rightarrow> (int \<times> agent_heap) option" where
  "opaque_agent_state_create handle box f =
     (if handle = 0 then Some (to_c_int InvalidInput, f)
      else let f = f\<lparr>h_mem := write_ptr (h_mem f) handle 0\<rparr>;
               (state, w) = InitiatorState_new (h_world f)
           in Some (0, f\<lparr>h_world := w,
                h_agent_states := (h_agent_states f)(box \<mapsto>
                  \<lparr>as_state = state, as_ke3_exported = False, as_in_use = False\<rparr>),
                h_mem := write_ptr (h_mem f) handle box\<rparr>))"

definition opaque_agent_state_try_destroy ::
  "('s, 'p, 'ek, 'dk) deps \<Rightarrow> addr \<Rightarrow> agent_heap \<Rightarrow> (int \<times> agent_heap) option" where
  "opaque_agent_state_try_destroy D handle_ptr f =
     (if handle_ptr = 0 then Some (to_c_int InvalidInput, f)
      else let handle = read_ptr (h_mem f) handle_ptr in
        if handle = 0 then Some (0, f)
        else case h_agent_states f handle of
          None \<Rightarrow> None
        | Some sh \<Rightarrow>
            if as_in_use sh then Some (FFI_BUSY, f)
            else Some (0, f\<lparr>h_mem := write_ptr (h_mem f) handle_ptr 0,
                   h_agent_states := (h_agent_states f)(handle := None),
                   h_dropped_agent_states :=
                     AgentStateHandle_drop D (sh\<lparr>as_in_use := True\<rparr>) # h_dropped_agent_states f\<rparr>))"

definition opaque_agent_state_destroy ::
  "('s, 'p, 'ek, 'dk) deps \<Rightarrow> addr \<Rightarrow> agent_heap \<Rightarrow> agent_heap option" where
  "opaque_agent_state_destroy D handle_ptr f = map_option snd (opaque_agent_state_try_destroy D handle_ptr f)"

section \<open>Registration and login\<close>

text \<open>Each exported function with the closure it runs on the session.\<close>

definition registration_request_op ::
  "('s, 'p, 'ek, 'dk) deps \<Rightarrow> addr \<Rightarrow> addr \<Rightarrow> addr \<Rightarrow> agent_op" where
  "registration_request_op D secure_key secure_key_length request_out sh m w =
     (let key = read_bytes m secure_key (unat secure_key_length);
          (r, request, state, w) =
            create_registration_request D key RegistrationRequest_new (as_state sh) w;
          sh = sh\<lparr>as_state := state\<rparr> in
      qmark r (sh, m, w) (\<lambda>_.
      qmark (write_registration_request (rq_data request) (zeros REGISTRATION_REQUEST_WIRE_LENGTH)) (sh, m, w)
        (\<lambda>wire. (Ok (), sh, write_bytes m request_out wire, w))))"

definition opaque_agent_create_registration_request ::
  "('s, 'p, 'ek, 'dk) deps \<Rightarrow> addr \<Rightarrow> addr \<Rightarrow> addr \<Rightarrow> addr \<Rightarrow> addr \<Rightarrow> addr \<Rightarrow> agent_heap
     \<Rightarrow> (int \<times> agent_heap) option" where
  "opaque_agent_create_registration_request D agent_handle secure_key secure_key_length state_handle
     request_out request_length f =
     (if \<not> (1 \<le> unat secure_key_length \<and> unat secure_key_length \<le> MAX_SECURE_KEY_LENGTH)
      then Some (to_c_int InvalidInput, f)
      else if secure_key = 0 \<or> request_out = 0
         \<or> unat request_length < REGISTRATION_REQUEST_WIRE_LENGTH
         \<or> ranges_overlap secure_key secure_key_length request_out (of_nat REGISTRATION_REQUEST_WIRE_LENGTH)
      then Some (to_c_int InvalidInput, f)
      else agent_call D agent_handle state_handle
        (\<lambda>_. registration_request_op D secure_key secure_key_length request_out) f)"

definition finalize_registration_op ::
  "('s, 'p, 'ek, 'dk) deps \<Rightarrow> addr \<Rightarrow> addr \<Rightarrow> addr \<Rightarrow> AgentHandle \<Rightarrow> agent_op" where
  "finalize_registration_op D response response_length record_out ah sh m w =
     (let resp = read_bytes m response (unat response_length);
          (r, rec, state, w) =
            finalize_registration D (ah_initiator ah) resp (as_state sh) RegistrationRecord_new w;
          sh = sh\<lparr>as_state := state\<rparr> in
      qmark r (sh, m, w) (\<lambda>_.
      qmark (write_registration_record (rd_envelope rec) (rd_initiator_public_key rec)
               (zeros REGISTRATION_RECORD_LENGTH)) (sh, m, w)
        (\<lambda>wire. (Ok (), sh, write_bytes m record_out wire, w))))"

definition opaque_agent_finalize_registration ::
  "('s, 'p, 'ek, 'dk) deps \<Rightarrow> addr \<Rightarrow> addr \<Rightarrow> addr \<Rightarrow> addr \<Rightarrow> addr \<Rightarrow> addr \<Rightarrow> agent_heap
     \<Rightarrow> (int \<times> agent_heap) option" where
  "opaque_agent_finalize_registration D agent_handle response response_length state_handle
     record_out record_length f =
     (if response = 0 \<or> unat response_length \<noteq> REGISTRATION_RESPONSE_WIRE_LENGTH
         \<or> record_out = 0 \<or> unat record_length < REGISTRATION_RECORD_LENGTH
         \<or> ranges_overlap response response_length record_out (of_nat REGISTRATION_RECORD_LENGTH)
      then Some (to_c_int InvalidInput, f)
      else agent_call D agent_handle state_handle
        (finalize_registration_op D response response_length record_out) f)"

definition generate_ke1_op ::
  "('s, 'p, 'ek, 'dk) deps \<Rightarrow> addr \<Rightarrow> addr \<Rightarrow> addr \<Rightarrow> addr \<Rightarrow> addr \<Rightarrow> agent_op" where
  "generate_ke1_op D secure_key secure_key_length account_id account_id_length ke1_out sh m w =
     (let key = read_bytes m secure_key (unat secure_key_length);
          account_id = read_bytes m account_id (unat account_id_length);
          (r, ke1, state, w) = generate_ke1 D key account_id Ke1Message_new (as_state sh) w;
          sh = sh\<lparr>as_state := state\<rparr> in
      qmark r (sh, m, w) (\<lambda>_.
      qmark (write_ke1 (m1_credential_request ke1) (m1_initiator_public_key ke1) (m1_initiator_nonce ke1)
               (m1_pq_ephemeral_public_key ke1) (zeros KE1_LENGTH)) (sh, m, w)
        (\<lambda>wire. (Ok (), sh, write_bytes m ke1_out wire, w))))"

definition opaque_agent_generate_ke1 ::
  "('s, 'p, 'ek, 'dk) deps \<Rightarrow> addr \<Rightarrow> addr \<Rightarrow> addr \<Rightarrow> addr \<Rightarrow> addr \<Rightarrow> addr \<Rightarrow> addr \<Rightarrow> addr \<Rightarrow> agent_heap
     \<Rightarrow> (int \<times> agent_heap) option" where
  "opaque_agent_generate_ke1 D agent_handle secure_key secure_key_length account_id account_id_length
     state_handle ke1_out ke1_length f =
     (if \<not> (1 \<le> unat secure_key_length \<and> unat secure_key_length \<le> MAX_SECURE_KEY_LENGTH)
      then Some (to_c_int InvalidInput, f)
      else if secure_key = 0 \<or> account_id = 0 \<or> account_id_length = 0
         \<or> MAX_ACCOUNT_ID_LENGTH < unat account_id_length
         \<or> ke1_out = 0 \<or> unat ke1_length < KE1_LENGTH
         \<or> ranges_overlap secure_key secure_key_length ke1_out (of_nat KE1_LENGTH)
         \<or> ranges_overlap account_id account_id_length ke1_out (of_nat KE1_LENGTH)
      then Some (to_c_int InvalidInput, f)
      else agent_call D agent_handle state_handle
        (\<lambda>_. generate_ke1_op D secure_key secure_key_length account_id account_id_length ke1_out) f)"

definition generate_ke3_op ::
  "('s, 'p, 'ek, 'dk) deps \<Rightarrow> addr \<Rightarrow> addr \<Rightarrow> addr \<Rightarrow> AgentHandle \<Rightarrow> agent_op" where
  "generate_ke3_op D ke2 ke2_length ke3_out ah sh m w =
     (let ke2 = read_bytes m ke2 (unat ke2_length);
          sh = sh\<lparr>as_ke3_exported := False\<rparr>;
          (r, ke3, state, w) = generate_ke3 D (ah_initiator ah) ke2 (as_state sh) Ke3Message_new w;
          sh = sh\<lparr>as_state := state\<rparr> in
      qmark r (sh, m, w) (\<lambda>_.
      qmark (write_ke3 (m3_initiator_mac ke3) (zeros KE3_LENGTH)) (sh, m, w)
        (\<lambda>wire. (Ok (), sh\<lparr>as_ke3_exported := True\<rparr>, write_bytes m ke3_out wire, w))))"

definition opaque_agent_generate_ke3 ::
  "('s, 'p, 'ek, 'dk) deps \<Rightarrow> addr \<Rightarrow> addr \<Rightarrow> addr \<Rightarrow> addr \<Rightarrow> addr \<Rightarrow> addr \<Rightarrow> agent_heap
     \<Rightarrow> (int \<times> agent_heap) option" where
  "opaque_agent_generate_ke3 D agent_handle ke2 ke2_length state_handle ke3_out ke3_length f =
     (if ke2 = 0 \<or> unat ke2_length \<noteq> KE2_LENGTH \<or> ke3_out = 0 \<or> unat ke3_length < KE3_LENGTH
         \<or> ranges_overlap ke2 ke2_length ke3_out (of_nat KE3_LENGTH)
      then Some (to_c_int InvalidInput, f)
      else agent_call D agent_handle state_handle (generate_ke3_op D ke2 ke2_length ke3_out) f)"

definition agent_finish_op :: "('s, 'p, 'ek, 'dk) deps \<Rightarrow> addr \<Rightarrow> addr \<Rightarrow> agent_op" where
  "agent_finish_op D session_key_out export_key_out sh m w =
     (if \<not> as_ke3_exported sh then (Err ValidationError, sh, m, w)
      else let (r, session_key, export_key, state) =
               initiator_finish D (as_state sh) (zeros HASH_LENGTH) (zeros EXPORT_KEY_LENGTH);
             sh = sh\<lparr>as_state := state\<rparr> in
        qmark r (sh, m, w) (\<lambda>_.
        let m = write_bytes m session_key_out session_key;
            m = write_bytes m export_key_out export_key
        in (Ok (), sh\<lparr>as_ke3_exported := False\<rparr>, m, w)))"

definition opaque_agent_finish ::
  "('s, 'p, 'ek, 'dk) deps \<Rightarrow> addr \<Rightarrow> addr \<Rightarrow> addr \<Rightarrow> addr \<Rightarrow> addr \<Rightarrow> addr \<Rightarrow> agent_heap
     \<Rightarrow> (int \<times> agent_heap) option" where
  "opaque_agent_finish D agent_handle state_handle session_key_out session_key_length
     export_key_out export_key_length f =
     (if session_key_out = 0 \<or> unat session_key_length < HASH_LENGTH
         \<or> export_key_out = 0 \<or> unat export_key_length < EXPORT_KEY_LENGTH
         \<or> ranges_overlap session_key_out (of_nat HASH_LENGTH) export_key_out (of_nat EXPORT_KEY_LENGTH)
      then Some (to_c_int InvalidInput, f)
      else agent_call D agent_handle state_handle
        (\<lambda>_. agent_finish_op D session_key_out export_key_out) f)"

section \<open>Advertised sizes\<close>

definition opaque_get_ke1_length :: nat where [simp]: "opaque_get_ke1_length = KE1_LENGTH"
definition opaque_get_ke2_length :: nat where [simp]: "opaque_get_ke2_length = KE2_LENGTH"
definition opaque_get_ke3_length :: nat where [simp]: "opaque_get_ke3_length = KE3_LENGTH"
definition opaque_get_registration_record_length :: nat where
  [simp]: "opaque_get_registration_record_length = REGISTRATION_RECORD_LENGTH"
definition opaque_get_registration_request_length :: nat where
  [simp]: "opaque_get_registration_request_length = REGISTRATION_REQUEST_WIRE_LENGTH"
definition opaque_get_registration_response_length :: nat where
  [simp]: "opaque_get_registration_response_length = REGISTRATION_RESPONSE_WIRE_LENGTH"
definition opaque_get_kem_public_key_length :: nat where
  [simp]: "opaque_get_kem_public_key_length = KEM_PUBLIC_KEY_LENGTH"
definition opaque_get_kem_ciphertext_length :: nat where
  [simp]: "opaque_get_kem_ciphertext_length = KEM_CIPHERTEXT_LENGTH"

section \<open>Handles keep their contract\<close>

interpretation agent_handles: busy_handles acquire_agent release_agent h_agents
  "\<lambda>h x f. f\<lparr>h_agents := (h_agents f)(h \<mapsto> x)\<rparr>" ah_in_use "\<lambda>b x. x\<lparr>ah_in_use := b\<rparr>"
  by unfold_locales (auto simp: acquire_agent_def release_agent_def Let_def fun_upd_idem)

interpretation agent_state_handles: busy_handles acquire_agent_state release_agent_state h_agent_states
  "\<lambda>h x f. f\<lparr>h_agent_states := (h_agent_states f)(h \<mapsto> x)\<rparr>" as_in_use "\<lambda>b x. x\<lparr>as_in_use := b\<rparr>"
  by unfold_locales (auto simp: acquire_agent_state_def release_agent_state_def Let_def fun_upd_idem)

interpretation agent_runner: stateful_calls "run_agent_stateful D" "invalidate_agent_state D"
  for D :: "('s, 'p, 'ek, 'dk) deps"
  by unfold_locales (auto simp: run_agent_stateful_def ffi_error_to_int_def)

text \<open>A call on a session in terms of the two boxes; the operation does not see the other one.\<close>

definition finished_call ::
  "('s, 'p, 'ek, 'dk) deps \<Rightarrow> addr \<Rightarrow> agent_op \<Rightarrow> AgentStateHandle \<Rightarrow> agent_heap \<Rightarrow> int \<times> agent_heap" where
  "finished_call D state_handle operation sh f =
     (let (code, sh, m, w) = run_agent_stateful D operation (sh\<lparr>as_in_use := True\<rparr>) (h_mem f) (h_world f)
      in (code, f\<lparr>h_agent_states := (h_agent_states f)(state_handle \<mapsto> sh\<lparr>as_in_use := False\<rparr>),
           h_mem := m, h_world := w\<rparr>))"

lemma agent_call_eq:
  "agent_call D agent_handle state_handle operation f =
     (if agent_handle = 0 then Some (-1, f)
      else case h_agents f agent_handle of None \<Rightarrow> None
      | Some ah \<Rightarrow> if ah_in_use ah then Some (-100, f)
      else if state_handle = 0 then Some (-1, f)
      else case h_agent_states f state_handle of None \<Rightarrow> None
      | Some sh \<Rightarrow> if as_in_use sh then Some (-100, f)
      else Some (finished_call D state_handle (operation (ah\<lparr>ah_in_use := True\<rparr>)) sh f))"
proof (cases "agent_handle = 0 \<or> h_agents f agent_handle = None \<or> ah_in_use (the (h_agents f agent_handle))")
  case True
  then show ?thesis by (auto simp: agent_call_def agent_handles.guarded_eq split: option.split)
next
  case False
  then obtain ah where ah: "h_agents f agent_handle = Some ah" "\<not> ah_in_use ah" "agent_handle \<noteq> 0" by auto
  have r: "(h_agents f)(agent_handle \<mapsto> ah\<lparr>ah_in_use := False\<rparr>) = h_agents f"
    using ah by (auto simp: fun_upd_idem)
  show ?thesis
    using ah r agent_handles.release_marked [OF ah(1,2)]
    by (auto simp: agent_call_def agent_handles.guarded_eq agent_state_handles.guarded_eq finished_call_def
        release_agent_def release_agent_state_def split: option.split prod.split)
qed

section \<open>What the closures guarantee\<close>

text \<open>
  A live session handle: its session satisfies the invariant, and KE3 counts as exported
  only in the phase after KE3.
\<close>

definition agent_state_inv :: "AgentStateHandle \<Rightarrow> bool" where
  "agent_state_inv sh \<longleftrightarrow> initiator_inv (as_state sh) \<and>
     (as_ke3_exported sh \<longrightarrow> i_phase (as_state sh) = Ke3Generated)"

definition agent_post ::
  "('s, 'p, 'ek, 'dk) deps \<Rightarrow> AgentStateHandle \<Rightarrow> unit OpaqueResult \<Rightarrow> AgentStateHandle \<times> memory \<times> world \<Rightarrow> bool" where
  "agent_post D sh r t \<longleftrightarrow> r \<noteq> Panic \<and> initiator_inv (as_state (fst t)) \<and>
     as_in_use (fst t) = as_in_use sh \<and> (r = Ok () \<longrightarrow> agent_state_inv (fst t)) \<and>
     (\<exists>es. run (initiator_step D) (as_state sh) es (as_state (fst t)))"

definition agent_op_sound :: "('s, 'p, 'ek, 'dk) deps \<Rightarrow> agent_op \<Rightarrow> bool" where
  "agent_op_sound D operation \<longleftrightarrow>
     (\<forall>sh m w. agent_state_inv sh \<longrightarrow> leaves (operation sh m w) (agent_post D sh))"

text \<open>One step of the session followed by the serialization of its message.\<close>

lemma sound_after_step:
  assumes "deps_laws D" "agent_state_inv sh" "initiator_step D (as_state sh) e st"
    and "initiator_result e = Some r" "wire \<noteq> Panic"
    and "as_state sh' = st" "as_in_use sh' = as_in_use sh" "as_state sh'' = st" "as_in_use sh'' = as_in_use sh"
    and "as_ke3_exported sh'' \<Longrightarrow>
      as_ke3_exported sh \<and> initiator_src e \<noteq> Ke3Generated \<or> initiator_dst e = Ke3Generated"
  shows "leaves (qmark r (sh', m, w) (\<lambda>_. qmark wire (sh', m, w) (\<lambda>b. (Ok (), sh'', g b, w)))) (agent_post D sh)"
proof -
  have i: "initiator_inv (as_state sh)" using assms(2) by (simp add: agent_state_inv_def)
  have s: "run (initiator_step D) (as_state sh) [e] st" using assms(3) by (simp add: run_Cons_iff)
  have inv: "initiator_inv st" "r \<noteq> Panic"
    using initiator_session.run_inv [OF s] initiator_run_no_panic [OF s assms(1) i] assms(1,4) i by auto
  have "i_phase st = Ke3Generated" if "r = Ok ()" "as_ke3_exported sh''"
    using initiator_session.step_succeeds [OF _ assms(3)] that assms(1,2,4,10) i
    by (auto simp: initiator_succeeds_def agent_state_inv_def)
  with s inv assms(5-9) show ?thesis
    by (cases r; cases wire) (auto simp: leaves_def agent_post_def agent_state_inv_def)
qed

lemma registration_request_sound: "deps_laws D \<Longrightarrow> agent_op_sound D (registration_request_op D key n out)"
  unfolding agent_op_sound_def registration_request_op_def Let_def
  by (auto intro!: leaves_case_prod sound_after_step step_request write_no_panic)

lemma finalize_registration_sound: "deps_laws D \<Longrightarrow> agent_op_sound D (finalize_registration_op D resp n out ah)"
  unfolding agent_op_sound_def finalize_registration_op_def Let_def
  by (auto intro!: leaves_case_prod sound_after_step step_finalize write_no_panic)

lemma generate_ke1_sound: "deps_laws D \<Longrightarrow> agent_op_sound D (generate_ke1_op D key n acc an out)"
  unfolding agent_op_sound_def generate_ke1_op_def Let_def
  by (auto intro!: leaves_case_prod sound_after_step step_ke1 [of Ke1Message_new] write_no_panic
      simp: Ke1Message_new_def)

lemma generate_ke3_sound: "deps_laws D \<Longrightarrow> agent_op_sound D (generate_ke3_op D ke2 n out ah)"
  unfolding agent_op_sound_def generate_ke3_op_def Let_def
  by (auto intro!: leaves_case_prod sound_after_step step_ke3 write_no_panic)

lemma agent_finish_sound: 
  assumes "deps_laws D"
  shows "agent_op_sound D (agent_finish_op D sk_out ek_out)"
  unfolding agent_op_sound_def 
proof (intro allI impI)
  fix sh m w assume inv: "agent_state_inv sh"
  obtain r sk ek st where fin: "initiator_finish D (as_state sh) (zeros HASH_LENGTH) (zeros EXPORT_KEY_LENGTH) = (r, sk, ek, st)"
    by (metis prod.collapse)
  note fin' = fin [simplified]
  have step: "initiator_step D (as_state sh) (InitiatorFinish r sk ek) st"
    by (rule step_finish [OF _ _ fin]) simp_all
  show "leaves (agent_finish_op D sk_out ek_out sh m w) (agent_post D sh)"
  proof (cases "as_ke3_exported sh")
    case True
    then show ?thesis
      using sound_after_step [OF assms inv step, of r "Ok ()" "sh\<lparr>as_state := st\<rparr>" "sh\<lparr>as_state := st, as_ke3_exported := False\<rparr>" m w
          "\<lambda>_. write_bytes (write_bytes m sk_out sk) ek_out ek"]
      by (simp add: agent_finish_op_def fin' Let_def)
  next
    case False
    then show ?thesis using inv
      by (auto simp: agent_finish_op_def leaves_def agent_post_def agent_state_inv_def intro: run_Nil)
  qed
qed

text \<open>What each closure may write.\<close>

lemma closures_write_only:
  "writes_only (window out REGISTRATION_REQUEST_WIRE_LENGTH) (registration_request_op D key n out)"
  "writes_only (window out REGISTRATION_RECORD_LENGTH) (finalize_registration_op D resp n out ah)"
  "writes_only (window out KE1_LENGTH) (generate_ke1_op D key n acc an out)"
  "writes_only (window out KE3_LENGTH) (generate_ke3_op D ke2 n out ah)"
  unfolding writes_only_def registration_request_op_def finalize_registration_op_def generate_ke1_op_def
    generate_ke3_op_def Let_def
  by (auto intro!: leaves_case_prod frame_serialized dest!: written_length)

lemma finish_lengths:
  assumes "initiator_finish D st sk ek = (Ok (), sk', ek', st')"
  shows "length sk' = length sk" "length ek' = length ek"
  using assms by (auto simp: initiator_finish_def Let_def result_simps dest!: copy_into_length split: if_splits)

lemma finish_writes_only:
  "writes_only (window sk_out HASH_LENGTH \<union> window ek_out EXPORT_KEY_LENGTH) (agent_finish_op D sk_out ek_out)"
  unfolding writes_only_def
proof (intro allI)
  fix sh :: AgentStateHandle and m w
  obtain r sk ek st where fin: "initiator_finish D (as_state sh) (zeros 64) (zeros 32) = (r, sk, ek, st)"
    by (metis prod.collapse)
  show "leaves (agent_finish_op D sk_out ek_out sh m w)
      (\<lambda>r t. frame_post (window sk_out HASH_LENGTH \<union> window ek_out EXPORT_KEY_LENGTH) m r (fst (snd t)))"
    using finish_lengths [of D "as_state sh" "zeros 64" "zeros 32" sk ek st] fin
    by (cases r) (auto simp: agent_finish_op_def Let_def leaves_def frame_post_def write_bytes_outside)
qed

section \<open>The interface as a step relation\<close>

text \<open>
  A call on a session, with the agent's and the session's handle, the addresses of its
  output buffers and the returned code.
\<close>

inductive agent_session_call ::
  "('s, 'p, 'ek, 'dk) deps \<Rightarrow> addr \<Rightarrow> addr \<Rightarrow> addr set \<Rightarrow> agent_heap \<Rightarrow> int \<Rightarrow> agent_heap \<Rightarrow> bool"
  for D :: "('s, 'p, 'ek, 'dk) deps" and a s :: addr where
  call_request: "opaque_agent_create_registration_request D a key n s out len f = Some (c, g) \<Longrightarrow>
     agent_session_call D a s (window out opaque_get_registration_request_length) f c g"
| call_finalize: "opaque_agent_finalize_registration D a resp n s out len f = Some (c, g) \<Longrightarrow>
     agent_session_call D a s (window out opaque_get_registration_record_length) f c g"
| call_ke1: "opaque_agent_generate_ke1 D a key n acc an s out len f = Some (c, g) \<Longrightarrow>
     agent_session_call D a s (window out opaque_get_ke1_length) f c g"
| call_ke3: "opaque_agent_generate_ke3 D a ke2 n s out len f = Some (c, g) \<Longrightarrow>
     agent_session_call D a s (window out opaque_get_ke3_length) f c g"
| call_finish: "opaque_agent_finish D a s sk n ek k f = Some (c, g) \<Longrightarrow>
     agent_session_call D a s (window sk HASH_LENGTH \<union> window ek EXPORT_KEY_LENGTH) f c g"

text \<open>
  Every call, with any arguments: the returned code, if it returns one. Boxes are placed at
  addresses that are not in use. Between calls the program may change its memory.
\<close>

inductive agent_api :: "('s, 'p, 'ek, 'dk) deps \<Rightarrow> agent_heap \<Rightarrow> int option \<Rightarrow> agent_heap \<Rightarrow> bool"
  for D :: "('s, 'p, 'ek, 'dk) deps" where
  api_memory: "agent_api D f None (f\<lparr>h_mem := m\<rparr>)"
| api_create: "box \<noteq> 0 \<Longrightarrow> h_agents f box = None \<Longrightarrow>
     opaque_agent_create D key n out box f = Some (c, g) \<Longrightarrow> agent_api D f (Some c) g"
| api_destroy: "opaque_agent_try_destroy D p f = Some (c, g) \<Longrightarrow> agent_api D f (Some c) g"
| api_destroy_quiet: "opaque_agent_destroy D p f = Some g \<Longrightarrow> agent_api D f None g"
| api_state_create: "box \<noteq> 0 \<Longrightarrow> h_agent_states f box = None \<Longrightarrow>
     opaque_agent_state_create out box f = Some (c, g) \<Longrightarrow> agent_api D f (Some c) g"
| api_state_destroy: "opaque_agent_state_try_destroy D p f = Some (c, g) \<Longrightarrow> agent_api D f (Some c) g"
| api_state_destroy_quiet: "opaque_agent_state_destroy D p f = Some g \<Longrightarrow> agent_api D f None g"
| api_session: "agent_session_call D a s A f c g \<Longrightarrow> agent_api D f (Some c) g"

text \<open>
  A call on a session is refused with the heap untouched, or it is the run of a sound closure
  that writes only into the output buffers.
\<close>

definition agent_heap_busy :: "agent_heap \<Rightarrow> bool" where
  "agent_heap_busy f \<longleftrightarrow> (\<exists>h ah. h_agents f h = Some ah \<and> ah_in_use ah) \<or>
     (\<exists>h sh. h_agent_states f h = Some sh \<and> as_in_use sh)"

definition agent_outcome ::
  "('s, 'p, 'ek, 'dk) deps \<Rightarrow> addr \<Rightarrow> addr set \<Rightarrow> agent_heap \<Rightarrow> int \<Rightarrow> agent_heap \<Rightarrow> bool" where
  "agent_outcome D s A f c g \<longleftrightarrow> c = -1 \<and> g = f \<or> c = -100 \<and> g = f \<and> agent_heap_busy f \<or>
     (\<exists>sh operation. h_agent_states f s = Some sh \<and> \<not> as_in_use sh \<and>
        agent_op_sound D operation \<and> writes_only A operation \<and> finished_call D s operation sh f = (c, g))"

lemma agent_outcome_refused: "agent_outcome D s A f (-1) f"
  "h_agents f h = Some ah \<Longrightarrow> ah_in_use ah \<Longrightarrow> agent_outcome D s A f (-100) f"
  "h_agent_states f h = Some sh \<Longrightarrow> as_in_use sh \<Longrightarrow> agent_outcome D s A f (-100) f"
  by (auto simp: agent_outcome_def agent_heap_busy_def)

lemma agent_outcome_ran:
  "h_agent_states f s = Some sh \<Longrightarrow> \<not> as_in_use sh \<Longrightarrow> agent_op_sound D operation \<Longrightarrow> writes_only A operation \<Longrightarrow>
     finished_call D s operation sh f = (c, g) \<Longrightarrow> agent_outcome D s A f c g"
  unfolding agent_outcome_def by blast

lemma agent_call_outcome:
  assumes "agent_call D a s operation f = Some (c, g)"
    and "\<And>ah. agent_op_sound D (operation ah)" "\<And>ah. writes_only A (operation ah)"
  shows "agent_outcome D s A f c g"
  using assms unfolding agent_call_eq
  by (auto split: if_splits option.splits intro: agent_outcome_refused agent_outcome_ran)

lemmas closure_facts = registration_request_sound finalize_registration_sound generate_ke1_sound
  generate_ke3_sound agent_finish_sound closures_write_only [simplified] finish_writes_only [simplified]

lemma agent_session_call_outcome:
  assumes "deps_laws D" "agent_session_call D a s A f c g"
  shows "agent_outcome D s A f c g"
  using assms(2)
proof cases
  case (call_request key n out len)
  then show ?thesis using assms(1) unfolding opaque_agent_create_registration_request_def
    by (auto split: if_splits intro: agent_outcome_refused elim!: agent_call_outcome intro!: closure_facts)
next
  case (call_finalize resp n out len)
  then show ?thesis using assms(1) unfolding opaque_agent_finalize_registration_def
    by (auto split: if_splits intro: agent_outcome_refused elim!: agent_call_outcome intro!: closure_facts)
next
  case (call_ke1 key n acc an out len)
  then show ?thesis using assms(1) unfolding opaque_agent_generate_ke1_def
    by (auto split: if_splits intro: agent_outcome_refused elim!: agent_call_outcome intro!: closure_facts)
next
  case (call_ke3 ke2 n out len)
  then show ?thesis using assms(1) unfolding opaque_agent_generate_ke3_def
    by (auto split: if_splits intro: agent_outcome_refused elim!: agent_call_outcome intro!: closure_facts)
next
  case (call_finish sk n ek k)
  then show ?thesis using assms(1) unfolding opaque_agent_finish_def
    by (auto split: if_splits intro: agent_outcome_refused elim!: agent_call_outcome intro!: closure_facts)
qed

text \<open>What a call that ran leaves behind.\<close>

lemma invalidate_agent_state_eq:
  "invalidate_agent_state D sh = sh\<lparr>as_state := initiator_invalidate D (as_state sh), as_ke3_exported := False\<rparr>"
  by (simp add: invalidate_agent_state_def initiator_invalidate_def Let_def)

definition agent_call_effect ::
  "('s, 'p, 'ek, 'dk) deps \<Rightarrow> addr \<Rightarrow> addr set \<Rightarrow> AgentStateHandle \<Rightarrow> agent_heap \<Rightarrow> int \<Rightarrow> agent_heap \<Rightarrow> bool" where
  "agent_call_effect D s A sh f c g \<longleftrightarrow> (\<exists>sh' m w.
     g = f\<lparr>h_agent_states := (h_agent_states f)(s \<mapsto> sh'), h_mem := m, h_world := w\<rparr> \<and>
     agent_state_inv sh' \<and> \<not> as_in_use sh' \<and> (\<exists>es. run (initiator_step D) (as_state sh) es (as_state sh')) \<and>
     -10 \<le> c \<and> c \<le> 0 \<and> (c \<noteq> 0 \<longrightarrow> (\<exists>t. as_state sh' = invalidated_initiator t) \<and> m = h_mem f) \<and>
     (\<forall>a. a \<notin> A \<longrightarrow> m a = h_mem f a))"

lemma finished_call_effect:
  assumes laws: "deps_laws D" and inv: "agent_state_inv sh" and op: "agent_op_sound D operation"
    and out: "writes_only A operation" and fin: "finished_call D s operation sh f = (c, g)"
  shows "agent_call_effect D s A sh f c g"
proof -
  let ?sh = "sh\<lparr>as_in_use := True\<rparr>"
  obtain sh1 m w where run: "run_agent_stateful D operation ?sh (h_mem f) (h_world f) = (c, sh1, m, w)"
    and g: "g = f\<lparr>h_agent_states := (h_agent_states f)(s \<mapsto> sh1\<lparr>as_in_use := False\<rparr>), h_mem := m, h_world := w\<rparr>"
    using fin by (auto simp: finished_call_def split: prod.splits)
  have post: "leaves (operation ?sh (h_mem f) (h_world f)) (agent_post D ?sh)"
    using op inv by (simp add: agent_op_sound_def agent_state_inv_def)
  have frame: "(c \<noteq> 0 \<longrightarrow> m = h_mem f) \<and> (\<forall>a. a \<notin> A \<longrightarrow> m a = h_mem f a)"
    using agent_runner.runner_frame [OF run out] .
  have "agent_state_inv (sh1\<lparr>as_in_use := False\<rparr>) \<and> (\<exists>es. run (initiator_step D) (as_state sh) es (as_state sh1)) \<and>
     -10 \<le> c \<and> c \<le> 0 \<and> (c \<noteq> 0 \<longrightarrow> (\<exists>t. as_state sh1 = invalidated_initiator t))"
    using run
  proof (cases rule: agent_runner.runner_cases)
    case success
    then show ?thesis using leavesD [OF post success(1)] by (auto simp: agent_post_def agent_state_inv_def)
  next
    case (failure e h1)
    have h1: "initiator_inv (as_state h1)" and r: "\<exists>es. run (initiator_step D) (as_state sh) es (as_state h1)"
      using leavesD [OF post failure(1)] by (auto simp: agent_post_def)
    from r obtain es where "run (initiator_step D) (as_state sh) es (as_state h1)" by blast
    moreover have "run (initiator_step D) (as_state h1) [InitiatorInvalidate] (initiator_invalidate D (as_state h1))"
      by (auto simp: run_Cons_iff intro: step_invalidate)
    ultimately have "\<exists>es. run (initiator_step D) (as_state sh) es (initiator_invalidate D (as_state h1))"
      by (blast intro: run_append)
    then show ?thesis using failure(2,3) to_c_int_range [of e] laws initiator_inv_wf [OF h1]
      by (auto simp: invalidate_agent_state_eq agent_state_inv_def initiator_inv_def initiator_invalidate_wf)
  next
    case (panic h1)
    then show ?thesis using leavesD [OF post panic(1)] by (simp add: agent_post_def)
  qed
  then show ?thesis using frame unfolding agent_call_effect_def g
    by (intro exI [of _ "sh1\<lparr>as_in_use := False\<rparr>"] exI [of _ m] exI [of _ w]) simp
qed

lemma agent_call_effect_failure:
  "agent_call_effect D s A sh f c g \<Longrightarrow> c \<noteq> 0 \<Longrightarrow>
     \<exists>sh' t. h_agent_states g s = Some sh' \<and> as_state sh' = invalidated_initiator t \<and> h_mem g = h_mem f"
  by (auto simp: agent_call_effect_def)

section \<open>The heap between calls\<close>

text \<open>
  Between calls no handle is busy, agents hold a valid server key, every session satisfies its
  invariant and was reached from a new one by calls on that session alone, and every box
  that was returned to the allocator had been wiped.
\<close>

definition agent_live :: "('s, 'p, 'ek, 'dk) deps \<Rightarrow> AgentHandle \<Rightarrow> bool" where
  "agent_live D ah \<longleftrightarrow> \<not> ah_in_use ah \<and>
     (\<exists>p. p \<noteq> point_identity D \<and> oi_responder_public_key (ah_initiator ah) = point_compress D p)"

definition agent_state_live :: "('s, 'p, 'ek, 'dk) deps \<Rightarrow> AgentStateHandle \<Rightarrow> bool" where
  "agent_state_live D sh \<longleftrightarrow> \<not> as_in_use sh \<and> agent_state_inv sh \<and>
     (\<exists>w es. run (initiator_step D) (fst (InitiatorState_new w)) es (as_state sh))"

definition agent_heap_inv :: "('s, 'p, 'ek, 'dk) deps \<Rightarrow> agent_heap \<Rightarrow> bool" where
  "agent_heap_inv D f \<longleftrightarrow>
     (\<forall>h ah. h_agents f h = Some ah \<longrightarrow> agent_live D ah) \<and>
     (\<forall>h sh. h_agent_states f h = Some sh \<longrightarrow> agent_state_live D sh) \<and>
     (\<forall>ah \<in> set (h_dropped_agents f). oi_responder_public_key (ah_initiator ah) = zeros PUBLIC_KEY_LENGTH) \<and>
     (\<forall>sh \<in> set (h_dropped_agent_states f). initiator_wiped (as_state sh))"

definition agent_heap_new :: "memory \<Rightarrow> world \<Rightarrow> agent_heap" where
  "agent_heap_new m w = \<lparr>h_mem = m, h_world = w, h_agents = (\<lambda>_. None), h_agent_states = (\<lambda>_. None),
     h_dropped_agents = [], h_dropped_agent_states = []\<rparr>"

lemma agent_heap_inv_not_busy: "agent_heap_inv D f \<Longrightarrow> \<not> agent_heap_busy f"
  by (auto simp: agent_heap_inv_def agent_heap_busy_def agent_live_def agent_state_live_def)

lemma initiator_zeroize_wiped: "zeroize_laws D \<Longrightarrow> initiator_wf s \<Longrightarrow> initiator_wiped (initiator_zeroize D s)"
  using initiator_invalidate_inv(3) [of D s] by (simp add: initiator_invalidate_def initiator_wiped_def)

lemma agent_session_call_effect:
  assumes "deps_laws D" "agent_heap_inv D f" "agent_session_call D a s A f c g"
  obtains (refused) "c = -1" "g = f"
  | (ran) sh where "h_agent_states f s = Some sh" "agent_call_effect D s A sh f c g"
  using agent_session_call_outcome [OF assms(1,3)] agent_heap_inv_not_busy [OF assms(2)] assms(1,2)
    finished_call_effect
  unfolding agent_outcome_def agent_heap_inv_def agent_state_live_def by blast

lemma agent_session_call_inv:
  assumes "deps_laws D" "agent_heap_inv D f" "agent_session_call D a s A f c g"
  shows "agent_heap_inv D g \<and> -10 \<le> c \<and> c \<le> 0"
  using assms
proof (cases rule: agent_session_call_effect)
  case (ran sh)
  then obtain w es where "run (initiator_step D) (fst (InitiatorState_new w)) es (as_state sh)"
    using assms(2) unfolding agent_heap_inv_def agent_state_live_def by blast
  then have "agent_state_live D sh'" if "agent_state_inv sh'" "\<not> as_in_use sh'"
      "run (initiator_step D) (as_state sh) es' (as_state sh')" for sh' es'
    using that unfolding agent_state_live_def by (blast intro: run_append)
  then show ?thesis using ran assms(2) by (auto simp: agent_call_effect_def agent_heap_inv_def split: if_splits)
qed (use assms in simp)

lemma opaque_agent_create_inv:
  assumes "deps_laws D" "agent_heap_inv D f" "opaque_agent_create D key n out box f = Some (c, g)"
  shows "agent_heap_inv D g \<and> -10 \<le> c \<and> c \<le> 0"
proof -
  have "OpaqueInitiator_new D b \<noteq> Panic" for b
    using assms(1) by (auto simp: OpaqueInitiator_new_def validate_public_key_Ok_iff validate_no_panic result_simps copy_into_whole)
  then show ?thesis using assms
    by (auto simp: opaque_agent_create_def Let_def agent_heap_inv_def agent_live_def
      ffi_error_to_int_def OpaqueInitiator_new_Ok_iff split: if_splits result.splits)
qed

lemma agent_key_length: "group_laws D \<Longrightarrow> agent_live D ah \<Longrightarrow> length (oi_responder_public_key (ah_initiator ah)) = 32"
  by (auto simp: agent_live_def)

lemma new_session_live:
  assumes "InitiatorState_new w = (st, w')"
  shows "agent_state_live D \<lparr>as_state = st, as_ke3_exported = False, as_in_use = False\<rparr>"
proof -
  have st: "st = fst (InitiatorState_new w)" using assms by simp
  have "initiator_inv st" using InitiatorState_new_props [of w] by (simp add: st initiator_inv_def)
  moreover have "\<exists>w es. run (initiator_step D) (fst (InitiatorState_new w)) es st" unfolding st by (blast intro: run_Nil)
  ultimately show ?thesis by (simp add: agent_state_live_def agent_state_inv_def)
qed

lemma opaque_agent_try_destroy_inv:
  assumes "deps_laws D" "agent_heap_inv D f" "opaque_agent_try_destroy D p f = Some (c, g)"
  shows "agent_heap_inv D g \<and> -10 \<le> c \<and> c \<le> 0"
proof -
  have live: "\<not> ah_in_use ah \<and> length (oi_responder_public_key (ah_initiator ah)) = 32" if "h_agents f h = Some ah" for h ah
    using that assms(1,2) agent_key_length [of D ah] by (auto simp: agent_heap_inv_def agent_live_def)
  show ?thesis using assms live [of "read_ptr (h_mem f) p"]
    by (auto simp: opaque_agent_try_destroy_def Let_def agent_heap_inv_def AgentHandle_drop_def
        OpaqueInitiator_zeroize_def split: if_splits option.splits)
qed

lemma opaque_agent_state_create_inv:
  "agent_heap_inv D f \<Longrightarrow> opaque_agent_state_create out box f = Some (c, g) \<Longrightarrow>
     agent_heap_inv D g \<and> -10 \<le> c \<and> c \<le> 0"
  by (auto simp: opaque_agent_state_create_def Let_def agent_heap_inv_def new_session_live split: if_splits prod.splits)

lemma opaque_agent_state_try_destroy_inv:
  "deps_laws D \<Longrightarrow> agent_heap_inv D f \<Longrightarrow> opaque_agent_state_try_destroy D p f = Some (c, g) \<Longrightarrow>
     agent_heap_inv D g \<and> -10 \<le> c \<and> c \<le> 0"
  by (auto simp: opaque_agent_state_try_destroy_def Let_def agent_heap_inv_def agent_state_live_def
      AgentStateHandle_drop_def agent_state_inv_def initiator_inv_wf initiator_zeroize_wiped
      split: if_splits option.splits)

lemma agent_api_inv:
  assumes "deps_laws D" "agent_heap_inv D f" "agent_api D f c g"
  shows "agent_heap_inv D g \<and> (\<forall>k. c = Some k \<longrightarrow> -10 \<le> k \<and> k \<le> 0)"
  using assms(3)
proof cases
  case (api_memory m)
  then show ?thesis using assms(2) by (simp add: agent_heap_inv_def)
qed (auto simp: opaque_agent_destroy_def opaque_agent_state_destroy_def
    dest!: opaque_agent_create_inv [OF assms(1,2)] opaque_agent_try_destroy_inv [OF assms(1,2)]
      opaque_agent_state_create_inv [OF assms(2)] opaque_agent_state_try_destroy_inv [OF assms(1,2)]
      agent_session_call_inv [OF assms(1,2)])

lemma agent_run_inv:
  "run (agent_api D) f cs g \<Longrightarrow> deps_laws D \<Longrightarrow> agent_heap_inv D f \<Longrightarrow>
     agent_heap_inv D g \<and> (\<forall>k. Some k \<in> set cs \<longrightarrow> -10 \<le> k \<and> k \<le> 0)"
proof (induction rule: run.induct)
  case (run_Cons f c g cs h)
  then show ?case using agent_api_inv [of D f c g] by auto
qed simp

lemma agent_heap_new_inv: "agent_heap_inv D (agent_heap_new m w)"
  by (simp add: agent_heap_inv_def agent_heap_new_def)

lemma agent_finish_run:
  assumes "deps_laws D" "agent_state_inv sh"
    and "run_agent_stateful D (agent_finish_op D sk ek) sh m w = (c, sh', m', w')"
  shows "c = (if \<not> as_ke3_exported sh then -5 else if i_session_key (as_state sh) = zeros HASH_LENGTH then -1 else 0)"
    and "c = 0 \<Longrightarrow> initiator_wiped (as_state sh') \<and> i_phase (as_state sh') = IFinished \<and>
      m' = write_bytes (write_bytes m sk (i_session_key (as_state sh))) ek (i_export_key (as_state sh))"
proof -
  have wf: "initiator_wf (as_state sh)" and p: "as_ke3_exported sh \<Longrightarrow> i_phase (as_state sh) = Ke3Generated"
    using assms(2) by (simp_all add: agent_state_inv_def initiator_inv_wf)
  note run = assms(3) [unfolded run_agent_stateful_def agent_finish_op_def]
  show "c = (if \<not> as_ke3_exported sh then -5 else if i_session_key (as_state sh) = zeros HASH_LENGTH then -1 else 0)"
    using run assms(1) wf p by (auto simp: initiator_finish_eq ffi_error_to_int_def split: if_splits)
  show "initiator_wiped (as_state sh') \<and> i_phase (as_state sh') = IFinished \<and>
      m' = write_bytes (write_bytes m sk (i_session_key (as_state sh))) ek (i_export_key (as_state sh))" if "c = 0"
    using run assms(1) wf p that
    by (auto simp: initiator_finish_eq ffi_error_to_int_def initiator_wiped_def Let_def split: if_splits)
qed

text \<open>The outcome of \<open>opaque_agent_finish\<close> on live handles and acceptable buffers.\<close>

lemma opaque_agent_finish_eq:
  assumes "h_agents f a = Some ah" "\<not> ah_in_use ah" "a \<noteq> 0" "h_agent_states f s = Some sh" "\<not> as_in_use sh" "s \<noteq> 0"
    and "sk \<noteq> 0" "HASH_LENGTH \<le> unat n" "ek \<noteq> 0" "EXPORT_KEY_LENGTH \<le> unat k"
    and "\<not> ranges_overlap sk (of_nat HASH_LENGTH) ek (of_nat EXPORT_KEY_LENGTH)"
  shows "opaque_agent_finish D a s sk n ek k f = Some (finished_call D s (agent_finish_op D sk ek) sh f)"
  using assms by (simp add: opaque_agent_finish_def agent_call_eq)

text \<open>A short history of calls: a session is created at address 16 and destroyed again.\<close>

definition sample_slot_heap :: agent_heap where
  "sample_slot_heap = snd (the (opaque_agent_state_create 8 16 (agent_heap_new (\<lambda>_. 0) sample_world)))"

lemma sample_slot_heap_props:
  "opaque_agent_state_create 8 16 (agent_heap_new (\<lambda>_. 0) sample_world) = Some (0, sample_slot_heap)"
  "h_agent_states sample_slot_heap 16 =
     Some \<lparr>as_state = fst (InitiatorState_new sample_world), as_ke3_exported = False, as_in_use = False\<rparr>"
  "read_ptr (h_mem sample_slot_heap) 8 = 16"
  by (simp_all add: sample_slot_heap_def opaque_agent_state_create_def agent_heap_new_def Let_def split: prod.split)

lemma sample_slot_run: "run (agent_api sample) (agent_heap_new (\<lambda>_. 0) sample_world) [Some 0] sample_slot_heap"
  using api_state_create [of 16 "agent_heap_new (\<lambda>_. 0) sample_world" 8 0 sample_slot_heap sample] sample_slot_heap_props(1)
  by (auto simp: run_Cons_iff agent_heap_new_def)

text \<open>The agent of the samples, and a session that has produced its KE3.\<close>

definition sample_agent :: AgentHandle where
  "sample_agent = \<lparr>ah_initiator = \<lparr>oi_responder_public_key = z3_encode Z2\<rparr>, ah_in_use = False\<rparr>"

definition sample_established :: AgentStateHandle where
  "sample_established = \<lparr>as_state = (fst (InitiatorState_new sample_world))
       \<lparr>i_phase := Ke3Generated, i_session_key := replicate 64 1\<rparr>, as_ke3_exported = True, as_in_use = False\<rparr>"

lemma sample_established_inv: "agent_state_inv sample_established"
  by (simp add: agent_state_inv_def sample_established_def initiator_inv_def initiator_wf_def
      InitiatorState_new_def instant_now_def)

lemma sample_agent_heap_inv: "agent_heap_inv sample (sample_slot_heap\<lparr>h_agents := [24 \<mapsto> sample_agent]\<rparr>)"
  using agent_run_inv [OF sample_slot_run sample_laws agent_heap_new_inv]
  by (auto simp: agent_heap_inv_def agent_live_def sample_agent_def)

section \<open>Properties\<close>

text \<open>
  C15: from a process with no handles, after any sequence of calls of the client's C interface
  with any arguments, memory contents, random bytes and clock readings, no handle is left
  busy, every live session satisfies the session invariant and counts KE3 as exported only
  in the phase after KE3, every session box returned to the allocator was wiped of secrets,
  and no call has returned the panic or the busy code.
\<close>

theorem agent_interface_invariant:
  assumes "deps_laws D" "run (agent_api D) (agent_heap_new m w) cs f"
  shows "(\<forall>h sh. h_agent_states f h = Some sh \<longrightarrow> \<not> as_in_use sh \<and> initiator_inv (as_state sh) \<and>
        (as_ke3_exported sh \<longrightarrow> i_phase (as_state sh) = Ke3Generated)) \<and>
     (\<forall>h ah. h_agents f h = Some ah \<longrightarrow> \<not> ah_in_use ah) \<and>
     (\<forall>sh \<in> set (h_dropped_agent_states f). initiator_wiped (as_state sh)) \<and>
     (\<forall>k. Some k \<in> set cs \<longrightarrow> -10 \<le> k \<and> k \<le> 0)"
  using agent_run_inv [OF assms(2,1) agent_heap_new_inv]
  by (simp add: agent_heap_inv_def agent_state_live_def agent_live_def agent_state_inv_def)

theorem agent_interface_invariant_witness:
  "\<exists>sh. h_agent_states sample_slot_heap 16 = Some sh \<and> \<not> as_in_use sh \<and> initiator_inv (as_state sh)"
  using agent_interface_invariant [OF sample_laws sample_slot_run] sample_slot_heap_props(2) by blast

text \<open>
  The C interface refines the session machine: every session a program holds, after any
  sequence of calls on any handles, is in a state that a run of calls of the Rust interface on
  one new session reaches. The order of calls and the finality of finished sessions carry over.
\<close>

lemma agent_interface_refines_sessions:
  assumes "deps_laws D" "run (agent_api D) (agent_heap_new m w) cs f" "h_agent_states f h = Some sh"
  shows "\<exists>v es. run (initiator_step D) (fst (InitiatorState_new v)) es (as_state sh)"
  using agent_run_inv [OF assms(2,1) agent_heap_new_inv] assms(3)
  unfolding agent_heap_inv_def agent_state_live_def by blast



text \<open>
  C29: \<open>opaque_agent_finish\<close> on live handles and disjoint buffers: it succeeds exactly for a
  session whose KE3 was exported and whose session key is not zero, and then the two buffers
  hold the session key and the export key; in every case the session is finished and wiped.
\<close>

theorem agent_finish_delivers:
  assumes "deps_laws D" "h_agents f a = Some ah" "\<not> ah_in_use ah" "a \<noteq> 0"
    and "h_agent_states f s = Some sh" "\<not> as_in_use sh" "agent_state_inv sh" "s \<noteq> 0"
    and "sk \<noteq> 0" "HASH_LENGTH \<le> unat n" "ek \<noteq> 0" "EXPORT_KEY_LENGTH \<le> unat k"
    and "\<not> ranges_overlap sk (of_nat HASH_LENGTH) ek (of_nat EXPORT_KEY_LENGTH)"
  shows "\<exists>c g sh'. opaque_agent_finish D a s sk n ek k f = Some (c, g) \<and> h_agent_states g s = Some sh' \<and>
     i_phase (as_state sh') = IFinished \<and> initiator_wiped (as_state sh') \<and>
     c = (if \<not> as_ke3_exported sh then -5 else if i_session_key (as_state sh) = zeros HASH_LENGTH then -1 else 0) \<and>
     (c \<noteq> 0 \<longrightarrow> h_mem g = h_mem f) \<and>
     (c = 0 \<longrightarrow> read_bytes (h_mem g) sk HASH_LENGTH = i_session_key (as_state sh) \<and>
        read_bytes (h_mem g) ek EXPORT_KEY_LENGTH = i_export_key (as_state sh))"
proof -
  let ?op = "agent_finish_op D sk ek" and ?sh = "sh\<lparr>as_in_use := True\<rparr>"
  obtain c sh1 m w where run: "run_agent_stateful D ?op ?sh (h_mem f) (h_world f) = (c, sh1, m, w)"
    by (metis prod.collapse)
  define g where "g = f\<lparr>h_agent_states := (h_agent_states f)(s \<mapsto> sh1\<lparr>as_in_use := False\<rparr>), h_mem := m, h_world := w\<rparr>"
  have fin: "finished_call D s ?op sh f = (c, g)" by (simp add: finished_call_def run g_def)
  have call: "opaque_agent_finish D a s sk n ek k f = Some (c, g)"
    unfolding fin [symmetric] by (rule opaque_agent_finish_eq) (use assms in simp_all)
  have inv: "agent_state_inv ?sh" and keys: "length (i_session_key (as_state sh)) = 64" "length (i_export_key (as_state sh)) = 32"
    using assms(7) by (simp_all add: agent_state_inv_def initiator_inv_def initiator_wf_def)
  have fail: "c \<noteq> 0 \<Longrightarrow> i_phase (as_state sh1) = IFinished \<and> initiator_wiped (as_state sh1) \<and> m = h_mem f"
    using agent_call_effect_failure [OF finished_call_effect [OF assms(1,7) agent_finish_sound [OF assms(1)]
        finish_writes_only fin]] by (auto simp: g_def)
  have apart: "window sk 64 \<inter> window ek 32 = {}" using disjoint_windows [of sk 64 ek 32] assms(13) by simp
  show ?thesis
    using agent_finish_run [OF assms(1) inv run] fail call keys read_after_write [of "i_session_key (as_state sh)"]
      read_after_write [of "i_export_key (as_state sh)"] read_disjoint_write [of sk 64 ek] apart
    by (intro exI [of _ c] exI [of _ g] exI [of _ "sh1\<lparr>as_in_use := False\<rparr>"]) (auto simp: g_def)
qed

theorem agent_finish_delivers_witness:
  "\<exists>c g sh'. opaque_agent_finish sample 24 16 100 64 200 32
       (sample_slot_heap\<lparr>h_agents := [24 \<mapsto> sample_agent], h_agent_states := [16 \<mapsto> sample_established]\<rparr>) = Some (c, g) \<and>
     h_agent_states g 16 = Some sh' \<and> initiator_wiped (as_state sh') \<and> c = 0 \<and>
     read_bytes (h_mem g) 100 64 = replicate 64 1"
  using agent_finish_delivers [OF sample_laws,
      of "sample_slot_heap\<lparr>h_agents := [24 \<mapsto> sample_agent], h_agent_states := [16 \<mapsto> sample_established]\<rparr>"
        24 sample_agent 16 sample_established 100 64 200 32] sample_established_inv
  by (auto simp: sample_agent_def sample_established_def ranges_overlap_def checked_add_def zeros_def)

text \<open>
  While one call holds a session, no other is admitted to it: every call on that session is
  refused with \<open>-100\<close>, or \<open>-1\<close> if an argument is refused first, its destruction is
  refused with \<open>-100\<close>, and neither changes anything.
\<close>

lemma agent_session_exclusive:
  assumes "acquire_agent_state f s = Some (Ok (sh, f'))"
  shows "acquire_agent_state f' s = Some (Err Busy) \<and>
     (agent_session_call D a s A f' c g \<longrightarrow> g = f' \<and> c \<in> {-1, -100}) \<and>
     (p \<noteq> 0 \<and> read_ptr (h_mem f') p = s \<longrightarrow> opaque_agent_state_try_destroy D p f' = Some (-100, f'))"
proof -
  have ex: "acquire_agent_state f' s = Some (Err Busy)" using assms by (rule agent_state_handles.exclusive)
  then obtain x where x: "s \<noteq> 0" "h_agent_states f' s = Some x" "as_in_use x"
    by (auto simp: acquire_agent_state_def Let_def split: if_splits option.splits)
  have refused: "agent_call D a s operation f' = Some (c, g) \<Longrightarrow> g = f' \<and> c \<in> {-1, -100}" for operation
    using x by (auto simp: agent_call_eq split: if_splits option.splits)
  have "g = f' \<and> c \<in> {-1, -100}" if call: "agent_session_call D a s A f' c g"
    using call by (cases; use refused in \<open>auto simp: opaque_agent_create_registration_request_def
        opaque_agent_finalize_registration_def opaque_agent_generate_ke1_def opaque_agent_generate_ke3_def
        opaque_agent_finish_def split: if_splits\<close>)
  with ex x show ?thesis by (auto simp: opaque_agent_state_try_destroy_def FFI_BUSY_def)
qed

end
