(* ===== verification/Handle_Threads.thy ===== *)
theory Handle_Threads
  imports Session_Machine
begin

text \<open>
  Ownership of handles by threads, for one kind of handle: who holds a busy box, and what one
  step of one thread does to it. Both libraries use it for each kind of handle they have.
  One fact on runs serves the equivalence of a call's steps with the whole call.
\<close>

lemma run_unfold: "(\<exists>ls. run step x ls z) \<longleftrightarrow> x = z \<or> (\<exists>l y. step x l y \<and> (\<exists>ls. run step y ls z))"
proof
  assume "\<exists>ls. run step x ls z"
  then obtain ls where "run step x ls z" by blast
  then show "x = z \<or> (\<exists>l y. step x l y \<and> (\<exists>ls. run step y ls z))" by cases auto
qed (blast intro: run_Nil run_Cons)

text \<open>The busy boxes of one kind are those the threads hold, and no two threads hold the same.\<close>

definition owned :: "'x set \<Rightarrow> (nat \<Rightarrow> 'x option) \<Rightarrow> bool" where
  "owned B held \<longleftrightarrow> (\<forall>a. a \<in> B \<longleftrightarrow> (\<exists>u. held u = Some a)) \<and>
     (\<forall>u v a. held u = Some a \<longrightarrow> held v = Some a \<longrightarrow> u = v)"

text \<open>
  A step in which one thread goes from holding \<open>h\<close> to holding \<open>h'\<close>: it takes only a box
  that is free, and the flags of other boxes stay.
\<close>

definition moved :: "'x set \<Rightarrow> 'x option \<Rightarrow> 'x set \<Rightarrow> 'x option \<Rightarrow> bool" where
  "moved B h B' h' \<longleftrightarrow> (\<forall>a. h \<noteq> Some a \<and> h' \<noteq> Some a \<longrightarrow> (a \<in> B' \<longleftrightarrow> a \<in> B)) \<and>
     (\<forall>a. h' = Some a \<longrightarrow> a \<in> B' \<and> (h = Some a \<or> a \<notin> B)) \<and> (\<forall>a. h = Some a \<and> h' \<noteq> Some a \<longrightarrow> a \<notin> B')"

lemma owned_other:
  assumes "owned B held" "moved B (held t) B' h" "u \<noteq> t" "held u = Some a"
  shows "held t \<noteq> Some a" "h \<noteq> Some a"
proof -
  show "held t \<noteq> Some a" using assms(1,3,4) by (auto simp: owned_def)
  then show "h \<noteq> Some a" using assms by (auto simp: owned_def moved_def)
qed

lemma owned_step:
  assumes "owned B held" "moved B (held t) B' h"
  shows "owned B' (held(t := h))"
proof -
  note other = owned_other [OF assms]
  have "a \<in> B' \<longleftrightarrow> (\<exists>u. (held(t := h)) u = Some a)" for a
  proof (cases "held t = Some a \<or> h = Some a")
    case True
    then show ?thesis using assms(2) other [of _ a] unfolding moved_def by (metis fun_upd_apply)
  next
    case False
    then have "a \<in> B' \<longleftrightarrow> a \<in> B" using assms(2) by (auto simp: moved_def)
    with False assms(1) show ?thesis unfolding owned_def by (metis fun_upd_apply)
  qed
  moreover have "u = v" if "(held(t := h)) u = Some a" "(held(t := h)) v = Some a" for u v a
    using that assms(1) other [of u a] other [of v a] unfolding owned_def by (metis fun_upd_apply)
  ultimately show ?thesis unfolding owned_def by blast
qed

end
