(* ===== verification/Agent_Threads.thy ===== *)
theory Agent_Threads
  imports Agent_Ffi Handle_Threads
begin

text \<open>
  Calls of the client's C interface from several threads. The steps of one call are those of
  \<^verbatim>\<open>agent_ffi.rs\<close>: the two compare-and-exchange operations that admit it, the closure on the
  session, and the two stores of the guards' destructors in the order in which Rust drops
  them. Steps of different threads interleave in any order. The closure is one step: it has
  the session to itself, and a program does not use a buffer in two overlapping calls.
\<close>

section \<open>The exported functions as data\<close>

text \<open>The arguments of the five calls on a session, without the two handles.\<close>

datatype agent_request =
    RequestRegistration addr addr addr addr
  | FinalizeRegistration addr addr addr addr
  | RequestKe1 addr addr addr addr addr addr
  | RequestKe3 addr addr addr addr
  | RequestFinish addr addr addr addr

fun agent_function ::
  "('s, 'p, 'ek, 'dk) deps \<Rightarrow> agent_request \<Rightarrow> addr \<Rightarrow> addr \<Rightarrow> agent_heap \<Rightarrow> (int \<times> agent_heap) option" where
  "agent_function D (RequestRegistration key n out len) a s f = opaque_agent_create_registration_request D a key n s out len f"
| "agent_function D (FinalizeRegistration resp n out len) a s f = opaque_agent_finalize_registration D a resp n s out len f"
| "agent_function D (RequestKe1 key n acc an out len) a s f = opaque_agent_generate_ke1 D a key n acc an s out len f"
| "agent_function D (RequestKe3 ke2 n out len) a s f = opaque_agent_generate_ke3 D a ke2 n s out len f"
| "agent_function D (RequestFinish sk n ek k) a s f = opaque_agent_finish D a s sk n ek k f"

text \<open>The closure a call runs once its arguments are accepted.\<close>

fun agent_closure :: "('s, 'p, 'ek, 'dk) deps \<Rightarrow> agent_request \<Rightarrow> (AgentHandle \<Rightarrow> agent_op) option" where
  "agent_closure D (RequestRegistration key n out len) =
     (if \<not> (1 \<le> unat n \<and> unat n \<le> MAX_SECURE_KEY_LENGTH) then None
      else if key = 0 \<or> out = 0 \<or> unat len < REGISTRATION_REQUEST_WIRE_LENGTH
         \<or> ranges_overlap key n out (of_nat REGISTRATION_REQUEST_WIRE_LENGTH) then None
      else Some (\<lambda>_. registration_request_op D key n out))"
| "agent_closure D (FinalizeRegistration resp n out len) =
     (if resp = 0 \<or> unat n \<noteq> REGISTRATION_RESPONSE_WIRE_LENGTH \<or> out = 0 \<or> unat len < REGISTRATION_RECORD_LENGTH
         \<or> ranges_overlap resp n out (of_nat REGISTRATION_RECORD_LENGTH) then None
      else Some (finalize_registration_op D resp n out))"
| "agent_closure D (RequestKe1 key n acc an out len) =
     (if \<not> (1 \<le> unat n \<and> unat n \<le> MAX_SECURE_KEY_LENGTH) then None
      else if key = 0 \<or> acc = 0 \<or> an = 0 \<or> MAX_ACCOUNT_ID_LENGTH < unat an \<or> out = 0 \<or> unat len < KE1_LENGTH
         \<or> ranges_overlap key n out (of_nat KE1_LENGTH) \<or> ranges_overlap acc an out (of_nat KE1_LENGTH) then None
      else Some (\<lambda>_. generate_ke1_op D key n acc an out))"
| "agent_closure D (RequestKe3 ke2 n out len) =
     (if ke2 = 0 \<or> unat n \<noteq> KE2_LENGTH \<or> out = 0 \<or> unat len < KE3_LENGTH
         \<or> ranges_overlap ke2 n out (of_nat KE3_LENGTH) then None
      else Some (generate_ke3_op D ke2 n out))"
| "agent_closure D (RequestFinish sk n ek k) =
     (if sk = 0 \<or> unat n < HASH_LENGTH \<or> ek = 0 \<or> unat k < EXPORT_KEY_LENGTH
         \<or> ranges_overlap sk (of_nat HASH_LENGTH) ek (of_nat EXPORT_KEY_LENGTH) then None
      else Some (\<lambda>_. agent_finish_op D sk ek))"

lemma agent_function_eq:
  "agent_function D req a s f =
     (case agent_closure D req of None \<Rightarrow> Some (-1, f) | Some operation \<Rightarrow> agent_call D a s operation f)"
  by (cases req) (simp_all add: opaque_agent_create_registration_request_def opaque_agent_finalize_registration_def
      opaque_agent_generate_ke1_def opaque_agent_generate_ke3_def opaque_agent_finish_def)

lemma agent_function_api: "agent_function D req a s f = Some (c, g) \<Longrightarrow> agent_api D f (Some c) g"
  by (cases req) (auto intro: api_session agent_session_call.intros)

text \<open>No closure touches the flag of the session it runs on.\<close>

lemma closure_keeps_flag:
  "agent_closure D req = Some operation \<Longrightarrow> leaves (operation ah sh m w) (\<lambda>_ t. as_in_use (fst t) = as_in_use sh)"
  by (cases req) (auto simp: registration_request_op_def finalize_registration_op_def generate_ke1_op_def
      generate_ke3_op_def agent_finish_op_def Let_def split: if_splits intro!: leaves_rules)

lemma agent_closure_flag:
  assumes "agent_closure D req = Some operation"
  shows "as_in_use (fst (snd (operation ah sh m w))) = as_in_use sh"
  using closure_keeps_flag [OF assms, of ah sh m w] by (simp add: leaves_def)

lemma run_agent_stateful_flag:
  assumes "agent_closure D req = Some operation" "run_agent_stateful D (operation ah) sh m w = (c, sh', m', w')"
  shows "as_in_use sh' = as_in_use sh"
  using agent_closure_flag [OF assms(1), of ah sh m w] assms(2)
  by (auto simp: run_agent_stateful_def invalidate_agent_state_def Let_def split: prod.splits result.splits)

section \<open>The steps of a call\<close>

text \<open>Where a thread is: what its call has been admitted to, and the code it will return.\<close>

datatype agent_pc =
    Resting
  | Called addr addr agent_request
  | HoldsAgent addr addr "AgentHandle \<Rightarrow> agent_op" AgentHandle
  | HoldsBoth addr addr "AgentHandle \<Rightarrow> agent_op" AgentHandle AgentStateHandle
  | Executed addr addr int
  | StateReleased addr int
  | Returned int

text \<open>The label of a step is the code of the call that took effect in it, if any did.\<close>

inductive agent_thread ::
  "('s, 'p, 'ek, 'dk) deps \<Rightarrow> agent_pc \<Rightarrow> agent_heap \<Rightarrow> int option list \<Rightarrow> agent_pc \<Rightarrow> agent_heap \<Rightarrow> bool"
  for D :: "('s, 'p, 'ek, 'dk) deps" where
  thread_reject: "agent_closure D req = None \<Longrightarrow> agent_thread D (Called a s req) f [] (Returned (-1)) f"
| thread_agent: "agent_closure D req = Some operation \<Longrightarrow> acquire_agent f a = Some (Ok (ah, g)) \<Longrightarrow>
     agent_thread D (Called a s req) f [] (HoldsAgent a s operation ah) g"
| thread_agent_refused: "agent_closure D req = Some operation \<Longrightarrow> acquire_agent f a = Some (Err e) \<Longrightarrow>
     agent_thread D (Called a s req) f [] (Returned (handle_access_to_int e)) f"
| thread_state: "acquire_agent_state f s = Some (Ok (sh, g)) \<Longrightarrow>
     agent_thread D (HoldsAgent a s operation ah) f [] (HoldsBoth a s operation ah sh) g"
| thread_state_refused: "acquire_agent_state f s = Some (Err e) \<Longrightarrow>
     agent_thread D (HoldsAgent a s operation ah) f [] (StateReleased a (handle_access_to_int e)) f"
| thread_execute: "run_agent_stateful D (operation ah) sh (h_mem f) (h_world f) = (c, sh', m, w) \<Longrightarrow>
     agent_thread D (HoldsBoth a s operation ah sh) f [Some c] (Executed a s c)
       (f\<lparr>h_agent_states := (h_agent_states f)(s \<mapsto> sh'), h_mem := m, h_world := w\<rparr>)"
| thread_release_state: "agent_thread D (Executed a s c) f [] (StateReleased a c) (release_agent_state s f)"
| thread_release_agent: "agent_thread D (StateReleased a c) f [] (Returned c) (release_agent a f)"

inductive_cases agent_thread_E: "agent_thread D p f l q g"

section \<open>Interleavings\<close>

text \<open>
  What else happens in the process: the program writes its memory, creates handles, and
  destroys handles that no call is using.
\<close>

inductive agent_extern :: "('s, 'p, 'ek, 'dk) deps \<Rightarrow> agent_heap \<Rightarrow> int option \<Rightarrow> agent_heap \<Rightarrow> bool"
  for D :: "('s, 'p, 'ek, 'dk) deps" where
  extern_memory: "agent_extern D f None (f\<lparr>h_mem := m\<rparr>)"
| extern_create: "box \<noteq> 0 \<Longrightarrow> h_agents f box = None \<Longrightarrow>
     opaque_agent_create D key n out box f = Some (c, g) \<Longrightarrow> agent_extern D f (Some c) g"
| extern_destroy: "opaque_agent_try_destroy D p f = Some (c, g) \<Longrightarrow> c \<noteq> FFI_BUSY \<Longrightarrow> agent_extern D f (Some c) g"
| extern_state_create: "box \<noteq> 0 \<Longrightarrow> h_agent_states f box = None \<Longrightarrow>
     opaque_agent_state_create out box f = Some (c, g) \<Longrightarrow> agent_extern D f (Some c) g"
| extern_state_destroy: "opaque_agent_state_try_destroy D p f = Some (c, g) \<Longrightarrow> c \<noteq> FFI_BUSY \<Longrightarrow>
     agent_extern D f (Some c) g"

text \<open>The handles a thread is working with.\<close>

fun named_agent :: "agent_pc \<Rightarrow> addr option" where
  "named_agent (Called a s req) = Some a"
| "named_agent (HoldsAgent a s operation ah) = Some a"
| "named_agent (HoldsBoth a s operation ah sh) = Some a"
| "named_agent (Executed a s c) = Some a"
| "named_agent (StateReleased a c) = Some a"
| "named_agent p = None"

fun named_state :: "agent_pc \<Rightarrow> addr option" where
  "named_state (Called a s req) = Some s"
| "named_state (HoldsAgent a s operation ah) = Some s"
| "named_state (HoldsBoth a s operation ah sh) = Some s"
| "named_state (Executed a s c) = Some s"
| "named_state p = None"

definition usable_agent :: "agent_heap \<Rightarrow> addr \<Rightarrow> bool" where
  "usable_agent f a \<longleftrightarrow> a = 0 \<or> h_agents f a \<noteq> None"

definition usable_state :: "agent_heap \<Rightarrow> addr \<Rightarrow> bool" where
  "usable_state f s \<longleftrightarrow> s = 0 \<or> h_agent_states f s \<noteq> None"

definition resting :: "agent_pc \<Rightarrow> bool" where
  "resting p \<longleftrightarrow> p = Resting \<or> (\<exists>c. p = Returned c)"

text \<open>
  Steps of the whole process. Handles passed to a call are null or live, and a handle is not
  destroyed while a call through it is under way: the contract the header of the library
  states. A destruction that finds its handle busy is refused.
\<close>

inductive agent_system ::
  "('s, 'p, 'ek, 'dk) deps \<Rightarrow> agent_heap \<times> (nat \<Rightarrow> agent_pc) \<Rightarrow> int option list \<Rightarrow> agent_heap \<times> (nat \<Rightarrow> agent_pc) \<Rightarrow> bool"
  for D :: "('s, 'p, 'ek, 'dk) deps" where
  system_invoke: "resting (P t) \<Longrightarrow> usable_agent f a \<Longrightarrow> usable_state f s \<Longrightarrow>
     agent_system D (f, P) [] (f, P(t := Called a s req))"
| system_thread: "agent_thread D (P t) f l p g \<Longrightarrow> agent_system D (f, P) l (g, P(t := p))"
| system_extern: "agent_extern D f c g \<Longrightarrow>
     (\<And>t a. named_agent (P t) = Some a \<Longrightarrow> usable_agent f a \<Longrightarrow> usable_agent g a) \<Longrightarrow>
     (\<And>t s. named_state (P t) = Some s \<Longrightarrow> usable_state f s \<Longrightarrow> usable_state g s) \<Longrightarrow>
     agent_system D (f, P) [c] (g, P)"
| system_refused: "opaque_agent_try_destroy D p f = Some (FFI_BUSY, g) \<or>
     opaque_agent_state_try_destroy D p f = Some (FFI_BUSY, g) \<Longrightarrow> agent_system D (f, P) [] (g, P)"

section \<open>Ownership of handles\<close>

fun held_agent :: "agent_pc \<Rightarrow> addr option" where
  "held_agent (HoldsAgent a s operation ah) = Some a"
| "held_agent (HoldsBoth a s operation ah sh) = Some a"
| "held_agent (Executed a s c) = Some a"
| "held_agent (StateReleased a c) = Some a"
| "held_agent p = None"

fun held_state :: "agent_pc \<Rightarrow> addr option" where
  "held_state (HoldsBoth a s operation ah sh) = Some s"
| "held_state (Executed a s c) = Some s"
| "held_state p = None"

definition busy_agents :: "agent_heap \<Rightarrow> addr set" where
  "busy_agents f = {a. \<exists>ah. h_agents f a = Some ah \<and> ah_in_use ah}"

definition busy_states :: "agent_heap \<Rightarrow> addr set" where
  "busy_states f = {s. \<exists>sh. h_agent_states f s = Some sh \<and> as_in_use sh}"

text \<open>What a thread knows of the boxes it holds and of the handles it was given.\<close>

fun pc_ok :: "('s, 'p, 'ek, 'dk) deps \<Rightarrow> agent_heap \<Rightarrow> agent_pc \<Rightarrow> bool" where
  "pc_ok D f (Called a s req) \<longleftrightarrow> usable_agent f a \<and> usable_state f s"
| "pc_ok D f (HoldsAgent a s operation ah) \<longleftrightarrow> a \<noteq> 0 \<and> h_agents f a = Some ah \<and> usable_state f s \<and>
     (\<exists>req. agent_closure D req = Some operation)"
| "pc_ok D f (HoldsBoth a s operation ah sh) \<longleftrightarrow> a \<noteq> 0 \<and> s \<noteq> 0 \<and> h_agents f a = Some ah \<and>
     h_agent_states f s = Some sh \<and> (\<exists>req. agent_closure D req = Some operation)"
| "pc_ok D f p \<longleftrightarrow> True"

definition system_inv :: "('s, 'p, 'ek, 'dk) deps \<Rightarrow> agent_heap \<Rightarrow> (nat \<Rightarrow> agent_pc) \<Rightarrow> bool" where
  "system_inv D f P \<longleftrightarrow> (\<forall>t. pc_ok D f (P t)) \<and>
     owned (busy_agents f) (\<lambda>t. held_agent (P t)) \<and> owned (busy_states f) (\<lambda>t. held_state (P t))"

text \<open>What a thread knows survives steps that leave alone the boxes it holds.\<close>

lemma pc_ok_frame:
  assumes "pc_ok D f p"
    and "\<And>a. held_agent p = Some a \<Longrightarrow> h_agents g a = h_agents f a"
    and "\<And>s. held_state p = Some s \<Longrightarrow> h_agent_states g s = h_agent_states f s"
    and "\<And>a. named_agent p = Some a \<Longrightarrow> usable_agent f a \<Longrightarrow> usable_agent g a"
    and "\<And>s. named_state p = Some s \<Longrightarrow> usable_state f s \<Longrightarrow> usable_state g s"
  shows "pc_ok D g p"
  using assms by (cases p) auto

lemma acquire_agent_Ok:
  "acquire_agent f a = Some (Ok (ah, g)) \<longleftrightarrow> (\<exists>x. a \<noteq> 0 \<and> h_agents f a = Some x \<and> \<not> ah_in_use x \<and>
     ah = x\<lparr>ah_in_use := True\<rparr> \<and> g = f\<lparr>h_agents := (h_agents f)(a \<mapsto> ah)\<rparr>)"
  by (auto simp: acquire_agent_def Let_def split: option.splits)

lemma acquire_agent_state_Ok:
  "acquire_agent_state f s = Some (Ok (sh, g)) \<longleftrightarrow> (\<exists>x. s \<noteq> 0 \<and> h_agent_states f s = Some x \<and> \<not> as_in_use x \<and>
     sh = x\<lparr>as_in_use := True\<rparr> \<and> g = f\<lparr>h_agent_states := (h_agent_states f)(s \<mapsto> sh)\<rparr>)"
  by (auto simp: acquire_agent_state_def Let_def split: option.splits)

text \<open>One step of a thread: it changes only boxes it holds or takes.\<close>

definition thread_effect :: "('s, 'p, 'ek, 'dk) deps \<Rightarrow> agent_pc \<Rightarrow> agent_heap \<Rightarrow> agent_pc \<Rightarrow> agent_heap \<Rightarrow> bool" where
  "thread_effect D p f q g \<longleftrightarrow> pc_ok D g q \<and>
     (\<forall>a. held_agent p \<noteq> Some a \<and> held_agent q \<noteq> Some a \<longrightarrow> h_agents g a = h_agents f a) \<and>
     (\<forall>s. held_state p \<noteq> Some s \<and> held_state q \<noteq> Some s \<longrightarrow> h_agent_states g s = h_agent_states f s) \<and>
     (\<forall>a. usable_agent g a \<longleftrightarrow> usable_agent f a) \<and> (\<forall>s. usable_state g s \<longleftrightarrow> usable_state f s) \<and>
     moved (busy_agents f) (held_agent p) (busy_agents g) (held_agent q) \<and>
     moved (busy_states f) (held_state p) (busy_states g) (held_state q)"

lemma agent_thread_effect:
  assumes "agent_thread D p f l q g" "pc_ok D f p"
    and "\<And>a. held_agent p = Some a \<Longrightarrow> a \<in> busy_agents f" "\<And>s. held_state p = Some s \<Longrightarrow> s \<in> busy_states f"
  shows "thread_effect D p f q g"
  using assms
proof cases
  case (thread_execute operation ah sh c sh' m w a s)
  then have "as_in_use sh' = as_in_use sh" using assms(2) run_agent_stateful_flag by fastforce
  then show ?thesis using thread_execute assms(2-4)
    by (auto simp: thread_effect_def moved_def busy_agents_def busy_states_def usable_agent_def usable_state_def)
qed (auto simp: thread_effect_def moved_def busy_agents_def busy_states_def usable_agent_def usable_state_def
    acquire_agent_Ok acquire_agent_state_Ok release_agent_def release_agent_state_def split: if_splits)

lemma system_thread_inv:
  assumes inv: "system_inv D f P" and step: "agent_thread D (P t) f l p g"
  shows "system_inv D g (P(t := p))"
proof -
  have own: "owned (busy_agents f) (\<lambda>t. held_agent (P t))" "owned (busy_states f) (\<lambda>t. held_state (P t))"
    using inv by (simp_all add: system_inv_def)
  have eff: "thread_effect D (P t) f p g"
    by (rule agent_thread_effect [OF step]) (use inv own in \<open>auto simp: system_inv_def owned_def\<close>)
  then have move: "moved (busy_agents f) (held_agent (P t)) (busy_agents g) (held_agent p)"
    "moved (busy_states f) (held_state (P t)) (busy_states g) (held_state p)" by (simp_all add: thread_effect_def)
  have upd: "(\<lambda>u. held_agent ((P(t := p)) u)) = (\<lambda>u. held_agent (P u))(t := held_agent p)"
    "(\<lambda>u. held_state ((P(t := p)) u)) = (\<lambda>u. held_state (P u))(t := held_state p)" by auto
  have "pc_ok D g (P u)" if "u \<noteq> t" for u
    by (rule pc_ok_frame [of D f "P u" g])
      (use inv eff owned_other [OF own(1) move(1) that] owned_other [OF own(2) move(2) that] in
        \<open>auto simp: system_inv_def thread_effect_def\<close>)
  moreover have "pc_ok D g p" using eff by (simp add: thread_effect_def)
  ultimately show ?thesis
    unfolding system_inv_def upd using owned_step [OF own(1) move(1)] owned_step [OF own(2) move(2)] by simp
qed

text \<open>What the rest of the program does leaves busy boxes alone and makes no box busy.\<close>

lemma agent_extern_frame:
  assumes "agent_extern D f c g"
  shows "a \<in> busy_agents f \<Longrightarrow> h_agents g a = h_agents f a" "s \<in> busy_states f \<Longrightarrow> h_agent_states g s = h_agent_states f s"
    "busy_agents g = busy_agents f" "busy_states g = busy_states f"
  using assms
  by (auto elim!: agent_extern.cases simp: busy_agents_def busy_states_def opaque_agent_create_def
      opaque_agent_try_destroy_def opaque_agent_state_create_def opaque_agent_state_try_destroy_def Let_def
      split: if_splits option.splits result.splits prod.splits)

lemma system_extern_inv:
  assumes inv: "system_inv D f P" and ext: "agent_extern D f c g"
    and "\<And>t a. named_agent (P t) = Some a \<Longrightarrow> usable_agent f a \<Longrightarrow> usable_agent g a"
    and "\<And>t s. named_state (P t) = Some s \<Longrightarrow> usable_state f s \<Longrightarrow> usable_state g s"
  shows "system_inv D g P"
proof -
  note ext = agent_extern_frame [OF ext]
  have "pc_ok D g (P t)" for t
    by (rule pc_ok_frame [of D f "P t" g]) (use inv ext assms(3,4) in \<open>auto simp: system_inv_def owned_def\<close>)
  then show ?thesis using inv ext(3,4) by (simp add: system_inv_def)
qed

lemma refused_destroy:
  "opaque_agent_try_destroy D p f = Some (FFI_BUSY, g) \<or> opaque_agent_state_try_destroy D p f = Some (FFI_BUSY, g) \<Longrightarrow> g = f"
  by (auto simp: opaque_agent_try_destroy_def opaque_agent_state_try_destroy_def Let_def FFI_BUSY_def
      split: if_splits option.splits)

lemma agent_system_inv:
  assumes "system_inv D f P" "agent_system D (f, P) l (g, Q)"
  shows "system_inv D g Q"
  using assms(2)
proof cases
  case (system_invoke t a s req)
  then have "(\<lambda>u. held_agent (Q u)) = (\<lambda>u. held_agent (P u))" "(\<lambda>u. held_state (Q u)) = (\<lambda>u. held_state (P u))"
    by (auto simp: resting_def)
  then show ?thesis using assms(1) system_invoke unfolding system_inv_def by simp
next
  case (system_thread t p)
  then show ?thesis using system_thread_inv [OF assms(1)] by simp
next
  case (system_extern c)
  then show ?thesis using system_extern_inv [OF assms(1)] by blast
next
  case (system_refused p)
  then show ?thesis using refused_destroy [of D p f g] assms(1) by simp
qed

section \<open>Linearization\<close>

text \<open>The heap as it would be with no call under way.\<close>

definition quieted :: "agent_heap \<Rightarrow> agent_heap" where
  "quieted f = f\<lparr>h_agents := (\<lambda>a. map_option (\<lambda>ah. ah\<lparr>ah_in_use := False\<rparr>) (h_agents f a)),
     h_agent_states := (\<lambda>s. map_option (\<lambda>sh. sh\<lparr>as_in_use := False\<rparr>) (h_agent_states f s))\<rparr>"

lemma quieted_simps [simp]:
  "h_mem (quieted f) = h_mem f" "h_world (quieted f) = h_world f"
  "h_agents (quieted f) a = map_option (\<lambda>ah. ah\<lparr>ah_in_use := False\<rparr>) (h_agents f a)"
  "h_agent_states (quieted f) s = map_option (\<lambda>sh. sh\<lparr>as_in_use := False\<rparr>) (h_agent_states f s)"
  by (simp_all add: quieted_def)

lemma quieted_idle: "busy_agents f = {} \<Longrightarrow> busy_states f = {} \<Longrightarrow> quieted f = f"
proof -
  assume idle: "busy_agents f = {}" "busy_states f = {}"
  have "map_option (\<lambda>ah. ah\<lparr>ah_in_use := False\<rparr>) (h_agents f a) = h_agents f a" for a
    using idle(1) by (cases "h_agents f a") (auto simp: busy_agents_def)
  moreover have "map_option (\<lambda>sh. sh\<lparr>as_in_use := False\<rparr>) (h_agent_states f s) = h_agent_states f s" for s
    using idle(2) by (cases "h_agent_states f s") (auto simp: busy_states_def)
  ultimately show ?thesis by (simp add: quieted_def)
qed

text \<open>Taking and releasing a handle is not visible there.\<close>

lemma quieted_flags:
  "acquire_agent f a = Some (Ok (ah, g)) \<Longrightarrow> quieted g = quieted f"
  "acquire_agent_state f s = Some (Ok (sh, g)) \<Longrightarrow> quieted g = quieted f"
  "quieted (release_agent a f) = quieted f" "quieted (release_agent_state s f) = quieted f"
  by (auto simp: quieted_def acquire_agent_Ok acquire_agent_state_Ok release_agent_def release_agent_state_def
      fun_eq_iff option.map_comp comp_def)

text \<open>The closure takes effect as the whole call would on the quiet heap.\<close>

lemma execute_linearizes:
  assumes "a \<noteq> 0" "s \<noteq> 0" "h_agents f a = Some ah" "ah_in_use ah" "h_agent_states f s = Some sh" "as_in_use sh"
    and "run_agent_stateful D (operation ah) sh (h_mem f) (h_world f) = (c, sh', m, w)"
  shows "agent_call D a s operation (quieted f) =
     Some (c, quieted (f\<lparr>h_agent_states := (h_agent_states f)(s \<mapsto> sh'), h_mem := m, h_world := w\<rparr>))"
proof -
  have flags: "ah\<lparr>ah_in_use := True\<rparr> = ah" "sh\<lparr>as_in_use := True\<rparr> = sh" using assms(4,6) by simp_all
  have "quieted (f\<lparr>h_agent_states := (h_agent_states f)(s \<mapsto> sh'), h_mem := m, h_world := w\<rparr>) =
      (quieted f)\<lparr>h_agent_states := (h_agent_states (quieted f))(s \<mapsto> sh'\<lparr>as_in_use := False\<rparr>), h_mem := m, h_world := w\<rparr>"
    by (simp add: quieted_def fun_upd_def fun_eq_iff)
  with assms show ?thesis by (simp add: agent_call_eq finished_call_def flags)
qed

lemma thread_linearizes:
  assumes "agent_thread D p f l q g" "pc_ok D f p"
    and "\<And>a. held_agent p = Some a \<Longrightarrow> a \<in> busy_agents f" "\<And>s. held_state p = Some s \<Longrightarrow> s \<in> busy_states f"
  shows "run (agent_api D) (quieted f) l (quieted g)"
  using assms
proof cases
  case (thread_execute operation ah sh c sh' m w a s)
  then obtain req where req: "agent_closure D req = Some operation" "a \<noteq> 0" "s \<noteq> 0" "h_agents f a = Some ah"
    "h_agent_states f s = Some sh" using assms(2) by auto
  have "ah_in_use ah" "as_in_use sh" using req assms(3,4) thread_execute by (auto simp: busy_agents_def busy_states_def)
  then have "agent_function D req a s (quieted f) = Some (c, quieted g)"
    using execute_linearizes req thread_execute by (simp add: agent_function_eq)
  then show ?thesis using agent_function_api thread_execute by (fastforce simp: run_Cons_iff)
qed (auto dest: quieted_flags(1,2) simp: quieted_flags(3,4))

lemma extern_linearizes:
  assumes "agent_extern D f c g"
  shows "agent_api D (quieted f) c (quieted g)"
  using assms
proof cases
  case (extern_memory m)
  have "quieted (f\<lparr>h_mem := m\<rparr>) = (quieted f)\<lparr>h_mem := m\<rparr>" by (simp add: quieted_def)
  then show ?thesis using extern_memory api_memory by simp
next
  case (extern_create box key n out k)
  then have "opaque_agent_create D key n out box (quieted f) = Some (k, quieted g)"
    by (auto simp: opaque_agent_create_def Let_def quieted_def fun_eq_iff split: if_splits result.splits)
  then show ?thesis using extern_create by (auto intro: api_create)
next
  case (extern_destroy p k)
  then have "opaque_agent_try_destroy D p (quieted f) = Some (k, quieted g)"
    by (auto simp: opaque_agent_try_destroy_def Let_def quieted_def fun_eq_iff split: if_splits option.splits)
  then show ?thesis using extern_destroy by (auto intro: api_destroy)
next
  case (extern_state_create box out k)
  then have "opaque_agent_state_create out box (quieted f) = Some (k, quieted g)"
    by (auto simp: opaque_agent_state_create_def Let_def quieted_def fun_eq_iff split: if_splits prod.splits)
  then show ?thesis using extern_state_create by (auto intro: api_state_create)
next
  case (extern_state_destroy p k)
  then have "opaque_agent_state_try_destroy D p (quieted f) = Some (k, quieted g)"
    by (auto simp: opaque_agent_state_try_destroy_def Let_def quieted_def fun_eq_iff split: if_splits option.splits)
  then show ?thesis using extern_state_destroy by (auto intro: api_state_destroy)
qed

lemma system_linearizes:
  assumes "system_inv D f P" "agent_system D (f, P) l (g, Q)"
  shows "run (agent_api D) (quieted f) l (quieted g)"
  using assms(2)
proof cases
  case (system_thread t p)
  show ?thesis
    by (rule thread_linearizes [of D "P t" f l p g]) (use system_thread assms(1) in \<open>auto simp: system_inv_def owned_def\<close>)
next
  case (system_extern c)
  then show ?thesis using extern_linearizes by (auto simp: run_Cons_iff)
qed (use refused_destroy [of D _ f g] in auto)

lemma run_linearizes:
  "run (agent_system D) X ls Y \<Longrightarrow> system_inv D (fst X) (snd X) \<Longrightarrow>
     run (agent_api D) (quieted (fst X)) (concat ls) (quieted (fst Y)) \<and> system_inv D (fst Y) (snd Y)"
proof (induction rule: run.induct)
  case (run_Cons X l Y ls Z)
  obtain f P g Q where XY: "X = (f, P)" "Y = (g, Q)" by fastforce
  have "run (agent_api D) (quieted f) l (quieted g)" "system_inv D g Q"
    using run_Cons(1,4) system_linearizes agent_system_inv by (simp_all add: XY)
  then show ?case using run_Cons.IH by (auto simp: XY intro: run_append)
qed simp

section \<open>Every call ends\<close>

fun steps_left :: "agent_pc \<Rightarrow> nat" where
  "steps_left (Called a s req) = 5"
| "steps_left (HoldsAgent a s operation ah) = 4"
| "steps_left (HoldsBoth a s operation ah sh) = 3"
| "steps_left (Executed a s c) = 2"
| "steps_left (StateReleased a c) = 1"
| "steps_left p = 0"

lemma thread_steps_left: "agent_thread D p f l q g \<Longrightarrow> steps_left q < steps_left p"
  by (erule agent_thread_E) auto

lemma steps_left_resting: "steps_left p = 0 \<longleftrightarrow> resting p"
  by (cases p) (auto simp: resting_def)

lemma resting_holds: "resting p \<Longrightarrow> held_agent p = None \<and> held_state p = None"
  by (auto simp: resting_def)

lemma acquire_cases:
  "usable_agent f a \<Longrightarrow> (\<exists>ah g. acquire_agent f a = Some (Ok (ah, g))) \<or> (\<exists>e. acquire_agent f a = Some (Err e))"
  "usable_state f s \<Longrightarrow> (\<exists>sh g. acquire_agent_state f s = Some (Ok (sh, g))) \<or> (\<exists>e. acquire_agent_state f s = Some (Err e))"
  by (auto simp: acquire_agent_def acquire_agent_state_def usable_agent_def usable_state_def Let_def)

lemma thread_progress:
  assumes "pc_ok D f p" "\<not> resting p"
  shows "\<exists>l q g. agent_thread D p f l q g"
proof (cases p)
  case (Called a s req)
  show ?thesis
  proof (cases "agent_closure D req")
    case (Some operation)
    show ?thesis
      using acquire_cases(1) [of f a] assms Called thread_agent [OF Some] thread_agent_refused [OF Some]
      by (metis pc_ok.simps(1))
  qed (use Called thread_reject in blast)
next
  case (HoldsAgent a s operation ah)
  show ?thesis
    using acquire_cases(2) [of f s] assms HoldsAgent thread_state thread_state_refused by (metis pc_ok.simps(2))
next
  case (HoldsBoth a s operation ah sh)
  obtain c sh' m w where "run_agent_stateful D (operation ah) sh (h_mem f) (h_world f) = (c, sh', m, w)"
    by (metis prod.collapse)
  then show ?thesis using HoldsBoth thread_execute by blast
qed (use assms thread_release_state thread_release_agent in \<open>auto simp: resting_def; blast\<close>)+

text \<open>Left to run alone, a thread finishes its call.\<close>

lemma thread_finishes:
  "system_inv D f P \<Longrightarrow>
     \<exists>ls g p. run (agent_system D) (f, P) ls (g, P(t := p)) \<and> resting p \<and> length ls \<le> steps_left (P t)"
proof (induction "steps_left (P t)" arbitrary: f P rule: less_induct)
  case less
  show ?case
  proof (cases "resting (P t)")
    case True
    then show ?thesis using run_Nil [of "agent_system D" "(f, P)"] by (metis fun_upd_triv le0 list.size(3))
  next
    case False
    then obtain l q g where step: "agent_thread D (P t) f l q g"
      using thread_progress [of D f "P t"] less.prems by (auto simp: system_inv_def)
    have inv: "system_inv D g (P(t := q))" by (rule system_thread_inv [OF less.prems step])
    have "steps_left ((P(t := q)) t) < steps_left (P t)" using thread_steps_left [OF step] by simp
    from less.hyps [OF this inv] obtain ls h p where rest: "run (agent_system D) (g, P(t := q)) ls (h, P(t := p))"
      "resting p" "length ls \<le> steps_left q" by auto
    have "run (agent_system D) (f, P) (l # ls) (h, P(t := p))"
      using system_thread [of D P t, OF step] rest(1) by (rule run_Cons)
    then show ?thesis using rest thread_steps_left [OF step] by (intro exI [of _ "l # ls"] exI [of _ h] exI [of _ p]) simp
  qed
qed

lemma system_inv_start: "system_inv D (agent_heap_new m w) (\<lambda>_. Resting)"
  by (simp add: system_inv_def owned_def busy_agents_def busy_states_def agent_heap_new_def)

lemma quieted_new [simp]: "quieted (agent_heap_new m w) = agent_heap_new m w"
  by (simp add: quieted_def agent_heap_new_def)

section \<open>One thread alone\<close>

definition alone :: "('s, 'p, 'ek, 'dk) deps \<Rightarrow> agent_pc \<times> agent_heap \<Rightarrow> int option list \<Rightarrow> agent_pc \<times> agent_heap \<Rightarrow> bool" where
  "alone D X l Y \<longleftrightarrow> agent_thread D (fst X) (snd X) l (fst Y) (snd Y)"

inductive_simps agent_thread_simps:
  "agent_thread D (Called a s req) f l q g"
  "agent_thread D (HoldsAgent a s operation ah) f l q g"
  "agent_thread D (HoldsBoth a s operation ah sh) f l q g"
  "agent_thread D (Executed a s c) f l q g"
  "agent_thread D (StateReleased a c) f l q g"
  "agent_thread D (Returned c) f l q g"

definition ends :: "('s, 'p, 'ek, 'dk) deps \<Rightarrow> agent_pc \<Rightarrow> agent_heap \<Rightarrow> int \<Rightarrow> agent_heap \<Rightarrow> bool" where
  "ends D p f c g \<longleftrightarrow> (\<exists>ls. run (alone D) (p, f) ls (Returned c, g))"

lemma ends_unfold:
  "ends D p f c g \<longleftrightarrow> p = Returned c \<and> f = g \<or> (\<exists>l q h. agent_thread D p f l q h \<and> ends D q h c g)"
  unfolding ends_def by (subst run_unfold) (auto simp: alone_def)

text \<open>From the end of a call backwards.\<close>

lemma ends_returned: "ends D (Returned k) f c g \<longleftrightarrow> k = c \<and> f = g"
  by (subst ends_unfold) (simp add: agent_thread_simps)

lemma ends_state_released:
  "ends D (StateReleased a k) f c g \<longleftrightarrow> k = c \<and> g = release_agent a f"
  by (subst ends_unfold) (auto simp: agent_thread_simps ends_returned)

lemma ends_executed:
  "ends D (Executed a s k) f c g \<longleftrightarrow> k = c \<and> g = release_agent a (release_agent_state s f)"
  by (subst ends_unfold) (auto simp: agent_thread_simps ends_state_released)

lemma ends_holds_both:
  "ends D (HoldsBoth a s operation ah sh) f c g \<longleftrightarrow>
     (case run_agent_stateful D (operation ah) sh (h_mem f) (h_world f) of (k, sh', m, w) \<Rightarrow> k = c \<and>
       g = release_agent a (release_agent_state s (f\<lparr>h_agent_states := (h_agent_states f)(s \<mapsto> sh'), h_mem := m, h_world := w\<rparr>)))"
  by (subst ends_unfold) (auto simp: agent_thread_simps ends_executed split: prod.split)

lemma ends_holds_agent:
  "ends D (HoldsAgent a s operation ah) f c g \<longleftrightarrow>
     (\<exists>h. guarded acquire_agent_state release_agent_state s f (\<lambda>sh f.
        let (code, sh, m, w) = run_agent_stateful D (operation ah) sh (h_mem f) (h_world f)
        in Some (code, f\<lparr>h_agent_states := (h_agent_states f)(s \<mapsto> sh), h_mem := m, h_world := w\<rparr>)) = Some (c, h) \<and>
      g = release_agent a h)"
  by (subst ends_unfold, cases "acquire_agent_state f s")
    (auto simp: agent_thread_simps ends_state_released ends_holds_both guarded_def acquire_agent_state_def Let_def
      split: prod.splits option.splits if_splits)

lemma ends_called: "ends D (Called a s req) f c g \<longleftrightarrow> agent_function D req a s f = Some (c, g)"
proof (cases "agent_closure D req")
  case None
  then show ?thesis by (subst ends_unfold) (auto simp: agent_thread_simps ends_returned agent_function_eq)
next
  case (Some operation)
  then show ?thesis
    by (subst ends_unfold, cases "acquire_agent f a")
      (auto simp: agent_thread_simps ends_returned ends_holds_agent agent_function_eq agent_call_def
        guarded_def [of acquire_agent] acquire_agent_def Let_def split: option.splits if_splits)
qed

section \<open>Properties\<close>

text \<open>
  A call that runs without interference does exactly what the sequential model of the
  exported function does: its steps end in a returned code and heap if and only if the
  function yields them.
\<close>

lemma lone_thread_is_the_call:
  "(\<exists>ls. run (alone D) (Called a s req, f) ls (Returned c, g)) \<longleftrightarrow> agent_function D req a s f = Some (c, g)"
  by (simp add: ends_called flip: ends_def)

text \<open>
  C9: calls of the client's C interface from any number of threads are linearizable. From a
  process with no handles, in every interleaving of the steps of calls, creations and
  permitted destructions, the heap with the flags of calls under way cleared is what a
  sequence of uninterrupted calls produces, with the codes that took effect in the order of
  the effects; no two threads hold the same handle; and once every thread has returned, no
  handle is busy. The invariants of sequential histories hold throughout.
\<close>

theorem concurrent_calls_linearize:
  assumes "deps_laws D" "run (agent_system D) (agent_heap_new m w, \<lambda>_. Resting) ls (f, P)"
  shows "run (agent_api D) (agent_heap_new m w) (concat ls) (quieted f) \<and> agent_heap_inv D (quieted f) \<and>
     (\<forall>t u a. held_agent (P t) = Some a \<and> held_agent (P u) = Some a \<longrightarrow> t = u) \<and>
     (\<forall>t u s. held_state (P t) = Some s \<and> held_state (P u) = Some s \<longrightarrow> t = u) \<and>
     ((\<forall>t. resting (P t)) \<longrightarrow> \<not> agent_heap_busy f \<and> quieted f = f)"
proof -
  note lin = run_linearizes [OF assms(2), unfolded fst_conv snd_conv, OF system_inv_start]
  have own: "owned (busy_agents f) (\<lambda>t. held_agent (P t))" "owned (busy_states f) (\<lambda>t. held_state (P t))"
    using lin by (simp_all add: system_inv_def)
  have idle: "busy_agents f = {} \<and> busy_states f = {}" if "\<forall>t. resting (P t)"
  proof -
    have "held_agent (P t) = None \<and> held_state (P t) = None" for t using that resting_holds by blast
    then show ?thesis using own by (auto simp: owned_def)
  qed
  have "agent_heap_inv D (quieted f)"
    using agent_run_inv [OF _ assms(1) agent_heap_new_inv] lin by auto
  then show ?thesis
    using lin own idle quieted_idle [of f]
    by (auto simp: owned_def agent_heap_busy_def busy_agents_def busy_states_def)
qed

text \<open>
  C17: every call ends, whatever other threads do. A thread with a call under way can always
  take its next step, each of its steps brings it closer to returning, no call takes more
  than five, and run on its own it returns within the steps it has left.
\<close>

theorem concurrent_calls_complete:
  assumes "run (agent_system D) (agent_heap_new m w, \<lambda>_. Resting) ls (f, P)"
  shows "steps_left (P t) \<le> 5 \<and>
     (\<not> resting (P t) \<longrightarrow> (\<exists>l p g. agent_thread D (P t) f l p g)) \<and>
     (\<forall>l p g. agent_thread D (P t) f l p g \<longrightarrow> steps_left p < steps_left (P t)) \<and>
     (\<exists>ls' g p. run (agent_system D) (f, P) ls' (g, P(t := p)) \<and> resting p \<and> length ls' \<le> steps_left (P t))"
proof -
  have inv: "system_inv D f P"
    using run_linearizes [OF assms, unfolded fst_conv snd_conv, OF system_inv_start] by blast
  moreover have "steps_left (P t) \<le> 5" by (cases "P t") simp_all
  ultimately show ?thesis
    using thread_progress [of D f "P t"] thread_steps_left thread_finishes [OF inv] by (auto simp: system_inv_def)
qed

section \<open>Two threads on one session\<close>

definition sample_key_memory :: memory where
  "sample_key_memory = write_bytes (\<lambda>_. 0) 1000 (z3_encode Z2)"

definition sample_finish :: agent_request where
  "sample_finish = RequestFinish 100 64 200 32"

lemma sample_contended:
  obtains ls f P where
    "run (agent_system sample) (agent_heap_new sample_key_memory sample_world, \<lambda>_. Resting) ls (f, P)"
    "P 1 = Returned (-100)" "held_agent (P 0) = Some 24"
proof -
  let ?f0 = "agent_heap_new sample_key_memory sample_world"
  let ?m = "write_ptr sample_key_memory 900 0"
  let ?f1 = "?f0\<lparr>h_agents := [24 \<mapsto> sample_agent], h_mem := write_ptr ?m 900 24\<rparr>"
  let ?sh = "\<lparr>as_state = fst (InitiatorState_new sample_world), as_ke3_exported = False, as_in_use = False\<rparr>"
  let ?f2 = "?f1\<lparr>h_world := snd (InitiatorState_new sample_world), h_agent_states := [16 \<mapsto> ?sh],
     h_mem := write_ptr (write_ptr (write_ptr ?m 900 24) 8 0) 8 16\<rparr>"
  let ?f3 = "?f2\<lparr>h_agents := [24 \<mapsto> sample_agent\<lparr>ah_in_use := True\<rparr>]\<rparr>"
  let ?op = "\<lambda>_. agent_finish_op sample 100 200"
  have apart: "\<not> ranges_overlap 1000 32 900 8" by (simp add: ranges_overlap_def checked_add_def)
  have "read_bytes ?m 1000 32 = read_bytes sample_key_memory 1000 32"
    unfolding write_ptr_def
    by (rule read_disjoint_write) (use disjoint_windows [of 1000 32 900 8] apart in simp_all)
  then have key: "read_bytes ?m 1000 32 = z3_encode Z2"
    using read_after_write [of "z3_encode Z2" "\<lambda>_. 0" 1000] by (simp add: sample_key_memory_def z3_encode_laws)
  have new: "OpaqueInitiator_new sample (z3_encode Z2) = Ok \<lparr>oi_responder_public_key = z3_encode Z2\<rparr>"
    by (auto simp: OpaqueInitiator_new_Ok_iff)
  have "opaque_agent_create sample 1000 32 900 24 ?f0 = Some (0, ?f1)"
    using apart key new by (simp add: opaque_agent_create_def agent_heap_new_def sample_agent_def)
  then have e1: "agent_extern sample ?f0 (Some 0) ?f1" by (intro extern_create [of 24]) (simp_all add: agent_heap_new_def)
  have "opaque_agent_state_create 8 16 ?f1 = Some (0, ?f2)"
    by (simp add: opaque_agent_state_create_def agent_heap_new_def Let_def split: prod.split)
  then have e2: "agent_extern sample ?f1 (Some 0) ?f2" by (intro extern_state_create [of 16]) (simp_all add: agent_heap_new_def)
  have req: "agent_closure sample sample_finish = Some ?op"
    by (simp add: sample_finish_def ranges_overlap_def checked_add_def)
  have "agent_thread sample (Called 24 16 sample_finish) ?f2 [] (HoldsAgent 24 16 ?op (sample_agent\<lparr>ah_in_use := True\<rparr>)) ?f3"
    by (rule thread_agent [OF req]) (simp add: acquire_agent_def sample_agent_def Let_def)
  moreover have "agent_thread sample (Called 24 16 sample_finish) ?f3 [] (Returned (handle_access_to_int Busy)) ?f3"
    by (rule thread_agent_refused [OF req]) (simp add: acquire_agent_def)
  ultimately have t: "agent_thread sample (Called 24 16 sample_finish) ?f2 [] (HoldsAgent 24 16 ?op (sample_agent\<lparr>ah_in_use := True\<rparr>)) ?f3"
    "agent_thread sample (Called 24 16 sample_finish) ?f3 [] (Returned (-100)) ?f3" by simp_all
  let ?P0 = "(\<lambda>_. Resting) :: nat \<Rightarrow> agent_pc" and ?C = "Called 24 16 sample_finish"
  let ?H = "HoldsAgent 24 16 ?op (sample_agent\<lparr>ah_in_use := True\<rparr>)"
  let ?P1 = "?P0(0 := ?C)" let ?P2 = "?P1(1 := ?C)" let ?P3 = "?P2(0 := ?H)"
  have use: "usable_agent ?f2 24" "usable_state ?f2 16" by (simp_all add: usable_agent_def usable_state_def)
  have s1: "agent_system sample (?f0, ?P0) [Some 0] (?f1, ?P0)" by (rule system_extern [OF e1]) simp_all
  have s2: "agent_system sample (?f1, ?P0) [Some 0] (?f2, ?P0)" by (rule system_extern [OF e2]) simp_all
  have s3: "agent_system sample (?f2, ?P0) [] (?f2, ?P1)" by (rule system_invoke [OF _ use]) (simp add: resting_def)
  have s4: "agent_system sample (?f2, ?P1) [] (?f2, ?P2)" by (rule system_invoke [OF _ use]) (simp add: resting_def)
  have s5: "agent_system sample (?f2, ?P2) [] (?f3, ?P3)" by (rule system_thread) (use t(1) in simp)
  have s6: "agent_system sample (?f3, ?P3) [] (?f3, ?P3(1 := Returned (-100)))" by (rule system_thread) (use t(2) in simp)
  note go = run_Cons [where step = "agent_system sample"]
  have run: "run (agent_system sample) (?f0, ?P0) [[Some 0], [Some 0], [], [], [], []] (?f3, ?P3(1 := Returned (-100)))"
    by (rule go, rule s1, rule go, rule s2, rule go, rule s3, rule go, rule s4, rule go, rule s5, rule go, rule s6, rule run_Nil)
  show thesis by (rule that [OF run]) simp_all
qed

theorem concurrent_calls_linearize_witness:
  "\<exists>ls f (P :: nat \<Rightarrow> agent_pc). P 1 = Returned (-100) \<and> held_agent (P 0) = Some 24 \<and>
     run (agent_api sample) (agent_heap_new sample_key_memory sample_world) (concat ls) (quieted f) \<and>
     agent_heap_inv sample (quieted f)"
proof -
  obtain ls f P where c:
    "run (agent_system sample) (agent_heap_new sample_key_memory sample_world, \<lambda>_. Resting) ls (f, P)"
    "P 1 = Returned (-100)" "held_agent (P 0) = Some 24" by (rule sample_contended)
  have "run (agent_api sample) (agent_heap_new sample_key_memory sample_world) (concat ls) (quieted f)"
    "agent_heap_inv sample (quieted f)" using concurrent_calls_linearize [OF sample_laws c(1)] by simp_all
  then show ?thesis
    by (intro exI [of _ ls] exI [of _ f] exI [of _ P] conjI c(2,3))
qed

theorem concurrent_calls_complete_witness:
  "\<exists>f P ls' g p. held_agent (P 0) = Some 24 \<and> run (agent_system sample) (f, P) ls' (g, P(0 := p)) \<and> resting p"
proof -
  obtain ls f P where c:
    "run (agent_system sample) (agent_heap_new sample_key_memory sample_world, \<lambda>_. Resting) ls (f, P)"
    "P 1 = Returned (-100)" "held_agent (P 0) = Some 24" by (rule sample_contended)
  obtain ls' g p where "run (agent_system sample) (f, P) ls' (g, P(0 := p))" "resting p"
    using concurrent_calls_complete [OF c(1), of 0] by blast
  then show ?thesis using c(3) by blast
qed

end
