(* ===== verification/Relay_Ffi.thy ===== *)
theory Relay_Ffi
  imports Ffi_Common Relay_Session
begin

text \<open>
  Model of \<^verbatim>\<open>opaque-ffi/src/relay_ffi.rs\<close>: the C interface of the server, on a heap of the same
  kind as the client's with boxes for servers, sessions and key pairs.
\<close>

section \<open>Handles\<close>

record RelayHandle =
  rh_responder :: "InMemoryEvaluator OpaqueResponder"
  rh_in_use :: bool

record RelayStateHandle =
  rsh_state :: ResponderState
  rsh_in_use :: bool

record RelayKeypairHandle =
  kh_keypair :: ResponderKeyPair
  kh_oprf_seed :: bytes
  kh_in_use :: bool

record relay_heap = ffi_base +
  h_relays :: "addr \<rightharpoonup> RelayHandle"
  h_relay_states :: "addr \<rightharpoonup> RelayStateHandle"
  h_keypairs :: "addr \<rightharpoonup> RelayKeypairHandle"
  h_dropped_relays :: "RelayHandle list"
  h_dropped_relay_states :: "RelayStateHandle list"
  h_dropped_keypairs :: "RelayKeypairHandle list"

definition RelayHandle_drop :: "('s, 'p, 'ek, 'dk) deps \<Rightarrow> RelayHandle \<Rightarrow> RelayHandle" where
  "RelayHandle_drop D rh = rh\<lparr>rh_responder := OpaqueResponder_zeroize D (rh_responder rh)\<rparr>"

definition RelayStateHandle_drop :: "('s, 'p, 'ek, 'dk) deps \<Rightarrow> RelayStateHandle \<Rightarrow> RelayStateHandle" where
  "RelayStateHandle_drop D sh = sh\<lparr>rsh_state := responder_zeroize D (rsh_state sh)\<rparr>"

definition RelayKeypairHandle_drop :: "('s, 'p, 'ek, 'dk) deps \<Rightarrow> RelayKeypairHandle \<Rightarrow> RelayKeypairHandle" where
  "RelayKeypairHandle_drop D kh = kh\<lparr>kh_keypair := ResponderKeyPair_zeroize D (kh_keypair kh),
     kh_oprf_seed := zeroize D (kh_oprf_seed kh)\<rparr>"

definition acquire_relay ::
  "relay_heap \<Rightarrow> addr \<Rightarrow> (RelayHandle \<times> relay_heap, HandleAccessError) result option" where
  "acquire_relay f handle =
     (if handle = 0 then Some (Err InvalidHandle)
      else case h_relays f handle of
        None \<Rightarrow> None
      | Some rh \<Rightarrow>
          if rh_in_use rh then Some (Err Busy)
          else let rh = rh\<lparr>rh_in_use := True\<rparr>
               in Some (Ok (rh, f\<lparr>h_relays := (h_relays f)(handle \<mapsto> rh)\<rparr>)))"

definition acquire_relay_state ::
  "relay_heap \<Rightarrow> addr \<Rightarrow> (RelayStateHandle \<times> relay_heap, HandleAccessError) result option" where
  "acquire_relay_state f handle =
     (if handle = 0 then Some (Err InvalidHandle)
      else case h_relay_states f handle of
        None \<Rightarrow> None
      | Some sh \<Rightarrow>
          if rsh_in_use sh then Some (Err Busy)
          else let sh = sh\<lparr>rsh_in_use := True\<rparr>
               in Some (Ok (sh, f\<lparr>h_relay_states := (h_relay_states f)(handle \<mapsto> sh)\<rparr>)))"

definition invalidate_relay_state ::
  "('s, 'p, 'ek, 'dk) deps \<Rightarrow> RelayStateHandle \<Rightarrow> RelayStateHandle" where
  "invalidate_relay_state D sh = sh\<lparr>rsh_state := responder_invalidate D (rsh_state sh)\<rparr>"

definition acquire_relay_keypair ::
  "relay_heap \<Rightarrow> addr \<Rightarrow> (RelayKeypairHandle \<times> relay_heap, HandleAccessError) result option" where
  "acquire_relay_keypair f handle =
     (if handle = 0 then Some (Err InvalidHandle)
      else case h_keypairs f handle of
        None \<Rightarrow> None
      | Some kh \<Rightarrow>
          if kh_in_use kh then Some (Err Busy)
          else let kh = kh\<lparr>kh_in_use := True\<rparr>
               in Some (Ok (kh, f\<lparr>h_keypairs := (h_keypairs f)(handle \<mapsto> kh)\<rparr>)))"

text \<open>\<open>BusyGuard::drop\<close>, on the flag of each kind of handle.\<close>

definition release_relay :: "addr \<Rightarrow> relay_heap \<Rightarrow> relay_heap" where
  "release_relay handle f =
     f\<lparr>h_relays := (h_relays f)(handle := map_option (\<lambda>rh. rh\<lparr>rh_in_use := False\<rparr>) (h_relays f handle))\<rparr>"

definition release_relay_state :: "addr \<Rightarrow> relay_heap \<Rightarrow> relay_heap" where
  "release_relay_state handle f =
     f\<lparr>h_relay_states := (h_relay_states f)(handle :=
         map_option (\<lambda>sh. sh\<lparr>rsh_in_use := False\<rparr>) (h_relay_states f handle))\<rparr>"

definition release_relay_keypair :: "addr \<Rightarrow> relay_heap \<Rightarrow> relay_heap" where
  "release_relay_keypair handle f =
     f\<lparr>h_keypairs := (h_keypairs f)(handle := map_option (\<lambda>kh. kh\<lparr>kh_in_use := False\<rparr>) (h_keypairs f handle))\<rparr>"

type_synonym relay_op = "RelayStateHandle ffi_op"

definition run_relay_stateful ::
  "('s, 'p, 'ek, 'dk) deps \<Rightarrow> relay_op \<Rightarrow> RelayStateHandle \<Rightarrow> memory \<Rightarrow> world
     \<Rightarrow> int \<times> RelayStateHandle \<times> memory \<times> world" where
  "run_relay_stateful D operation sh m w =
     (case operation sh m w of (r, sh, m, w) \<Rightarrow>
        (case r of
           Ok _ \<Rightarrow> (0, sh, m, w)
         | Err error \<Rightarrow> (ffi_error_to_int error, invalidate_relay_state D sh, m, w)
         | Panic \<Rightarrow> (FFI_PANIC, invalidate_relay_state D sh, m, w)))"

text \<open>Admission to the session, then the operation on it.\<close>

definition relay_state_call ::
  "('s, 'p, 'ek, 'dk) deps \<Rightarrow> addr \<Rightarrow> relay_op \<Rightarrow> relay_heap \<Rightarrow> (int \<times> relay_heap) option" where
  "relay_state_call D state_handle operation f =
     guarded acquire_relay_state release_relay_state state_handle f (\<lambda>sh f.
     let (code, sh, m, w) = run_relay_stateful D operation sh (h_mem f) (h_world f)
     in Some (code, f\<lparr>h_relay_states := (h_relay_states f)(state_handle \<mapsto> sh), h_mem := m, h_world := w\<rparr>))"

section \<open>Key pairs, servers and sessions\<close>

definition opaque_relay_keypair_generate ::
  "('s, 'p, 'ek, 'dk) deps \<Rightarrow> addr \<Rightarrow> addr \<Rightarrow> relay_heap \<Rightarrow> (int \<times> relay_heap) option" where
  "opaque_relay_keypair_generate D handle box f =
     (if handle = 0 then Some (to_c_int InvalidInput, f)
      else let f = f\<lparr>h_mem := write_ptr (h_mem f) handle 0\<rparr>;
               (r, w) = ResponderKeyPair_generate D (h_world f);
               f = f\<lparr>h_world := w\<rparr> in
        (case r of
           Err _ \<Rightarrow> Some (ffi_error_to_int CryptoError, f)
         | Panic \<Rightarrow> Some (FFI_PANIC, f)
         | Ok keypair \<Rightarrow>
             let (r, w) = random_bytes OPRF_SEED_LENGTH (h_world f); f = f\<lparr>h_world := w\<rparr> in
             (case r of
                Err _ \<Rightarrow> Some (ffi_error_to_int CryptoError, f)
              | Panic \<Rightarrow> Some (FFI_PANIC, f)
              | Ok oprf_seed \<Rightarrow> Some (0, f\<lparr>h_keypairs := (h_keypairs f)(box \<mapsto>
                    \<lparr>kh_keypair = keypair, kh_oprf_seed = oprf_seed, kh_in_use = False\<rparr>),
                  h_mem := write_ptr (h_mem f) handle box\<rparr>))))"

definition opaque_relay_keypair_try_destroy ::
  "('s, 'p, 'ek, 'dk) deps \<Rightarrow> addr \<Rightarrow> relay_heap \<Rightarrow> (int \<times> relay_heap) option" where
  "opaque_relay_keypair_try_destroy D handle_ptr f =
     (if handle_ptr = 0 then Some (to_c_int InvalidInput, f)
      else let handle = read_ptr (h_mem f) handle_ptr in
        if handle = 0 then Some (0, f)
        else case h_keypairs f handle of
          None \<Rightarrow> None
        | Some kh \<Rightarrow>
            if kh_in_use kh then Some (FFI_BUSY, f)
            else Some (0, f\<lparr>h_mem := write_ptr (h_mem f) handle_ptr 0,
                   h_keypairs := (h_keypairs f)(handle := None),
                   h_dropped_keypairs :=
                     RelayKeypairHandle_drop D (kh\<lparr>kh_in_use := True\<rparr>) # h_dropped_keypairs f\<rparr>))"

definition opaque_relay_keypair_destroy ::
  "('s, 'p, 'ek, 'dk) deps \<Rightarrow> addr \<Rightarrow> relay_heap \<Rightarrow> relay_heap option" where
  "opaque_relay_keypair_destroy D handle_ptr f = map_option snd (opaque_relay_keypair_try_destroy D handle_ptr f)"

definition opaque_relay_keypair_get_public_key ::
  "addr \<Rightarrow> addr \<Rightarrow> addr \<Rightarrow> relay_heap \<Rightarrow> (int \<times> relay_heap) option" where
  "opaque_relay_keypair_get_public_key handle public_key key_buffer_size f =
     (if public_key = 0 \<or> unat key_buffer_size < PUBLIC_KEY_LENGTH then Some (to_c_int InvalidInput, f)
      else guarded acquire_relay_keypair release_relay_keypair handle f (\<lambda>kh f.
        Some (0, f\<lparr>h_mem := write_bytes (h_mem f) public_key (kp_public_key (kh_keypair kh))\<rparr>)))"

definition opaque_relay_create ::
  "('s, 'p, 'ek, 'dk) deps \<Rightarrow> addr \<Rightarrow> addr \<Rightarrow> addr \<Rightarrow> relay_heap \<Rightarrow> (int \<times> relay_heap) option" where
  "opaque_relay_create D keypair_handle handle box f =
     (if handle = 0 then Some (to_c_int InvalidInput, f)
      else let f = f\<lparr>h_mem := write_ptr (h_mem f) handle 0\<rparr> in
        (case acquire_relay_keypair f keypair_handle of
           None \<Rightarrow> None
         | Some (Err error) \<Rightarrow> Some (handle_access_to_int error, f)
         | Some Panic \<Rightarrow> Some (FFI_PANIC, f)
         | Some (Ok (kh, f)) \<Rightarrow>
             let result = OpaqueResponder_new D (kh_keypair kh) (kh_oprf_seed kh);
                 f = release_relay_keypair keypair_handle f in
             (case result of
                Err _ \<Rightarrow> Some (to_c_int InvalidInput, f)
              | Panic \<Rightarrow> Some (FFI_PANIC, f)
              | Ok responder \<Rightarrow> Some (0,
                  f\<lparr>h_relays := (h_relays f)(box \<mapsto> \<lparr>rh_responder = responder, rh_in_use = False\<rparr>),
                    h_mem := write_ptr (h_mem f) handle box\<rparr>))))"

definition opaque_relay_try_destroy ::
  "('s, 'p, 'ek, 'dk) deps \<Rightarrow> addr \<Rightarrow> relay_heap \<Rightarrow> (int \<times> relay_heap) option" where
  "opaque_relay_try_destroy D handle_ptr f =
     (if handle_ptr = 0 then Some (to_c_int InvalidInput, f)
      else let handle = read_ptr (h_mem f) handle_ptr in
        if handle = 0 then Some (0, f)
        else case h_relays f handle of
          None \<Rightarrow> None
        | Some rh \<Rightarrow>
            if rh_in_use rh then Some (FFI_BUSY, f)
            else Some (0, f\<lparr>h_mem := write_ptr (h_mem f) handle_ptr 0,
                   h_relays := (h_relays f)(handle := None),
                   h_dropped_relays := RelayHandle_drop D (rh\<lparr>rh_in_use := True\<rparr>) # h_dropped_relays f\<rparr>))"

definition opaque_relay_destroy ::
  "('s, 'p, 'ek, 'dk) deps \<Rightarrow> addr \<Rightarrow> relay_heap \<Rightarrow> relay_heap option" where
  "opaque_relay_destroy D handle_ptr f = map_option snd (opaque_relay_try_destroy D handle_ptr f)"

definition opaque_relay_state_create :: "addr \<Rightarrow> addr \<Rightarrow> relay_heap \<Rightarrow> (int \<times> relay_heap) option" where
  "opaque_relay_state_create handle box f =
     (if handle = 0 then Some (to_c_int InvalidInput, f)
      else let f = f\<lparr>h_mem := write_ptr (h_mem f) handle 0\<rparr>;
               (state, w) = ResponderState_new (h_world f)
           in Some (0, f\<lparr>h_world := w,
                h_relay_states := (h_relay_states f)(box \<mapsto> \<lparr>rsh_state = state, rsh_in_use = False\<rparr>),
                h_mem := write_ptr (h_mem f) handle box\<rparr>))"

definition opaque_relay_state_try_destroy ::
  "('s, 'p, 'ek, 'dk) deps \<Rightarrow> addr \<Rightarrow> relay_heap \<Rightarrow> (int \<times> relay_heap) option" where
  "opaque_relay_state_try_destroy D handle_ptr f =
     (if handle_ptr = 0 then Some (to_c_int InvalidInput, f)
      else let handle = read_ptr (h_mem f) handle_ptr in
        if handle = 0 then Some (0, f)
        else case h_relay_states f handle of
          None \<Rightarrow> None
        | Some sh \<Rightarrow>
            if rsh_in_use sh then Some (FFI_BUSY, f)
            else Some (0, f\<lparr>h_mem := write_ptr (h_mem f) handle_ptr 0,
                   h_relay_states := (h_relay_states f)(handle := None),
                   h_dropped_relay_states :=
                     RelayStateHandle_drop D (sh\<lparr>rsh_in_use := True\<rparr>) # h_dropped_relay_states f\<rparr>))"

definition opaque_relay_state_destroy ::
  "('s, 'p, 'ek, 'dk) deps \<Rightarrow> addr \<Rightarrow> relay_heap \<Rightarrow> relay_heap option" where
  "opaque_relay_state_destroy D handle_ptr f = map_option snd (opaque_relay_state_try_destroy D handle_ptr f)"

definition opaque_relay_create_with_keys ::
  "('s, 'p, 'ek, 'dk) deps \<Rightarrow> addr \<Rightarrow> addr \<Rightarrow> addr \<Rightarrow> addr \<Rightarrow> addr \<Rightarrow> addr \<Rightarrow> addr \<Rightarrow> addr \<Rightarrow> relay_heap
     \<Rightarrow> (int \<times> relay_heap) option" where
  "opaque_relay_create_with_keys D private_key private_key_len public_key public_key_len
     oprf_seed_ptr oprf_seed_len handle box f =
     (if handle = 0 then Some (to_c_int InvalidInput, f)
      else let f = f\<lparr>h_mem := write_ptr (h_mem f) handle 0\<rparr> in
        if private_key = 0 \<or> unat private_key_len \<noteq> PRIVATE_KEY_LENGTH
           \<or> public_key = 0 \<or> unat public_key_len \<noteq> PUBLIC_KEY_LENGTH
           \<or> oprf_seed_ptr = 0 \<or> unat oprf_seed_len \<noteq> OPRF_SEED_LENGTH
           \<or> ranges_overlap private_key private_key_len handle 8
           \<or> ranges_overlap public_key public_key_len handle 8
           \<or> ranges_overlap oprf_seed_ptr oprf_seed_len handle 8
        then Some (to_c_int InvalidInput, f)
        else let sk = read_bytes (h_mem f) private_key (unat private_key_len);
                 pk = read_bytes (h_mem f) public_key (unat public_key_len);
                 oprf_seed = read_bytes (h_mem f) oprf_seed_ptr OPRF_SEED_LENGTH in
          (case ResponderKeyPair_from_keys D sk pk of
             Err _ \<Rightarrow> Some (to_c_int InvalidInput, f)
           | Panic \<Rightarrow> Some (FFI_PANIC, f)
           | Ok keypair \<Rightarrow>
               (case OpaqueResponder_new D keypair oprf_seed of
                  Err _ \<Rightarrow> Some (to_c_int InvalidInput, f)
                | Panic \<Rightarrow> Some (FFI_PANIC, f)
                | Ok responder \<Rightarrow> Some (0,
                    f\<lparr>h_relays := (h_relays f)(box \<mapsto> \<lparr>rh_responder = responder, rh_in_use = False\<rparr>),
                      h_mem := write_ptr (h_mem f) handle box\<rparr>))))"

section \<open>Registration\<close>

definition registration_response_body ::
  "('s, 'p, 'ek, 'dk) deps \<Rightarrow> bytes \<Rightarrow> bytes \<Rightarrow> addr \<Rightarrow> RelayHandle \<Rightarrow> memory \<Rightarrow> int \<times> memory" where
  "registration_response_body D req aid response_data rh m =
     (case create_registration_response D (rh_responder rh) req aid RegistrationResponse_new of
        (Err e, _) \<Rightarrow> (ffi_error_to_int e, m)
      | (Panic, _) \<Rightarrow> (FFI_PANIC, m)
      | (Ok _, response) \<Rightarrow>
          (case and_then (subslice (rs_data response) 0 PUBLIC_KEY_LENGTH) (\<lambda>evaluated.
                and_then (slice_from (rs_data response) PUBLIC_KEY_LENGTH) (\<lambda>key.
                write_registration_response evaluated key (zeros REGISTRATION_RESPONSE_WIRE_LENGTH))) of
             Err e \<Rightarrow> (ffi_error_to_int e, m)
           | Panic \<Rightarrow> (FFI_PANIC, m)
           | Ok wire \<Rightarrow> (0, write_bytes m response_data wire)))"

definition opaque_relay_create_registration_response ::
  "('s, 'p, 'ek, 'dk) deps \<Rightarrow> addr \<Rightarrow> addr \<Rightarrow> addr \<Rightarrow> addr \<Rightarrow> addr \<Rightarrow> addr \<Rightarrow> addr \<Rightarrow> relay_heap
     \<Rightarrow> (int \<times> relay_heap) option" where
  "opaque_relay_create_registration_response D relay_handle request_data request_length
     account_id account_id_length response_data response_buffer_size f =
     (if request_data = 0 \<or> unat request_length \<noteq> REGISTRATION_REQUEST_WIRE_LENGTH
         \<or> account_id = 0 \<or> account_id_length = 0 \<or> MAX_ACCOUNT_ID_LENGTH < unat account_id_length
         \<or> response_data = 0 \<or> unat response_buffer_size < REGISTRATION_RESPONSE_WIRE_LENGTH
         \<or> ranges_overlap request_data request_length response_data (of_nat REGISTRATION_RESPONSE_WIRE_LENGTH)
         \<or> ranges_overlap account_id account_id_length response_data (of_nat REGISTRATION_RESPONSE_WIRE_LENGTH)
      then Some (to_c_int InvalidInput, f)
      else guarded acquire_relay release_relay relay_handle f (\<lambda>rh f.
        let req = read_bytes (h_mem f) request_data (unat request_length);
            aid = read_bytes (h_mem f) account_id (unat account_id_length);
            (code, m) = registration_response_body D req aid response_data rh (h_mem f)
        in Some (code, f\<lparr>h_mem := m\<rparr>)))"

definition build_credentials_body ::
  "('s, 'p, 'ek, 'dk) deps \<Rightarrow> bytes \<Rightarrow> addr \<Rightarrow> memory \<Rightarrow> int \<times> memory" where
  "build_credentials_body D rec credentials_out m =
     (case build_credentials D rec ResponderCredentials_new of
        (Err e, _) \<Rightarrow> (ffi_error_to_int e, m)
      | (Panic, _) \<Rightarrow> (FFI_PANIC, m)
      | (Ok _, creds) \<Rightarrow>
          (case and_then (copy_into (zeros REGISTRATION_CREDENTIAL_LENGTH) 0 MASKING_KEY_LENGTH
                            (c_masking_key creds)) (\<lambda>credential_storage.
                and_then (copy_into credential_storage MASKING_KEY_LENGTH (length credential_storage)
                            (c_envelope creds)) (\<lambda>credential_storage.
                write_registration_record credential_storage (c_initiator_public_key creds)
                  (zeros RESPONDER_CREDENTIALS_LENGTH))) of
             Err e \<Rightarrow> (ffi_error_to_int e, m)
           | Panic \<Rightarrow> (FFI_PANIC, m)
           | Ok wire \<Rightarrow> (0, write_bytes m credentials_out wire)))"

definition opaque_relay_build_credentials ::
  "('s, 'p, 'ek, 'dk) deps \<Rightarrow> addr \<Rightarrow> addr \<Rightarrow> addr \<Rightarrow> addr \<Rightarrow> relay_heap \<Rightarrow> (int \<times> relay_heap) option" where
  "opaque_relay_build_credentials D registration_record record_length credentials_out credentials_out_length f =
     (if registration_record = 0 \<or> unat record_length \<noteq> REGISTRATION_RECORD_LENGTH
         \<or> credentials_out = 0 \<or> unat credentials_out_length < RESPONDER_CREDENTIALS_LENGTH
         \<or> ranges_overlap registration_record record_length credentials_out (of_nat RESPONDER_CREDENTIALS_LENGTH)
      then Some (to_c_int InvalidInput, f)
      else let rec = read_bytes (h_mem f) registration_record (unat record_length);
               (code, m) = build_credentials_body D rec credentials_out (h_mem f)
           in Some (code, f\<lparr>h_mem := m\<rparr>))"

section \<open>Login\<close>

text \<open>
  The stored credentials of a login request: a record of the full length is parsed and
  checked, a missing one is replaced by a well-formed filler, which is parsed and checked in
  the same way and then ignored. An error is the code the call returns.
\<close>

definition ke2_credential_wire ::
  "InMemoryEvaluator OpaqueResponder \<Rightarrow> memory \<Rightarrow> addr \<Rightarrow> addr \<Rightarrow> (bytes, int) result" where
  "ke2_credential_wire responder m credentials_data credentials_length =
     (if unat credentials_length = RESPONDER_CREDENTIALS_LENGTH
      then copy_into (zeros RESPONDER_CREDENTIALS_LENGTH) 0 RESPONDER_CREDENTIALS_LENGTH
             (read_bytes m credentials_data (unat credentials_length))
      else if credentials_length = 0
      then (case write_registration_record (zeros REGISTRATION_CREDENTIAL_LENGTH)
                  (kp_public_key (or_keypair responder)) (zeros RESPONDER_CREDENTIALS_LENGTH) of
              Ok wire \<Rightarrow> Ok wire
            | Err _ \<Rightarrow> Err (to_c_int InvalidInput)
            | Panic \<Rightarrow> Panic)
      else Err (to_c_int InvalidInput))"

definition ke2_credentials ::
  "('s, 'p, 'ek, 'dk) deps \<Rightarrow> InMemoryEvaluator OpaqueResponder \<Rightarrow> memory \<Rightarrow> addr \<Rightarrow> addr
     \<Rightarrow> (ResponderCredentials, int) result" where
  "ke2_credentials D responder m credentials_data credentials_length =
     and_then (ke2_credential_wire responder m credentials_data credentials_length) (\<lambda>wire.
     case parse_registration_record wire of
       Err _ \<Rightarrow> Err FFI_CORRUPTED_RECORD
     | Panic \<Rightarrow> Panic
     | Ok view \<Rightarrow>
         (case validate_public_key D (rec_initiator_public_key view) of
            Err _ \<Rightarrow> Err FFI_CORRUPTED_RECORD
          | Panic \<Rightarrow> Panic
          | Ok _ \<Rightarrow>
              if length (rec_envelope view) \<noteq> ENVELOPE_LENGTH \<or> length (rec_masking_key view) \<noteq> MASKING_KEY_LENGTH
              then Err FFI_CORRUPTED_RECORD
              else let creds = ResponderCredentials_new in
                if unat credentials_length = RESPONDER_CREDENTIALS_LENGTH
                then let creds = creds\<lparr>c_envelope := rec_envelope view\<rparr> in
                  and_then (copy_into (c_masking_key creds) 0 (length (c_masking_key creds)) (rec_masking_key view)) (\<lambda>mk.
                  and_then (copy_into (c_initiator_public_key creds) 0 (length (c_initiator_public_key creds))
                              (rec_initiator_public_key view)) (\<lambda>pk.
                  Ok (creds\<lparr>c_masking_key := mk, c_initiator_public_key := pk, c_registered := True\<rparr>)))
                else if credentials_length = 0 then Ok creds
                else Err (to_c_int InvalidInput)))"

definition generate_ke2_op ::
  "('s, 'p, 'ek, 'dk) deps \<Rightarrow> InMemoryEvaluator OpaqueResponder \<Rightarrow> addr \<Rightarrow> addr \<Rightarrow> addr \<Rightarrow> addr
     \<Rightarrow> ResponderCredentials \<Rightarrow> addr \<Rightarrow> relay_op" where
  "generate_ke2_op D responder ke1_data ke1_length account_id account_id_length creds ke2_data sh m w =
     (let ke1 = read_bytes m ke1_data (unat ke1_length);
          aid = read_bytes m account_id (unat account_id_length);
          (r, ke2, state, w) = generate_ke2 D responder ke1 aid creds Ke2Message_new (rsh_state sh) w;
          sh = sh\<lparr>rsh_state := state\<rparr> in
      qmark r (sh, m, w) (\<lambda>_.
      qmark (write_ke2 (m2_responder_nonce ke2) (m2_responder_public_key ke2) (m2_credential_response ke2)
               (m2_responder_mac ke2) (m2_kem_ciphertext ke2) (zeros KE2_LENGTH)) (sh, m, w)
        (\<lambda>wire. (Ok (), sh, write_bytes m ke2_data wire, w))))"

definition opaque_relay_generate_ke2 ::
  "('s, 'p, 'ek, 'dk) deps \<Rightarrow> addr \<Rightarrow> addr \<Rightarrow> addr \<Rightarrow> addr \<Rightarrow> addr \<Rightarrow> addr \<Rightarrow> addr \<Rightarrow> addr \<Rightarrow> addr \<Rightarrow> addr
     \<Rightarrow> relay_heap \<Rightarrow> (int \<times> relay_heap) option" where
  "opaque_relay_generate_ke2 D relay_handle ke1_data ke1_length account_id account_id_length
     credentials_data credentials_length ke2_data ke2_buffer_size state_handle f =
     (if ke1_data = 0 \<or> unat ke1_length \<noteq> KE1_LENGTH
         \<or> account_id = 0 \<or> account_id_length = 0 \<or> MAX_ACCOUNT_ID_LENGTH < unat account_id_length
         \<or> ke2_data = 0 \<or> unat ke2_buffer_size < KE2_LENGTH
         \<or> ranges_overlap ke1_data ke1_length ke2_data (of_nat KE2_LENGTH)
         \<or> ranges_overlap account_id account_id_length ke2_data (of_nat KE2_LENGTH)
      then Some (to_c_int InvalidInput, f)
      else if credentials_length \<noteq> 0 \<and>
          (unat credentials_length \<noteq> RESPONDER_CREDENTIALS_LENGTH \<or> credentials_data = 0
           \<or> ranges_overlap credentials_data credentials_length ke2_data (of_nat KE2_LENGTH))
      then Some (to_c_int InvalidInput, f)
      else guarded acquire_relay release_relay relay_handle f (\<lambda>rh f.
        (case ke2_credentials D (rh_responder rh) (h_mem f) credentials_data credentials_length of
           Err code \<Rightarrow> Some (code, f)
         | Panic \<Rightarrow> Some (FFI_PANIC, f)
         | Ok creds \<Rightarrow> relay_state_call D state_handle
             (generate_ke2_op D (rh_responder rh) ke1_data ke1_length account_id account_id_length creds ke2_data) f)))"

definition relay_finish_op :: "('s, 'p, 'ek, 'dk) deps \<Rightarrow> addr \<Rightarrow> addr \<Rightarrow> addr \<Rightarrow> relay_op" where
  "relay_finish_op D ke3_data ke3_length session_key sh m w =
     (let ke3 = read_bytes m ke3_data (unat ke3_length);
          (r, sk, state, w) = responder_finish D ke3 (rsh_state sh) (zeros HASH_LENGTH) w;
          sh = sh\<lparr>rsh_state := state\<rparr> in
      qmark r (sh, m, w) (\<lambda>_. (Ok (), sh, write_bytes m session_key sk, w)))"

definition opaque_relay_finish ::
  "('s, 'p, 'ek, 'dk) deps \<Rightarrow> addr \<Rightarrow> addr \<Rightarrow> addr \<Rightarrow> addr \<Rightarrow> addr \<Rightarrow> addr \<Rightarrow> relay_heap
     \<Rightarrow> (int \<times> relay_heap) option" where
  "opaque_relay_finish D relay_handle ke3_data ke3_length state_handle session_key session_key_buffer_size f =
     (if ke3_data = 0 \<or> unat ke3_length \<noteq> KE3_LENGTH
         \<or> session_key = 0 \<or> unat session_key_buffer_size < HASH_LENGTH
         \<or> ranges_overlap ke3_data ke3_length session_key (of_nat HASH_LENGTH)
      then Some (to_c_int InvalidInput, f)
      else guarded acquire_relay release_relay relay_handle f (\<lambda>_ f.
        relay_state_call D state_handle (relay_finish_op D ke3_data ke3_length session_key) f))"

section \<open>Advertised sizes\<close>

definition opaque_relay_get_ke2_length :: nat where [simp]: "opaque_relay_get_ke2_length = KE2_LENGTH"
definition opaque_relay_get_registration_record_length :: nat where
  [simp]: "opaque_relay_get_registration_record_length = REGISTRATION_RECORD_LENGTH"
definition opaque_relay_get_credentials_length :: nat where
  [simp]: "opaque_relay_get_credentials_length = RESPONDER_CREDENTIALS_LENGTH"
definition opaque_relay_get_ke1_length :: nat where [simp]: "opaque_relay_get_ke1_length = KE1_LENGTH"
definition opaque_relay_get_ke3_length :: nat where [simp]: "opaque_relay_get_ke3_length = KE3_LENGTH"
definition opaque_relay_get_registration_request_length :: nat where
  [simp]: "opaque_relay_get_registration_request_length = REGISTRATION_REQUEST_WIRE_LENGTH"
definition opaque_relay_get_registration_response_length :: nat where
  [simp]: "opaque_relay_get_registration_response_length = REGISTRATION_RESPONSE_WIRE_LENGTH"
definition opaque_relay_get_kem_ciphertext_length :: nat where
  [simp]: "opaque_relay_get_kem_ciphertext_length = KEM_CIPHERTEXT_LENGTH"
definition opaque_relay_get_oprf_seed_length :: nat where
  [simp]: "opaque_relay_get_oprf_seed_length = OPRF_SEED_LENGTH"

section \<open>Handles keep their contract\<close>

interpretation relay_handles: busy_handles acquire_relay release_relay h_relays
  "\<lambda>h x f. f\<lparr>h_relays := (h_relays f)(h \<mapsto> x)\<rparr>" rh_in_use "\<lambda>b x. x\<lparr>rh_in_use := b\<rparr>"
  by unfold_locales (auto simp: acquire_relay_def release_relay_def Let_def fun_upd_idem)

interpretation relay_state_handles: busy_handles acquire_relay_state release_relay_state h_relay_states
  "\<lambda>h x f. f\<lparr>h_relay_states := (h_relay_states f)(h \<mapsto> x)\<rparr>" rsh_in_use "\<lambda>b x. x\<lparr>rsh_in_use := b\<rparr>"
  by unfold_locales (auto simp: acquire_relay_state_def release_relay_state_def Let_def fun_upd_idem)

interpretation relay_keypair_handles: busy_handles acquire_relay_keypair release_relay_keypair h_keypairs
  "\<lambda>h x f. f\<lparr>h_keypairs := (h_keypairs f)(h \<mapsto> x)\<rparr>" kh_in_use "\<lambda>b x. x\<lparr>kh_in_use := b\<rparr>"
  by unfold_locales (auto simp: acquire_relay_keypair_def release_relay_keypair_def Let_def fun_upd_idem)

interpretation relay_runner: stateful_calls "run_relay_stateful D" "invalidate_relay_state D"
  for D :: "('s, 'p, 'ek, 'dk) deps"
  by unfold_locales (auto simp: run_relay_stateful_def ffi_error_to_int_def)

text \<open>A call on a session in terms of its box.\<close>

definition relay_finished_call ::
  "('s, 'p, 'ek, 'dk) deps \<Rightarrow> addr \<Rightarrow> relay_op \<Rightarrow> RelayStateHandle \<Rightarrow> relay_heap \<Rightarrow> int \<times> relay_heap" where
  "relay_finished_call D state_handle operation sh f =
     (let (code, sh, m, w) = run_relay_stateful D operation (sh\<lparr>rsh_in_use := True\<rparr>) (h_mem f) (h_world f)
      in (code, f\<lparr>h_relay_states := (h_relay_states f)(state_handle \<mapsto> sh\<lparr>rsh_in_use := False\<rparr>),
           h_mem := m, h_world := w\<rparr>))"

lemma relay_state_call_eq:
  "relay_state_call D state_handle operation f =
     (if state_handle = 0 then Some (-1, f)
      else case h_relay_states f state_handle of None \<Rightarrow> None
      | Some sh \<Rightarrow> if rsh_in_use sh then Some (-100, f)
      else Some (relay_finished_call D state_handle operation sh f))"
  by (auto simp: relay_state_call_def relay_state_handles.guarded_eq relay_finished_call_def
      release_relay_state_def split: option.split prod.split)

text \<open>A body that leaves the servers alone runs as if the server's flag were not there.\<close>

lemma relay_guarded:
  assumes "\<And>x M. body x (f\<lparr>h_relays := M\<rparr>) = map_option (\<lambda>(c, g). (c, g\<lparr>h_relays := M\<rparr>)) (body x f)"
    and "\<And>x c g. body x f = Some (c, g) \<Longrightarrow> h_relays g = h_relays f"
  shows "guarded acquire_relay release_relay h f body =
     (if h = 0 then Some (-1, f)
      else case h_relays f h of None \<Rightarrow> None
      | Some rh \<Rightarrow> if rh_in_use rh then Some (-100, f) else body (rh\<lparr>rh_in_use := True\<rparr>) f)"
proof -
  have unmark: "release_relay h (g\<lparr>h_relays := (h_relays f)(h \<mapsto> rh\<lparr>rh_in_use := True\<rparr>)\<rparr>) = g"
    if "h_relays f h = Some rh" "\<not> rh_in_use rh" "h_relays g = h_relays f" for rh and g :: relay_heap
    using that by (auto simp: release_relay_def fun_upd_idem)
  show ?thesis
    by (cases "h_relays f h"; cases "body ((the (h_relays f h))\<lparr>rh_in_use := True\<rparr>) f")
      (auto simp: relay_handles.guarded_eq assms(1) unmark dest!: assms(2))
qed

lemma relay_finished_call_frame:
  "relay_finished_call D s operation sh (f\<lparr>h_relays := M\<rparr>) =
     (case relay_finished_call D s operation sh f of (c, g) \<Rightarrow> (c, g\<lparr>h_relays := M\<rparr>))"
  "relay_finished_call D s operation sh f = (c, g) \<Longrightarrow> h_relays g = h_relays f"
  by (auto simp: relay_finished_call_def split: prod.splits)

lemma relay_state_call_frame:
  "relay_state_call D s operation (f\<lparr>h_relays := M\<rparr>) =
     map_option (\<lambda>(c, g). (c, g\<lparr>h_relays := M\<rparr>)) (relay_state_call D s operation f)"
  "relay_state_call D s operation f = Some (c, g) \<Longrightarrow> h_relays g = h_relays f"
  by (auto simp: relay_state_call_eq relay_finished_call_frame split: option.split prod.split)
    (auto dest: relay_finished_call_frame(2) split: if_splits option.splits)

section \<open>What the closures guarantee\<close>

text \<open>A step of a server session, under any well-formed server.\<close>

definition responder_any_step ::
  "('s, 'p, 'ek, 'dk) deps \<Rightarrow> ResponderState \<Rightarrow> ResponderEvent \<Rightarrow> ResponderState \<Rightarrow> bool" where
  "responder_any_step D s e t \<longleftrightarrow>
     (\<exists>resp :: InMemoryEvaluator OpaqueResponder. OpaqueResponder_wf resp \<and> responder_step D resp s e t)"

lemma any_step_invalidate: "responder_any_step D s ResponderInvalidate (responder_invalidate D s)"
proof -
  define e :: "InMemoryEvaluator OprfEvaluator" where
    "e = \<lparr>ev_self = \<lparr>mem_oprf_seed = []\<rparr>, ev_evaluate_oprf = (\<lambda>_ _ _. Err InvalidInput),
       ev_derive_fake_material = (\<lambda>_ _. Err InvalidInput), ev_zeroize_secret = (\<lambda>x. x)\<rparr>"
  have "OpaqueResponder_wf \<lparr>or_keypair = \<lparr>kp_private_key = zeros 32, kp_public_key = zeros 32\<rparr>, or_evaluator = e\<rparr>"
    by (simp add: OpaqueResponder_wf_def responder_evaluate_oprf_def responder_fake_material_def e_def)
  then show ?thesis unfolding responder_any_step_def by (blast intro: step_rinvalidate)
qed

definition relay_post ::
  "('s, 'p, 'ek, 'dk) deps \<Rightarrow> RelayStateHandle \<Rightarrow> unit OpaqueResult \<Rightarrow> RelayStateHandle \<times> memory \<times> world \<Rightarrow> bool" where
  "relay_post D sh r t \<longleftrightarrow> r \<noteq> Panic \<and> responder_inv (rsh_state (fst t)) \<and>
     rsh_in_use (fst t) = rsh_in_use sh \<and>
     (\<exists>es. run (responder_any_step D) (rsh_state sh) es (rsh_state (fst t)))"

definition relay_op_sound :: "('s, 'p, 'ek, 'dk) deps \<Rightarrow> relay_op \<Rightarrow> bool" where
  "relay_op_sound D operation \<longleftrightarrow>
     (\<forall>sh m w. responder_inv (rsh_state sh) \<longrightarrow> leaves (operation sh m w) (relay_post D sh))"

lemma relay_sound_after_step:
  assumes "deps_laws D" "OpaqueResponder_wf (resp :: InMemoryEvaluator OpaqueResponder)"
    and "responder_inv (rsh_state sh)" "responder_step D resp (rsh_state sh) e st"
    and "responder_result e = Some r" "wire \<noteq> Panic"
    and "sh' = sh\<lparr>rsh_state := st\<rparr>"
  shows "leaves (qmark r (sh', m, w) (\<lambda>_. qmark wire (sh', m, w) (\<lambda>b. (Ok (), sh', g b, w)))) (relay_post D sh)"
proof -
  have s: "run (responder_step D resp) (rsh_state sh) [e] st" using assms(4) by (simp add: run_Cons_iff)
  have s': "\<exists>es. run (responder_any_step D) (rsh_state sh) es st"
    using assms(2,4) by (intro exI [of _ "[e]"]) (auto simp: run_Cons_iff responder_any_step_def)
  have "responder_inv st" "r \<noteq> Panic"
    using responder_session.run_inv [OF s] responder_run_no_panic [OF s assms(1-3)] assms(1-3,5) by auto
  with s' assms(6,7) show ?thesis by (cases r; cases wire) (auto simp: leaves_def relay_post_def)
qed

lemma new_ke2_sized: "ke2_message_sized Ke2Message_new"
  by (simp add: Ke2Message_new_def ke2_message_sized_def)

lemma generate_ke2_sound:
  assumes "deps_laws D" "OpaqueResponder_wf resp" "credentials_sized creds"
  shows "relay_op_sound D (generate_ke2_op D resp ke1 n aid k creds out)"
  unfolding relay_op_sound_def generate_ke2_op_def Let_def
  by (auto intro!: leaves_case_prod relay_sound_after_step [OF assms(1,2)] write_no_panic
      step_ke2 [OF assms(3) new_ke2_sized])

lemma relay_finish_sound:
  assumes "deps_laws D" "OpaqueResponder_wf (resp :: InMemoryEvaluator OpaqueResponder)"
  shows "relay_op_sound D (relay_finish_op D ke3 n out)"
  unfolding relay_op_sound_def
proof (intro allI impI)
  fix sh :: RelayStateHandle and m w assume inv: "responder_inv (rsh_state sh)"
  obtain r sk st w' where fin: "responder_finish D (read_bytes m ke3 (unat n)) (rsh_state sh) (zeros 64) w = (r, sk, st, w')"
    by (metis prod.collapse)
  have step: "responder_step D resp (rsh_state sh) (ResponderFinish r sk) st"
    by (rule step_rfinish [OF _ fin]) simp
  show "leaves (relay_finish_op D ke3 n out sh m w) (relay_post D sh)"
    using relay_sound_after_step [OF assms inv step, of r "Ok ()" "sh\<lparr>rsh_state := st\<rparr>" m w' "\<lambda>_. write_bytes m out sk"]
    by (simp add: relay_finish_op_def fin Let_def)
qed

lemma responder_finish_length:
  assumes "responder_finish D ke3 st sk w = (Ok (), sk', st', w')"
  shows "length sk' = length sk"
  using assms
  by (auto simp: responder_finish_def Let_def result_simps dest!: copy_into_length split: if_splits prod.splits result.splits)

lemma generate_ke2_writes_only:
  "writes_only (window out KE2_LENGTH) (generate_ke2_op D resp ke1 n aid k creds out)"
  unfolding writes_only_def generate_ke2_op_def Let_def
  by (auto intro!: leaves_case_prod frame_serialized dest!: written_length)

lemma relay_finish_writes_only: "writes_only (window out HASH_LENGTH) (relay_finish_op D ke3 n out)"
  unfolding writes_only_def
proof (intro allI)
  fix sh :: RelayStateHandle and m w
  obtain r sk st w' where fin: "responder_finish D (read_bytes m ke3 (unat n)) (rsh_state sh) (zeros 64) w = (r, sk, st, w')"
    by (metis prod.collapse)
  show "leaves (relay_finish_op D ke3 n out sh m w) (\<lambda>r t. frame_post (window out HASH_LENGTH) m r (fst (snd t)))"
    using responder_finish_length [of D "read_bytes m ke3 (unat n)" "rsh_state sh" "zeros 64" w sk st w'] fin
    by (cases r) (auto simp: relay_finish_op_def Let_def leaves_def frame_post_def write_bytes_outside)
qed

section \<open>Registration and credentials\<close>

lemma OpaqueResponder_new_no_panic: "OpaqueResponder_new D kp seed \<noteq> Panic"
  by (auto simp: OpaqueResponder_new_def InMemoryEvaluator_new_def result_simps validate_no_panic split: if_splits)

text \<open>A record is copied verbatim or refused.\<close>

lemma build_credentials_body_eq:
  assumes "deps_laws D"
  shows "build_credentials_body D rec out m =
     (case parse_registration_record rec of
        Ok v \<Rightarrow> (case validate_public_key D (rec_initiator_public_key v) of
            Ok _ \<Rightarrow> (0, write_bytes m out rec) | Err e \<Rightarrow> (to_c_int e, m) | Panic \<Rightarrow> (FFI_PANIC, m))
      | Err e \<Rightarrow> (to_c_int e, m) | Panic \<Rightarrow> (FFI_PANIC, m))"
proof (cases "parse_registration_record rec")
  case (Ok v)
  then have v: "registration_record_sized v" "registration_record_wire v = rec"
    using registration_record_codec.parse_sound [OF Ok] by auto
  then have "length (rec_masking_key v) = 32" "length (rec_envelope v) = 136"
    by (simp_all add: registration_record_sized_def)
  moreover have "write_registration_record (rec_masking_key v @ rec_envelope v) (rec_initiator_public_key v) (zeros 201) = Ok rec"
    using registration_record_codec.write_fits [OF v(1), of "zeros 201"] v(2) by simp
  ultimately show ?thesis
    using Ok build_credentials_eq [OF assms, of ResponderCredentials_new rec]
    by (auto simp: build_credentials_body_def ResponderCredentials_new_def ffi_error_to_int_def copy_into_def
        split: result.split)
qed (use build_credentials_eq [OF assms, of ResponderCredentials_new rec] in
    \<open>auto simp: build_credentials_body_def ResponderCredentials_new_def ffi_error_to_int_def\<close>)

lemma ke2_credentials_eq:
  assumes "deps_laws D" "validate_public_key D (kp_public_key (or_keypair resp)) = Ok ()"
    "length (kp_public_key (or_keypair resp)) = 32"
  shows "ke2_credentials D resp m p n =
     (if n = 0 then Ok ResponderCredentials_new
      else if unat n \<noteq> RESPONDER_CREDENTIALS_LENGTH then Err (-1)
      else case parse_registration_record (read_bytes m p RESPONDER_CREDENTIALS_LENGTH) of
        Ok v \<Rightarrow> (case validate_public_key D (rec_initiator_public_key v) of
            Ok _ \<Rightarrow> Ok \<lparr>c_envelope = rec_envelope v, c_masking_key = rec_masking_key v,
               c_initiator_public_key = rec_initiator_public_key v, c_registered = True\<rparr>
          | _ \<Rightarrow> Err (-101))
      | _ \<Rightarrow> Err (-101))"
proof -
  let ?v = "\<lparr>rec_masking_key = zeros 32, rec_envelope = zeros 136, rec_initiator_public_key = kp_public_key (or_keypair resp)\<rparr>"
  have sized: "registration_record_sized ?v" using assms(3) by (simp add: registration_record_sized_def)
  have filler: "write_registration_record (zeros 168) (kp_public_key (or_keypair resp)) (zeros 201) = Ok (registration_record_wire ?v)"
    using registration_record_codec.write_fits [OF sized, of "zeros 201"] by (simp add: zeros_def flip: replicate_add)
  have parse: "parse_registration_record (registration_record_wire ?v) = Ok ?v"
    by (rule registration_record_codec.parse_wire [OF sized])
  have zero: "ke2_credentials D resp m p 0 = Ok ResponderCredentials_new"
    using filler parse assms(2) by (simp add: ke2_credentials_def ke2_credential_wire_def)
  have full: "ke2_credentials D resp m p n = (case parse_registration_record (read_bytes m p 201) of
        Ok v \<Rightarrow> (case validate_public_key D (rec_initiator_public_key v) of
            Ok _ \<Rightarrow> Ok \<lparr>c_envelope = rec_envelope v, c_masking_key = rec_masking_key v,
               c_initiator_public_key = rec_initiator_public_key v, c_registered = True\<rparr>
          | _ \<Rightarrow> Err (-101))
      | _ \<Rightarrow> Err (-101))" if n: "unat n = 201"
  proof (cases "parse_registration_record (read_bytes m p 201)")
    case (Ok v)
    then have "registration_record_sized v" using registration_record_codec.parse_sound by blast
    then show ?thesis
      using Ok n validate_no_panic(1) [of D "rec_initiator_public_key v"]
      by (auto simp: ke2_credentials_def ke2_credential_wire_def copy_into_whole registration_record_sized_def
          ResponderCredentials_new_def FFI_CORRUPTED_RECORD_def split: result.split)
  qed (use n registration_record_codec.parse_no_panic in
      \<open>auto simp: ke2_credentials_def ke2_credential_wire_def copy_into_whole FFI_CORRUPTED_RECORD_def\<close>)
  show ?thesis using zero full by (auto simp: ke2_credentials_def ke2_credential_wire_def)
qed

lemma create_registration_response_new:
  assumes "OpaqueResponder_wf resp"
    and "create_registration_response D resp req aid RegistrationResponse_new = (res, response)"
  shows "res \<noteq> Panic" "length (rs_data response) = 64"
proof -
  have "leaves (create_registration_response D resp req aid RegistrationResponse_new)
      (\<lambda>r t. r \<noteq> Panic \<and> length (rs_data t) = 64)"
    unfolding create_registration_response_def Let_def
    using OpaqueResponder_wfD [OF assms(1)]
    by (auto intro!: leaves_rules simp: RegistrationResponse_new_def copy_into_def validate_no_panic
        registration_request_codec.parse_no_panic split: if_splits)
  then show "res \<noteq> Panic" "length (rs_data response) = 64" using assms(2) by (auto dest: leavesD)
qed

lemma registration_response_body_frame:
  assumes "OpaqueResponder_wf (rh_responder rh)" "registration_response_body D req aid out rh m = (c, m')"
  shows "-10 \<le> c \<and> c \<le> 0 \<and> (c \<noteq> 0 \<longrightarrow> m' = m) \<and> (\<forall>a. a \<notin> window out 65 \<longrightarrow> m' a = m a)"
proof -
  obtain res response where cr: "create_registration_response D (rh_responder rh) req aid RegistrationResponse_new = (res, response)"
    by fastforce
  note new = create_registration_response_new [OF assms(1) cr]
  have "c = 0 \<and> (\<exists>wire. m' = write_bytes m out wire \<and> length wire = 65) \<or> (\<exists>e. c = to_c_int e \<and> m' = m)"
    using assms(2) new write_no_panic(3)
    by (auto simp: registration_response_body_def cr slice_simps ffi_error_to_int_def split: result.splits
        dest: written_length(3) intro!: exI)
  then show ?thesis by (auto simp: write_bytes_outside)
qed

section \<open>The interface as a step relation\<close>

inductive relay_session_call ::
  "('s, 'p, 'ek, 'dk) deps \<Rightarrow> addr \<Rightarrow> addr \<Rightarrow> addr set \<Rightarrow> relay_heap \<Rightarrow> int \<Rightarrow> relay_heap \<Rightarrow> bool"
  for D :: "('s, 'p, 'ek, 'dk) deps" and r s :: addr where
  call_ke2: "opaque_relay_generate_ke2 D r ke1 n aid k cred l out len s f = Some (c, g) \<Longrightarrow>
     relay_session_call D r s (window out opaque_relay_get_ke2_length) f c g"
| call_relay_finish: "opaque_relay_finish D r ke3 n s out len f = Some (c, g) \<Longrightarrow>
     relay_session_call D r s (window out HASH_LENGTH) f c g"

text \<open>The calls that only read handles and write an output buffer.\<close>

inductive relay_plain_call ::
  "('s, 'p, 'ek, 'dk) deps \<Rightarrow> addr set \<Rightarrow> relay_heap \<Rightarrow> int \<Rightarrow> relay_heap \<Rightarrow> bool"
  for D :: "('s, 'p, 'ek, 'dk) deps" where
  call_public_key: "opaque_relay_keypair_get_public_key h out len f = Some (c, g) \<Longrightarrow>
     relay_plain_call D (window out PUBLIC_KEY_LENGTH) f c g"
| call_response: "opaque_relay_create_registration_response D r req n aid k out len f = Some (c, g) \<Longrightarrow>
     relay_plain_call D (window out opaque_relay_get_registration_response_length) f c g"
| call_credentials: "opaque_relay_build_credentials D rec n out len f = Some (c, g) \<Longrightarrow>
     relay_plain_call D (window out opaque_relay_get_credentials_length) f c g"

inductive relay_api :: "('s, 'p, 'ek, 'dk) deps \<Rightarrow> relay_heap \<Rightarrow> int option \<Rightarrow> relay_heap \<Rightarrow> bool"
  for D :: "('s, 'p, 'ek, 'dk) deps" where
  rapi_memory: "relay_api D f None (f\<lparr>h_mem := m\<rparr>)"
| rapi_generate: "box \<noteq> 0 \<Longrightarrow> h_keypairs f box = None \<Longrightarrow>
     opaque_relay_keypair_generate D out box f = Some (c, g) \<Longrightarrow> relay_api D f (Some c) g"
| rapi_keypair_destroy: "opaque_relay_keypair_try_destroy D p f = Some (c, g) \<Longrightarrow> relay_api D f (Some c) g"
| rapi_keypair_destroy_quiet: "opaque_relay_keypair_destroy D p f = Some g \<Longrightarrow> relay_api D f None g"
| rapi_create: "box \<noteq> 0 \<Longrightarrow> h_relays f box = None \<Longrightarrow>
     opaque_relay_create D h out box f = Some (c, g) \<Longrightarrow> relay_api D f (Some c) g"
| rapi_create_with_keys: "box \<noteq> 0 \<Longrightarrow> h_relays f box = None \<Longrightarrow>
     opaque_relay_create_with_keys D sk n pk k seed l out box f = Some (c, g) \<Longrightarrow> relay_api D f (Some c) g"
| rapi_destroy: "opaque_relay_try_destroy D p f = Some (c, g) \<Longrightarrow> relay_api D f (Some c) g"
| rapi_destroy_quiet: "opaque_relay_destroy D p f = Some g \<Longrightarrow> relay_api D f None g"
| rapi_state_create: "box \<noteq> 0 \<Longrightarrow> h_relay_states f box = None \<Longrightarrow>
     opaque_relay_state_create out box f = Some (c, g) \<Longrightarrow> relay_api D f (Some c) g"
| rapi_state_destroy: "opaque_relay_state_try_destroy D p f = Some (c, g) \<Longrightarrow> relay_api D f (Some c) g"
| rapi_state_destroy_quiet: "opaque_relay_state_destroy D p f = Some g \<Longrightarrow> relay_api D f None g"
| rapi_plain: "relay_plain_call D A f c g \<Longrightarrow> relay_api D f (Some c) g"
| rapi_session: "relay_session_call D r s A f c g \<Longrightarrow> relay_api D f (Some c) g"

section \<open>The heap between calls\<close>

definition keypair_valid :: "('s, 'p, 'ek, 'dk) deps \<Rightarrow> ResponderKeyPair \<Rightarrow> bool" where
  "keypair_valid D kp \<longleftrightarrow> (\<exists>s. s \<noteq> scalar_zero D \<and> kp_private_key kp = scalar_bytes D s \<and>
     kp_public_key kp = point_compress D (base_mul D s))"

definition keypair_live :: "('s, 'p, 'ek, 'dk) deps \<Rightarrow> RelayKeypairHandle \<Rightarrow> bool" where
  "keypair_live D kh \<longleftrightarrow> \<not> kh_in_use kh \<and> keypair_valid D (kh_keypair kh) \<and>
     length (kh_oprf_seed kh) = OPRF_SEED_LENGTH"

definition relay_live :: "('s, 'p, 'ek, 'dk) deps \<Rightarrow> RelayHandle \<Rightarrow> bool" where
  "relay_live D rh \<longleftrightarrow> \<not> rh_in_use rh \<and> OpaqueResponder_wf (rh_responder rh) \<and>
     keypair_valid D (or_keypair (rh_responder rh)) \<and>
     (\<exists>e. or_evaluator (rh_responder rh) = InMemoryEvaluator_dyn D e \<and> length (mem_oprf_seed e) = OPRF_SEED_LENGTH)"

definition relay_state_live :: "('s, 'p, 'ek, 'dk) deps \<Rightarrow> RelayStateHandle \<Rightarrow> bool" where
  "relay_state_live D sh \<longleftrightarrow> \<not> rsh_in_use sh \<and> responder_inv (rsh_state sh) \<and>
     (\<exists>w es. run (responder_any_step D) (fst (ResponderState_new w)) es (rsh_state sh))"

definition relay_heap_inv :: "('s, 'p, 'ek, 'dk) deps \<Rightarrow> relay_heap \<Rightarrow> bool" where
  "relay_heap_inv D f \<longleftrightarrow>
     (\<forall>h kh. h_keypairs f h = Some kh \<longrightarrow> keypair_live D kh) \<and>
     (\<forall>h rh. h_relays f h = Some rh \<longrightarrow> relay_live D rh) \<and>
     (\<forall>h sh. h_relay_states f h = Some sh \<longrightarrow> relay_state_live D sh) \<and>
     (\<forall>kh \<in> set (h_dropped_keypairs f). kp_private_key (kh_keypair kh) = zeros PRIVATE_KEY_LENGTH \<and>
        kh_oprf_seed kh = zeros OPRF_SEED_LENGTH) \<and>
     (\<forall>rh \<in> set (h_dropped_relays f). kp_private_key (or_keypair (rh_responder rh)) = zeros PRIVATE_KEY_LENGTH \<and>
        mem_oprf_seed (ev_self (or_evaluator (rh_responder rh))) = zeros OPRF_SEED_LENGTH) \<and>
     (\<forall>sh \<in> set (h_dropped_relay_states f). responder_wiped (rsh_state sh))"

definition relay_heap_new :: "memory \<Rightarrow> world \<Rightarrow> relay_heap" where
  "relay_heap_new m w = \<lparr>h_mem = m, h_world = w, h_relays = (\<lambda>_. None), h_relay_states = (\<lambda>_. None),
     h_keypairs = (\<lambda>_. None), h_dropped_relays = [], h_dropped_relay_states = [], h_dropped_keypairs = []\<rparr>"

abbreviation relay_code :: "int \<Rightarrow> bool" where
  "relay_code c \<equiv> -10 \<le> c \<and> c \<le> 0 \<or> c = -101"

lemma keypair_validD:
  assumes "keypair_valid D kp" "deps_laws D"
  shows "length (kp_private_key kp) = 32" "length (kp_public_key kp) = 32"
    "validate_public_key D (kp_public_key kp) = Ok ()"
  using assms by (auto simp: keypair_valid_def)

lemma OpaqueResponder_new_live:
  assumes "deps_laws D" "keypair_valid D kp" "length seed = 32" "OpaqueResponder_new D kp seed = Ok resp"
  shows "relay_live D \<lparr>rh_responder = resp, rh_in_use = False\<rparr>"
  using OpaqueResponder_new_wf [OF assms(1,4) keypair_validD(1) [OF assms(2,1)]] assms(2,3)
  by (auto simp: relay_live_def)

lemma opaque_relay_keypair_generate_inv:
  assumes "deps_laws D" "relay_heap_inv D f" "opaque_relay_keypair_generate D out box f = Some (c, g)"
  shows "relay_heap_inv D g \<and> relay_code c"
proof -
  note D [simp] = deps_lawsD [OF assms(1)]
  obtain r w where gen: "ResponderKeyPair_generate D (h_world f) = (r, w)" by fastforce
  obtain r1 w1 where rnd: "random_nonzero_scalar D (h_world f) = (r1, w1)" by fastforce
  have "r = Err CryptoError \<or> (\<exists>kp. r = Ok kp \<and> keypair_valid D kp)"
    using D(6,1) rnd
  proof (cases rule: random_nonzero_scalar_cases)
    case (2 s)
    then show ?thesis using gen rnd by (auto simp: ResponderKeyPair_generate_def keypair_valid_def)
  qed (use gen rnd in \<open>simp add: ResponderKeyPair_generate_def\<close>)
  then show ?thesis
    using assms(2,3) gen
    by (auto simp: opaque_relay_keypair_generate_def Let_def relay_heap_inv_def keypair_live_def ffi_error_to_int_def
        split: if_splits prod.splits)
qed

lemma opaque_relay_keypair_try_destroy_inv:
  assumes "deps_laws D" "relay_heap_inv D f" "opaque_relay_keypair_try_destroy D p f = Some (c, g)"
  shows "relay_heap_inv D g \<and> relay_code c"
proof -
  have live: "\<not> kh_in_use kh \<and> length (kp_private_key (kh_keypair kh)) = 32 \<and> length (kh_oprf_seed kh) = 32"
    if "h_keypairs f h = Some kh" for h kh
    using that assms(1,2) keypair_validD(1) [of D "kh_keypair kh"] by (auto simp: relay_heap_inv_def keypair_live_def)
  show ?thesis using assms live [of "read_ptr (h_mem f) p"]
    by (auto simp: opaque_relay_keypair_try_destroy_def Let_def relay_heap_inv_def RelayKeypairHandle_drop_def
        ResponderKeyPair_zeroize_def split: if_splits option.splits)
qed

lemma opaque_relay_try_destroy_inv:
  assumes "deps_laws D" "relay_heap_inv D f" "opaque_relay_try_destroy D p f = Some (c, g)"
  shows "relay_heap_inv D g \<and> relay_code c"
proof -
  have live: "\<not> rh_in_use rh \<and> length (kp_private_key (or_keypair (rh_responder rh))) = 32 \<and>
      (\<exists>e. or_evaluator (rh_responder rh) = InMemoryEvaluator_dyn D e \<and> length (mem_oprf_seed e) = 32)"
    if "h_relays f h = Some rh" for h rh
    using that assms(1,2) keypair_validD(1) [of D "or_keypair (rh_responder rh)"]
    by (auto simp: relay_heap_inv_def relay_live_def)
  show ?thesis using assms live [of "read_ptr (h_mem f) p"]
    by (auto simp: opaque_relay_try_destroy_def Let_def relay_heap_inv_def RelayHandle_drop_def OpaqueResponder_zeroize_def
        ResponderKeyPair_zeroize_def InMemoryEvaluator_dyn_def mem_zeroize_secret_def split: if_splits option.splits)
qed

lemma new_relay_session_live:
  assumes "ResponderState_new w = (st, w')"
  shows "relay_state_live D \<lparr>rsh_state = st, rsh_in_use = False\<rparr>"
proof -
  have st: "st = fst (ResponderState_new w)" using assms by simp
  have "\<exists>w es. run (responder_any_step D) (fst (ResponderState_new w)) es st" unfolding st by (blast intro: run_Nil)
  then show ?thesis using ResponderState_new_inv [of w] by (simp add: relay_state_live_def st)
qed

lemma opaque_relay_state_create_inv:
  "relay_heap_inv D f \<Longrightarrow> opaque_relay_state_create out box f = Some (c, g) \<Longrightarrow> relay_heap_inv D g \<and> relay_code c"
  by (auto simp: opaque_relay_state_create_def Let_def relay_heap_inv_def new_relay_session_live
      split: if_splits prod.splits)

lemma responder_zeroize_wiped: "zeroize_laws D \<Longrightarrow> responder_wf s \<Longrightarrow> responder_wiped (responder_zeroize D s)"
  using responder_invalidate_props(2) [of D s] by (simp add: responder_invalidate_def responder_wiped_def)

lemma opaque_relay_state_try_destroy_inv:
  assumes "deps_laws D" "relay_heap_inv D f" "opaque_relay_state_try_destroy D p f = Some (c, g)"
  shows "relay_heap_inv D g \<and> relay_code c"
proof -
  have live: "\<not> rsh_in_use sh \<and> responder_wf (rsh_state sh)" if "h_relay_states f h = Some sh" for h sh
    using that assms(2) by (auto simp: relay_heap_inv_def relay_state_live_def responder_inv_wf)
  show ?thesis using assms live [of "read_ptr (h_mem f) p"]
    by (auto simp: opaque_relay_state_try_destroy_def Let_def relay_heap_inv_def RelayStateHandle_drop_def
        responder_zeroize_wiped split: if_splits option.splits)
qed

lemma ke2_credentials_cases:
  assumes "deps_laws D" "keypair_valid D (or_keypair resp)"
  shows "ke2_credentials D resp m p n \<noteq> Panic"
    and "ke2_credentials D resp m p n = Err c \<Longrightarrow> c \<in> {-1, -101}"
    and "ke2_credentials D resp m p n = Ok creds \<Longrightarrow> credentials_sized creds"
proof -
  note eq = ke2_credentials_eq [OF assms(1) keypair_validD(3,2) [OF assms(2,1)], of m p n]
  show "ke2_credentials D resp m p n \<noteq> Panic" "ke2_credentials D resp m p n = Err c \<Longrightarrow> c \<in> {-1, -101}"
    by (auto simp: eq split: if_splits result.splits)
  have "registration_record_sized v" if "parse_registration_record b = Ok v" for b v
    using registration_record_codec.parse_sound that by blast
  then show "ke2_credentials D resp m p n = Ok creds \<Longrightarrow> credentials_sized creds"
    by (auto simp: eq ResponderCredentials_new_def credentials_sized_def registration_record_sized_def
        split: if_splits result.splits)
qed

lemma relay_heap_inv_mem: "relay_heap_inv D (f\<lparr>h_mem := m\<rparr>) = relay_heap_inv D f"
  by (simp add: relay_heap_inv_def)

text \<open>The last step of both ways to create a server.\<close>

lemma publish_relay_inv:
  assumes "deps_laws D" "relay_heap_inv D f" "keypair_valid D kp" "length seed = 32"
    and "(case OpaqueResponder_new D kp seed of
        Err _ \<Rightarrow> Some (to_c_int InvalidInput, f)
      | Panic \<Rightarrow> Some (FFI_PANIC, f)
      | Ok responder \<Rightarrow> Some (0, f\<lparr>h_relays := (h_relays f)(box \<mapsto> \<lparr>rh_responder = responder, rh_in_use = False\<rparr>),
          h_mem := m\<rparr>)) = Some (c, g)"
  shows "relay_heap_inv D g \<and> relay_code c"
proof (cases "OpaqueResponder_new D kp seed")
  case (Ok resp)
  then show ?thesis using assms OpaqueResponder_new_live [OF assms(1,3,4) Ok]
    by (auto simp: relay_heap_inv_def split: if_splits)
qed (use assms OpaqueResponder_new_no_panic [of D kp seed] in auto)

lemma opaque_relay_create_with_keys_inv:
  assumes "deps_laws D" "relay_heap_inv D f"
    and "opaque_relay_create_with_keys D sk n pk k seed l out box f = Some (c, g)"
  shows "relay_heap_inv D g \<and> relay_code c"
proof -
  let ?f = "f\<lparr>h_mem := write_ptr (h_mem f) out 0\<rparr>"
  let ?from = "ResponderKeyPair_from_keys D (read_bytes (h_mem ?f) sk (unat n)) (read_bytes (h_mem ?f) pk (unat k))"
  have np: "ResponderKeyPair_from_keys D a b \<noteq> Panic" for a b
    by (auto simp: ResponderKeyPair_from_keys_def result_simps copy_into_def no_panic split: if_splits)
  have inv: "relay_heap_inv D ?f" using assms(2) by (simp add: relay_heap_inv_mem)
  consider "c = -1" "g = f \<or> g = ?f"
    | kp where "?from = Ok kp" "(case OpaqueResponder_new D kp (read_bytes (h_mem ?f) seed 32) of
        Err _ \<Rightarrow> Some (to_c_int InvalidInput, ?f)
      | Panic \<Rightarrow> Some (FFI_PANIC, ?f)
      | Ok responder \<Rightarrow> Some (0, ?f\<lparr>h_relays := (h_relays ?f)(box \<mapsto> \<lparr>rh_responder = responder, rh_in_use = False\<rparr>),
          h_mem := write_ptr (h_mem ?f) out box\<rparr>)) = Some (c, g)"
    using assms(3) np unfolding opaque_relay_create_with_keys_def Let_def
    by (cases ?from) (simp_all split: if_split_asm)
  then show ?thesis
  proof cases
    case (2 kp)
    then have "keypair_valid D kp" using assms(1) by (auto simp: ResponderKeyPair_from_keys_Ok_iff keypair_valid_def)
    with 2(2) show ?thesis by (intro publish_relay_inv [OF assms(1) inv]) simp_all
  qed (use assms(2) inv in auto)
qed

lemma opaque_relay_create_inv:
  assumes "deps_laws D" "relay_heap_inv D f" "opaque_relay_create D h out box f = Some (c, g)"
  shows "relay_heap_inv D g \<and> relay_code c"
proof -
  let ?f = "f\<lparr>h_mem := write_ptr (h_mem f) out 0\<rparr>"
  have inv: "relay_heap_inv D ?f" using assms(2) by (simp add: relay_heap_inv_mem)
  show ?thesis
  proof (cases "out = 0 \<or> h = 0")
    case True
    then show ?thesis using assms(2,3) inv by (auto simp: opaque_relay_create_def acquire_relay_keypair_def Let_def split: if_splits)
  next
    case False
    then obtain kh where kh: "h_keypairs f h = Some kh"
      using assms(3) by (auto simp: opaque_relay_create_def acquire_relay_keypair_def Let_def split: option.splits)
    then have live: "\<not> kh_in_use kh" "keypair_valid D (kh_keypair kh)" "length (kh_oprf_seed kh) = 32"
      using assms(2) by (auto simp: relay_heap_inv_def keypair_live_def)
    have acq: "acquire_relay_keypair ?f h = Some (Ok (kh\<lparr>kh_in_use := True\<rparr>, ?f\<lparr>h_keypairs := (h_keypairs ?f)(h \<mapsto> kh\<lparr>kh_in_use := True\<rparr>)\<rparr>))"
      using False kh live(1) by (intro relay_keypair_handles.acquire_free) simp_all
    have same: "(h_keypairs f)(h \<mapsto> kh\<lparr>kh_in_use := False\<rparr>) = h_keypairs f"
      using kh live(1) by (auto simp: fun_upd_idem)
    show ?thesis
    proof (rule publish_relay_inv [OF assms(1) inv live(2,3)])
      show "(case OpaqueResponder_new D (kh_keypair kh) (kh_oprf_seed kh) of
        Err _ \<Rightarrow> Some (to_c_int InvalidInput, ?f)
      | Panic \<Rightarrow> Some (FFI_PANIC, ?f)
      | Ok responder \<Rightarrow> Some (0, ?f\<lparr>h_relays := (h_relays ?f)(box \<mapsto> \<lparr>rh_responder = responder, rh_in_use = False\<rparr>),
          h_mem := write_ptr (h_mem ?f) out box\<rparr>)) = Some (c, g)"
        using assms(3) False
        by (cases "OpaqueResponder_new D (kh_keypair kh) (kh_oprf_seed kh)")
          (simp_all add: opaque_relay_create_def acq [simplified] release_relay_keypair_def same Let_def)
    qed
  qed
qed

text \<open>The plain calls change nothing but their output buffer, and that only on success.\<close>

lemma relay_plain_call_effect:
  assumes "deps_laws D" "relay_heap_inv D f" "relay_plain_call D A f c g"
  shows "relay_code c \<and> (\<exists>m. g = f\<lparr>h_mem := m\<rparr> \<and> (c \<noteq> 0 \<longrightarrow> m = h_mem f) \<and> (\<forall>a. a \<notin> A \<longrightarrow> m a = h_mem f a))"
  using assms(3)
proof cases
  case (call_public_key h out len)
  have live: "\<not> kh_in_use kh" "length (kp_public_key (kh_keypair kh)) = 32" if "h_keypairs f h = Some kh" for kh
    using that assms(1,2) keypair_validD(2) [of D "kh_keypair kh"] by (auto simp: relay_heap_inv_def keypair_live_def)
  have same: "(h_keypairs f)(h \<mapsto> kh\<lparr>kh_in_use := False\<rparr>) = h_keypairs f" if "h_keypairs f h = Some kh" for kh
    using that live(1) [OF that] by (auto simp: fun_upd_idem)
  show ?thesis
  proof (cases "out = 0 \<or> unat len < 32 \<or> h = 0")
    case True
    then have "c = -1 \<and> g = f" using call_public_key(2)
      by (auto simp: opaque_relay_keypair_get_public_key_def relay_keypair_handles.guarded_eq split: if_splits)
    then show ?thesis by (auto intro: exI [of _ "h_mem f"])
  next
    case False
    then obtain kh where kh: "h_keypairs f h = Some kh" using call_public_key(2)
      by (auto simp: opaque_relay_keypair_get_public_key_def relay_keypair_handles.guarded_eq split: option.splits)
    have "c = 0 \<and> g = f\<lparr>h_mem := write_bytes (h_mem f) out (kp_public_key (kh_keypair kh))\<rparr>"
      using False call_public_key(2) kh live(1) [OF kh] same [OF kh]
      by (simp add: opaque_relay_keypair_get_public_key_def relay_keypair_handles.guarded_eq release_relay_keypair_def)
    then show ?thesis using call_public_key(1) live(2) [OF kh]
      by (intro conjI exI [of _ "write_bytes (h_mem f) out (kp_public_key (kh_keypair kh))"]) (auto simp: write_bytes_outside)
  qed
next
  case (call_response r req n aid k out len)
  have live: "OpaqueResponder_wf (rh_responder rh)" "\<not> rh_in_use rh" if "h_relays f r = Some rh" for rh
    using that assms(2) by (auto simp: relay_heap_inv_def relay_live_def)
  let ?out = "\<lambda>rh f. registration_response_body D (read_bytes (h_mem f) req (unat n)) (read_bytes (h_mem f) aid (unat k)) out rh (h_mem f)"
  let ?body = "\<lambda>rh f. let (code, m) = ?out rh f in Some (code, f\<lparr>h_mem := m\<rparr>)"
  have "guarded acquire_relay release_relay r f ?body =
     (if r = 0 then Some (-1, f)
      else case h_relays f r of None \<Rightarrow> None
      | Some rh \<Rightarrow> if rh_in_use rh then Some (-100, f) else ?body (rh\<lparr>rh_in_use := True\<rparr>) f)"
    by (rule relay_guarded) (auto split: prod.splits)
  then consider "c = -1" "g = f" | rh where "h_relays f r = Some rh" "?body (rh\<lparr>rh_in_use := True\<rparr>) f = Some (c, g)"
    using call_response(2) live(2) unfolding opaque_relay_create_registration_response_def Let_def
    by (auto split: if_split_asm option.split_asm)
  then consider "c = -1" "g = f" | rh m where "h_relays f r = Some rh" "?out (rh\<lparr>rh_in_use := True\<rparr>) f = (c, m)" "g = f\<lparr>h_mem := m\<rparr>"
    by cases (auto split: prod.splits)
  then show ?thesis
  proof cases
    case (2 rh m)
    have "-10 \<le> c \<and> c \<le> 0 \<and> (c \<noteq> 0 \<longrightarrow> m = h_mem f) \<and> (\<forall>a. a \<notin> window out 65 \<longrightarrow> m a = h_mem f a)"
      by (rule registration_response_body_frame [OF _ 2(2)]) (simp add: live(1) [OF 2(1)])
    then show ?thesis using call_response(1) 2(3) by auto
  qed (auto intro: exI [of _ "h_mem f"])
next
  case (call_credentials rec n out len)
  let ?rec = "read_bytes (h_mem f) rec 201"
  obtain c1 m1 where run: "build_credentials_body D ?rec out (h_mem f) = (c1, m1)" by fastforce
  have "c = -1 \<and> g = f \<or> c = c1 \<and> g = f\<lparr>h_mem := m1\<rparr>"
    using call_credentials(2) run unfolding opaque_relay_build_credentials_def Let_def
    by (simp split: if_split_asm)
  then consider "c = -1" "g = f" | m where "build_credentials_body D ?rec out (h_mem f) = (c, m)" "g = f\<lparr>h_mem := m\<rparr>"
    using run by blast
  then show ?thesis
  proof cases
    case (2 m)
    have "-10 \<le> c \<and> c \<le> 0 \<and> (c \<noteq> 0 \<longrightarrow> m = h_mem f) \<and> (\<forall>a. a \<notin> window out 201 \<longrightarrow> m a = h_mem f a)"
      using 2(1) registration_record_codec.parse_no_panic [of ?rec] validate_no_panic(1) 
      by (auto simp: build_credentials_body_eq [OF assms(1)] write_bytes_outside split: result.splits)
    then show ?thesis using call_credentials(1) 2(2) by auto
  qed (auto intro: exI [of _ "h_mem f"])
qed

text \<open>A call on a session is refused with the heap untouched, or runs a sound closure.\<close>

lemma relay_session_call_outcome:
  assumes "deps_laws D" "relay_heap_inv D f" "relay_session_call D r s A f c g"
  obtains (refused) "c \<in> {-1, -101}" "g = f"
  | (ran) sh operation where "h_relay_states f s = Some sh" "relay_state_live D sh" "relay_op_sound D operation"
      "writes_only A operation" "relay_finished_call D s operation sh f = (c, g)"
proof -
  have body: thesis
    if "relay_state_call D s operation f = Some (c, g)" "relay_op_sound D operation" "writes_only A operation" for operation
    using that assms(2) refused ran
    by (auto simp: relay_state_call_eq relay_heap_inv_def relay_state_live_def split: if_splits option.splits)
  have live: "relay_live D rh" if "h_relays f r = Some rh" for rh using that assms(2) by (simp add: relay_heap_inv_def)
  show thesis using assms(3)
  proof cases
    case (call_ke2 ke1 n aid k cred l out len)
    let ?op = "\<lambda>rh creds. generate_ke2_op D (rh_responder rh) ke1 n aid k creds out"
    let ?body = "\<lambda>rh f. case ke2_credentials D (rh_responder rh) (h_mem f) cred l of
           Err code \<Rightarrow> Some (code, f) | Panic \<Rightarrow> Some (FFI_PANIC, f)
         | Ok creds \<Rightarrow> relay_state_call D s (?op rh creds) f"
    have "guarded acquire_relay release_relay r f ?body =
     (if r = 0 then Some (-1, f)
      else case h_relays f r of None \<Rightarrow> None
      | Some rh \<Rightarrow> if rh_in_use rh then Some (-100, f) else ?body (rh\<lparr>rh_in_use := True\<rparr>) f)"
      by (rule relay_guarded) (auto simp: relay_state_call_frame(1) dest: relay_state_call_frame(2) split: result.splits)
    then consider "c = -1" "g = f" | rh where "h_relays f r = Some rh" "?body (rh\<lparr>rh_in_use := True\<rparr>) f = Some (c, g)"
      using call_ke2(2) live unfolding opaque_relay_generate_ke2_def
      by (auto simp: relay_live_def split: if_splits option.splits)
    then show thesis
    proof cases
      case (2 rh)
      have wf: "OpaqueResponder_wf (rh_responder rh)" and kp: "keypair_valid D (or_keypair (rh_responder rh))"
        using live [OF 2(1)] by (simp_all add: relay_live_def)
      note creds = ke2_credentials_cases [OF assms(1) kp, of "h_mem f" cred l]
      show thesis
      proof (cases "ke2_credentials D (rh_responder rh) (h_mem f) cred l")
        case (Ok cr)
        then have "relay_state_call D s (?op rh cr) f = Some (c, g)" using 2(2) by simp
        then show thesis
          using generate_ke2_sound [OF assms(1) wf creds(3) [OF Ok]] generate_ke2_writes_only call_ke2(1)
          by (intro body [of "?op rh cr"]) simp_all
      next
        case (Err e)
        then show thesis using 2(2) creds(2) [OF Err] by (intro refused) simp_all
      next
        case Panic
        then show thesis using creds(1) by simp
      qed
    qed (use refused in simp)
  next
    case (call_relay_finish ke3 n out len)
    let ?op = "relay_finish_op D ke3 n out"
    have "guarded acquire_relay release_relay r f (\<lambda>_ f. relay_state_call D s ?op f) =
     (if r = 0 then Some (-1, f)
      else case h_relays f r of None \<Rightarrow> None
      | Some rh \<Rightarrow> if rh_in_use rh then Some (-100, f) else relay_state_call D s ?op f)"
      by (rule relay_guarded) (auto simp: relay_state_call_frame(1) dest: relay_state_call_frame(2))
    then consider "c = -1" "g = f" | rh where "h_relays f r = Some rh" "relay_state_call D s ?op f = Some (c, g)"
      using call_relay_finish(2) live unfolding opaque_relay_finish_def
      by (auto simp: relay_live_def split: if_splits option.splits)
    then show thesis
    proof cases
      case (2 rh)
      have "OpaqueResponder_wf (rh_responder rh)" using live [OF 2(1)] by (simp add: relay_live_def)
      then show thesis using relay_finish_sound [OF assms(1)] relay_finish_writes_only call_relay_finish(1) 2(2)
        by (intro body [of ?op]) simp_all
    qed (use refused in simp)
  qed
qed

text \<open>What a call that ran leaves behind.\<close>

definition relay_call_effect ::
  "('s, 'p, 'ek, 'dk) deps \<Rightarrow> addr \<Rightarrow> addr set \<Rightarrow> RelayStateHandle \<Rightarrow> relay_heap \<Rightarrow> int \<Rightarrow> relay_heap \<Rightarrow> bool" where
  "relay_call_effect D s A sh f c g \<longleftrightarrow> (\<exists>sh' m w.
     g = f\<lparr>h_relay_states := (h_relay_states f)(s \<mapsto> sh'), h_mem := m, h_world := w\<rparr> \<and>
     responder_inv (rsh_state sh') \<and> \<not> rsh_in_use sh' \<and>
     (\<exists>es. run (responder_any_step D) (rsh_state sh) es (rsh_state sh')) \<and>
     -10 \<le> c \<and> c \<le> 0 \<and> (c \<noteq> 0 \<longrightarrow> r_phase (rsh_state sh') = RFinished \<and> m = h_mem f) \<and>
     (\<forall>a. a \<notin> A \<longrightarrow> m a = h_mem f a))"

lemma relay_finished_call_effect:
  assumes laws: "deps_laws D" and inv: "responder_inv (rsh_state sh)" and op: "relay_op_sound D operation"
    and out: "writes_only A operation" and fin: "relay_finished_call D s operation sh f = (c, g)"
  shows "relay_call_effect D s A sh f c g"
proof -
  let ?sh = "sh\<lparr>rsh_in_use := True\<rparr>"
  obtain sh1 m w where run: "run_relay_stateful D operation ?sh (h_mem f) (h_world f) = (c, sh1, m, w)"
    and g: "g = f\<lparr>h_relay_states := (h_relay_states f)(s \<mapsto> sh1\<lparr>rsh_in_use := False\<rparr>), h_mem := m, h_world := w\<rparr>"
    using fin by (auto simp: relay_finished_call_def split: prod.splits)
  have post: "leaves (operation ?sh (h_mem f) (h_world f)) (relay_post D ?sh)"
    using op inv by (simp add: relay_op_sound_def)
  have frame: "(c \<noteq> 0 \<longrightarrow> m = h_mem f) \<and> (\<forall>a. a \<notin> A \<longrightarrow> m a = h_mem f a)"
    using relay_runner.runner_frame [OF run out] .
  have "responder_inv (rsh_state sh1) \<and> (\<exists>es. run (responder_any_step D) (rsh_state sh) es (rsh_state sh1)) \<and>
     -10 \<le> c \<and> c \<le> 0 \<and> (c \<noteq> 0 \<longrightarrow> r_phase (rsh_state sh1) = RFinished)"
    using run
  proof (cases rule: relay_runner.runner_cases)
    case success
    then show ?thesis using leavesD [OF post success(1)] by (auto simp: relay_post_def)
  next
    case (failure e h1)
    then obtain es where h1: "responder_inv (rsh_state h1)" "run (responder_any_step D) (rsh_state sh) es (rsh_state h1)"
      using leavesD [OF post failure(1)] by (auto simp: relay_post_def)
    have "run (responder_any_step D) (rsh_state h1) [ResponderInvalidate] (responder_invalidate D (rsh_state h1))"
      by (simp add: run_Cons_iff any_step_invalidate)
    with h1(2) have "\<exists>es. run (responder_any_step D) (rsh_state sh) es (responder_invalidate D (rsh_state h1))"
      by (blast intro: run_append)
    then show ?thesis using failure(2,3) laws responder_invalidate_props [OF _ responder_inv_wf [OF h1(1)], of D]
        responder_inv_wf [OF h1(1)] by (auto simp: invalidate_relay_state_def)
  next
    case (panic h1)
    then show ?thesis using leavesD [OF post panic(1)] by (simp add: relay_post_def)
  qed
  then show ?thesis using frame unfolding relay_call_effect_def g
    by (intro exI [of _ "sh1\<lparr>rsh_in_use := False\<rparr>"] exI [of _ m] exI [of _ w]) simp
qed

lemma relay_session_call_effect:
  assumes "deps_laws D" "relay_heap_inv D f" "relay_session_call D r s A f c g"
  obtains (refused) "c \<in> {-1, -101}" "g = f"
  | (ran) sh where "h_relay_states f s = Some sh" "relay_state_live D sh" "relay_call_effect D s A sh f c g"
  using assms
proof (cases rule: relay_session_call_outcome)
  case (ran sh operation)
  then have "relay_call_effect D s A sh f c g"
    by (intro relay_finished_call_effect [OF assms(1)]) (simp_all add: relay_state_live_def)
  with ran that(2) show thesis by blast
qed (use that in blast)

lemma relay_session_call_inv:
  assumes "deps_laws D" "relay_heap_inv D f" "relay_session_call D r s A f c g"
  shows "relay_heap_inv D g \<and> relay_code c"
  using assms
proof (cases rule: relay_session_call_effect)
  case (ran sh)
  then obtain w es where "run (responder_any_step D) (fst (ResponderState_new w)) es (rsh_state sh)"
    unfolding relay_state_live_def by blast
  then have "relay_state_live D sh'" if "responder_inv (rsh_state sh')" "\<not> rsh_in_use sh'"
      "run (responder_any_step D) (rsh_state sh) es' (rsh_state sh')" for sh' es'
    using that unfolding relay_state_live_def by (blast intro: run_append)
  then show ?thesis using ran assms(2) by (auto simp: relay_call_effect_def relay_heap_inv_def split: if_splits)
qed (use assms in auto)

lemma relay_plain_call_inv:
  assumes "deps_laws D" "relay_heap_inv D f" "relay_plain_call D A f c g"
  shows "relay_heap_inv D g \<and> relay_code c"
  using relay_plain_call_effect [OF assms] assms(2) by (auto simp: relay_heap_inv_mem)

lemma relay_api_inv:
  assumes "deps_laws D" "relay_heap_inv D f" "relay_api D f c g"
  shows "relay_heap_inv D g \<and> (\<forall>k. c = Some k \<longrightarrow> relay_code k)"
  using assms(3)
proof cases
  case (rapi_memory m)
  then show ?thesis using assms(2) by (simp add: relay_heap_inv_mem)
qed (auto simp: opaque_relay_destroy_def opaque_relay_state_destroy_def opaque_relay_keypair_destroy_def
    dest!: opaque_relay_keypair_generate_inv [OF assms(1,2)] opaque_relay_keypair_try_destroy_inv [OF assms(1,2)]
      opaque_relay_create_inv [OF assms(1,2)] opaque_relay_create_with_keys_inv [OF assms(1,2)]
      opaque_relay_try_destroy_inv [OF assms(1,2)] opaque_relay_state_create_inv [OF assms(2)]
      opaque_relay_state_try_destroy_inv [OF assms(1,2)] relay_plain_call_inv [OF assms(1,2)]
      relay_session_call_inv [OF assms(1,2)])

lemma relay_run_inv:
  "run (relay_api D) f cs g \<Longrightarrow> deps_laws D \<Longrightarrow> relay_heap_inv D f \<Longrightarrow>
     relay_heap_inv D g \<and> (\<forall>k. Some k \<in> set cs \<longrightarrow> relay_code k)"
proof (induction rule: run.induct)
  case (run_Cons f c g cs h)
  then show ?case using relay_api_inv [of D f c g] by auto
qed simp

lemma relay_heap_new_inv: "relay_heap_inv D (relay_heap_new m w)"
  by (simp add: relay_heap_inv_def relay_heap_new_def)

text \<open>Completion of a login on the server, on its own state.\<close>

lemma relay_finish_run:
  assumes "deps_laws D" "responder_inv (rsh_state sh)" "unat n = KE3_LENGTH"
    and "responder_is_expired (rsh_state sh) w = (ex, w1)"
    and "run_relay_stateful D (relay_finish_op D ke3 n out) sh m w = (c, sh', m', w')"
  shows "c = 0 \<longleftrightarrow> r_phase (rsh_state sh) = Ke2Generated \<and> \<not> ex \<and> r_session_key (rsh_state sh) \<noteq> zeros HASH_LENGTH \<and>
       read_bytes m ke3 KE3_LENGTH = PROTOCOL_VERSION_2 # r_expected_initiator_mac (rsh_state sh)"
    and "c = 0 \<Longrightarrow> r_phase (rsh_state sh') = RFinished \<and> r_handshake_complete (rsh_state sh') \<and>
       m' = write_bytes m out (r_session_key (rsh_state sh))"
proof -
  have wf: "responder_wf (rsh_state sh)" using assms(2) by (rule responder_inv_wf)
  obtain v mac where ke3: "read_bytes m ke3 65 = v # mac" "length mac = 64"
    using length_read_bytes [of m ke3 65] by (cases "read_bytes m ke3 65") auto
  have fin: "responder_finish D (v # mac) (rsh_state sh) (zeros 64) w =
     (if r_phase (rsh_state sh) \<noteq> Ke2Generated then (Err ValidationError, zeros 64, rsh_state sh, w)
      else if ex then (Err ValidationError, zeros 64, responder_invalidate D (rsh_state sh), w1)
      else if r_session_key (rsh_state sh) = zeros 64 then (Err ValidationError, zeros 64, rsh_state sh, w1)
      else if v \<noteq> PROTOCOL_VERSION_2 then (Err UnsupportedVersion, zeros 64, responder_close D False (rsh_state sh), w1)
      else if mac \<noteq> r_expected_initiator_mac (rsh_state sh)
      then (Err AuthenticationError, zeros 64, responder_close D False (rsh_state sh), w1)
      else (Ok (), r_session_key (rsh_state sh), responder_close D True (rsh_state sh), w1))"
    using responder_finish_eq [OF assms(1) wf _ assms(4), of "zeros 64" "v # mac"] ke3 by simp
  have n: "unat n = 65" using assms(3) by simp
  note run = assms(5) [unfolded run_relay_stateful_def relay_finish_op_def n]
  show "c = 0 \<longleftrightarrow> r_phase (rsh_state sh) = Ke2Generated \<and> \<not> ex \<and> r_session_key (rsh_state sh) \<noteq> zeros HASH_LENGTH \<and>
       read_bytes m ke3 KE3_LENGTH = PROTOCOL_VERSION_2 # r_expected_initiator_mac (rsh_state sh)"
    using run by (auto simp: ke3 fin ffi_error_to_int_def split: if_splits)
  show "r_phase (rsh_state sh') = RFinished \<and> r_handshake_complete (rsh_state sh') \<and>
       m' = write_bytes m out (r_session_key (rsh_state sh))" if "c = 0"
    using run that responder_close_props [OF _ wf, of D] assms(1)
    by (auto simp: ke3 fin ffi_error_to_int_def split: if_splits)
qed

text \<open>The samples: a server at address 24 and a session at address 16.\<close>

definition sample_relay :: RelayHandle where
  "sample_relay = \<lparr>rh_responder = sample_responder, rh_in_use = False\<rparr>"

definition sample_relay_heap :: relay_heap where
  "sample_relay_heap = snd (the (opaque_relay_state_create 8 16 (relay_heap_new (\<lambda>_. 0) sample_world)))"

lemma sample_relay_heap_props:
  "opaque_relay_state_create 8 16 (relay_heap_new (\<lambda>_. 0) sample_world) = Some (0, sample_relay_heap)"
  "h_relay_states sample_relay_heap 16 =
     Some \<lparr>rsh_state = fst (ResponderState_new sample_world), rsh_in_use = False\<rparr>"
  by (simp_all add: sample_relay_heap_def opaque_relay_state_create_def relay_heap_new_def Let_def split: prod.split)

lemma sample_relay_run: "run (relay_api sample) (relay_heap_new (\<lambda>_. 0) sample_world) [Some 0] sample_relay_heap"
  using rapi_state_create [of 16 "relay_heap_new (\<lambda>_. 0) sample_world" 8 0 sample_relay_heap sample] sample_relay_heap_props(1)
  by (auto simp: run_Cons_iff relay_heap_new_def)

lemma sample_keypair_valid: "keypair_valid sample sample_keypair"
  unfolding keypair_valid_def by (rule exI [of _ Z2]) (simp add: sample_keypair_def)

lemma sample_relay_live: "relay_live sample sample_relay"
  using OpaqueResponder_new_live [OF sample_laws sample_keypair_valid _ sample_responder_new(2)]
  by (simp add: sample_relay_def)

lemma sample_server_heap_inv: "relay_heap_inv sample (sample_relay_heap\<lparr>h_relays := [24 \<mapsto> sample_relay]\<rparr>)"
  using relay_run_inv [OF sample_relay_run sample_laws relay_heap_new_inv] sample_relay_live
  by (auto simp: relay_heap_inv_def)

definition sample_waiting :: RelayStateHandle where
  "sample_waiting = \<lparr>rsh_state = (fst (ResponderState_new sample_world))
       \<lparr>r_phase := Ke2Generated, r_session_key := replicate 64 1\<rparr>, rsh_in_use = False\<rparr>"

lemma sample_waiting_props:
  "responder_inv (rsh_state sample_waiting)" "\<not> rsh_in_use sample_waiting"
  "r_phase (rsh_state sample_waiting) = Ke2Generated" "r_session_key (rsh_state sample_waiting) = replicate 64 1"
  "replicate 64 (1 :: u8) \<noteq> zeros 64" "r_expected_initiator_mac (rsh_state sample_waiting) = zeros 64"
  "responder_is_expired (rsh_state sample_waiting) sample_world = (False, snd (instant_now sample_world))"
  by (simp_all add: sample_waiting_def responder_wf_def ResponderState_new_def instant_now_def zeros_def
      responder_is_expired_def sample_world_def checked_duration_since_def as_secs_def)

section \<open>Properties\<close>

text \<open>
  C16: from a process with no handles, after any sequence of calls of the server's C interface
  with any arguments, memory contents, random bytes and clock readings, no handle is left
  busy, every live session satisfies the session invariant, every server holds a matching
  key pair, every box returned to the allocator was wiped of keys, seeds and session
  secrets, and no call has returned the panic or the busy code.
\<close>

theorem relay_interface_invariant:
  assumes "deps_laws D" "run (relay_api D) (relay_heap_new m w) cs f"
  shows "(\<forall>h sh. h_relay_states f h = Some sh \<longrightarrow> \<not> rsh_in_use sh \<and> responder_inv (rsh_state sh)) \<and>
     (\<forall>h rh. h_relays f h = Some rh \<longrightarrow> \<not> rh_in_use rh \<and> keypair_valid D (or_keypair (rh_responder rh))) \<and>
     (\<forall>kh \<in> set (h_dropped_keypairs f). kp_private_key (kh_keypair kh) = zeros PRIVATE_KEY_LENGTH \<and>
        kh_oprf_seed kh = zeros OPRF_SEED_LENGTH) \<and>
     (\<forall>rh \<in> set (h_dropped_relays f). kp_private_key (or_keypair (rh_responder rh)) = zeros PRIVATE_KEY_LENGTH \<and>
        mem_oprf_seed (ev_self (or_evaluator (rh_responder rh))) = zeros OPRF_SEED_LENGTH) \<and>
     (\<forall>sh \<in> set (h_dropped_relay_states f). responder_wiped (rsh_state sh)) \<and>
     (\<forall>k. Some k \<in> set cs \<longrightarrow> -10 \<le> k \<and> k \<le> 0 \<or> k = -101)"
  using relay_run_inv [OF assms(2,1) relay_heap_new_inv]
  by (simp add: relay_heap_inv_def relay_state_live_def relay_live_def)

theorem relay_interface_invariant_witness:
  "\<exists>sh. h_relay_states sample_relay_heap 16 = Some sh \<and> \<not> rsh_in_use sh \<and> responder_inv (rsh_state sh)"
  using relay_interface_invariant [OF sample_laws sample_relay_run] sample_relay_heap_props(2) by blast

text \<open>
  The server's C interface refines the session machine: every session a program holds is
  in a state that calls of the Rust interface on one new session reach, each under some
  well-formed server.
\<close>

lemma relay_interface_refines_sessions:
  assumes "deps_laws D" "run (relay_api D) (relay_heap_new m w) cs f" "h_relay_states f h = Some sh"
  shows "\<exists>v es. run (responder_any_step D) (fst (ResponderState_new v)) es (rsh_state sh)"
  using relay_run_inv [OF assms(2,1) relay_heap_new_inv] assms(3)
  unfolding relay_heap_inv_def relay_state_live_def by blast

text \<open>
  C20: a call on a server session either is refused, for its arguments or for a corrupted
  credential record, and changes nothing, or runs on that one session: no other handle and
  no byte outside its output buffer changes, and if it returns an error no byte changes at
  all and the session is finished and wiped. The calls without a session change at most
  their output buffer, and that only on success.
\<close>

theorem relay_call_discipline:
  assumes "deps_laws D" "relay_heap_inv D f"
  shows "(relay_session_call D r s A f c g \<longrightarrow> c \<in> {-1, -101} \<and> g = f \<or>
      (\<exists>sh'. h_relay_states g = (h_relay_states f)(s \<mapsto> sh') \<and> h_relays g = h_relays f \<and> h_keypairs g = h_keypairs f \<and>
        (\<forall>x. x \<notin> A \<longrightarrow> h_mem g x = h_mem f x) \<and>
        (c \<noteq> 0 \<longrightarrow> h_mem g = h_mem f \<and> r_phase (rsh_state sh') = RFinished \<and> responder_wiped (rsh_state sh')))) \<and>
    (relay_plain_call D A f c g \<longrightarrow> (\<exists>m. g = f\<lparr>h_mem := m\<rparr> \<and> (c \<noteq> 0 \<longrightarrow> m = h_mem f) \<and>
        (\<forall>x. x \<notin> A \<longrightarrow> m x = h_mem f x)))"
proof -
  have "c \<in> {-1, -101} \<and> g = f \<or>
      (\<exists>sh'. h_relay_states g = (h_relay_states f)(s \<mapsto> sh') \<and> h_relays g = h_relays f \<and> h_keypairs g = h_keypairs f \<and>
        (\<forall>x. x \<notin> A \<longrightarrow> h_mem g x = h_mem f x) \<and>
        (c \<noteq> 0 \<longrightarrow> h_mem g = h_mem f \<and> r_phase (rsh_state sh') = RFinished \<and> responder_wiped (rsh_state sh')))"
    if call: "relay_session_call D r s A f c g"
    using assms call
  proof (cases rule: relay_session_call_effect)
    case (ran sh)
    then obtain sh' m w where "g = f\<lparr>h_relay_states := (h_relay_states f)(s \<mapsto> sh'), h_mem := m, h_world := w\<rparr>"
      "responder_inv (rsh_state sh')" "c \<noteq> 0 \<longrightarrow> r_phase (rsh_state sh') = RFinished \<and> m = h_mem f"
      "\<forall>x. x \<notin> A \<longrightarrow> m x = h_mem f x"
      unfolding relay_call_effect_def by blast
    then show ?thesis by (intro disjI2 exI [of _ sh']) (auto simp: responder_inv_def)
  qed simp
  then show ?thesis using relay_plain_call_effect [OF assms] by blast
qed

theorem relay_call_discipline_witness:
  "\<exists>g sh'. opaque_relay_finish sample 24 100 65 16 200 64 (sample_relay_heap\<lparr>h_relays := [24 \<mapsto> sample_relay]\<rparr>) = Some (-5, g) \<and>
     h_relay_states g 16 = Some sh' \<and> responder_wiped (rsh_state sh') \<and> h_mem g = h_mem sample_relay_heap"
proof -
  let ?f = "sample_relay_heap\<lparr>h_relays := [24 \<mapsto> sample_relay]\<rparr>"
  have "r_phase (fst (ResponderState_new sample_world)) = RCreated" by (rule ResponderState_new_props)
  then have "\<exists>g. opaque_relay_finish sample 24 100 65 16 200 64 ?f = Some (-5, g)"
    using sample_relay_heap_props(2)
    by (simp add: opaque_relay_finish_def relay_handles.guarded_eq relay_state_call_eq sample_relay_def
        ranges_overlap_def checked_add_def relay_finished_call_def run_relay_stateful_def relay_finish_op_def
        responder_finish_def ffi_error_to_int_def Let_def)
  then obtain g where call: "opaque_relay_finish sample 24 100 65 16 200 64 ?f = Some (-5, g)" by blast
  have "relay_session_call sample 24 16 (window 200 64) ?f (-5) g" using call_relay_finish [OF call] by simp
  then obtain sh' where "h_relay_states g = (h_relay_states ?f)(16 \<mapsto> sh')" "h_mem g = h_mem ?f" "responder_wiped (rsh_state sh')"
    using relay_call_discipline [OF sample_laws sample_server_heap_inv, of 24 16 "window 200 64" "-5" g] by auto
  with call show ?thesis by auto
qed

text \<open>
  The credentials of a login request: no record stands for an unregistered account, a
  record of the full length that parses and carries a valid client key is served as it is,
  any other record of that length is reported as corrupted and any other length refused.
\<close>

lemma ke2_credentials_exact:
  assumes "deps_laws D" "keypair_valid D (or_keypair resp)"
  shows "ke2_credentials D resp m p n =
     (if n = 0 then Ok ResponderCredentials_new
      else if unat n \<noteq> RESPONDER_CREDENTIALS_LENGTH then Err (-1)
      else case parse_registration_record (read_bytes m p RESPONDER_CREDENTIALS_LENGTH) of
        Ok v \<Rightarrow> (case validate_public_key D (rec_initiator_public_key v) of
            Ok _ \<Rightarrow> Ok \<lparr>c_envelope = rec_envelope v, c_masking_key = rec_masking_key v,
               c_initiator_public_key = rec_initiator_public_key v, c_registered = True\<rparr>
          | _ \<Rightarrow> Err FFI_CORRUPTED_RECORD)
      | _ \<Rightarrow> Err FFI_CORRUPTED_RECORD)"
  unfolding FFI_CORRUPTED_RECORD_def by (rule ke2_credentials_eq [OF assms(1) keypair_validD(3,2) [OF assms(2,1)]])

text \<open>
  \<open>opaque_relay_build_credentials\<close> on acceptable buffers: it accepts exactly the records
  that parse and carry a valid client key, and then the output buffer holds the record byte
  for byte; otherwise no byte changes and the code is that of the parser or of the key check.
\<close>

lemma build_credentials_verbatim:
  assumes "deps_laws D" "rec \<noteq> 0" "unat n = REGISTRATION_RECORD_LENGTH" "out \<noteq> 0"
    "RESPONDER_CREDENTIALS_LENGTH \<le> unat len" "\<not> ranges_overlap rec n out (of_nat RESPONDER_CREDENTIALS_LENGTH)"
  shows "\<exists>c g. opaque_relay_build_credentials D rec n out len f = Some (c, g) \<and>
     c = (case parse_registration_record (read_bytes (h_mem f) rec REGISTRATION_RECORD_LENGTH) of
        Ok v \<Rightarrow> (case validate_public_key D (rec_initiator_public_key v) of Ok _ \<Rightarrow> 0 | Err e \<Rightarrow> to_c_int e | Panic \<Rightarrow> -99)
      | Err e \<Rightarrow> to_c_int e | Panic \<Rightarrow> -99) \<and>
     (c = 0 \<longrightarrow> read_bytes (h_mem g) out RESPONDER_CREDENTIALS_LENGTH = read_bytes (h_mem f) rec REGISTRATION_RECORD_LENGTH) \<and>
     (c \<noteq> 0 \<longrightarrow> g = f)"
proof -
  have r: "read_bytes (write_bytes (h_mem f) out (read_bytes (h_mem f) rec 201)) out 201 = read_bytes (h_mem f) rec 201"
    using read_after_write [of "read_bytes (h_mem f) rec 201" "h_mem f" out] by simp
  show ?thesis
    using assms r
    by (auto simp: opaque_relay_build_credentials_def build_credentials_body_eq [OF assms(1)] FFI_PANIC_def
        split: result.split)
qed

text \<open>
  C30: \<open>opaque_relay_finish\<close> on live handles and acceptable buffers: it succeeds exactly for a
  session that waits for KE3, within its lifetime and with a session key, when the buffer
  holds the version byte and the expected MAC; then the output holds the session key. In
  every case the session is finished and wiped.
\<close>

theorem relay_finish_delivers:
  assumes "deps_laws D" "h_relays f r = Some rh" "relay_live D rh" "r \<noteq> 0"
    and "h_relay_states f s = Some sh" "\<not> rsh_in_use sh" "responder_inv (rsh_state sh)" "s \<noteq> 0"
    and "ke3 \<noteq> 0" "unat n = KE3_LENGTH" "out \<noteq> 0" "HASH_LENGTH \<le> unat len"
    and "\<not> ranges_overlap ke3 n out (of_nat HASH_LENGTH)"
    and "responder_is_expired (rsh_state sh) (h_world f) = (ex, w1)"
  shows "\<exists>c g sh'. opaque_relay_finish D r ke3 n s out len f = Some (c, g) \<and> h_relay_states g s = Some sh' \<and>
     r_phase (rsh_state sh') = RFinished \<and> responder_wiped (rsh_state sh') \<and>
     (c = 0 \<longleftrightarrow> r_phase (rsh_state sh) = Ke2Generated \<and> \<not> ex \<and> r_session_key (rsh_state sh) \<noteq> zeros HASH_LENGTH \<and>
        read_bytes (h_mem f) ke3 KE3_LENGTH = PROTOCOL_VERSION_2 # r_expected_initiator_mac (rsh_state sh)) \<and>
     (c \<noteq> 0 \<longrightarrow> h_mem g = h_mem f) \<and>
     (c = 0 \<longrightarrow> r_handshake_complete (rsh_state sh') \<and>
        read_bytes (h_mem g) out HASH_LENGTH = r_session_key (rsh_state sh))"
proof -
  let ?op = "relay_finish_op D ke3 n out" and ?sh = "sh\<lparr>rsh_in_use := True\<rparr>"
  obtain c sh1 m w where run: "run_relay_stateful D ?op ?sh (h_mem f) (h_world f) = (c, sh1, m, w)"
    by (metis prod.collapse)
  define g where "g = f\<lparr>h_relay_states := (h_relay_states f)(s \<mapsto> sh1\<lparr>rsh_in_use := False\<rparr>), h_mem := m, h_world := w\<rparr>"
  have fin: "relay_finished_call D s ?op sh f = (c, g)" by (simp add: relay_finished_call_def run g_def)
  have wf: "OpaqueResponder_wf (rh_responder rh)" "\<not> rh_in_use rh" using assms(3) by (simp_all add: relay_live_def)
  have "guarded acquire_relay release_relay r f (\<lambda>_ f. relay_state_call D s ?op f) = relay_state_call D s ?op f"
    using assms(2,4) wf(2)
    by (subst relay_guarded) (auto simp: relay_state_call_frame(1) dest: relay_state_call_frame(2))
  moreover have "relay_state_call D s ?op f = Some (c, g)" using assms(5,6,8) fin by (simp add: relay_state_call_eq)
  ultimately have call: "opaque_relay_finish D r ke3 n s out len f = Some (c, g)"
    using assms(9-13) by (simp add: opaque_relay_finish_def)
  have eff: "relay_call_effect D s (window out HASH_LENGTH) sh f c g"
    by (rule relay_finished_call_effect [OF assms(1,7) relay_finish_sound [OF assms(1) wf(1)] relay_finish_writes_only fin])
  then obtain sh' where sh': "h_relay_states g s = Some sh'" "responder_inv (rsh_state sh')"
    "c \<noteq> 0 \<Longrightarrow> r_phase (rsh_state sh') = RFinished \<and> h_mem g = h_mem f"
    unfolding relay_call_effect_def by auto
  have "rsh_state sh' = rsh_state sh1" "h_mem g = m" using sh'(1) by (auto simp: g_def)
  moreover have "length (r_session_key (rsh_state sh)) = 64"
    using assms(7) by (simp add: responder_wf_lengths(6) responder_inv_wf)
  ultimately show ?thesis
    using call sh' relay_finish_run [OF assms(1) _ assms(10) _ run, of ex w1] assms(7,14)
      read_after_write [of "r_session_key (rsh_state sh)" "h_mem f" out]
    by (intro exI [of _ c] exI [of _ g] exI [of _ sh']) (auto simp: responder_inv_def)
qed

theorem relay_finish_delivers_witness:
  "\<exists>g sh'. opaque_relay_finish sample 24 100 65 16 200 64
       (sample_relay_heap\<lparr>h_world := sample_world, h_mem := write_bytes (\<lambda>_. 0) 100 (2 # zeros 64),
          h_relays := [24 \<mapsto> sample_relay], h_relay_states := [16 \<mapsto> sample_waiting]\<rparr>) = Some (0, g) \<and>
     h_relay_states g 16 = Some sh' \<and> responder_wiped (rsh_state sh') \<and> r_handshake_complete (rsh_state sh') \<and>
     read_bytes (h_mem g) 200 64 = replicate 64 1"
proof -
  let ?f = "sample_relay_heap\<lparr>h_world := sample_world, h_mem := write_bytes (\<lambda>_. 0) 100 (2 # zeros 64),
          h_relays := [24 \<mapsto> sample_relay], h_relay_states := [16 \<mapsto> sample_waiting]\<rparr>"
  have ke3: "read_bytes (h_mem ?f) 100 65 = 2 # zeros 64"
    using read_after_write [of "2 # zeros 64" "\<lambda>_. 0" 100] by simp
  show ?thesis
    using relay_finish_delivers [OF sample_laws, of ?f 24 sample_relay 16 sample_waiting 100 65 200 64 False
        "snd (instant_now sample_world)"] sample_waiting_props sample_relay_live ke3
    by (auto simp: ranges_overlap_def checked_add_def)
qed

end
