(* ===== verification/Relay_Threads.thy ===== *)
theory Relay_Threads
  imports Relay_Ffi Handle_Threads
begin

text \<open>
  Calls of the server's C interface from several threads, in the steps of \<^verbatim>\<open>relay_ffi.rs\<close>. A
  call on a server is admitted to the server's handle first. A login request then reads the
  stored credentials, and only after that is it admitted to the session; its closure and the
  guards' destructors follow. The calls that use no server run in one step.
\<close>

section \<open>The exported functions as data\<close>

text \<open>The arguments of the three calls on a server, without the handles.\<close>

datatype relay_request =
    AskResponse addr addr addr addr addr addr
  | AskKe2 addr addr addr addr addr addr addr addr
  | AskFinish addr addr addr addr

fun relay_function ::
  "('s, 'p, 'ek, 'dk) deps \<Rightarrow> relay_request \<Rightarrow> addr \<Rightarrow> addr \<Rightarrow> relay_heap \<Rightarrow> (int \<times> relay_heap) option" where
  "relay_function D (AskResponse req n aid k out len) r s f =
     opaque_relay_create_registration_response D r req n aid k out len f"
| "relay_function D (AskKe2 ke1 n aid k cred l out len) r s f =
     opaque_relay_generate_ke2 D r ke1 n aid k cred l out len s f"
| "relay_function D (AskFinish ke3 n out len) r s f = opaque_relay_finish D r ke3 n s out len f"

fun relay_admits :: "relay_request \<Rightarrow> bool" where
  "relay_admits (AskResponse req n aid k out len) \<longleftrightarrow>
     \<not> (req = 0 \<or> unat n \<noteq> REGISTRATION_REQUEST_WIRE_LENGTH \<or> aid = 0 \<or> k = 0 \<or> MAX_ACCOUNT_ID_LENGTH < unat k
        \<or> out = 0 \<or> unat len < REGISTRATION_RESPONSE_WIRE_LENGTH
        \<or> ranges_overlap req n out (of_nat REGISTRATION_RESPONSE_WIRE_LENGTH)
        \<or> ranges_overlap aid k out (of_nat REGISTRATION_RESPONSE_WIRE_LENGTH))"
| "relay_admits (AskKe2 ke1 n aid k cred l out len) \<longleftrightarrow>
     \<not> (ke1 = 0 \<or> unat n \<noteq> KE1_LENGTH \<or> aid = 0 \<or> k = 0 \<or> MAX_ACCOUNT_ID_LENGTH < unat k
        \<or> out = 0 \<or> unat len < KE2_LENGTH \<or> ranges_overlap ke1 n out (of_nat KE2_LENGTH)
        \<or> ranges_overlap aid k out (of_nat KE2_LENGTH)) \<and>
     \<not> (l \<noteq> 0 \<and> (unat l \<noteq> RESPONDER_CREDENTIALS_LENGTH \<or> cred = 0 \<or> ranges_overlap cred l out (of_nat KE2_LENGTH)))"
| "relay_admits (AskFinish ke3 n out len) \<longleftrightarrow>
     \<not> (ke3 = 0 \<or> unat n \<noteq> KE3_LENGTH \<or> out = 0 \<or> unat len < HASH_LENGTH
        \<or> ranges_overlap ke3 n out (of_nat HASH_LENGTH))"

text \<open>
  What a call does once it holds the server: end at once with a code and a new memory, or go
  on to the session with a closure.
\<close>

fun relay_prepare ::
  "('s, 'p, 'ek, 'dk) deps \<Rightarrow> relay_request \<Rightarrow> RelayHandle \<Rightarrow> memory \<Rightarrow> (int \<times> memory) + relay_op" where
  "relay_prepare D (AskResponse req n aid k out len) rh m =
     Inl (registration_response_body D (read_bytes m req (unat n)) (read_bytes m aid (unat k)) out rh m)"
| "relay_prepare D (AskKe2 ke1 n aid k cred l out len) rh m =
     (case ke2_credentials D (rh_responder rh) m cred l of
        Err code \<Rightarrow> Inl (code, m)
      | Panic \<Rightarrow> Inl (FFI_PANIC, m)
      | Ok creds \<Rightarrow> Inr (generate_ke2_op D (rh_responder rh) ke1 n aid k creds out))"
| "relay_prepare D (AskFinish ke3 n out len) rh m = Inr (relay_finish_op D ke3 n out)"

lemma relay_heap_same_mem [simp]: "f\<lparr>h_mem := h_mem f\<rparr> = (f :: relay_heap)"
  by simp

lemma case_sum_result:
  "(case (case x of Ok v \<Rightarrow> Inr (h v) | Err e \<Rightarrow> Inl (i e) | Panic \<Rightarrow> Inl j) of Inl p \<Rightarrow> L p | Inr q \<Rightarrow> R q) =
     (case x of Ok v \<Rightarrow> R (h v) | Err e \<Rightarrow> L (i e) | Panic \<Rightarrow> L j)"
  by (cases x) simp_all

lemma relay_function_eq:
  "relay_function D req r s f =
     (if relay_admits req then guarded acquire_relay release_relay r f (\<lambda>rh f.
        case relay_prepare D req rh (h_mem f) of
          Inl (code, m) \<Rightarrow> Some (code, f\<lparr>h_mem := m\<rparr>)
        | Inr operation \<Rightarrow> relay_state_call D s operation f)
      else Some (-1, f))"
proof (cases req)
  case (AskKe2 ke1 n aid k cred l out len)
  then show ?thesis by (cases "relay_admits req") (auto simp: opaque_relay_generate_ke2_def case_sum_result cong: result.case_cong)
qed (simp_all add: opaque_relay_create_registration_response_def opaque_relay_finish_def Let_def case_prod_beta)

lemma relay_function_api: "relay_function D req r s f = Some (c, g) \<Longrightarrow> relay_api D f (Some c) g"
  by (cases req) (auto intro: rapi_session rapi_plain relay_session_call.intros relay_plain_call.intros)

text \<open>The stored credentials are the only input read before the closure runs.\<close>

fun relay_inputs :: "relay_request \<Rightarrow> addr set" where
  "relay_inputs (AskResponse req n aid k out len) = window req (unat n) \<union> window aid (unat k)"
| "relay_inputs (AskKe2 ke1 n aid k cred l out len) = window ke1 (unat n) \<union> window aid (unat k) \<union> window cred (unat l)"
| "relay_inputs (AskFinish ke3 n out len) = window ke3 (unat n)"

lemma ke2_credentials_window:
  assumes "\<And>a. a \<in> window p (unat n) \<Longrightarrow> m a = m' a"
  shows "ke2_credentials D resp m p n = ke2_credentials D resp m' p n"
proof -
  have "read_bytes m p (unat n) = read_bytes m' p (unat n)"
    by (rule read_bytes_window) (use assms unsigned_less [of n] in simp_all)
  then have "ke2_credential_wire resp m p n = ke2_credential_wire resp m' p n" by (simp only: ke2_credential_wire_def)
  then show ?thesis by (simp only: ke2_credentials_def)
qed

lemma relay_prepare_window:
  assumes "relay_prepare D req rh m = Inr operation" "\<And>a. a \<in> relay_inputs req \<Longrightarrow> m a = m' a"
  shows "relay_prepare D req rh m' = Inr operation"
proof (cases req)
  case (AskKe2 ke1 n aid k cred l out len)
  then have "ke2_credentials D resp m cred l = ke2_credentials D resp m' cred l" for resp
    by (intro ke2_credentials_window) (use assms(2) in simp)
  then show ?thesis using assms(1) by (auto simp: AskKe2 split: result.splits)
qed (use assms(1) in simp_all)

text \<open>No closure touches the flag of the session it runs on.\<close>

lemma relay_closure_keeps_flag:
  "relay_prepare D req rh m0 = Inr operation \<Longrightarrow> leaves (operation sh m w) (\<lambda>_ t. rsh_in_use (fst t) = rsh_in_use sh)"
  by (cases req) (auto simp: generate_ke2_op_def relay_finish_op_def Let_def split: result.splits intro!: leaves_rules)

lemma run_relay_stateful_flag:
  assumes "relay_prepare D req rh m0 = Inr operation" "run_relay_stateful D operation sh m w = (c, sh', m', w')"
  shows "rsh_in_use sh' = rsh_in_use sh"
  using relay_closure_keeps_flag [OF assms(1), of sh m w] assms(2)
  by (auto simp: leaves_def run_relay_stateful_def invalidate_relay_state_def split: prod.splits result.splits)

section \<open>The steps of a call\<close>

datatype relay_pc =
    Waiting
  | Invoked addr addr relay_request
  | HoldsRelay addr addr relay_request RelayHandle
  | Prepared addr addr relay_request RelayHandle relay_op
  | HoldsSession addr addr relay_request RelayHandle relay_op RelayStateHandle
  | Ran addr addr int
  | SessionReleased addr int
  | Answered int

inductive relay_thread ::
  "('s, 'p, 'ek, 'dk) deps \<Rightarrow> relay_pc \<Rightarrow> relay_heap \<Rightarrow> int option list \<Rightarrow> relay_pc \<Rightarrow> relay_heap \<Rightarrow> bool"
  for D :: "('s, 'p, 'ek, 'dk) deps" where
  rthread_reject: "\<not> relay_admits req \<Longrightarrow> relay_thread D (Invoked r s req) f [] (Answered (-1)) f"
| rthread_relay: "relay_admits req \<Longrightarrow> acquire_relay f r = Some (Ok (rh, g)) \<Longrightarrow>
     relay_thread D (Invoked r s req) f [] (HoldsRelay r s req rh) g"
| rthread_relay_refused: "relay_admits req \<Longrightarrow> acquire_relay f r = Some (Err e) \<Longrightarrow>
     relay_thread D (Invoked r s req) f [] (Answered (handle_access_to_int e)) f"
| rthread_plain: "relay_prepare D req rh (h_mem f) = Inl (c, m) \<Longrightarrow>
     relay_thread D (HoldsRelay r s req rh) f [Some c] (SessionReleased r c) (f\<lparr>h_mem := m\<rparr>)"
| rthread_prepare: "relay_prepare D req rh (h_mem f) = Inr operation \<Longrightarrow>
     relay_thread D (HoldsRelay r s req rh) f [] (Prepared r s req rh operation) f"
| rthread_session: "acquire_relay_state f s = Some (Ok (sh, g)) \<Longrightarrow>
     relay_thread D (Prepared r s req rh operation) f [] (HoldsSession r s req rh operation sh) g"
| rthread_session_refused: "acquire_relay_state f s = Some (Err e) \<Longrightarrow>
     relay_thread D (Prepared r s req rh operation) f [] (SessionReleased r (handle_access_to_int e)) f"
| rthread_execute: "run_relay_stateful D operation sh (h_mem f) (h_world f) = (c, sh', m, w) \<Longrightarrow>
     relay_thread D (HoldsSession r s req rh operation sh) f [Some c] (Ran r s c)
       (f\<lparr>h_relay_states := (h_relay_states f)(s \<mapsto> sh'), h_mem := m, h_world := w\<rparr>)"
| rthread_release_session: "relay_thread D (Ran r s c) f [] (SessionReleased r c) (release_relay_state s f)"
| rthread_release_relay: "relay_thread D (SessionReleased r c) f [] (Answered c) (release_relay r f)"

inductive_cases relay_thread_E: "relay_thread D p f l q g"

section \<open>Interleavings\<close>

text \<open>
  What else happens in the process: the program writes its memory, generates key pairs,
  creates servers and sessions, builds credentials, and destroys handles no call is using.
\<close>

inductive relay_extern :: "('s, 'p, 'ek, 'dk) deps \<Rightarrow> relay_heap \<Rightarrow> int option \<Rightarrow> relay_heap \<Rightarrow> bool"
  for D :: "('s, 'p, 'ek, 'dk) deps" where
  rextern_memory: "relay_extern D f None (f\<lparr>h_mem := m\<rparr>)"
| rextern_generate: "box \<noteq> 0 \<Longrightarrow> h_keypairs f box = None \<Longrightarrow>
     opaque_relay_keypair_generate D out box f = Some (c, g) \<Longrightarrow> relay_extern D f (Some c) g"
| rextern_keypair_destroy: "opaque_relay_keypair_try_destroy D p f = Some (c, g) \<Longrightarrow> relay_extern D f (Some c) g"
| rextern_public_key: "opaque_relay_keypair_get_public_key h out len f = Some (c, g) \<Longrightarrow> relay_extern D f (Some c) g"
| rextern_create: "box \<noteq> 0 \<Longrightarrow> h_relays f box = None \<Longrightarrow>
     opaque_relay_create D h out box f = Some (c, g) \<Longrightarrow> relay_extern D f (Some c) g"
| rextern_create_with_keys: "box \<noteq> 0 \<Longrightarrow> h_relays f box = None \<Longrightarrow>
     opaque_relay_create_with_keys D sk n pk k seed l out box f = Some (c, g) \<Longrightarrow> relay_extern D f (Some c) g"
| rextern_destroy: "opaque_relay_try_destroy D p f = Some (c, g) \<Longrightarrow> c \<noteq> FFI_BUSY \<Longrightarrow> relay_extern D f (Some c) g"
| rextern_state_create: "box \<noteq> 0 \<Longrightarrow> h_relay_states f box = None \<Longrightarrow>
     opaque_relay_state_create out box f = Some (c, g) \<Longrightarrow> relay_extern D f (Some c) g"
| rextern_state_destroy: "opaque_relay_state_try_destroy D p f = Some (c, g) \<Longrightarrow> c \<noteq> FFI_BUSY \<Longrightarrow>
     relay_extern D f (Some c) g"
| rextern_credentials: "opaque_relay_build_credentials D rec n out len f = Some (c, g) \<Longrightarrow> relay_extern D f (Some c) g"

fun named_relay :: "relay_pc \<Rightarrow> addr option" where
  "named_relay (Invoked r s req) = Some r"
| "named_relay (HoldsRelay r s req rh) = Some r"
| "named_relay (Prepared r s req rh operation) = Some r"
| "named_relay (HoldsSession r s req rh operation sh) = Some r"
| "named_relay (Ran r s c) = Some r"
| "named_relay (SessionReleased r c) = Some r"
| "named_relay p = None"

fun named_session :: "relay_pc \<Rightarrow> addr option" where
  "named_session (Invoked r s req) = Some s"
| "named_session (HoldsRelay r s req rh) = Some s"
| "named_session (Prepared r s req rh operation) = Some s"
| "named_session (HoldsSession r s req rh operation sh) = Some s"
| "named_session (Ran r s c) = Some s"
| "named_session p = None"

text \<open>The input buffers of a call under way.\<close>

fun pc_inputs :: "relay_pc \<Rightarrow> addr set" where
  "pc_inputs (Invoked r s req) = relay_inputs req"
| "pc_inputs (HoldsRelay r s req rh) = relay_inputs req"
| "pc_inputs (Prepared r s req rh operation) = relay_inputs req"
| "pc_inputs (HoldsSession r s req rh operation sh) = relay_inputs req"
| "pc_inputs p = {}"

definition usable_relay :: "relay_heap \<Rightarrow> addr \<Rightarrow> bool" where
  "usable_relay f r \<longleftrightarrow> r = 0 \<or> h_relays f r \<noteq> None"

definition usable_session :: "relay_heap \<Rightarrow> addr \<Rightarrow> bool" where
  "usable_session f s \<longleftrightarrow> s = 0 \<or> h_relay_states f s \<noteq> None"

definition relay_resting :: "relay_pc \<Rightarrow> bool" where
  "relay_resting p \<longleftrightarrow> p = Waiting \<or> (\<exists>c. p = Answered c)"

text \<open>
  Steps of the whole process under the contract of the library: handles passed to a call are
  null or live, a handle is not destroyed while a call through it is under way, and nobody
  writes into the input buffers of a call of another thread.
\<close>

inductive relay_system ::
  "('s, 'p, 'ek, 'dk) deps \<Rightarrow> relay_heap \<times> (nat \<Rightarrow> relay_pc) \<Rightarrow> int option list \<Rightarrow> relay_heap \<times> (nat \<Rightarrow> relay_pc) \<Rightarrow> bool"
  for D :: "('s, 'p, 'ek, 'dk) deps" where
  rsystem_invoke: "relay_resting (P t) \<Longrightarrow> usable_relay f r \<Longrightarrow> usable_session f s \<Longrightarrow>
     relay_system D (f, P) [] (f, P(t := Invoked r s req))"
| rsystem_thread: "relay_thread D (P t) f l p g \<Longrightarrow>
     (\<And>u x. u \<noteq> t \<Longrightarrow> x \<in> pc_inputs (P u) \<Longrightarrow> h_mem g x = h_mem f x) \<Longrightarrow>
     relay_system D (f, P) l (g, P(t := p))"
| rsystem_extern: "relay_extern D f c g \<Longrightarrow>
     (\<And>u x. x \<in> pc_inputs (P u) \<Longrightarrow> h_mem g x = h_mem f x) \<Longrightarrow>
     (\<And>t r. named_relay (P t) = Some r \<Longrightarrow> usable_relay f r \<Longrightarrow> usable_relay g r) \<Longrightarrow>
     (\<And>t s. named_session (P t) = Some s \<Longrightarrow> usable_session f s \<Longrightarrow> usable_session g s) \<Longrightarrow>
     relay_system D (f, P) [c] (g, P)"
| rsystem_refused: "opaque_relay_try_destroy D p f = Some (FFI_BUSY, g) \<or>
     opaque_relay_state_try_destroy D p f = Some (FFI_BUSY, g) \<Longrightarrow> relay_system D (f, P) [] (g, P)"

section \<open>Ownership of handles\<close>

fun held_relay :: "relay_pc \<Rightarrow> addr option" where
  "held_relay (HoldsRelay r s req rh) = Some r"
| "held_relay (Prepared r s req rh operation) = Some r"
| "held_relay (HoldsSession r s req rh operation sh) = Some r"
| "held_relay (Ran r s c) = Some r"
| "held_relay (SessionReleased r c) = Some r"
| "held_relay p = None"

fun held_session :: "relay_pc \<Rightarrow> addr option" where
  "held_session (HoldsSession r s req rh operation sh) = Some s"
| "held_session (Ran r s c) = Some s"
| "held_session p = None"

definition busy_relays :: "relay_heap \<Rightarrow> addr set" where
  "busy_relays f = {r. \<exists>rh. h_relays f r = Some rh \<and> rh_in_use rh}"

definition busy_sessions :: "relay_heap \<Rightarrow> addr set" where
  "busy_sessions f = {s. \<exists>sh. h_relay_states f s = Some sh \<and> rsh_in_use sh}"

text \<open>What a thread knows; the credentials it has read are still those in memory.\<close>

fun rpc_ok :: "('s, 'p, 'ek, 'dk) deps \<Rightarrow> relay_heap \<Rightarrow> relay_pc \<Rightarrow> bool" where
  "rpc_ok D f (Invoked r s req) \<longleftrightarrow> usable_relay f r \<and> usable_session f s"
| "rpc_ok D f (HoldsRelay r s req rh) \<longleftrightarrow> r \<noteq> 0 \<and> h_relays f r = Some rh \<and> usable_session f s \<and> relay_admits req"
| "rpc_ok D f (Prepared r s req rh operation) \<longleftrightarrow> r \<noteq> 0 \<and> h_relays f r = Some rh \<and> usable_session f s \<and>
     relay_admits req \<and> relay_prepare D req rh (h_mem f) = Inr operation"
| "rpc_ok D f (HoldsSession r s req rh operation sh) \<longleftrightarrow> r \<noteq> 0 \<and> s \<noteq> 0 \<and> h_relays f r = Some rh \<and>
     h_relay_states f s = Some sh \<and> relay_admits req \<and> relay_prepare D req rh (h_mem f) = Inr operation"
| "rpc_ok D f p \<longleftrightarrow> True"

definition relay_system_inv :: "('s, 'p, 'ek, 'dk) deps \<Rightarrow> relay_heap \<Rightarrow> (nat \<Rightarrow> relay_pc) \<Rightarrow> bool" where
  "relay_system_inv D f P \<longleftrightarrow> (\<forall>t. rpc_ok D f (P t)) \<and>
     owned (busy_relays f) (\<lambda>t. held_relay (P t)) \<and> owned (busy_sessions f) (\<lambda>t. held_session (P t))"

lemma rpc_ok_frame:
  assumes "rpc_ok D f p"
    and "\<And>r. held_relay p = Some r \<Longrightarrow> h_relays g r = h_relays f r"
    and "\<And>s. held_session p = Some s \<Longrightarrow> h_relay_states g s = h_relay_states f s"
    and "\<And>r. named_relay p = Some r \<Longrightarrow> usable_relay f r \<Longrightarrow> usable_relay g r"
    and "\<And>s. named_session p = Some s \<Longrightarrow> usable_session f s \<Longrightarrow> usable_session g s"
    and "\<And>x. x \<in> pc_inputs p \<Longrightarrow> h_mem g x = h_mem f x"
  shows "rpc_ok D g p"
  using assms relay_prepare_window [of D _ _ "h_mem f" _ "h_mem g"] by (cases p) auto

lemma acquire_relay_Ok:
  "acquire_relay f r = Some (Ok (rh, g)) \<longleftrightarrow> (\<exists>x. r \<noteq> 0 \<and> h_relays f r = Some x \<and> \<not> rh_in_use x \<and>
     rh = x\<lparr>rh_in_use := True\<rparr> \<and> g = f\<lparr>h_relays := (h_relays f)(r \<mapsto> rh)\<rparr>)"
  by (auto simp: acquire_relay_def Let_def split: option.splits)

lemma acquire_relay_state_Ok:
  "acquire_relay_state f s = Some (Ok (sh, g)) \<longleftrightarrow> (\<exists>x. s \<noteq> 0 \<and> h_relay_states f s = Some x \<and> \<not> rsh_in_use x \<and>
     sh = x\<lparr>rsh_in_use := True\<rparr> \<and> g = f\<lparr>h_relay_states := (h_relay_states f)(s \<mapsto> sh)\<rparr>)"
  by (auto simp: acquire_relay_state_def Let_def split: option.splits)

definition rthread_effect :: "('s, 'p, 'ek, 'dk) deps \<Rightarrow> relay_pc \<Rightarrow> relay_heap \<Rightarrow> relay_pc \<Rightarrow> relay_heap \<Rightarrow> bool" where
  "rthread_effect D p f q g \<longleftrightarrow> rpc_ok D g q \<and>
     (\<forall>r. held_relay p \<noteq> Some r \<and> held_relay q \<noteq> Some r \<longrightarrow> h_relays g r = h_relays f r) \<and>
     (\<forall>s. held_session p \<noteq> Some s \<and> held_session q \<noteq> Some s \<longrightarrow> h_relay_states g s = h_relay_states f s) \<and>
     (\<forall>r. usable_relay g r \<longleftrightarrow> usable_relay f r) \<and> (\<forall>s. usable_session g s \<longleftrightarrow> usable_session f s) \<and>
     moved (busy_relays f) (held_relay p) (busy_relays g) (held_relay q) \<and>
     moved (busy_sessions f) (held_session p) (busy_sessions g) (held_session q)"

lemma relay_thread_effect:
  assumes "relay_thread D p f l q g" "rpc_ok D f p"
    and "\<And>r. held_relay p = Some r \<Longrightarrow> r \<in> busy_relays f" "\<And>s. held_session p = Some s \<Longrightarrow> s \<in> busy_sessions f"
  shows "rthread_effect D p f q g"
  using assms
proof cases
  case (rthread_execute operation sh c sh' m w r s req rh)
  then have "rsh_in_use sh' = rsh_in_use sh" using assms(2) run_relay_stateful_flag by fastforce
  then show ?thesis using rthread_execute assms(2-4)
    by (auto simp: rthread_effect_def moved_def busy_relays_def busy_sessions_def usable_relay_def usable_session_def)
qed (auto simp: rthread_effect_def moved_def busy_relays_def busy_sessions_def usable_relay_def usable_session_def
    acquire_relay_Ok acquire_relay_state_Ok release_relay_def release_relay_state_def split: if_splits)

lemma rsystem_thread_inv:
  assumes inv: "relay_system_inv D f P" and step: "relay_thread D (P t) f l p g"
    and inputs: "\<And>u x. u \<noteq> t \<Longrightarrow> x \<in> pc_inputs (P u) \<Longrightarrow> h_mem g x = h_mem f x"
  shows "relay_system_inv D g (P(t := p))"
proof -
  have own: "owned (busy_relays f) (\<lambda>t. held_relay (P t))" "owned (busy_sessions f) (\<lambda>t. held_session (P t))"
    using inv by (simp_all add: relay_system_inv_def)
  have eff: "rthread_effect D (P t) f p g"
    by (rule relay_thread_effect [OF step]) (use inv own in \<open>auto simp: relay_system_inv_def owned_def\<close>)
  then have move: "moved (busy_relays f) (held_relay (P t)) (busy_relays g) (held_relay p)"
    "moved (busy_sessions f) (held_session (P t)) (busy_sessions g) (held_session p)" by (simp_all add: rthread_effect_def)
  have upd: "(\<lambda>u. held_relay ((P(t := p)) u)) = (\<lambda>u. held_relay (P u))(t := held_relay p)"
    "(\<lambda>u. held_session ((P(t := p)) u)) = (\<lambda>u. held_session (P u))(t := held_session p)" by auto
  have "rpc_ok D g (P u)" if "u \<noteq> t" for u
    by (rule rpc_ok_frame [of D f "P u" g])
      (use inv eff inputs [OF that] owned_other [OF own(1) move(1) that] owned_other [OF own(2) move(2) that] in
        \<open>auto simp: relay_system_inv_def rthread_effect_def\<close>)
  moreover have "rpc_ok D g p" using eff by (simp add: rthread_effect_def)
  ultimately show ?thesis
    unfolding relay_system_inv_def upd using owned_step [OF own(1) move(1)] owned_step [OF own(2) move(2)] by simp
qed

text \<open>What the rest of the program does leaves busy boxes alone and makes no box busy.\<close>

lemma relay_extern_frame:
  assumes "relay_extern D f c g"
  shows "(\<forall>r \<in> busy_relays f. h_relays g r = h_relays f r) \<and> (\<forall>s \<in> busy_sessions f. h_relay_states g s = h_relay_states f s) \<and>
    busy_relays g = busy_relays f \<and> busy_sessions g = busy_sessions f"
  using assms
proof cases
  case (rextern_create box h out k)
  then show ?thesis
    by (auto simp: busy_relays_def busy_sessions_def opaque_relay_create_def acquire_relay_keypair_def release_relay_keypair_def
        Let_def split: if_splits option.splits result.splits)
next
  case (rextern_create_with_keys box sk n pk k seed l out kk)
  then show ?thesis
    by (auto simp: busy_relays_def busy_sessions_def opaque_relay_create_with_keys_def Let_def
        split: if_splits option.splits result.splits)
next
  case (rextern_public_key h out len k)
  then show ?thesis
    by (auto simp: busy_relays_def busy_sessions_def opaque_relay_keypair_get_public_key_def guarded_def acquire_relay_keypair_def
        release_relay_keypair_def Let_def split: if_splits option.splits)
qed (auto simp: busy_relays_def busy_sessions_def opaque_relay_keypair_generate_def opaque_relay_keypair_try_destroy_def
    opaque_relay_try_destroy_def opaque_relay_state_create_def opaque_relay_state_try_destroy_def
    opaque_relay_build_credentials_def Let_def split: if_splits option.splits result.splits prod.splits)

lemma rsystem_extern_inv:
  assumes inv: "relay_system_inv D f P" and ext: "relay_extern D f c g"
    and "\<And>u x. x \<in> pc_inputs (P u) \<Longrightarrow> h_mem g x = h_mem f x"
    and "\<And>t r. named_relay (P t) = Some r \<Longrightarrow> usable_relay f r \<Longrightarrow> usable_relay g r"
    and "\<And>t s. named_session (P t) = Some s \<Longrightarrow> usable_session f s \<Longrightarrow> usable_session g s"
  shows "relay_system_inv D g P"
proof -
  note ext = relay_extern_frame [OF ext]
  have "rpc_ok D g (P t)" for t
    by (rule rpc_ok_frame [of D f "P t" g]) (use inv ext assms(3-5) in \<open>auto simp: relay_system_inv_def owned_def\<close>)
  then show ?thesis using inv ext by (simp add: relay_system_inv_def)
qed

lemma relay_refused_destroy:
  "opaque_relay_try_destroy D p f = Some (FFI_BUSY, g) \<or> opaque_relay_state_try_destroy D p f = Some (FFI_BUSY, g) \<Longrightarrow> g = f"
  by (auto simp: opaque_relay_try_destroy_def opaque_relay_state_try_destroy_def Let_def FFI_BUSY_def
      split: if_splits option.splits)

lemma relay_system_step_inv:
  assumes "relay_system_inv D f P" "relay_system D (f, P) l (g, Q)"
  shows "relay_system_inv D g Q"
  using assms(2)
proof cases
  case (rsystem_invoke t r s req)
  then have "(\<lambda>u. held_relay (Q u)) = (\<lambda>u. held_relay (P u))" "(\<lambda>u. held_session (Q u)) = (\<lambda>u. held_session (P u))"
    by (auto simp: relay_resting_def)
  then show ?thesis using assms(1) rsystem_invoke unfolding relay_system_inv_def by simp
next
  case (rsystem_thread t p)
  then show ?thesis using rsystem_thread_inv [OF assms(1)] by simp
next
  case (rsystem_extern c)
  then show ?thesis using rsystem_extern_inv [OF assms(1)] by blast
next
  case (rsystem_refused p)
  then show ?thesis using relay_refused_destroy [of D p f g] assms(1) by simp
qed

section \<open>Linearization\<close>

text \<open>The heap as it would be with no call under way.\<close>

definition relay_quieted :: "relay_heap \<Rightarrow> relay_heap" where
  "relay_quieted f = f\<lparr>h_relays := (\<lambda>r. map_option (\<lambda>rh. rh\<lparr>rh_in_use := False\<rparr>) (h_relays f r)),
     h_relay_states := (\<lambda>s. map_option (\<lambda>sh. sh\<lparr>rsh_in_use := False\<rparr>) (h_relay_states f s))\<rparr>"

lemma relay_quieted_simps [simp]:
  "h_mem (relay_quieted f) = h_mem f" "h_world (relay_quieted f) = h_world f" "h_keypairs (relay_quieted f) = h_keypairs f"
  "h_relays (relay_quieted f) r = map_option (\<lambda>rh. rh\<lparr>rh_in_use := False\<rparr>) (h_relays f r)"
  "h_relay_states (relay_quieted f) s = map_option (\<lambda>sh. sh\<lparr>rsh_in_use := False\<rparr>) (h_relay_states f s)"
  by (simp_all add: relay_quieted_def)

lemma relay_quieted_idle: "busy_relays f = {} \<Longrightarrow> busy_sessions f = {} \<Longrightarrow> relay_quieted f = f"
proof -
  assume idle: "busy_relays f = {}" "busy_sessions f = {}"
  have "map_option (\<lambda>rh. rh\<lparr>rh_in_use := False\<rparr>) (h_relays f r) = h_relays f r" for r
    using idle(1) by (cases "h_relays f r") (auto simp: busy_relays_def)
  moreover have "map_option (\<lambda>sh. sh\<lparr>rsh_in_use := False\<rparr>) (h_relay_states f s) = h_relay_states f s" for s
    using idle(2) by (cases "h_relay_states f s") (auto simp: busy_sessions_def)
  ultimately show ?thesis by (simp add: relay_quieted_def)
qed

lemma relay_quieted_flags:
  "acquire_relay f r = Some (Ok (rh, g)) \<Longrightarrow> relay_quieted g = relay_quieted f"
  "acquire_relay_state f s = Some (Ok (sh, g)) \<Longrightarrow> relay_quieted g = relay_quieted f"
  "relay_quieted (release_relay r f) = relay_quieted f" "relay_quieted (release_relay_state s f) = relay_quieted f"
  by (auto simp: relay_quieted_def acquire_relay_Ok acquire_relay_state_Ok release_relay_def release_relay_state_def
      fun_eq_iff option.map_comp comp_def)

text \<open>A whole call on a quiet heap, once its arguments and its server are accepted.\<close>

lemma relay_function_quiet:
  assumes "relay_admits req" "r \<noteq> 0" "h_relays q r = Some rh" "\<not> rh_in_use rh"
  shows "relay_function D req r s q = (case relay_prepare D req (rh\<lparr>rh_in_use := True\<rparr>) (h_mem q) of
      Inl (code, m) \<Rightarrow> Some (code, q\<lparr>h_mem := m\<rparr>) | Inr operation \<Rightarrow> relay_state_call D s operation q)"
proof -
  let ?body = "\<lambda>rh f. case relay_prepare D req rh (h_mem f) of
      Inl (code, m) \<Rightarrow> Some (code, f\<lparr>h_mem := m\<rparr>) | Inr operation \<Rightarrow> relay_state_call D s operation f"
  have "guarded acquire_relay release_relay r q ?body =
     (if r = 0 then Some (-1, q)
      else case h_relays q r of None \<Rightarrow> None
      | Some rh \<Rightarrow> if rh_in_use rh then Some (-100, q) else ?body (rh\<lparr>rh_in_use := True\<rparr>) q)"
    by (rule relay_guarded)
      (auto simp: relay_state_call_frame(1) dest: relay_state_call_frame(2) split: sum.splits prod.splits)
  then show ?thesis using assms by (simp add: relay_function_eq)
qed

lemma relay_plain_linearizes:
  assumes "relay_admits req" "r \<noteq> 0" "h_relays f r = Some rh" "rh_in_use rh" "relay_prepare D req rh (h_mem f) = Inl (c, m)"
  shows "relay_function D req r s (relay_quieted f) = Some (c, relay_quieted (f\<lparr>h_mem := m\<rparr>))"
proof -
  have flag: "rh\<lparr>rh_in_use := True\<rparr> = rh" using assms(4) by simp
  have "relay_quieted (f\<lparr>h_mem := m\<rparr>) = (relay_quieted f)\<lparr>h_mem := m\<rparr>" by (simp add: relay_quieted_def)
  with assms show ?thesis
    using relay_function_quiet [of req r "relay_quieted f" "rh\<lparr>rh_in_use := False\<rparr>" D s] by (simp add: flag)
qed

lemma relay_execute_linearizes:
  assumes "relay_admits req" "r \<noteq> 0" "h_relays f r = Some rh" "rh_in_use rh" "relay_prepare D req rh (h_mem f) = Inr operation"
    and "s \<noteq> 0" "h_relay_states f s = Some sh" "rsh_in_use sh"
    and "run_relay_stateful D operation sh (h_mem f) (h_world f) = (c, sh', m, w)"
  shows "relay_function D req r s (relay_quieted f) =
     Some (c, relay_quieted (f\<lparr>h_relay_states := (h_relay_states f)(s \<mapsto> sh'), h_mem := m, h_world := w\<rparr>))"
proof -
  have flags: "rh\<lparr>rh_in_use := True\<rparr> = rh" "sh\<lparr>rsh_in_use := True\<rparr> = sh" using assms(4,8) by simp_all
  have "relay_quieted (f\<lparr>h_relay_states := (h_relay_states f)(s \<mapsto> sh'), h_mem := m, h_world := w\<rparr>) =
      (relay_quieted f)\<lparr>h_relay_states := (h_relay_states (relay_quieted f))(s \<mapsto> sh'\<lparr>rsh_in_use := False\<rparr>), h_mem := m, h_world := w\<rparr>"
    by (simp add: relay_quieted_def fun_upd_def fun_eq_iff)
  with assms show ?thesis
    using relay_function_quiet [of req r "relay_quieted f" "rh\<lparr>rh_in_use := False\<rparr>" D s]
    by (simp add: flags relay_state_call_eq relay_finished_call_def)
qed

lemma relay_thread_linearizes:
  assumes "relay_thread D p f l q g" "rpc_ok D f p"
    and "\<And>r. held_relay p = Some r \<Longrightarrow> r \<in> busy_relays f" "\<And>s. held_session p = Some s \<Longrightarrow> s \<in> busy_sessions f"
  shows "run (relay_api D) (relay_quieted f) l (relay_quieted g)"
  using assms
proof cases
  case (rthread_plain req rh c m r s)
  then have "relay_function D req r s (relay_quieted f) = Some (c, relay_quieted g)"
    using assms(2,3) by (auto simp: busy_relays_def intro!: relay_plain_linearizes)
  then show ?thesis using relay_function_api rthread_plain by (fastforce simp: run_Cons_iff)
next
  case (rthread_execute operation sh c sh' m w r s req rh)
  then have "relay_function D req r s (relay_quieted f) = Some (c, relay_quieted g)"
    using assms(2-4) by (auto simp: busy_relays_def busy_sessions_def intro!: relay_execute_linearizes)
  then show ?thesis using relay_function_api rthread_execute by (fastforce simp: run_Cons_iff)
qed (auto dest: relay_quieted_flags(1,2) simp: relay_quieted_flags(3,4))

lemma relay_extern_linearizes:
  assumes "relay_extern D f c g"
  shows "relay_api D (relay_quieted f) c (relay_quieted g)"
  using assms
proof cases
  case (rextern_memory m)
  have "relay_quieted (f\<lparr>h_mem := m\<rparr>) = (relay_quieted f)\<lparr>h_mem := m\<rparr>" by (simp add: relay_quieted_def)
  then show ?thesis using rextern_memory rapi_memory by simp
next
  case (rextern_generate box out k)
  then have "opaque_relay_keypair_generate D out box (relay_quieted f) = Some (k, relay_quieted g)"
    by (auto simp: opaque_relay_keypair_generate_def Let_def relay_quieted_def split: if_splits result.splits prod.splits)
  then show ?thesis using rextern_generate by (auto intro: rapi_generate)
next
  case (rextern_keypair_destroy p k)
  then have "opaque_relay_keypair_try_destroy D p (relay_quieted f) = Some (k, relay_quieted g)"
    by (auto simp: opaque_relay_keypair_try_destroy_def Let_def relay_quieted_def split: if_splits option.splits)
  then show ?thesis using rextern_keypair_destroy by (auto intro: rapi_keypair_destroy)
next
  case (rextern_public_key h out len k)
  then have "opaque_relay_keypair_get_public_key h out len (relay_quieted f) = Some (k, relay_quieted g)"
    by (auto simp: opaque_relay_keypair_get_public_key_def guarded_def acquire_relay_keypair_def release_relay_keypair_def
        Let_def relay_quieted_def split: if_splits option.splits)
  then show ?thesis using rextern_public_key by (auto intro: rapi_plain call_public_key)
next
  case (rextern_create box h out k)
  then have "opaque_relay_create D h out box (relay_quieted f) = Some (k, relay_quieted g)"
    by (auto simp: opaque_relay_create_def acquire_relay_keypair_def release_relay_keypair_def Let_def relay_quieted_def
        fun_eq_iff split: if_splits option.splits result.splits)
  then show ?thesis using rextern_create by (auto intro: rapi_create)
next
  case (rextern_create_with_keys box sk n pk k seed l out kk)
  then have "opaque_relay_create_with_keys D sk n pk k seed l out box (relay_quieted f) = Some (kk, relay_quieted g)"
    by (auto simp: opaque_relay_create_with_keys_def Let_def relay_quieted_def fun_eq_iff split: if_splits result.splits)
  then show ?thesis using rextern_create_with_keys by (auto intro: rapi_create_with_keys)
next
  case (rextern_destroy p k)
  then have "opaque_relay_try_destroy D p (relay_quieted f) = Some (k, relay_quieted g)"
    by (auto simp: opaque_relay_try_destroy_def Let_def relay_quieted_def fun_eq_iff split: if_splits option.splits)
  then show ?thesis using rextern_destroy by (auto intro: rapi_destroy)
next
  case (rextern_state_create box out k)
  then have "opaque_relay_state_create out box (relay_quieted f) = Some (k, relay_quieted g)"
    by (auto simp: opaque_relay_state_create_def Let_def relay_quieted_def fun_eq_iff split: if_splits prod.splits)
  then show ?thesis using rextern_state_create by (auto intro: rapi_state_create)
next
  case (rextern_state_destroy p k)
  then have "opaque_relay_state_try_destroy D p (relay_quieted f) = Some (k, relay_quieted g)"
    by (auto simp: opaque_relay_state_try_destroy_def Let_def relay_quieted_def fun_eq_iff split: if_splits option.splits)
  then show ?thesis using rextern_state_destroy by (auto intro: rapi_state_destroy)
next
  case (rextern_credentials rec n out len k)
  then have "opaque_relay_build_credentials D rec n out len (relay_quieted f) = Some (k, relay_quieted g)"
    by (auto simp: opaque_relay_build_credentials_def Let_def relay_quieted_def split: if_splits prod.splits)
  then show ?thesis using rextern_credentials by (auto intro: rapi_plain call_credentials)
qed

lemma relay_system_linearizes:
  assumes "relay_system_inv D f P" "relay_system D (f, P) l (g, Q)"
  shows "run (relay_api D) (relay_quieted f) l (relay_quieted g)"
  using assms(2)
proof cases
  case (rsystem_thread t p)
  show ?thesis
    by (rule relay_thread_linearizes [of D "P t" f l p g])
      (use rsystem_thread assms(1) in \<open>auto simp: relay_system_inv_def owned_def\<close>)
next
  case (rsystem_extern c)
  then show ?thesis using relay_extern_linearizes by (auto simp: run_Cons_iff)
qed (use relay_refused_destroy [of D _ f g] in auto)

lemma relay_run_linearizes:
  "run (relay_system D) X ls Y \<Longrightarrow> relay_system_inv D (fst X) (snd X) \<Longrightarrow>
     run (relay_api D) (relay_quieted (fst X)) (concat ls) (relay_quieted (fst Y)) \<and> relay_system_inv D (fst Y) (snd Y)"
proof (induction rule: run.induct)
  case (run_Cons X l Y ls Z)
  obtain f P g Q where XY: "X = (f, P)" "Y = (g, Q)" by fastforce
  have "run (relay_api D) (relay_quieted f) l (relay_quieted g)" "relay_system_inv D g Q"
    using run_Cons(1,4) relay_system_linearizes relay_system_step_inv by (simp_all add: XY)
  then show ?case using run_Cons.IH by (auto simp: XY intro: run_append)
qed simp

lemma relay_system_inv_start: "relay_system_inv D (relay_heap_new m w) (\<lambda>_. Waiting)"
  by (simp add: relay_system_inv_def owned_def busy_relays_def busy_sessions_def relay_heap_new_def)

lemma relay_quieted_new [simp]: "relay_quieted (relay_heap_new m w) = relay_heap_new m w"
  by (simp add: relay_quieted_def relay_heap_new_def)

section \<open>Every call ends\<close>

fun relay_steps_left :: "relay_pc \<Rightarrow> nat" where
  "relay_steps_left (Invoked r s req) = 6"
| "relay_steps_left (HoldsRelay r s req rh) = 5"
| "relay_steps_left (Prepared r s req rh operation) = 4"
| "relay_steps_left (HoldsSession r s req rh operation sh) = 3"
| "relay_steps_left (Ran r s c) = 2"
| "relay_steps_left (SessionReleased r c) = 1"
| "relay_steps_left p = 0"

lemma relay_thread_steps_left: "relay_thread D p f l q g \<Longrightarrow> relay_steps_left q < relay_steps_left p"
  by (erule relay_thread_E) auto

lemma relay_steps_left_resting: "relay_steps_left p = 0 \<longleftrightarrow> relay_resting p"
  by (cases p) (auto simp: relay_resting_def)

lemma relay_resting_holds: "relay_resting p \<Longrightarrow> held_relay p = None \<and> held_session p = None"
  by (auto simp: relay_resting_def)

lemma relay_acquire_cases:
  "usable_relay f r \<Longrightarrow> (\<exists>rh g. acquire_relay f r = Some (Ok (rh, g))) \<or> (\<exists>e. acquire_relay f r = Some (Err e))"
  "usable_session f s \<Longrightarrow>
     (\<exists>sh g. acquire_relay_state f s = Some (Ok (sh, g))) \<or> (\<exists>e. acquire_relay_state f s = Some (Err e))"
  by (auto simp: acquire_relay_def acquire_relay_state_def usable_relay_def usable_session_def Let_def)

lemma relay_thread_progress:
  assumes "rpc_ok D f p" "\<not> relay_resting p"
  shows "\<exists>l q g. relay_thread D p f l q g"
proof (cases p)
  case (Invoked r s req)
  show ?thesis
    using relay_acquire_cases(1) [of f r] assms Invoked rthread_reject [of req] rthread_relay [of req] rthread_relay_refused [of req]
    by (metis rpc_ok.simps(1))
next
  case (HoldsRelay r s req rh)
  show ?thesis
    using HoldsRelay rthread_plain [of D req rh f] rthread_prepare [of D req rh f]
    by (cases "relay_prepare D req rh (h_mem f)") (metis surj_pair, metis)
next
  case (Prepared r s req rh operation)
  show ?thesis
    using relay_acquire_cases(2) [of f s] assms Prepared rthread_session rthread_session_refused by (metis rpc_ok.simps(3))
next
  case (HoldsSession r s req rh operation sh)
  obtain c sh' m w where "run_relay_stateful D operation sh (h_mem f) (h_world f) = (c, sh', m, w)"
    by (metis prod.collapse)
  then show ?thesis using HoldsSession rthread_execute by blast
qed (use assms rthread_release_session rthread_release_relay in \<open>auto simp: relay_resting_def; blast\<close>)+

definition relay_alone :: "('s, 'p, 'ek, 'dk) deps \<Rightarrow> relay_pc \<times> relay_heap \<Rightarrow> int option list \<Rightarrow> relay_pc \<times> relay_heap \<Rightarrow> bool" where
  "relay_alone D X l Y \<longleftrightarrow> relay_thread D (fst X) (snd X) l (fst Y) (snd Y)"

text \<open>What a thread relies on for itself: its counter matches the heap and its handles are busy.\<close>

definition rthread_ok :: "('s, 'p, 'ek, 'dk) deps \<Rightarrow> relay_pc \<Rightarrow> relay_heap \<Rightarrow> bool" where
  "rthread_ok D p f \<longleftrightarrow> rpc_ok D f p \<and> (\<forall>r. held_relay p = Some r \<longrightarrow> r \<in> busy_relays f) \<and>
     (\<forall>s. held_session p = Some s \<longrightarrow> s \<in> busy_sessions f)"

lemma rthread_ok_step:
  assumes "relay_thread D p f l q g" "rthread_ok D p f"
  shows "rthread_ok D q g"
proof -
  have "rthread_effect D p f q g" using relay_thread_effect [OF assms(1)] assms(2) by (auto simp: rthread_ok_def)
  then show ?thesis by (auto simp: rthread_ok_def rthread_effect_def moved_def split: option.splits)
qed

text \<open>Left to run alone, a thread finishes its call.\<close>

lemma relay_thread_finishes:
  "rthread_ok D p f \<Longrightarrow>
     \<exists>ls q g. run (relay_alone D) (p, f) ls (q, g) \<and> relay_resting q \<and> length ls \<le> relay_steps_left p"
proof (induction "relay_steps_left p" arbitrary: p f rule: less_induct)
  case less
  show ?case
  proof (cases "relay_resting p")
    case True
    then show ?thesis using run_Nil [of "relay_alone D" "(p, f)"] by (metis le0 list.size(3))
  next
    case False
    then obtain l q g where step: "relay_thread D p f l q g"
      using relay_thread_progress [of D f p] less.prems by (auto simp: rthread_ok_def)
    note left = relay_thread_steps_left [OF step]
    from less.hyps [OF left rthread_ok_step [OF step less.prems]] obtain ls q' h where
      rest: "run (relay_alone D) (q, g) ls (q', h)" "relay_resting q'" "length ls \<le> relay_steps_left q" by auto
    have "run (relay_alone D) (p, f) (l # ls) (q', h)"
      by (rule run_Cons [of _ _ _ "(q, g)"]) (use step rest(1) in \<open>simp_all add: relay_alone_def\<close>)
    then show ?thesis using rest left by (intro exI [of _ "l # ls"] exI [of _ q'] exI [of _ h]) simp
  qed
qed

section \<open>One thread alone\<close>

inductive_simps relay_thread_simps:
  "relay_thread D (Invoked r s req) f l q g"
  "relay_thread D (HoldsRelay r s req rh) f l q g"
  "relay_thread D (Prepared r s req rh operation) f l q g"
  "relay_thread D (HoldsSession r s req rh operation sh) f l q g"
  "relay_thread D (Ran r s c) f l q g"
  "relay_thread D (SessionReleased r c) f l q g"
  "relay_thread D (Answered c) f l q g"

definition relay_ends :: "('s, 'p, 'ek, 'dk) deps \<Rightarrow> relay_pc \<Rightarrow> relay_heap \<Rightarrow> int \<Rightarrow> relay_heap \<Rightarrow> bool" where
  "relay_ends D p f c g \<longleftrightarrow> (\<exists>ls. run (relay_alone D) (p, f) ls (Answered c, g))"

lemma relay_ends_unfold:
  "relay_ends D p f c g \<longleftrightarrow> p = Answered c \<and> f = g \<or> (\<exists>l q h. relay_thread D p f l q h \<and> relay_ends D q h c g)"
  unfolding relay_ends_def by (subst run_unfold) (auto simp: relay_alone_def)

lemma relay_ends_answered: "relay_ends D (Answered k) f c g \<longleftrightarrow> k = c \<and> f = g"
  by (subst relay_ends_unfold) (simp add: relay_thread_simps)

lemma relay_ends_released: "relay_ends D (SessionReleased r k) f c g \<longleftrightarrow> k = c \<and> g = release_relay r f"
  by (subst relay_ends_unfold) (auto simp: relay_thread_simps relay_ends_answered)

lemma relay_ends_ran: "relay_ends D (Ran r s k) f c g \<longleftrightarrow> k = c \<and> g = release_relay r (release_relay_state s f)"
  by (subst relay_ends_unfold) (auto simp: relay_thread_simps relay_ends_released)

lemma relay_ends_holds_session:
  "relay_ends D (HoldsSession r s req rh operation sh) f c g \<longleftrightarrow>
     (case run_relay_stateful D operation sh (h_mem f) (h_world f) of (k, sh', m, w) \<Rightarrow> k = c \<and>
       g = release_relay r (release_relay_state s (f\<lparr>h_relay_states := (h_relay_states f)(s \<mapsto> sh'), h_mem := m, h_world := w\<rparr>)))"
  by (subst relay_ends_unfold) (auto simp: relay_thread_simps relay_ends_ran split: prod.split)

lemma relay_ends_prepared:
  "relay_ends D (Prepared r s req rh operation) f c g \<longleftrightarrow>
     (\<exists>h. relay_state_call D s operation f = Some (c, h) \<and> g = release_relay r h)"
  by (subst relay_ends_unfold, cases "acquire_relay_state f s")
    (auto simp: relay_thread_simps relay_ends_released relay_ends_holds_session relay_state_call_def guarded_def
      acquire_relay_state_def Let_def split: prod.splits option.splits if_splits)

lemma relay_ends_holds_relay:
  "relay_ends D (HoldsRelay r s req rh) f c g \<longleftrightarrow>
     (\<exists>h. (case relay_prepare D req rh (h_mem f) of Inl (code, m) \<Rightarrow> Some (code, f\<lparr>h_mem := m\<rparr>)
        | Inr operation \<Rightarrow> relay_state_call D s operation f) = Some (c, h) \<and> g = release_relay r h)"
  by (subst relay_ends_unfold)
    (auto simp: relay_thread_simps relay_ends_released relay_ends_prepared split: sum.split)

text \<open>
  A call that runs without interference does what the sequential model of the exported
  function does.
\<close>

lemma lone_server_thread_is_the_call:
  "(\<exists>ls. run (relay_alone D) (Invoked r s req, f) ls (Answered c, g)) \<longleftrightarrow> relay_function D req r s f = Some (c, g)"
proof -
  have "relay_ends D (Invoked r s req) f c g \<longleftrightarrow> relay_function D req r s f = Some (c, g)"
  proof (cases "relay_admits req")
    case True
    then show ?thesis
      by (subst relay_ends_unfold, cases "acquire_relay f r")
        (auto simp: relay_thread_simps relay_ends_answered relay_ends_holds_relay relay_function_eq guarded_def [of acquire_relay]
          acquire_relay_def Let_def split: option.splits if_splits)
  qed (subst relay_ends_unfold, auto simp: relay_thread_simps relay_ends_answered relay_function_eq)
  then show ?thesis by (simp add: relay_ends_def)
qed

section \<open>Properties\<close>

text \<open>
  C10: calls of the server's C interface from any number of threads are linearizable. From a
  process with no handles, in every interleaving of the steps of calls, creations and
  permitted destructions in which nobody overwrites the input buffers of another thread's
  call, the heap with the flags of calls under way cleared is what a sequence of uninterrupted
  calls produces, with the codes in the order of the effects, although a login reads the
  stored credentials before it is admitted to the session. No two threads hold the same server
  or session, and once every thread has its answer no handle is busy. The invariants of
  sequential histories hold throughout.
\<close>

theorem concurrent_server_calls_linearize:
  assumes "deps_laws D" "run (relay_system D) (relay_heap_new m w, \<lambda>_. Waiting) ls (f, P)"
  shows "run (relay_api D) (relay_heap_new m w) (concat ls) (relay_quieted f) \<and> relay_heap_inv D (relay_quieted f) \<and>
     (\<forall>t u r. held_relay (P t) = Some r \<and> held_relay (P u) = Some r \<longrightarrow> t = u) \<and>
     (\<forall>t u s. held_session (P t) = Some s \<and> held_session (P u) = Some s \<longrightarrow> t = u) \<and>
     ((\<forall>t. relay_resting (P t)) \<longrightarrow> busy_relays f = {} \<and> busy_sessions f = {} \<and> relay_quieted f = f)"
proof -
  note lin = relay_run_linearizes [OF assms(2), unfolded fst_conv snd_conv, OF relay_system_inv_start]
  have own: "owned (busy_relays f) (\<lambda>t. held_relay (P t))" "owned (busy_sessions f) (\<lambda>t. held_session (P t))"
    using lin by (simp_all add: relay_system_inv_def)
  have idle: "busy_relays f = {} \<and> busy_sessions f = {}" if "\<forall>t. relay_resting (P t)"
  proof -
    have "held_relay (P t) = None \<and> held_session (P t) = None" for t using that relay_resting_holds by blast
    then show ?thesis using own by (auto simp: owned_def)
  qed
  have "relay_heap_inv D (relay_quieted f)"
    using relay_run_inv [OF _ assms(1) relay_heap_new_inv] lin by auto
  then show ?thesis using lin own idle relay_quieted_idle [of f] by (auto simp: owned_def)
qed

text \<open>
  C18: every call of the server's C interface ends, whatever other threads have done. A thread
  with a call under way can always take its next step, each of its steps brings it closer to
  its answer, no call takes more than six, and run on its own it has its answer within the
  steps it has left.
\<close>

theorem concurrent_server_calls_complete:
  assumes "run (relay_system D) (relay_heap_new m w, \<lambda>_. Waiting) ls (f, P)"
  shows "relay_steps_left (P t) \<le> 6 \<and>
     (\<not> relay_resting (P t) \<longrightarrow> (\<exists>l p g. relay_thread D (P t) f l p g)) \<and>
     (\<forall>l p g. relay_thread D (P t) f l p g \<longrightarrow> relay_steps_left p < relay_steps_left (P t)) \<and>
     (\<exists>ls' p g. run (relay_alone D) (P t, f) ls' (p, g) \<and> relay_resting p \<and> length ls' \<le> relay_steps_left (P t))"
proof -
  have inv: "relay_system_inv D f P"
    using relay_run_linearizes [OF assms, unfolded fst_conv snd_conv, OF relay_system_inv_start] by blast
  then have "rpc_ok D f (P t)" "rthread_ok D (P t) f" by (auto simp: relay_system_inv_def rthread_ok_def owned_def)
  moreover have "relay_steps_left (P t) \<le> 6" by (cases "P t") simp_all
  ultimately show ?thesis
    using relay_thread_progress [of D f "P t"] relay_thread_steps_left relay_thread_finishes [of D "P t" f] by auto
qed

section \<open>Two servers, one session\<close>

definition sample_server_memory :: memory where
  "sample_server_memory = write_bytes (write_bytes (\<lambda>_. 0) 2000 (replicate 32 1)) 1000 (z3_encode Z2)"

definition holds_sample_keys :: "memory \<Rightarrow> bool" where
  "holds_sample_keys m \<longleftrightarrow> read_bytes m 1000 32 = z3_encode Z2 \<and> read_bytes m 2000 32 = replicate 32 1"

lemma sample_server_memory_keys: "holds_sample_keys sample_server_memory"
proof -
  have "\<not> ranges_overlap 2000 32 1000 32" by (simp add: ranges_overlap_def checked_add_def)
  then have "read_bytes sample_server_memory 2000 32 = read_bytes (write_bytes (\<lambda>_. 0) 2000 (replicate 32 1)) 2000 32"
    unfolding sample_server_memory_def
    by (intro read_disjoint_write) (use disjoint_windows [of 2000 32 1000 32] in \<open>simp_all add: z3_encode_laws\<close>)
  then show ?thesis
    using read_after_write [of "z3_encode Z2" _ 1000] read_after_write [of "replicate 32 1" "\<lambda>_. 0" 2000]
    by (simp add: holds_sample_keys_def sample_server_memory_def z3_encode_laws)
qed

lemma holds_sample_keys_write_ptr:
  assumes "holds_sample_keys m" "\<not> ranges_overlap 1000 32 p 8" "\<not> ranges_overlap 2000 32 p 8"
  shows "holds_sample_keys (write_ptr m p a)"
proof -
  have "window 1000 32 \<inter> window p 8 = {}" "window 2000 32 \<inter> window p 8 = {}"
    using disjoint_windows [of 1000 32 p 8] disjoint_windows [of 2000 32 p 8] assms(2,3) by simp_all
  then show ?thesis
    using assms(1) by (simp add: holds_sample_keys_def write_ptr_def read_disjoint_write)
qed

lemma sample_server_created:
  assumes "holds_sample_keys (h_mem f)" "box \<noteq> 0" "h_relays f box = None" "p \<noteq> 0"
    and "\<not> ranges_overlap 1000 32 p 8" "\<not> ranges_overlap 2000 32 p 8"
  obtains m where "holds_sample_keys m"
    "relay_extern sample f (Some 0) (f\<lparr>h_relays := (h_relays f)(box \<mapsto> sample_relay), h_mem := m\<rparr>)"
proof
  let ?m = "write_ptr (h_mem f) p 0"
  have keys: "holds_sample_keys ?m" using holds_sample_keys_write_ptr assms by blast
  then show "holds_sample_keys (write_ptr ?m p box)" using holds_sample_keys_write_ptr assms(5,6) by blast
  have "opaque_relay_create_with_keys sample 1000 32 1000 32 2000 32 p box f =
      Some (0, f\<lparr>h_relays := (h_relays f)(box \<mapsto> sample_relay), h_mem := write_ptr ?m p box\<rparr>)"
    using assms(4-6) keys sample_responder_new
    by (simp add: opaque_relay_create_with_keys_def holds_sample_keys_def sample_relay_def)
  then show "relay_extern sample f (Some 0) (f\<lparr>h_relays := (h_relays f)(box \<mapsto> sample_relay), h_mem := write_ptr ?m p box\<rparr>)"
    by (rule rextern_create_with_keys [OF assms(2,3)])
qed

text \<open>The process creates servers at 24 and 32 and a session at 16.\<close>

lemma sample_two_servers:
  obtains g sh where
    "run (relay_system sample) (relay_heap_new sample_server_memory sample_world, \<lambda>_. Waiting)
       [[Some 0], [Some 0], [Some 0]] (g, \<lambda>_. Waiting)"
    "h_relays g = [24 \<mapsto> sample_relay, 32 \<mapsto> sample_relay]" "h_relay_states g 16 = Some sh" "\<not> rsh_in_use sh"
proof -
  let ?f0 = "relay_heap_new sample_server_memory sample_world"
  have mem: "h_mem ?f0 = sample_server_memory" by (simp add: relay_heap_new_def)
  obtain m1 where m1: "holds_sample_keys m1"
    "relay_extern sample ?f0 (Some 0) (?f0\<lparr>h_relays := (h_relays ?f0)(24 \<mapsto> sample_relay), h_mem := m1\<rparr>)"
    by (rule sample_server_created [of ?f0 24 900])
      (use sample_server_memory_keys mem in \<open>simp_all add: relay_heap_new_def ranges_overlap_def checked_add_def\<close>)
  define f1 where "f1 = ?f0\<lparr>h_relays := [24 \<mapsto> sample_relay], h_mem := m1\<rparr>"
  have e1: "relay_extern sample ?f0 (Some 0) f1" using m1(2) by (simp add: f1_def relay_heap_new_def)
  obtain m2 where m2: "relay_extern sample f1 (Some 0) (f1\<lparr>h_relays := (h_relays f1)(32 \<mapsto> sample_relay), h_mem := m2\<rparr>)"
    by (rule sample_server_created [of f1 32 920])
      (use m1(1) in \<open>simp_all add: f1_def ranges_overlap_def checked_add_def\<close>)
  define f2 where "f2 = f1\<lparr>h_relays := (h_relays f1)(32 \<mapsto> sample_relay), h_mem := m2\<rparr>"
  obtain st w where st: "ResponderState_new (h_world f2) = (st, w)" by fastforce
  then obtain g where call: "opaque_relay_state_create 8 16 f2 = Some (0, g)"
    and g: "h_relays g = h_relays f2" "h_relay_states g 16 = Some \<lparr>rsh_state = st, rsh_in_use = False\<rparr>"
    by (simp add: opaque_relay_state_create_def)
  have e3: "relay_extern sample f2 (Some 0) g"
    by (rule rextern_state_create [OF _ _ call]) (simp_all add: f2_def f1_def relay_heap_new_def)
  note go = run_Cons [where step = "relay_system sample"]
  have "run (relay_system sample) (?f0, \<lambda>_. Waiting) [[Some 0], [Some 0], [Some 0]] (g, \<lambda>_. Waiting)"
    by (rule go, rule rsystem_extern [OF e1], simp_all, rule go, rule rsystem_extern [OF m2 [folded f2_def]],
        simp_all, rule go, rule rsystem_extern [OF e3], simp_all)
  then show thesis by (rule that [OF _ _ g(2)]) (simp_all add: g(1) f2_def f1_def)
qed

definition sample_server_request :: relay_request where
  "sample_server_request = AskFinish 100 65 200 64"

text \<open>
  Thread 0 ends a login through the server at 24 on the session at 16 and is admitted to it;
  thread 1 goes through the server at 32 and is refused.
\<close>

lemma sample_session_contended:
  obtains ls f P where
    "run (relay_system sample) (relay_heap_new sample_server_memory sample_world, \<lambda>_. Waiting) ls (f, P)"
    "held_session (P 0) = Some 16" "P 1 = SessionReleased 32 (-100)"
proof -
  obtain g sh where init: "run (relay_system sample) (relay_heap_new sample_server_memory sample_world, \<lambda>_. Waiting)
       [[Some 0], [Some 0], [Some 0]] (g, \<lambda>_. Waiting)"
    and g: "h_relays g = [24 \<mapsto> sample_relay, 32 \<mapsto> sample_relay]" and sh: "h_relay_states g 16 = Some sh" "\<not> rsh_in_use sh"
    by (rule sample_two_servers)
  let ?rh = "sample_relay\<lparr>rh_in_use := True\<rparr>" and ?op = "relay_finish_op sample 100 65 200"
  let ?C = "\<lambda>r. Invoked r 16 sample_server_request" and ?P = "\<lambda>p q. ((\<lambda>_. Waiting) :: nat \<Rightarrow> relay_pc)(0 := p, 1 := q)"
  let ?H = "\<lambda>r. HoldsRelay r 16 sample_server_request ?rh" and ?R = "\<lambda>r. Prepared r 16 sample_server_request ?rh ?op"
  let ?g1 = "g\<lparr>h_relays := (h_relays g)(24 \<mapsto> ?rh)\<rparr>"
  let ?g2 = "?g1\<lparr>h_relay_states := (h_relay_states g)(16 \<mapsto> sh\<lparr>rsh_in_use := True\<rparr>)\<rparr>"
  let ?g3 = "?g2\<lparr>h_relays := (h_relays ?g2)(32 \<mapsto> ?rh)\<rparr>"
  let ?S = "HoldsSession 24 16 sample_server_request ?rh ?op (sh\<lparr>rsh_in_use := True\<rparr>)"
  have admits: "relay_admits sample_server_request"
    by (simp add: sample_server_request_def ranges_overlap_def checked_add_def)
  have prep: "relay_thread sample (?H r) h [] (?R r) h" for r h by (rule rthread_prepare) (simp add: sample_server_request_def)
  have t: "relay_thread sample (?C 24) g [] (?H 24) ?g1" "relay_thread sample (?C 32) ?g2 [] (?H 32) ?g3"
    by (rule rthread_relay [OF admits], simp add: acquire_relay_Ok g sample_relay_def)+
  have t3: "relay_thread sample (?R 24) ?g1 [] ?S ?g2" by (rule rthread_session) (simp add: acquire_relay_state_Ok sh)
  have "relay_thread sample (?R 32) ?g3 [] (SessionReleased 32 (handle_access_to_int Busy)) ?g3"
    by (rule rthread_session_refused) (simp add: acquire_relay_state_def)
  then have t6: "relay_thread sample (?R 32) ?g3 [] (SessionReleased 32 (-100)) ?g3" by simp
  have use: "usable_relay g 24" "usable_relay g 32" "usable_session g 16" by (simp_all add: usable_relay_def usable_session_def g sh)
  have zero: "relay_system sample (f, ?P p q) l (f', ?P p' q)" if "relay_thread sample p f l p' f'" "h_mem f' = h_mem f" for f l f' p p' q
    using rsystem_thread [of sample "?P p q" 0 f l p' f'] that by (simp add: fun_upd_twist)
  have one: "relay_system sample (f, ?P p q) l (f', ?P p q')" if "relay_thread sample q f l q' f'" "h_mem f' = h_mem f" for f l f' p q q'
    using rsystem_thread [of sample "?P p q" 1 f l q' f'] that by simp
  note go = run_Cons [where step = "relay_system sample"]
  have "run (relay_system sample) (g, \<lambda>_. Waiting) [[], []] (g, ?P (?C 24) (?C 32))"
    by (rule go, rule rsystem_invoke [OF _ use(1,3), of _ 0], simp add: relay_resting_def, rule go,
        rule rsystem_invoke [OF _ use(2,3), of _ 1], simp_all add: relay_resting_def)
  moreover have "run (relay_system sample) (g, ?P (?C 24) (?C 32)) [[], [], []] (?g2, ?P ?S (?C 32))"
    by (rule go, rule zero [OF t(1)], simp, rule go, rule zero [OF prep], simp, rule go, rule zero [OF t3], simp, rule run_Nil)
  moreover have "run (relay_system sample) (?g2, ?P ?S (?C 32)) [[], [], []] (?g3, ?P ?S (SessionReleased 32 (-100)))"
    by (rule go, rule one [OF t(2)], simp, rule go, rule one [OF prep], simp, rule go, rule one [OF t6], simp, rule run_Nil)
  ultimately obtain ls where "run (relay_system sample) (relay_heap_new sample_server_memory sample_world, \<lambda>_. Waiting) ls
      (?g3, ?P ?S (SessionReleased 32 (-100)))" using init by (blast intro: run_append)
  then show thesis by (rule that) simp_all
qed

theorem concurrent_server_calls_linearize_witness:
  "\<exists>ls f (P :: nat \<Rightarrow> relay_pc). held_session (P 0) = Some 16 \<and> P 1 = SessionReleased 32 (-100) \<and>
     run (relay_api sample) (relay_heap_new sample_server_memory sample_world) (concat ls) (relay_quieted f) \<and>
     relay_heap_inv sample (relay_quieted f)"
proof -
  obtain ls f P where c:
    "run (relay_system sample) (relay_heap_new sample_server_memory sample_world, \<lambda>_. Waiting) ls (f, P)"
    "held_session (P 0) = Some 16" "P 1 = SessionReleased 32 (-100)" by (rule sample_session_contended)
  have "run (relay_api sample) (relay_heap_new sample_server_memory sample_world) (concat ls) (relay_quieted f)"
    "relay_heap_inv sample (relay_quieted f)" using concurrent_server_calls_linearize [OF sample_laws c(1)] by simp_all
  then show ?thesis by (intro exI [of _ ls] exI [of _ f] exI [of _ P] conjI c(2,3))
qed

theorem concurrent_server_calls_complete_witness:
  "\<exists>f (P :: nat \<Rightarrow> relay_pc) ls' p g. held_session (P 0) = Some 16 \<and> run (relay_alone sample) (P 0, f) ls' (p, g) \<and>
     relay_resting p \<and> length ls' \<le> 6"
proof -
  obtain ls f P where c:
    "run (relay_system sample) (relay_heap_new sample_server_memory sample_world, \<lambda>_. Waiting) ls (f, P)"
    "held_session (P 0) = Some 16" "P 1 = SessionReleased 32 (-100)" by (rule sample_session_contended)
  obtain ls' p g where "run (relay_alone sample) (P 0, f) ls' (p, g)" "relay_resting p" "length ls' \<le> 6"
    using concurrent_server_calls_complete [OF c(1), of 0] by (meson order_trans)
  then show ?thesis using c(2) by blast
qed

end
