(* ===== verification/Phase_Matrix.thy ===== *)
theory Phase_Matrix
  imports Agent_Threads Relay_Threads
begin

text \<open>
  The tables of phases and operations behind the unit tests of \<^verbatim>\<open>agent_ffi.rs\<close> and
  \<^verbatim>\<open>relay_ffi.rs\<close>: which call is in order in which phase, and what every other call does.
\<close>

section \<open>The client's table\<close>

datatype AgentStatefulOperation =
  OpRegistrationRequest | OpFinalizeRegistration | OpGenerateKe1 | OpGenerateKe3 | OpFinish

fun is_legal_agent_cell :: "InitiatorPhase \<Rightarrow> AgentStatefulOperation \<Rightarrow> bool" where
  "is_legal_agent_cell ICreated operation \<longleftrightarrow> operation = OpRegistrationRequest \<or> operation = OpGenerateKe1"
| "is_legal_agent_cell RegistrationRequested operation \<longleftrightarrow> operation = OpFinalizeRegistration"
| "is_legal_agent_cell Ke1Generated operation \<longleftrightarrow> operation = OpGenerateKe3"
| "is_legal_agent_cell Ke3Generated operation \<longleftrightarrow> operation = OpFinish"
| "is_legal_agent_cell phase operation \<longleftrightarrow> False"

definition agent_matrix :: "(InitiatorPhase \<times> AgentStatefulOperation) list" where
  "agent_matrix = [(phase, operation).
     phase \<leftarrow> [ICreated, RegistrationRequested, RegistrationFinalized, Ke1Generated, Ke3Generated, IFinished],
     operation \<leftarrow> [OpRegistrationRequest, OpFinalizeRegistration, OpGenerateKe1, OpGenerateKe3, OpFinish],
     \<not> is_legal_agent_cell phase operation]"

fun operation_of :: "agent_request \<Rightarrow> AgentStatefulOperation" where
  "operation_of (RequestRegistration key n out len) = OpRegistrationRequest"
| "operation_of (FinalizeRegistration resp n out len) = OpFinalizeRegistration"
| "operation_of (RequestKe1 key n acc an out len) = OpGenerateKe1"
| "operation_of (RequestKe3 ke2 n out len) = OpGenerateKe3"
| "operation_of (RequestFinish sk n ek k) = OpFinish"

lemma read_bytes_Nil [simp]: "read_bytes m p n = [] \<longleftrightarrow> n = 0"
  by (simp add: read_bytes_def)

text \<open>Out of order, a closure ends at its phase guard with the session as it was.\<close>

lemma illegal_agent_closure:
  assumes "agent_closure D req = Some operation" "\<not> is_legal_agent_cell (i_phase (as_state sh)) (operation_of req)"
  obtains sh' where "operation ah sh m w = (Err ValidationError, sh', m, w)" "as_state sh' = as_state sh"
proof (cases req)
  case (RequestRegistration key n out len)
  then show thesis using assms that [of sh]
    by (cases "i_phase (as_state sh)") (auto simp: registration_request_op_def create_registration_request_def split: if_splits)
next
  case (FinalizeRegistration resp n out len)
  then show thesis using assms that [of sh]
    by (cases "i_phase (as_state sh)") (auto simp: finalize_registration_op_def finalize_registration_def split: if_splits)
next
  case (RequestKe1 key n acc an out len)
  have "unat n \<noteq> 0" "unat n \<le> 4096" "unat an \<noteq> 0" "operation = (\<lambda>_. generate_ke1_op D key n acc an out)"
    using assms(1) by (auto simp: RequestKe1 unat_eq_zero split: if_splits)
  moreover have "i_phase (as_state sh) \<noteq> ICreated" using assms(2) by (auto simp: RequestKe1)
  ultimately show thesis using that [of sh] by (simp add: generate_ke1_op_def generate_ke1_def)
next
  case (RequestKe3 ke2 n out len)
  then show thesis using assms that [of "sh\<lparr>as_ke3_exported := False\<rparr>"]
    by (cases "i_phase (as_state sh)") (auto simp: generate_ke3_op_def generate_ke3_def split: if_splits)
next
  case (RequestFinish sk n ek k)
  then show thesis using assms that [of sh]
    by (cases "i_phase (as_state sh)") (auto simp: agent_finish_op_def initiator_finish_def split: if_splits)
qed

text \<open>What such a call does: the code of a validation error, and only the session changes.\<close>

lemma client_out_of_order:
  assumes "deps_laws D" "agent_closure D req = Some operation"
    and "a \<noteq> 0" "h_agents f a = Some ah" "\<not> ah_in_use ah"
    and "s \<noteq> 0" "h_agent_states f s = Some sh" "\<not> as_in_use sh" "initiator_wf (as_state sh)"
    and "\<not> is_legal_agent_cell (i_phase (as_state sh)) (operation_of req)"
  obtains g sh' where "agent_function D req a s f = Some (to_c_int ValidationError, g)" "h_mem g = h_mem f" "h_agents g = h_agents f"
    "h_agent_states g = (h_agent_states f)(s \<mapsto> sh')" "i_phase (as_state sh') = IFinished" "initiator_wiped (as_state sh')"
    "\<not> as_ke3_exported sh'" "\<not> as_in_use sh'"
proof -
  obtain sh1 where run: "operation (ah\<lparr>ah_in_use := True\<rparr>) (sh\<lparr>as_in_use := True\<rparr>) (h_mem f) (h_world f) =
      (Err ValidationError, sh1, h_mem f, h_world f)" "as_state sh1 = as_state sh"
    by (rule illegal_agent_closure [OF assms(2), of "sh\<lparr>as_in_use := True\<rparr>"]) (use assms(10) in auto)
  have "agent_function D req a s f = Some (finished_call D s (operation (ah\<lparr>ah_in_use := True\<rparr>)) sh f)"
    using assms(2-8) by (simp add: agent_function_eq agent_call_eq)
  then show thesis using run assms(1,9)
    by (intro that [where sh' = "(invalidate_agent_state D sh1)\<lparr>as_in_use := False\<rparr>" and
        g = "f\<lparr>h_agent_states := (h_agent_states f)(s \<mapsto> (invalidate_agent_state D sh1)\<lparr>as_in_use := False\<rparr>)\<rparr>"])
      (simp_all add: finished_call_def run_agent_stateful_def ffi_error_to_int_def invalidate_agent_state_eq)
qed

section \<open>The server's table\<close>

fun is_legal_relay_cell :: "ResponderPhase \<Rightarrow> bool \<Rightarrow> bool" where
  "is_legal_relay_cell RCreated generate_ke2_cell \<longleftrightarrow> generate_ke2_cell"
| "is_legal_relay_cell Ke2Generated generate_ke2_cell \<longleftrightarrow> \<not> generate_ke2_cell"
| "is_legal_relay_cell RFinished generate_ke2_cell \<longleftrightarrow> False"

definition relay_matrix :: "(ResponderPhase \<times> bool) list" where
  "relay_matrix = [(phase, generate_ke2_cell).
     phase \<leftarrow> [RCreated, Ke2Generated, RFinished], generate_ke2_cell \<leftarrow> [True, False],
     \<not> is_legal_relay_cell phase generate_ke2_cell]"

fun asks_ke2 :: "relay_request \<Rightarrow> bool" where
  "asks_ke2 (AskKe2 ke1 n aid k cred l out len) = True"
| "asks_ke2 req = False"

lemma illegal_relay_closure:
  assumes "relay_admits req" "relay_prepare D req rh m0 = Inr operation" "\<not> is_legal_relay_cell (r_phase (rsh_state sh)) (asks_ke2 req)"
  shows "operation sh m w = (Err ValidationError, sh, m, w)"
proof (cases req)
  case (AskKe2 ke1 n aid k cred l out len)
  then show ?thesis using assms
    by (cases "r_phase (rsh_state sh)") (auto simp: generate_ke2_op_def generate_ke2_def split: result.splits)
next
  case (AskFinish ke3 n out len)
  then show ?thesis using assms
    by (cases "r_phase (rsh_state sh)") (auto simp: relay_finish_op_def responder_finish_def)
qed (use assms in simp)

lemma server_out_of_order:
  assumes "deps_laws D" "relay_admits req"
    and "r \<noteq> 0" "h_relays f r = Some rh" "\<not> rh_in_use rh"
    and "s \<noteq> 0" "h_relay_states f s = Some sh" "\<not> rsh_in_use sh" "responder_wf (rsh_state sh)"
    and "relay_prepare D req (rh\<lparr>rh_in_use := True\<rparr>) (h_mem f) = Inr operation"
    and "\<not> is_legal_relay_cell (r_phase (rsh_state sh)) (asks_ke2 req)"
  obtains g sh' where "relay_function D req r s f = Some (to_c_int ValidationError, g)" "h_mem g = h_mem f" "h_relays g = h_relays f"
    "h_keypairs g = h_keypairs f" "h_world g = h_world f" "h_relay_states g = (h_relay_states f)(s \<mapsto> sh')" "r_phase (rsh_state sh') = RFinished"
    "responder_wiped (rsh_state sh')" "\<not> rsh_in_use sh'"
proof -
  have "operation (sh\<lparr>rsh_in_use := True\<rparr>) m w = (Err ValidationError, sh\<lparr>rsh_in_use := True\<rparr>, m, w)" for m w
    by (rule illegal_relay_closure [OF assms(2,10)]) (use assms(11) in simp)
  then show thesis
    using relay_function_quiet [OF assms(2-5), of D s] assms(1,6-10) responder_invalidate_props [of D "rsh_state sh"]
    by (intro that [where sh' = "(invalidate_relay_state D sh)\<lparr>rsh_in_use := False\<rparr>" and
        g = "f\<lparr>h_relay_states := (h_relay_states f)(s \<mapsto> (invalidate_relay_state D sh)\<lparr>rsh_in_use := False\<rparr>)\<rparr>"])
      (simp_all add: relay_state_call_eq relay_finished_call_def run_relay_stateful_def ffi_error_to_int_def invalidate_relay_state_def)
qed

section \<open>Properties\<close>

text \<open>
  C21: the client's table is exact. There are twenty-five cells out of order, and in each of
  them a call with acceptable arguments on free handles returns the code of a validation
  error, writes no byte, and leaves the session finished, wiped and with no KE3 to export,
  whatever the session held.
\<close>

theorem client_out_of_order_calls_terminalize:
  assumes "deps_laws D" "agent_closure D req = Some operation"
    and "a \<noteq> 0" "h_agents f a = Some ah" "\<not> ah_in_use ah"
    and "s \<noteq> 0" "h_agent_states f s = Some sh" "\<not> as_in_use sh" "initiator_wf (as_state sh)"
    and "\<not> is_legal_agent_cell (i_phase (as_state sh)) (operation_of req)"
  shows "length agent_matrix = 25 \<and> (i_phase (as_state sh), operation_of req) \<in> set agent_matrix \<and>
     (\<exists>g sh'. agent_function D req a s f = Some (to_c_int ValidationError, g) \<and> h_mem g = h_mem f \<and>
       h_agent_states g s = Some sh' \<and> i_phase (as_state sh') = IFinished \<and> initiator_wiped (as_state sh') \<and>
       \<not> as_ke3_exported sh' \<and> \<not> as_in_use sh')"
proof -
  have "length agent_matrix = 25" by (simp add: agent_matrix_def)
  moreover have "(i_phase (as_state sh), operation_of req) \<in> set agent_matrix"
    using assms(10) by (cases "i_phase (as_state sh)"; cases "operation_of req") (simp_all add: agent_matrix_def)
  ultimately show ?thesis by - (rule client_out_of_order [OF assms], auto)
qed

theorem client_out_of_order_calls_terminalize_witness:
  "\<exists>g. agent_function sample sample_finish 24 16 (sample_slot_heap\<lparr>h_agents := [24 \<mapsto> sample_agent]\<rparr>) = Some (-5, g) \<and>
     h_mem g = h_mem sample_slot_heap"
proof -
  let ?f = "sample_slot_heap\<lparr>h_agents := [24 \<mapsto> sample_agent]\<rparr>"
  let ?sh = "\<lparr>as_state = fst (InitiatorState_new sample_world), as_ke3_exported = False, as_in_use = False\<rparr>"
  have "agent_closure sample sample_finish = Some (\<lambda>_. agent_finish_op sample 100 200)"
    by (simp add: sample_finish_def ranges_overlap_def checked_add_def)
  from client_out_of_order_calls_terminalize [OF sample_laws this, of 24 ?f sample_agent 16 ?sh] show ?thesis
    using sample_slot_heap_props(2) InitiatorState_new_props [of sample_world]
    by (auto simp: sample_agent_def sample_finish_def)
qed

text \<open>
  C22: the server's table is exact. There are four cells out of order, and in each of them a
  call with acceptable arguments and credentials on free handles returns the code of a
  validation error, writes no byte, and leaves the session finished and wiped.
\<close>

theorem server_out_of_order_calls_terminalize:
  assumes "deps_laws D" "relay_admits req"
    and "r \<noteq> 0" "h_relays f r = Some rh" "\<not> rh_in_use rh"
    and "s \<noteq> 0" "h_relay_states f s = Some sh" "\<not> rsh_in_use sh" "responder_wf (rsh_state sh)"
    and "relay_prepare D req (rh\<lparr>rh_in_use := True\<rparr>) (h_mem f) = Inr operation"
    and "\<not> is_legal_relay_cell (r_phase (rsh_state sh)) (asks_ke2 req)"
  shows "length relay_matrix = 4 \<and> (r_phase (rsh_state sh), asks_ke2 req) \<in> set relay_matrix \<and>
     (\<exists>g sh'. relay_function D req r s f = Some (to_c_int ValidationError, g) \<and> h_mem g = h_mem f \<and>
       h_relay_states g s = Some sh' \<and> r_phase (rsh_state sh') = RFinished \<and> responder_wiped (rsh_state sh') \<and>
       \<not> rsh_in_use sh')"
proof -
  have "length relay_matrix = 4" by (simp add: relay_matrix_def)
  moreover have "(r_phase (rsh_state sh), asks_ke2 req) \<in> set relay_matrix"
    using assms(11) by (cases "r_phase (rsh_state sh)"; cases "asks_ke2 req") (simp_all add: relay_matrix_def)
  ultimately show ?thesis by - (rule server_out_of_order [OF assms], auto)
qed

theorem server_out_of_order_calls_terminalize_witness:
  "\<exists>g. relay_function sample sample_server_request 24 16 (sample_relay_heap\<lparr>h_relays := [24 \<mapsto> sample_relay]\<rparr>) = Some (-5, g) \<and>
     h_mem g = h_mem sample_relay_heap"
proof -
  let ?f = "sample_relay_heap\<lparr>h_relays := [24 \<mapsto> sample_relay]\<rparr>"
  let ?sh = "\<lparr>rsh_state = fst (ResponderState_new sample_world), rsh_in_use = False\<rparr>"
  have "relay_admits sample_server_request" by (simp add: sample_server_request_def ranges_overlap_def checked_add_def)
  from server_out_of_order_calls_terminalize [OF sample_laws this, of 24 ?f sample_relay 16 ?sh "relay_finish_op sample 100 65 200"]
  show ?thesis
    using sample_relay_heap_props(2) ResponderState_new_props [of sample_world]
    by (auto simp: sample_relay_def sample_server_request_def)
qed

end
