(* ===== verification/Ffi_Handshake.thy ===== *)
theory Ffi_Handshake
  imports Sample_Handshake Agent_Ffi Relay_Ffi
begin

text \<open>
  A login over the C interfaces of the two libraries: two processes with a heap each, and
  bytes that travel from the output buffer of one call to an input buffer of the next.
\<close>

section \<open>Calls that return zero\<close>

lemma agent_call_zero_iff:
  "agent_call D a s operation f = Some (0, g) \<longleftrightarrow>
     (\<exists>ah sh sh' m w. a \<noteq> 0 \<and> h_agents f a = Some ah \<and> \<not> ah_in_use ah \<and>
        s \<noteq> 0 \<and> h_agent_states f s = Some sh \<and> \<not> as_in_use sh \<and>
        operation (ah\<lparr>ah_in_use := True\<rparr>) (sh\<lparr>as_in_use := True\<rparr>) (h_mem f) (h_world f) = (Ok (), sh', m, w) \<and>
        g = f\<lparr>h_agent_states := (h_agent_states f)(s \<mapsto> sh'\<lparr>as_in_use := False\<rparr>), h_mem := m, h_world := w\<rparr>)"
proof -
  have "finished_call D s operation sh f = (0, g) \<longleftrightarrow> (\<exists>sh' m w.
      operation (sh\<lparr>as_in_use := True\<rparr>) (h_mem f) (h_world f) = (Ok (), sh', m, w) \<and>
      g = f\<lparr>h_agent_states := (h_agent_states f)(s \<mapsto> sh'\<lparr>as_in_use := False\<rparr>), h_mem := m, h_world := w\<rparr>)"
    for operation sh
    by (auto simp: finished_call_def run_agent_stateful_def ffi_error_to_int_def FFI_PANIC_def
        split: prod.splits result.splits)
  then show ?thesis by (auto simp: agent_call_eq split: option.split)
qed

lemma relay_state_call_zero_iff:
  "relay_state_call D s operation f = Some (0, g) \<longleftrightarrow>
     (\<exists>sh sh' m w. s \<noteq> 0 \<and> h_relay_states f s = Some sh \<and> \<not> rsh_in_use sh \<and>
        operation (sh\<lparr>rsh_in_use := True\<rparr>) (h_mem f) (h_world f) = (Ok (), sh', m, w) \<and>
        g = f\<lparr>h_relay_states := (h_relay_states f)(s \<mapsto> sh'\<lparr>rsh_in_use := False\<rparr>), h_mem := m, h_world := w\<rparr>)"
  by (auto simp: relay_state_call_eq relay_finished_call_def run_relay_stateful_def ffi_error_to_int_def
      FFI_PANIC_def split: option.split prod.splits result.splits)

text \<open>KE1 and KE2 in the output buffers, and the sessions behind them.\<close>

lemma agent_ke1_zero:
  assumes "opaque_agent_generate_ke1 D a pw n aid k s out len f = Some (0, f1)"
    and live: "h_agents f a = Some ah" "h_agent_states f1 s = Some sh1"
  obtains sh ke1 w1 where "h_agents f1 a = Some ah" "\<not> ah_in_use ah" "a \<noteq> 0" "s \<noteq> 0"
    "h_agent_states f s = Some sh" "\<not> as_in_use sh1"
    "generate_ke1 D (read_bytes (h_mem f) pw (unat n)) (read_bytes (h_mem f) aid (unat k)) Ke1Message_new
       (as_state sh) (h_world f) = (Ok (), ke1, as_state sh1, w1)"
    "write_ke1 (m1_credential_request ke1) (m1_initiator_public_key ke1) (m1_initiator_nonce ke1)
       (m1_pq_ephemeral_public_key ke1) (zeros KE1_LENGTH) = Ok (read_bytes (h_mem f1) out KE1_LENGTH)"
proof -
  have "agent_call D a s (\<lambda>_. generate_ke1_op D pw n aid k out) f = Some (0, f1)"
    using assms by (auto simp: opaque_agent_generate_ke1_def split: if_splits)
  then obtain sh sh' m w where c: "a \<noteq> 0" "h_agents f a = Some ah" "\<not> ah_in_use ah" "s \<noteq> 0"
    "h_agent_states f s = Some sh"
    "generate_ke1_op D pw n aid k out (sh\<lparr>as_in_use := True\<rparr>) (h_mem f) (h_world f) = (Ok (), sh', m, w)"
    "f1 = f\<lparr>h_agent_states := (h_agent_states f)(s \<mapsto> sh'\<lparr>as_in_use := False\<rparr>), h_mem := m, h_world := w\<rparr>"
    using live(1) unfolding agent_call_zero_iff by auto
  obtain r ke1 ist1 w1 where run: "generate_ke1 D (read_bytes (h_mem f) pw (unat n)) (read_bytes (h_mem f) aid (unat k))
      Ke1Message_new (as_state sh) (h_world f) = (r, ke1, ist1, w1)" by (metis prod.collapse)
  then obtain data where d: "r = Ok ()" "write_ke1 (m1_credential_request ke1) (m1_initiator_public_key ke1)
      (m1_initiator_nonce ke1) (m1_pq_ephemeral_public_key ke1) (zeros KE1_LENGTH) = Ok data"
    "sh' = sh\<lparr>as_state := ist1, as_in_use := True\<rparr>" "m = write_bytes (h_mem f) out data"
    using c(6) by (cases r; cases "write_ke1 (m1_credential_request ke1) (m1_initiator_public_key ke1)
      (m1_initiator_nonce ke1) (m1_pq_ephemeral_public_key ke1) (zeros KE1_LENGTH)") (auto simp: generate_ke1_op_def Let_def)
  have "length data = KE1_LENGTH" using written_length(4) [OF d(2)] by simp
  then have "read_bytes m out KE1_LENGTH = data" using read_after_write [of data "h_mem f" out] d(4) by simp
  moreover have "sh1 = sh\<lparr>as_state := ist1, as_in_use := False\<rparr>" using live(2) c(7) d(3) by simp
  ultimately show thesis by (intro that [of sh ke1 w1]) (use c d run in simp_all)
qed

lemma relay_ke2_call_eq:
  assumes "h_relays f r = Some rh" "ke2_credentials D (rh_responder rh) (h_mem f) cd l = Ok c"
    "\<not> rh_in_use rh" "r \<noteq> 0"
  shows "guarded acquire_relay release_relay r f (\<lambda>rh f. case ke2_credentials D (rh_responder rh) (h_mem f) cd l of
      Err code \<Rightarrow> Some (code, f) | Panic \<Rightarrow> Some (FFI_PANIC, f)
    | Ok creds \<Rightarrow> relay_state_call D s (generate_ke2_op D (rh_responder rh) ke1 n aid k creds out) f)
   = relay_state_call D s (generate_ke2_op D (rh_responder rh) ke1 n aid k c out) f"
  using assms by (subst relay_guarded)
    (auto simp: relay_state_call_frame(1) dest: relay_state_call_frame(2) split: result.splits)

lemma relay_ke2_zero:
  assumes "opaque_relay_generate_ke2 D r ke1 n aid k cd l out len s f = Some (0, f1)"
    and live: "h_relays f r = Some rh" "h_relay_states f1 s = Some sh1"
      "ke2_credentials D (rh_responder rh) (h_mem f) cd l = Ok c"
  obtains sh ke2 v1 where "h_relays f1 r = Some rh" "\<not> rh_in_use rh" "r \<noteq> 0" "s \<noteq> 0"
    "h_relay_states f s = Some sh" "\<not> rsh_in_use sh1"
    "generate_ke2 D (rh_responder rh) (read_bytes (h_mem f) ke1 KE1_LENGTH) (read_bytes (h_mem f) aid (unat k)) c
       Ke2Message_new (rsh_state sh) (h_world f) = (Ok (), ke2, rsh_state sh1, v1)"
    "write_ke2 (m2_responder_nonce ke2) (m2_responder_public_key ke2) (m2_credential_response ke2)
       (m2_responder_mac ke2) (m2_kem_ciphertext ke2) (zeros KE2_LENGTH) = Ok (read_bytes (h_mem f1) out KE2_LENGTH)"
proof -
  have n: "unat n = KE1_LENGTH" and g: "guarded acquire_relay release_relay r f
      (\<lambda>rh f. case ke2_credentials D (rh_responder rh) (h_mem f) cd l of
        Err code \<Rightarrow> Some (code, f) | Panic \<Rightarrow> Some (FFI_PANIC, f)
      | Ok creds \<Rightarrow> relay_state_call D s (generate_ke2_op D (rh_responder rh) ke1 n aid k creds out) f) = Some (0, f1)"
    using assms(1) by (auto simp: opaque_relay_generate_ke2_def split: if_splits)
  then have rh: "\<not> rh_in_use rh" "r \<noteq> 0"
    using live(1) by (auto simp: relay_handles.guarded_eq split: if_splits)
  have "relay_state_call D s (generate_ke2_op D (rh_responder rh) ke1 n aid k c out) f = Some (0, f1)"
    using g unfolding relay_ke2_call_eq [OF live(1,3) rh] .
  then obtain sh sh' m w where call: "s \<noteq> 0" "h_relay_states f s = Some sh"
    "generate_ke2_op D (rh_responder rh) ke1 n aid k c out (sh\<lparr>rsh_in_use := True\<rparr>) (h_mem f) (h_world f) = (Ok (), sh', m, w)"
    "f1 = f\<lparr>h_relay_states := (h_relay_states f)(s \<mapsto> sh'\<lparr>rsh_in_use := False\<rparr>), h_mem := m, h_world := w\<rparr>"
    unfolding relay_state_call_zero_iff by blast
  obtain q ke2 rst1 v1 where run: "generate_ke2 D (rh_responder rh) (read_bytes (h_mem f) ke1 KE1_LENGTH)
      (read_bytes (h_mem f) aid (unat k)) c Ke2Message_new (rsh_state sh) (h_world f) = (q, ke2, rst1, v1)"
    by (metis prod.collapse)
  then obtain data where d: "q = Ok ()" "write_ke2 (m2_responder_nonce ke2) (m2_responder_public_key ke2)
      (m2_credential_response ke2) (m2_responder_mac ke2) (m2_kem_ciphertext ke2) (zeros KE2_LENGTH) = Ok data"
    "sh' = sh\<lparr>rsh_state := rst1, rsh_in_use := True\<rparr>" "m = write_bytes (h_mem f) out data"
    using call(3) by (cases q; cases "write_ke2 (m2_responder_nonce ke2) (m2_responder_public_key ke2)
      (m2_credential_response ke2) (m2_responder_mac ke2) (m2_kem_ciphertext ke2) (zeros KE2_LENGTH)")
      (auto simp: generate_ke2_op_def Let_def n)
  have "length data = KE2_LENGTH" using written_length(5) [OF d(2)] by simp
  then have "read_bytes m out KE2_LENGTH = data" using read_after_write [of data "h_mem f" out] d(4) by simp
  moreover have "sh1 = sh\<lparr>rsh_state := rst1, rsh_in_use := False\<rparr>" using live(2) call(4) d(3) by simp
  ultimately show thesis by (intro that [of sh ke2 v1]) (use rh live(1) call d run in simp_all)
qed

text \<open>The remaining calls return zero whenever the handler behind them succeeds.\<close>

lemma agent_ke3_returns_zero:
  assumes "h_agents f a = Some ah" "\<not> ah_in_use ah" "a \<noteq> 0" "h_agent_states f s = Some sh" "\<not> as_in_use sh" "s \<noteq> 0"
    and args: "ke2 \<noteq> 0" "unat n = KE2_LENGTH" "out \<noteq> 0" "KE3_LENGTH \<le> unat len" "\<not> ranges_overlap ke2 n out (of_nat KE3_LENGTH)"
    and run: "generate_ke3 D (ah_initiator ah) (read_bytes (h_mem f) ke2 KE2_LENGTH) (as_state sh) Ke3Message_new (h_world f)
       = (Ok (), ke3, ist, w)" "write_ke3 (m3_initiator_mac ke3) (zeros KE3_LENGTH) = Ok data"
  obtains g where "opaque_agent_generate_ke3 D a ke2 n s out len f = Some (0, g)"
    "read_bytes (h_mem g) out KE3_LENGTH = data" "h_agents g a = Some ah"
    "h_agent_states g s = Some (sh\<lparr>as_state := ist, as_ke3_exported := True\<rparr>)"
proof -
  let ?sh = "sh\<lparr>as_state := ist, as_ke3_exported := True\<rparr>"
  let ?g = "f\<lparr>h_agent_states := (h_agent_states f)(s \<mapsto> ?sh), h_mem := write_bytes (h_mem f) out data, h_world := w\<rparr>"
  have "generate_ke3_op D ke2 n out (ah\<lparr>ah_in_use := True\<rparr>) (sh\<lparr>as_in_use := True\<rparr>) (h_mem f) (h_world f)
      = (Ok (), ?sh\<lparr>as_in_use := True\<rparr>, write_bytes (h_mem f) out data, w)"
    using run args(2) by (simp add: generate_ke3_op_def)
  then have "agent_call D a s (generate_ke3_op D ke2 n out) f = Some (0, ?g)"
    unfolding agent_call_zero_iff using assms(1-6)
    by (intro exI [of _ ah] exI [of _ sh] exI [of _ "?sh\<lparr>as_in_use := True\<rparr>"] exI [of _ "write_bytes (h_mem f) out data"]
        exI [of _ w]) (cases sh; simp)
  then have call: "opaque_agent_generate_ke3 D a ke2 n s out len f = Some (0, ?g)"
    using args by (simp add: opaque_agent_generate_ke3_def)
  have "length data = KE3_LENGTH" using written_length(6) [OF run(2)] by simp
  then have "read_bytes (h_mem ?g) out KE3_LENGTH = data" using read_after_write [of data "h_mem f" out] by simp
  with that [OF call] assms(1) show thesis by simp
qed

lemma relay_finish_returns_zero:
  assumes "h_relays f r = Some rh" "\<not> rh_in_use rh" "r \<noteq> 0" "h_relay_states f s = Some sh" "\<not> rsh_in_use sh" "s \<noteq> 0"
    and args: "ke3 \<noteq> 0" "unat n = KE3_LENGTH" "out \<noteq> 0" "HASH_LENGTH \<le> unat len" "\<not> ranges_overlap ke3 n out (of_nat HASH_LENGTH)"
    and run: "responder_finish D (read_bytes (h_mem f) ke3 KE3_LENGTH) (rsh_state sh) (zeros HASH_LENGTH) (h_world f) = (Ok (), key, rst, w)"
  shows "\<exists>g. opaque_relay_finish D r ke3 n s out len f = Some (0, g) \<and> read_bytes (h_mem g) out HASH_LENGTH = key \<and>
     h_relay_states g s = Some (sh\<lparr>rsh_state := rst\<rparr>)"
proof -
  let ?g = "f\<lparr>h_relay_states := (h_relay_states f)(s \<mapsto> sh\<lparr>rsh_state := rst\<rparr>), h_mem := write_bytes (h_mem f) out key, h_world := w\<rparr>"
  have "relay_finish_op D ke3 n out (sh\<lparr>rsh_in_use := True\<rparr>) (h_mem f) (h_world f)
      = (Ok (), sh\<lparr>rsh_state := rst, rsh_in_use := True\<rparr>, write_bytes (h_mem f) out key, w)"
    using run args(2) by (simp add: relay_finish_op_def)
  then have "relay_state_call D s (relay_finish_op D ke3 n out) f = Some (0, ?g)"
    unfolding relay_state_call_zero_iff using assms(4-6)
    by (intro exI [of _ sh] exI [of _ "sh\<lparr>rsh_state := rst, rsh_in_use := True\<rparr>"] exI [of _ "write_bytes (h_mem f) out key"]
        exI [of _ w]) (cases sh; simp)
  moreover have "guarded acquire_relay release_relay r f (\<lambda>_ f. relay_state_call D s (relay_finish_op D ke3 n out) f)
      = relay_state_call D s (relay_finish_op D ke3 n out) f"
    using assms(1-3) by (subst relay_guarded) (auto simp: relay_state_call_frame(1) dest: relay_state_call_frame(2))
  ultimately have call: "opaque_relay_finish D r ke3 n s out len f = Some (0, ?g)"
    using args by (simp add: opaque_relay_finish_def)
  have "length key = HASH_LENGTH" using responder_finish_length [OF run] by simp
  then show ?thesis using call read_after_write [of key "h_mem f" out] by auto
qed

lemma agent_finish_returns_zero:
  assumes "h_agents f a = Some ah" "\<not> ah_in_use ah" "a \<noteq> 0" "h_agent_states f s = Some sh" "\<not> as_in_use sh" "s \<noteq> 0"
    and args: "sk \<noteq> 0" "HASH_LENGTH \<le> unat n" "ek \<noteq> 0" "EXPORT_KEY_LENGTH \<le> unat k"
      "\<not> ranges_overlap sk (of_nat HASH_LENGTH) ek (of_nat EXPORT_KEY_LENGTH)"
    and run: "as_ke3_exported sh"
      "initiator_finish D (as_state sh) (zeros HASH_LENGTH) (zeros EXPORT_KEY_LENGTH) = (Ok (), key, export, ist)"
  shows "\<exists>g. opaque_agent_finish D a s sk n ek k f = Some (0, g) \<and> read_bytes (h_mem g) sk HASH_LENGTH = key \<and>
     read_bytes (h_mem g) ek EXPORT_KEY_LENGTH = export"
proof -
  let ?m = "write_bytes (write_bytes (h_mem f) sk key) ek export"
  have "run_agent_stateful D (agent_finish_op D sk ek) (sh\<lparr>as_in_use := True\<rparr>) (h_mem f) (h_world f) =
      (0, sh\<lparr>as_in_use := True, as_state := ist, as_ke3_exported := False\<rparr>, ?m, h_world f)"
    using run by (simp add: run_agent_stateful_def agent_finish_op_def)
  then have "\<exists>g. finished_call D s (agent_finish_op D sk ek) sh f = (0, g) \<and> h_mem g = ?m"
    by (simp add: finished_call_def)
  then obtain g where call: "opaque_agent_finish D a s sk n ek k f = Some (0, g)" "h_mem g = ?m"
    using opaque_agent_finish_eq [OF assms(1-6) args] by metis
  have len: "length key = 64" "length export = 32" using finish_lengths [OF run(2)] by simp_all
  have "window sk 64 \<inter> window ek 32 = {}" using disjoint_windows [of sk 64 ek 32] args(5) by simp
  then show ?thesis
    using call len read_after_write [of key "h_mem f" sk] read_after_write [of export "write_bytes (h_mem f) sk key" ek]
      read_disjoint_write [of sk 64 ek export] by auto
qed

section \<open>The login\<close>

text \<open>Buffers the last three calls accept.\<close>

definition ke3_buffers :: "addr \<Rightarrow> addr \<Rightarrow> addr \<Rightarrow> addr \<Rightarrow> bool" where
  "ke3_buffers ke2 n out len \<longleftrightarrow> ke2 \<noteq> 0 \<and> unat n = KE2_LENGTH \<and> out \<noteq> 0 \<and> KE3_LENGTH \<le> unat len \<and>
     \<not> ranges_overlap ke2 n out (of_nat KE3_LENGTH)"

definition relay_finish_buffers :: "addr \<Rightarrow> addr \<Rightarrow> addr \<Rightarrow> addr \<Rightarrow> bool" where
  "relay_finish_buffers ke3 n out len \<longleftrightarrow> ke3 \<noteq> 0 \<and> unat n = KE3_LENGTH \<and> out \<noteq> 0 \<and> HASH_LENGTH \<le> unat len \<and>
     \<not> ranges_overlap ke3 n out (of_nat HASH_LENGTH)"

definition agent_finish_buffers :: "addr \<Rightarrow> addr \<Rightarrow> addr \<Rightarrow> addr \<Rightarrow> bool" where
  "agent_finish_buffers sk n ek k \<longleftrightarrow> sk \<noteq> 0 \<and> HASH_LENGTH \<le> unat n \<and> ek \<noteq> 0 \<and> EXPORT_KEY_LENGTH \<le> unat k \<and>
     \<not> ranges_overlap sk (of_nat HASH_LENGTH) ek (of_nat EXPORT_KEY_LENGTH)"

lemma honest_keypair_valid: "honest_responder D resp a s k \<Longrightarrow> keypair_valid D (or_keypair resp)"
  by (auto simp: honest_responder_def keypair_valid_def)

text \<open>The three calls that remain once KE2 has been delivered, from the handlers behind them.\<close>

lemma interface_completes:
  assumes client: "h_agents f a = Some ah" "\<not> ah_in_use ah" "a \<noteq> 0" "s \<noteq> 0" "h_agent_states f s = Some sh" "\<not> as_in_use sh"
    and server: "h_relays g r = Some rh" "\<not> rh_in_use rh" "r \<noteq> 0" "t \<noteq> 0" "h_relay_states g t = Some th" "\<not> rsh_in_use th"
    and fin: "generate_ke3 D (ah_initiator ah) (read_bytes (h_mem f) ke2_in KE2_LENGTH) (as_state sh) Ke3Message_new (h_world f)
        = (Ok (), ke3, ist2, w3)"
      "write_ke3 (m3_initiator_mac ke3) (zeros KE3_LENGTH) = Ok ke3_data"
      "responder_finish D ke3_data (rsh_state th) (zeros HASH_LENGTH) v = (Ok (), key, rst2, v3)"
      "initiator_finish D ist2 (zeros HASH_LENGTH) (zeros EXPORT_KEY_LENGTH) = (Ok (), key, export, ist3)"
    and buffers: "ke3_buffers ke2_in n2 ke3_out l3" "relay_finish_buffers ke3_in n3 key_out l4"
      "agent_finish_buffers sk_out l5 ek_out l6"
  shows "\<exists>f2 f3. opaque_agent_generate_ke3 D a ke2_in n2 s ke3_out l3 f = Some (0, f2) \<and>
     (\<forall>m'. read_bytes m' ke3_in KE3_LENGTH = read_bytes (h_mem f2) ke3_out KE3_LENGTH \<longrightarrow>
        (\<exists>g2. opaque_relay_finish D r ke3_in n3 t key_out l4 (g\<lparr>h_mem := m', h_world := v\<rparr>) = Some (0, g2) \<and>
           read_bytes (h_mem g2) key_out HASH_LENGTH = key)) \<and>
     opaque_agent_finish D a s sk_out l5 ek_out l6 f2 = Some (0, f3) \<and>
     read_bytes (h_mem f3) sk_out HASH_LENGTH = key \<and> read_bytes (h_mem f3) ek_out EXPORT_KEY_LENGTH = export"
proof -
  obtain f2 where f2: "opaque_agent_generate_ke3 D a ke2_in n2 s ke3_out l3 f = Some (0, f2)"
    "read_bytes (h_mem f2) ke3_out KE3_LENGTH = ke3_data" "h_agents f2 a = Some ah"
    "h_agent_states f2 s = Some (sh\<lparr>as_state := ist2, as_ke3_exported := True\<rparr>)"
    by (rule agent_ke3_returns_zero [OF client(1-3,5,6,4), of ke2_in n2 ke3_out l3 D])
      (use buffers(1) fin in \<open>simp_all add: ke3_buffers_def\<close>)
  have "\<exists>g2. opaque_relay_finish D r ke3_in n3 t key_out l4 (g\<lparr>h_mem := m', h_world := v\<rparr>) = Some (0, g2) \<and>
      read_bytes (h_mem g2) key_out HASH_LENGTH = key"
    if "read_bytes m' ke3_in KE3_LENGTH = read_bytes (h_mem f2) ke3_out KE3_LENGTH" for m'
    using relay_finish_returns_zero [of "g\<lparr>h_mem := m', h_world := v\<rparr>" r rh t th ke3_in n3 key_out l4 D]
      server buffers(2) fin(3) that f2(2) by (auto simp: relay_finish_buffers_def)
  moreover have "\<exists>f3. opaque_agent_finish D a s sk_out l5 ek_out l6 f2 = Some (0, f3) \<and>
      read_bytes (h_mem f3) sk_out HASH_LENGTH = key \<and> read_bytes (h_mem f3) ek_out EXPORT_KEY_LENGTH = export"
    by (rule agent_finish_returns_zero [OF f2(3) client(2,3) f2(4)])
      (use client buffers(3) fin(4) in \<open>simp_all add: agent_finish_buffers_def\<close>)
  ultimately show ?thesis using f2(1) by blast
qed

text \<open>
  C6: a login over the two C libraries delivers one key to both applications. The client's
  process asks for KE1 and gets it, the server's process is given these bytes and the stored
  record of the account and returns KE2. Whatever both processes do with their memory in
  between, once the client's buffer holds that KE2 and neither session has expired, the call
  for KE3 returns zero; once the server's buffer holds that KE3, its finishing call returns
  zero; the client's finishing call returns zero; and the two 64-byte key buffers are equal.
\<close>

theorem interface_login_agreement:
  assumes laws: "deps_laws D"
    and client: "agent_heap_inv D f" "h_agents f a = Some ah"
      "OpaqueInitiator_new D (kp_public_key (or_keypair (rh_responder rh))) = Ok (ah_initiator ah)"
    and server: "relay_heap_inv D g" "h_relays g r = Some rh" "honest_responder D (rh_responder rh) acc sr k"
    and ke1: "opaque_agent_generate_ke1 D a pw pn aid an s ke1_out l1 f = Some (0, f1)"
      "read_bytes (h_mem f) pw (unat pn) = pwd" "read_bytes (h_mem f) aid (unat an) = acc"
    and ke2: "opaque_relay_generate_ke2 D r ke1_in n1 aid' an' rec rn ke2_out l2 t g = Some (0, g1)"
      "read_bytes (h_mem g) ke1_in KE1_LENGTH = read_bytes (h_mem f1) ke1_out KE1_LENGTH"
      "read_bytes (h_mem g) aid' (unat an') = acc"
    and stored: "ke2_credentials D (rh_responder rh) (h_mem g) rec rn = Ok c"
      "account_ready D (password_key D k pwd) (kp_public_key (or_keypair (rh_responder rh))) c"
    and sessions: "h_agent_states f1 s = Some sh" "h_relay_states g1 t = Some th"
    and delivered: "read_bytes m ke2_in KE2_LENGTH = read_bytes (h_mem g1) ke2_out KE2_LENGTH"
    and kem: "parse_ke2 (read_bytes m ke2_in KE2_LENGTH) = Ok view"
      "decapsulate D (i_pq_secret_key (as_state sh)) (k2_kem_ciphertext view) (zeros 32) = Ok (r_pq_shared_secret (rsh_state th))"
    and fresh: "\<not> fst (initiator_is_expired (as_state sh) w)" "\<not> fst (responder_is_expired (rsh_state th) v)"
    and nonzero: "account_context D acc \<noteq> zeros 64" "r_session_key (rsh_state th) \<noteq> zeros 64"
    and buffers: "ke3_buffers ke2_in n2 ke3_out l3" "relay_finish_buffers ke3_in n3 key_out l4"
      "agent_finish_buffers sk_out l5 ek_out l6"
  shows "\<exists>f2 f3 key. opaque_agent_generate_ke3 D a ke2_in n2 s ke3_out l3 (f1\<lparr>h_mem := m, h_world := w\<rparr>) = Some (0, f2) \<and>
     (\<forall>m'. read_bytes m' ke3_in KE3_LENGTH = read_bytes (h_mem f2) ke3_out KE3_LENGTH \<longrightarrow>
        (\<exists>g2. opaque_relay_finish D r ke3_in n3 t key_out l4 (g1\<lparr>h_mem := m', h_world := v\<rparr>) = Some (0, g2) \<and>
           read_bytes (h_mem g2) key_out HASH_LENGTH = key)) \<and>
     opaque_agent_finish D a s sk_out l5 ek_out l6 f2 = Some (0, f3) \<and>
     read_bytes (h_mem f3) sk_out HASH_LENGTH = key \<and>
     read_bytes (h_mem f3) ek_out EXPORT_KEY_LENGTH = client_export_key_of D (password_key D k pwd) (account_context D acc)"
proof -
  obtain sh0 k1 w1 where c1: "h_agents f1 a = Some ah" "\<not> ah_in_use ah" "a \<noteq> 0" "s \<noteq> 0"
    "h_agent_states f s = Some sh0" "\<not> as_in_use sh"
    "generate_ke1 D pwd acc Ke1Message_new (as_state sh0) (h_world f) = (Ok (), k1, as_state sh, w1)"
    "write_ke1 (m1_credential_request k1) (m1_initiator_public_key k1) (m1_initiator_nonce k1)
       (m1_pq_ephemeral_public_key k1) (zeros KE1_LENGTH) = Ok (read_bytes (h_mem f1) ke1_out KE1_LENGTH)"
    by (rule agent_ke1_zero [OF ke1(1) client(2) sessions(1), unfolded ke1(2,3)])
  obtain th0 k2 v1 where s1: "h_relays g1 r = Some rh" "\<not> rh_in_use rh" "r \<noteq> 0" "t \<noteq> 0"
    "h_relay_states g t = Some th0" "\<not> rsh_in_use th"
    "generate_ke2 D (rh_responder rh) (read_bytes (h_mem f1) ke1_out KE1_LENGTH) acc c Ke2Message_new (rsh_state th0) (h_world g)
       = (Ok (), k2, rsh_state th, v1)"
    "write_ke2 (m2_responder_nonce k2) (m2_responder_public_key k2) (m2_credential_response k2)
       (m2_responder_mac k2) (m2_kem_ciphertext k2) (zeros KE2_LENGTH) = Ok (read_bytes m ke2_in KE2_LENGTH)"
    by (rule relay_ke2_zero [OF ke2(1) server(2) sessions(2) stored(1), unfolded ke2(2,3), folded delivered])
  have inv: "initiator_inv (as_state sh0)" "responder_inv (rsh_state th0)"
    using client(1) server(1) c1(5) s1(5)
    by (auto simp: agent_heap_inv_def agent_state_live_def agent_state_inv_def relay_heap_inv_def relay_state_live_def)
  have sized: "credentials_sized c"
    by (rule ke2_credentials_cases(3) [OF laws honest_keypair_valid [OF server(3)] stored(1)])
  have ct: "k2_kem_ciphertext view = m2_kem_ciphertext k2"
    using kem(1) ke2_delivered(1) [OF s1(8)] by (simp add: ke2_view_def)
  obtain ke3 ist2 w3 ke3_data rst2 v3 ist3 where fin:
    "generate_ke3 D (ah_initiator ah) (read_bytes m ke2_in KE2_LENGTH) (as_state sh) Ke3Message_new w = (Ok (), ke3, ist2, w3)"
    "write_ke3 (m3_initiator_mac ke3) (zeros KE3_LENGTH) = Ok ke3_data"
    "responder_finish D ke3_data (rsh_state th) (zeros HASH_LENGTH) v = (Ok (), r_session_key (rsh_state th), rst2, v3)"
    "initiator_finish D ist2 (zeros HASH_LENGTH) (zeros EXPORT_KEY_LENGTH) = (Ok (), r_session_key (rsh_state th),
       client_export_key_of D (password_key D k pwd) (account_context D acc), ist3)"
    using login_completes [OF laws server(3) client(3) stored(2) sized inv c1(7,8) s1(7,8) kem(2) [unfolded ct]
        fresh nonzero] by blast
  have heap: "h_agents (f1\<lparr>h_mem := m, h_world := w\<rparr>) a = Some ah" "h_agent_states (f1\<lparr>h_mem := m, h_world := w\<rparr>) s = Some sh"
    using c1(1) sessions(1) by simp_all
  show ?thesis
    using interface_completes [OF heap(1) c1(2-4) heap(2) c1(6) s1(1-4) sessions(2) s1(6) _ fin(2-4) buffers] fin(1) by auto
qed

section \<open>A login over the sample dependencies\<close>

definition sample_client_heap :: agent_heap where
  "sample_client_heap = sample_slot_heap\<lparr>h_agents := [24 \<mapsto> sample_agent], h_world := sample_world,
     h_mem := write_bytes (write_bytes (\<lambda>_. 0) 1000 sample_password) 2000 sample_account\<rparr>"

lemma sample_client_heap_props:
  "agent_heap_inv sample sample_client_heap" "h_agents sample_client_heap 24 = Some sample_agent"
  "h_agent_states sample_client_heap 16 = Some \<lparr>as_state = sample_ist, as_ke3_exported = False, as_in_use = False\<rparr>"
  "read_bytes (h_mem sample_client_heap) 1000 3 = sample_password" "read_bytes (h_mem sample_client_heap) 2000 1 = sample_account"
  "h_world sample_client_heap = sample_world"
  using sample_agent_heap_inv sample_slot_heap_props(2)
  by (simp_all add: sample_client_heap_def agent_heap_inv_def)
    (simp_all add: read_bytes_def write_bytes_def sample_password_def sample_account_def upt_rec)

definition sample_record :: bytes where
  "sample_record = registration_record_wire \<lparr>rec_masking_key = c_masking_key sample_credentials,
     rec_envelope = c_envelope sample_credentials, rec_initiator_public_key = c_initiator_public_key sample_credentials\<rparr>"

definition sample_server_heap :: "bytes \<Rightarrow> relay_heap" where
  "sample_server_heap ke1 = sample_relay_heap\<lparr>h_relays := [24 \<mapsto> sample_relay], h_world := sample_world,
     h_mem := write_bytes (write_bytes (write_bytes (\<lambda>_. 0) 1000 ke1) 3000 sample_account) 4000 sample_record\<rparr>"

lemma sample_server_heap_props:
  assumes "length ke1 = 1273"
  shows "relay_heap_inv sample (sample_server_heap ke1)" "h_relays (sample_server_heap ke1) 24 = Some sample_relay"
    "h_relay_states (sample_server_heap ke1) 16 = Some \<lparr>rsh_state = sample_rst, rsh_in_use = False\<rparr>"
    "read_bytes (h_mem (sample_server_heap ke1)) 1000 1273 = ke1"
    "read_bytes (h_mem (sample_server_heap ke1)) 3000 1 = sample_account"
    "ke2_credentials sample sample_responder (h_mem (sample_server_heap ke1)) 4000 201 = Ok sample_credentials"
    "h_world (sample_server_heap ke1) = sample_world"
proof -
  let ?v = "\<lparr>rec_masking_key = c_masking_key sample_credentials, rec_envelope = c_envelope sample_credentials,
    rec_initiator_public_key = c_initiator_public_key sample_credentials\<rparr>"
  have v: "registration_record_sized ?v"
    using sample_account_ready(2) by (simp add: registration_record_sized_def credentials_sized_def sample_credentials_def z3_encode_laws masking_key_of_def)
  then have len: "length sample_record = 201" using registration_record_codec.wire_length [OF v] by (simp add: sample_record_def)
  show "relay_heap_inv sample (sample_server_heap ke1)" using sample_server_heap_inv
    by (simp add: sample_server_heap_def relay_heap_inv_def)
  show "h_relays (sample_server_heap ke1) 24 = Some sample_relay"
    "h_relay_states (sample_server_heap ke1) 16 = Some \<lparr>rsh_state = sample_rst, rsh_in_use = False\<rparr>"
    "h_world (sample_server_heap ke1) = sample_world"
    using sample_relay_heap_props(2) by (simp_all add: sample_server_heap_def)
  let ?m1 = "write_bytes (\<lambda>_. 0) 1000 ke1" and ?m2 = "write_bytes (write_bytes (\<lambda>_. 0) 1000 ke1) 3000 sample_account"
  have apart: "window 1000 1273 \<inter> window 3000 1 = {}" "window 1000 1273 \<inter> window 4000 201 = {}" "window 3000 1 \<inter> window 4000 201 = {}"
    using disjoint_windows [of 1000 1273 3000 1] disjoint_windows [of 1000 1273 4000 201] disjoint_windows [of 3000 1 4000 201]
    by (simp_all add: ranges_overlap_def checked_add_def)
  have acc: "length sample_account = 1" by (simp add: sample_account_def)
  show "read_bytes (h_mem (sample_server_heap ke1)) 1000 1273 = ke1"
    using read_disjoint_write [of 1000 1273 4000 sample_record ?m2] read_disjoint_write [of 1000 1273 3000 sample_account ?m1]
      read_after_write [of ke1 "\<lambda>_. 0" 1000] apart len acc assms by (simp add: sample_server_heap_def)
  show "read_bytes (h_mem (sample_server_heap ke1)) 3000 1 = sample_account"
    using read_disjoint_write [of 3000 1 4000 sample_record ?m2] read_after_write [of sample_account ?m1 3000] apart len acc
    by (simp add: sample_server_heap_def)
  have "read_bytes (h_mem (sample_server_heap ke1)) 4000 201 = sample_record"
    using read_after_write [of sample_record ?m2 4000] len by (simp add: sample_server_heap_def)
  moreover have "parse_registration_record sample_record = Ok ?v"
    unfolding sample_record_def by (rule registration_record_codec.parse_wire [OF v])
  moreover have "validate_public_key sample (z3_encode Z1) = Ok ()" using validate_compress(1) [of sample Z1] by simp
  ultimately show "ke2_credentials sample sample_responder (h_mem (sample_server_heap ke1)) 4000 201 = Ok sample_credentials"
    using keypair_validD(2,3) [OF sample_keypair_valid sample_laws]
    by (subst ke2_credentials_eq [OF sample_laws])
      (simp_all add: sample_responder_def sample_credentials_def)
qed

lemma agent_ke1_returns_zero:
  assumes "h_agents f a = Some ah" "\<not> ah_in_use ah" "a \<noteq> 0" "h_agent_states f s = Some sh" "\<not> as_in_use sh" "s \<noteq> 0"
    and args: "1 \<le> unat n" "unat n \<le> 4096" "pw \<noteq> 0" "aid \<noteq> 0" "k \<noteq> 0" "unat k \<le> 1024" "out \<noteq> 0" "KE1_LENGTH \<le> unat len"
      "\<not> ranges_overlap pw n out (of_nat KE1_LENGTH)" "\<not> ranges_overlap aid k out (of_nat KE1_LENGTH)"
    and run: "generate_ke1 D (read_bytes (h_mem f) pw (unat n)) (read_bytes (h_mem f) aid (unat k)) Ke1Message_new
        (as_state sh) (h_world f) = (Ok (), ke1, ist1, w1)"
      "write_ke1 (m1_credential_request ke1) (m1_initiator_public_key ke1) (m1_initiator_nonce ke1)
        (m1_pq_ephemeral_public_key ke1) (zeros KE1_LENGTH) = Ok data"
  obtains f1 where "opaque_agent_generate_ke1 D a pw n aid k s out len f = Some (0, f1)"
    "h_agent_states f1 s = Some (sh\<lparr>as_state := ist1\<rparr>)" "read_bytes (h_mem f1) out KE1_LENGTH = data"
proof -
  let ?g = "f\<lparr>h_agent_states := (h_agent_states f)(s \<mapsto> sh\<lparr>as_state := ist1\<rparr>), h_mem := write_bytes (h_mem f) out data, h_world := w1\<rparr>"
  have "generate_ke1_op D pw n aid k out (sh\<lparr>as_in_use := True\<rparr>) (h_mem f) (h_world f)
      = (Ok (), sh\<lparr>as_state := ist1, as_in_use := True\<rparr>, write_bytes (h_mem f) out data, w1)"
    using run by (simp add: generate_ke1_op_def)
  then have "agent_call D a s (\<lambda>_. generate_ke1_op D pw n aid k out) f = Some (0, ?g)"
    unfolding agent_call_zero_iff using assms(1-6)
    by (intro exI [of _ ah] exI [of _ sh] exI [of _ "sh\<lparr>as_state := ist1, as_in_use := True\<rparr>"]
        exI [of _ "write_bytes (h_mem f) out data"] exI [of _ w1]) (cases sh; simp)
  then have call: "opaque_agent_generate_ke1 D a pw n aid k s out len f = Some (0, ?g)"
    using args by (simp add: opaque_agent_generate_ke1_def)
  have "length data = KE1_LENGTH" using written_length(4) [OF run(2)] by simp
  then have "read_bytes (h_mem ?g) out KE1_LENGTH = data" using read_after_write [of data "h_mem f" out] by simp
  with that [OF call] show thesis by simp
qed

lemma relay_ke2_returns_zero:
  assumes live: "h_relays f r = Some rh" "ke2_credentials D (rh_responder rh) (h_mem f) cd l = Ok c" "\<not> rh_in_use rh" "r \<noteq> 0"
      "h_relay_states f s = Some sh" "\<not> rsh_in_use sh" "s \<noteq> 0"
    and args: "ke1 \<noteq> 0" "unat n = KE1_LENGTH" "aid \<noteq> 0" "k \<noteq> 0" "unat k \<le> 1024" "out \<noteq> 0" "KE2_LENGTH \<le> unat len"
      "\<not> ranges_overlap ke1 n out (of_nat KE2_LENGTH)" "\<not> ranges_overlap aid k out (of_nat KE2_LENGTH)"
      "unat l = RESPONDER_CREDENTIALS_LENGTH" "cd \<noteq> 0" "\<not> ranges_overlap cd l out (of_nat KE2_LENGTH)"
    and run: "generate_ke2 D (rh_responder rh) (read_bytes (h_mem f) ke1 KE1_LENGTH) (read_bytes (h_mem f) aid (unat k)) c
        Ke2Message_new (rsh_state sh) (h_world f) = (Ok (), ke2, rst1, v1)"
      "write_ke2 (m2_responder_nonce ke2) (m2_responder_public_key ke2) (m2_credential_response ke2)
        (m2_responder_mac ke2) (m2_kem_ciphertext ke2) (zeros KE2_LENGTH) = Ok data"
  obtains f1 where "opaque_relay_generate_ke2 D r ke1 n aid k cd l out len s f = Some (0, f1)"
    "h_relay_states f1 s = Some (sh\<lparr>rsh_state := rst1\<rparr>)" "read_bytes (h_mem f1) out KE2_LENGTH = data"
proof -
  let ?g = "f\<lparr>h_relay_states := (h_relay_states f)(s \<mapsto> sh\<lparr>rsh_state := rst1\<rparr>), h_mem := write_bytes (h_mem f) out data, h_world := v1\<rparr>"
  have "generate_ke2_op D (rh_responder rh) ke1 n aid k c out (sh\<lparr>rsh_in_use := True\<rparr>) (h_mem f) (h_world f)
      = (Ok (), sh\<lparr>rsh_state := rst1, rsh_in_use := True\<rparr>, write_bytes (h_mem f) out data, v1)"
    using run args(2) by (simp add: generate_ke2_op_def)
  then have "relay_state_call D s (generate_ke2_op D (rh_responder rh) ke1 n aid k c out) f = Some (0, ?g)"
    unfolding relay_state_call_zero_iff using live(5-7)
    by (intro exI [of _ sh] exI [of _ "sh\<lparr>rsh_state := rst1, rsh_in_use := True\<rparr>"]
        exI [of _ "write_bytes (h_mem f) out data"] exI [of _ v1]) (cases sh; simp)
  then have call: "opaque_relay_generate_ke2 D r ke1 n aid k cd l out len s f = Some (0, ?g)"
    using args relay_ke2_call_eq [OF live(1-4)] by (simp add: opaque_relay_generate_ke2_def)
  have "length data = KE2_LENGTH" using written_length(5) [OF run(2)] by simp
  then have "read_bytes (h_mem ?g) out KE2_LENGTH = data" using read_after_write [of data "h_mem f" out] by simp
  with that [OF call] show thesis by simp
qed

text \<open>The two calls that start the login.\<close>

lemma sample_interface_calls:
  obtains f1 g1 ist1 rst1 ke1_data ke2_data ct where "length ke1_data = 1273" "length ke2_data = 1377"
    "opaque_agent_generate_ke1 sample 24 1000 3 2000 1 16 4000 1273 sample_client_heap = Some (0, f1)"
    "h_agent_states f1 16 = Some \<lparr>as_state = ist1, as_ke3_exported = False, as_in_use = False\<rparr>"
    "read_bytes (h_mem f1) 4000 KE1_LENGTH = ke1_data"
    "opaque_relay_generate_ke2 sample 24 1000 1273 3000 1 4000 201 5000 1377 16 (sample_server_heap ke1_data) = Some (0, g1)"
    "h_relay_states g1 16 = Some \<lparr>rsh_state = rst1, rsh_in_use = False\<rparr>" "read_bytes (h_mem g1) 5000 KE2_LENGTH = ke2_data"
    "parse_ke2 ke2_data = Ok ct" "decapsulate sample (i_pq_secret_key ist1) (k2_kem_ciphertext ct) (zeros 32) = Ok (r_pq_shared_secret rst1)"
    "r_session_key rst1 \<noteq> zeros 64"
proof -
  obtain ke1 ist1 w1 ke1_data where k1:
    "generate_ke1 sample sample_password sample_account Ke1Message_new sample_ist sample_world = (Ok (), ke1, ist1, w1)"
    "write_ke1 (m1_credential_request ke1) (m1_initiator_public_key ke1) (m1_initiator_nonce ke1)
       (m1_pq_ephemeral_public_key ke1) (zeros KE1_LENGTH) = Ok ke1_data"
    "login_pending sample sample_password sample_account ist1 ke1"
    by (rule sample_ke1_run)
  obtain ke2 rst1 v1 ke2_data where k2:
    "generate_ke2 sample sample_responder ke1_data sample_account sample_credentials Ke2Message_new sample_rst sample_world
       = (Ok (), ke2, rst1, v1)"
    "write_ke2 (m2_responder_nonce ke2) (m2_responder_public_key ke2) (m2_credential_response ke2)
       (m2_responder_mac ke2) (m2_kem_ciphertext ke2) (zeros KE2_LENGTH) = Ok ke2_data"
    "m2_kem_ciphertext ke2 = replicate 1088 5" "r_pq_shared_secret rst1 = replicate 32 9"
    "r_session_key rst1 = replicate 64 2"
    by (rule sample_ke2_run [OF k1(3,2)])
  have l1: "length ke1_data = 1273" and l2: "length ke2_data = 1377"
    using ke1_delivered(2) [OF k1(2)] ke2_delivered(2) [OF k2(2)] by simp_all
  note C = sample_client_heap_props and S = sample_server_heap_props [OF l1]
  obtain f1 where f1: "opaque_agent_generate_ke1 sample 24 1000 3 2000 1 16 4000 1273 sample_client_heap = Some (0, f1)"
    "h_agent_states f1 16 = Some \<lparr>as_state = ist1, as_ke3_exported = False, as_in_use = False\<rparr>"
    "read_bytes (h_mem f1) 4000 KE1_LENGTH = ke1_data"
    by (rule agent_ke1_returns_zero [OF C(2) _ _ C(3), of 3 1000 2000 1 4000 1273])
      (use C k1 in \<open>simp_all add: sample_agent_def ranges_overlap_def checked_add_def\<close>)
  obtain g1 where g1: "opaque_relay_generate_ke2 sample 24 1000 1273 3000 1 4000 201 5000 1377 16
      (sample_server_heap ke1_data) = Some (0, g1)"
    "h_relay_states g1 16 = Some \<lparr>rsh_state = rst1, rsh_in_use = False\<rparr>" "read_bytes (h_mem g1) 5000 KE2_LENGTH = ke2_data"
    by (rule relay_ke2_returns_zero [OF S(2) _ _ _ S(3), of sample 4000 201 sample_credentials 1000 1273 3000 1 5000 1377])
      (use S k2(1,2) in \<open>simp_all add: sample_relay_def ranges_overlap_def checked_add_def\<close>)
  have kem: "decapsulate sample (i_pq_secret_key ist1) (k2_kem_ciphertext (ke2_view ke2)) (zeros 32) = Ok (r_pq_shared_secret rst1)"
    using sample_decapsulates [OF k1(3)] by (simp add: ke2_view_def k2(3,4))
  have "r_session_key rst1 \<noteq> zeros 64" using k2(5) by (simp add: zeros_def)
  then show thesis by (rule that [OF l1 l2 f1 g1 ke2_delivered(1) [OF k2(2)] kem])
qed

theorem interface_login_agreement_witness:
  "\<exists>f1 f2 f3 g1 g2 m m' w v. opaque_agent_generate_ke3 sample 24 1000 1377 16 4000 65 (f1\<lparr>h_mem := m, h_world := w\<rparr>) = Some (0, f2) \<and>
     opaque_relay_finish sample 24 1000 65 16 3000 64 (g1\<lparr>h_mem := m', h_world := v\<rparr>) = Some (0, g2) \<and>
     opaque_agent_finish sample 24 16 5000 64 6000 32 f2 = Some (0, f3) \<and>
     read_bytes (h_mem f3) 5000 64 = read_bytes (h_mem g2) 3000 64"
proof -
  obtain f1 g1 ist1 rst1 ke1_data ke2_data view where l: "length ke1_data = 1273" "length ke2_data = 1377"
    and f1: "opaque_agent_generate_ke1 sample 24 1000 3 2000 1 16 4000 1273 sample_client_heap = Some (0, f1)"
      "h_agent_states f1 16 = Some \<lparr>as_state = ist1, as_ke3_exported = False, as_in_use = False\<rparr>"
      "read_bytes (h_mem f1) 4000 KE1_LENGTH = ke1_data"
    and g1: "opaque_relay_generate_ke2 sample 24 1000 1273 3000 1 4000 201 5000 1377 16 (sample_server_heap ke1_data) = Some (0, g1)"
      "h_relay_states g1 16 = Some \<lparr>rsh_state = rst1, rsh_in_use = False\<rparr>" "read_bytes (h_mem g1) 5000 KE2_LENGTH = ke2_data"
    and k: "parse_ke2 ke2_data = Ok view" "decapsulate sample (i_pq_secret_key ist1) (k2_kem_ciphertext view) (zeros 32) = Ok (r_pq_shared_secret rst1)"
      "r_session_key rst1 \<noteq> zeros 64"
    by (rule sample_interface_calls)
  note C = sample_client_heap_props and S = sample_server_heap_props [OF l(1)]
  let ?m = "write_bytes (\<lambda>_. 0) 1000 ke2_data"
  have m: "read_bytes ?m 1000 KE2_LENGTH = ke2_data" using read_after_write [of ke2_data "\<lambda>_. 0" 1000] l by simp
  have buffers: "ke3_buffers 1000 1377 4000 65" "relay_finish_buffers 1000 65 3000 64" "agent_finish_buffers 5000 64 6000 32"
    by (simp_all add: ke3_buffers_def relay_finish_buffers_def agent_finish_buffers_def ranges_overlap_def checked_add_def)
  have login: "\<exists>f2 f3 key. opaque_agent_generate_ke3 sample 24 1000 1377 16 4000 65
        (f1\<lparr>h_mem := ?m, h_world := world_at (i_created_at ist1)\<rparr>) = Some (0, f2) \<and>
     (\<forall>m'. read_bytes m' 1000 KE3_LENGTH = read_bytes (h_mem f2) 4000 KE3_LENGTH \<longrightarrow>
        (\<exists>g2. opaque_relay_finish sample 24 1000 65 16 3000 64 (g1\<lparr>h_mem := m', h_world := world_at (r_created_at rst1)\<rparr>) = Some (0, g2) \<and>
           read_bytes (h_mem g2) 3000 HASH_LENGTH = key)) \<and>
     opaque_agent_finish sample 24 16 5000 64 6000 32 f2 = Some (0, f3) \<and>
     read_bytes (h_mem f3) 5000 HASH_LENGTH = key \<and> read_bytes (h_mem f3) 6000 EXPORT_KEY_LENGTH =
       client_export_key_of sample (password_key sample Z2 sample_password) (account_context sample sample_account)"
    by (rule interface_login_agreement [OF sample_laws C(1,2) _ S(1,2) _ f1(1) _ _ g1(1) _ _ _ _ f1(2) g1(2) _ _ _ _ _ _ _ buffers])
      (use C S f1(3) g1(3) m k sample_context sample_honest sample_account_ready(1)
        sample_initiator_new world_at_fresh in \<open>simp_all add: sample_agent_def sample_relay_def sample_server_key sample_initiator_def\<close>)
  have copied: "read_bytes (write_bytes (\<lambda>_. 0) 1000 (read_bytes (h_mem f) 4000 KE3_LENGTH)) 1000 KE3_LENGTH = read_bytes (h_mem f) 4000 KE3_LENGTH"
    for f :: agent_heap
    using read_after_write [of "read_bytes (h_mem f) 4000 65" "\<lambda>_. 0" 1000] by simp
  from login obtain f2 f3 key where L: "opaque_agent_generate_ke3 sample 24 1000 1377 16 4000 65
      (f1\<lparr>h_mem := ?m, h_world := world_at (i_created_at ist1)\<rparr>) = Some (0, f2)"
    "\<forall>m'. read_bytes m' 1000 KE3_LENGTH = read_bytes (h_mem f2) 4000 KE3_LENGTH \<longrightarrow>
        (\<exists>g2. opaque_relay_finish sample 24 1000 65 16 3000 64 (g1\<lparr>h_mem := m', h_world := world_at (r_created_at rst1)\<rparr>) = Some (0, g2) \<and>
           read_bytes (h_mem g2) 3000 HASH_LENGTH = key)"
    "opaque_agent_finish sample 24 16 5000 64 6000 32 f2 = Some (0, f3)" "read_bytes (h_mem f3) 5000 HASH_LENGTH = key"
    by blast
  obtain g2 where G: "opaque_relay_finish sample 24 1000 65 16 3000 64 (g1\<lparr>h_mem := write_bytes (\<lambda>_. 0) 1000
      (read_bytes (h_mem f2) 4000 KE3_LENGTH), h_world := world_at (r_created_at rst1)\<rparr>) = Some (0, g2)"
    "read_bytes (h_mem g2) 3000 HASH_LENGTH = key"
    using L(2) copied by blast
  show ?thesis by (intro exI conjI, rule L(1), rule G(1), rule L(3)) (use L(4) G(2) in simp)
qed

end
