(* ===== verification/Fault_Injection.thy ===== *)
theory Fault_Injection
  imports Agent_Threads Relay_Threads Ffi_Handshake
begin

text \<open>
  The hooks of test builds (\<^verbatim>\<open>opaque-ffi/src/lib.rs\<close>, items under \<^verbatim>\<open>cfg(test)\<close>): a test arms a
  named point, and the call that reaches the point unwinds there, just before it would
  publish its result; and a handle that is dropped records which of its secrets read as zero.
  The closures below are those of the test build, with the hook in its place. The slot that
  holds the armed point is an argument and a result.
\<close>

section \<open>The hooks\<close>

type_synonym panic_point = "string option"

definition set_ffi_panic_point :: "panic_point \<Rightarrow> panic_point \<Rightarrow> panic_point" where
  "set_ffi_panic_point point slot = point"

definition inject_test_panic :: "string \<Rightarrow> panic_point \<Rightarrow> unit OpaqueResult \<times> panic_point" where
  "inject_test_panic point slot = (if slot = Some point then (Panic, None) else (Ok (), slot))"

type_synonym 'h test_op =
  "panic_point \<Rightarrow> 'h \<Rightarrow> memory \<Rightarrow> world \<Rightarrow> unit OpaqueResult \<times> ('h \<times> memory \<times> world) \<times> panic_point"

text \<open>The closure that runs while the slot holds a given point.\<close>

definition at_point :: "panic_point \<Rightarrow> 'h test_op \<Rightarrow> 'h ffi_op" where
  "at_point slot operation h m w = (case operation slot h m w of (r, t, _) \<Rightarrow> (r, t))"

section \<open>What injection does to a call on a session\<close>

text \<open>
  The closure of the test build is that of the release with one more exit: if the point
  \<open>name\<close> is armed and the call would succeed, it unwinds instead, with no byte written, with
  a state that is the \<open>same\<close> up to flags an invalidation resets, and with the point disarmed.
\<close>

definition hooked_exit ::
  "('h \<Rightarrow> 'h \<Rightarrow> bool) \<Rightarrow> string \<Rightarrow> panic_point \<Rightarrow> memory \<Rightarrow> unit OpaqueResult \<times> 'h \<times> memory \<times> world
     \<Rightarrow> unit OpaqueResult \<times> ('h \<times> memory \<times> world) \<times> panic_point \<Rightarrow> bool" where
  "hooked_exit same name slot m = (\<lambda>(r, h', m', w') t.
     if r = Ok () \<and> slot = Some name then \<exists>h''. t = (Panic, (h'', m, w'), None) \<and> same h'' h'
     else t = (r, (h', m', w'), slot))"

definition hooked :: "('h \<Rightarrow> 'h \<Rightarrow> bool) \<Rightarrow> string \<Rightarrow> 'h ffi_op \<Rightarrow> 'h test_op \<Rightarrow> bool" where
  "hooked same name operation test \<longleftrightarrow>
     (\<forall>slot h m w. hooked_exit same name slot m (operation h m w) (test slot h m w))"

lemma hooked_qmark:
  assumes "\<And>x. r = Ok x \<Longrightarrow> hooked_exit same name slot m (k x) (k' x)"
  shows "hooked_exit same name slot m (qmark r (h, m', w) k) (qmark r ((h, m', w), slot) k')"
  using assms by (cases r) (simp_all add: hooked_exit_def)

lemma hooked_commit:
  assumes "same h h'"
  shows "hooked_exit same name slot m (Ok (), h', m', w)
    (case inject_test_panic name slot of (r, slot) \<Rightarrow> qmark r ((h, m, w), slot) (\<lambda>_. (Ok (), (h', m', w), slot)))"
  using assms by (simp add: hooked_exit_def inject_test_panic_def)

lemma hooked_error: "hooked_exit same name slot m (Err e, h, m, w) (Err e, (h, m, w), slot)"
  by (simp add: hooked_exit_def)

lemma hooked_case_prod:
  "(\<And>a b. p = (a, b) \<Longrightarrow> hooked_exit same name slot m (k a b) (k' a b)) \<Longrightarrow>
     hooked_exit same name slot m (case_prod k p) (case_prod k' p)"
  by (cases p) simp

lemmas hooked_rules = hooked_qmark hooked_commit hooked_error hooked_case_prod

locale injected_calls = stateful_calls runner invalidate
  for runner :: "'h ffi_op \<Rightarrow> 'h \<Rightarrow> memory \<Rightarrow> world \<Rightarrow> int \<times> 'h \<times> memory \<times> world" and invalidate :: "'h \<Rightarrow> 'h" +
  fixes same :: "'h \<Rightarrow> 'h \<Rightarrow> bool"
  assumes same_invalid: "same h h' \<Longrightarrow> invalidate h = invalidate h'"
begin

lemma runner_hooked:
  assumes hook: "hooked same name operation test" and run: "runner operation h m w = (code, h', m', w')"
  shows "runner (at_point slot test) h m w =
     (if code = 0 \<and> slot = Some name then (FFI_PANIC, invalidate h', m, w') else (code, h', m', w'))"
proof -
  have exits: "hooked_exit same name slot m (operation h m w) (test slot h m w)" using hook by (simp add: hooked_def)
  from run show ?thesis
  proof (cases rule: runner_cases)
    case success
    show ?thesis
    proof (cases "slot = Some name")
      case True
      then obtain h'' where "test slot h m w = (Panic, (h'', m, w'), None)" "same h'' h'" using exits success by (auto simp: hooked_exit_def)
      then show ?thesis using True success runner_Panic [of "at_point slot test" h m w h'' "(m, w')"] same_invalid [of h'' h']
        by (simp add: at_point_def hooked_exit_def)
    next
      case False
      then show ?thesis using exits success runner_Ok [of "at_point slot test" h m w h' "(m', w')"] by (simp add: at_point_def hooked_exit_def)
    qed
  next
    case (failure e h1)
    then show ?thesis using exits runner_Err [of "at_point slot test" h m w e h1 "(m', w')"] by (simp add: at_point_def hooked_exit_def)
  next
    case (panic h1)
    then show ?thesis using exits runner_Panic [of "at_point slot test" h m w h1 "(m', w')"]
      by (simp add: at_point_def hooked_exit_def FFI_PANIC_def)
  qed
qed

end

text \<open>On a client session the two states differ at most in whether KE3 counts as exported.\<close>

definition same_session :: "AgentStateHandle \<Rightarrow> AgentStateHandle \<Rightarrow> bool" where
  "same_session h h' \<longleftrightarrow> as_state h = as_state h' \<and> as_in_use h = as_in_use h'"

interpretation agent_injection: injected_calls "run_agent_stateful D" "invalidate_agent_state D"
  same_session
  for D :: "('s, 'p, 'ek, 'dk) deps"
  by unfold_locales (simp add: same_session_def invalidate_agent_state_eq)

interpretation relay_injection: injected_calls "run_relay_stateful D" "invalidate_relay_state D" "(=)"
  for D :: "('s, 'p, 'ek, 'dk) deps"
  by unfold_locales simp

section \<open>The client's closures in a test build\<close>

definition registration_request_test ::
  "('s, 'p, 'ek, 'dk) deps \<Rightarrow> addr \<Rightarrow> addr \<Rightarrow> addr \<Rightarrow> AgentStateHandle test_op" where
  "registration_request_test D secure_key secure_key_length request_out slot sh m w =
     (let key = read_bytes m secure_key (unat secure_key_length);
          (r, request, state, w) =
            create_registration_request D key RegistrationRequest_new (as_state sh) w;
          sh = sh\<lparr>as_state := state\<rparr> in
      qmark r ((sh, m, w), slot) (\<lambda>_.
      qmark (write_registration_request (rq_data request) (zeros REGISTRATION_REQUEST_WIRE_LENGTH)) ((sh, m, w), slot) (\<lambda>wire.
      let (r, slot) = inject_test_panic ''agent_registration_request_before_commit'' slot in
      qmark r ((sh, m, w), slot) (\<lambda>_. (Ok (), (sh, write_bytes m request_out wire, w), slot)))))"

definition finalize_registration_test ::
  "('s, 'p, 'ek, 'dk) deps \<Rightarrow> addr \<Rightarrow> addr \<Rightarrow> addr \<Rightarrow> AgentHandle \<Rightarrow> AgentStateHandle test_op" where
  "finalize_registration_test D response response_length record_out ah slot sh m w =
     (let resp = read_bytes m response (unat response_length);
          (r, rec, state, w) =
            finalize_registration D (ah_initiator ah) resp (as_state sh) RegistrationRecord_new w;
          sh = sh\<lparr>as_state := state\<rparr> in
      qmark r ((sh, m, w), slot) (\<lambda>_.
      qmark (write_registration_record (rd_envelope rec) (rd_initiator_public_key rec)
               (zeros REGISTRATION_RECORD_LENGTH)) ((sh, m, w), slot) (\<lambda>wire.
      let (r, slot) = inject_test_panic ''agent_finalize_registration_before_commit'' slot in
      qmark r ((sh, m, w), slot) (\<lambda>_. (Ok (), (sh, write_bytes m record_out wire, w), slot)))))"

definition generate_ke1_test ::
  "('s, 'p, 'ek, 'dk) deps \<Rightarrow> addr \<Rightarrow> addr \<Rightarrow> addr \<Rightarrow> addr \<Rightarrow> addr \<Rightarrow> AgentStateHandle test_op" where
  "generate_ke1_test D secure_key secure_key_length account_id account_id_length ke1_out slot sh m w =
     (let key = read_bytes m secure_key (unat secure_key_length);
          account_id = read_bytes m account_id (unat account_id_length);
          (r, ke1, state, w) = generate_ke1 D key account_id Ke1Message_new (as_state sh) w;
          sh = sh\<lparr>as_state := state\<rparr> in
      qmark r ((sh, m, w), slot) (\<lambda>_.
      qmark (write_ke1 (m1_credential_request ke1) (m1_initiator_public_key ke1) (m1_initiator_nonce ke1)
               (m1_pq_ephemeral_public_key ke1) (zeros KE1_LENGTH)) ((sh, m, w), slot) (\<lambda>wire.
      let (r, slot) = inject_test_panic ''agent_generate_ke1_before_commit'' slot in
      qmark r ((sh, m, w), slot) (\<lambda>_. (Ok (), (sh, write_bytes m ke1_out wire, w), slot)))))"

definition generate_ke3_test ::
  "('s, 'p, 'ek, 'dk) deps \<Rightarrow> addr \<Rightarrow> addr \<Rightarrow> addr \<Rightarrow> AgentHandle \<Rightarrow> AgentStateHandle test_op" where
  "generate_ke3_test D ke2 ke2_length ke3_out ah slot sh m w =
     (let ke2 = read_bytes m ke2 (unat ke2_length);
          sh = sh\<lparr>as_ke3_exported := False\<rparr>;
          (r, ke3, state, w) = generate_ke3 D (ah_initiator ah) ke2 (as_state sh) Ke3Message_new w;
          sh = sh\<lparr>as_state := state\<rparr> in
      qmark r ((sh, m, w), slot) (\<lambda>_.
      qmark (write_ke3 (m3_initiator_mac ke3) (zeros KE3_LENGTH)) ((sh, m, w), slot) (\<lambda>wire.
      let (r, slot) = inject_test_panic ''agent_generate_ke3_before_commit'' slot in
      qmark r ((sh, m, w), slot) (\<lambda>_.
        (Ok (), (sh\<lparr>as_ke3_exported := True\<rparr>, write_bytes m ke3_out wire, w), slot)))))"

definition agent_finish_test :: "('s, 'p, 'ek, 'dk) deps \<Rightarrow> addr \<Rightarrow> addr \<Rightarrow> AgentStateHandle test_op" where
  "agent_finish_test D session_key_out export_key_out slot sh m w =
     (if \<not> as_ke3_exported sh then (Err ValidationError, (sh, m, w), slot)
      else let (r, session_key, export_key, state) =
               initiator_finish D (as_state sh) (zeros HASH_LENGTH) (zeros EXPORT_KEY_LENGTH);
             sh = sh\<lparr>as_state := state\<rparr> in
        qmark r ((sh, m, w), slot) (\<lambda>_.
        let (r, slot) = inject_test_panic ''agent_finish_before_commit'' slot in
        qmark r ((sh, m, w), slot) (\<lambda>_.
        let m = write_bytes m session_key_out session_key;
            m = write_bytes m export_key_out export_key
        in (Ok (), (sh\<lparr>as_ke3_exported := False\<rparr>, m, w), slot))))"

fun agent_commit_point :: "agent_request \<Rightarrow> string" where
  "agent_commit_point (RequestRegistration key n out len) = ''agent_registration_request_before_commit''"
| "agent_commit_point (FinalizeRegistration resp n out len) = ''agent_finalize_registration_before_commit''"
| "agent_commit_point (RequestKe1 key n acc an out len) = ''agent_generate_ke1_before_commit''"
| "agent_commit_point (RequestKe3 ke2 n out len) = ''agent_generate_ke3_before_commit''"
| "agent_commit_point (RequestFinish sk n ek k) = ''agent_finish_before_commit''"

fun agent_test_closure ::
  "('s, 'p, 'ek, 'dk) deps \<Rightarrow> agent_request \<Rightarrow> AgentHandle \<Rightarrow> AgentStateHandle test_op" where
  "agent_test_closure D (RequestRegistration key n out len) ah = registration_request_test D key n out"
| "agent_test_closure D (FinalizeRegistration resp n out len) ah = finalize_registration_test D resp n out ah"
| "agent_test_closure D (RequestKe1 key n acc an out len) ah = generate_ke1_test D key n acc an out"
| "agent_test_closure D (RequestKe3 ke2 n out len) ah = generate_ke3_test D ke2 n out ah"
| "agent_test_closure D (RequestFinish sk n ek k) ah = agent_finish_test D sk ek"

text \<open>The exported functions of a test build; their argument checks are those of the release.\<close>

definition agent_function_test ::
  "('s, 'p, 'ek, 'dk) deps \<Rightarrow> panic_point \<Rightarrow> agent_request \<Rightarrow> addr \<Rightarrow> addr \<Rightarrow> agent_heap \<Rightarrow> (int \<times> agent_heap) option" where
  "agent_function_test D slot req a s f =
     (case agent_closure D req of
        None \<Rightarrow> Some (to_c_int InvalidInput, f)
      | Some _ \<Rightarrow> agent_call D a s (\<lambda>ah. at_point slot (agent_test_closure D req ah)) f)"

lemma agent_closures_hooked:
  assumes "agent_closure D req = Some operation"
  shows "hooked same_session (agent_commit_point req) (operation ah) (agent_test_closure D req ah)"
proof -
  have "hooked same_session ''agent_registration_request_before_commit'' (registration_request_op D key n out)
      (registration_request_test D key n out)" for key n out
    unfolding hooked_def registration_request_op_def registration_request_test_def Let_def
    by (auto intro!: hooked_rules simp: same_session_def)
  moreover have "hooked same_session ''agent_finalize_registration_before_commit'' (finalize_registration_op D resp n out ah)
      (finalize_registration_test D resp n out ah)" for resp n out
    unfolding hooked_def finalize_registration_op_def finalize_registration_test_def Let_def
    by (auto intro!: hooked_rules simp: same_session_def)
  moreover have "hooked same_session ''agent_generate_ke1_before_commit'' (generate_ke1_op D key n acc an out)
      (generate_ke1_test D key n acc an out)" for key n acc an out
    unfolding hooked_def generate_ke1_op_def generate_ke1_test_def Let_def
    by (auto intro!: hooked_rules simp: same_session_def)
  moreover have "hooked same_session ''agent_generate_ke3_before_commit'' (generate_ke3_op D ke2 n out ah)
      (generate_ke3_test D ke2 n out ah)" for ke2 n out
    unfolding hooked_def generate_ke3_op_def generate_ke3_test_def Let_def
    by (auto intro!: hooked_rules simp: same_session_def)
  moreover have "hooked same_session ''agent_finish_before_commit'' (agent_finish_op D sk ek) (agent_finish_test D sk ek)" for sk ek
    unfolding hooked_def agent_finish_op_def agent_finish_test_def Let_def
    by (auto intro!: hooked_rules simp: same_session_def)
  ultimately show ?thesis using assms by (cases req) (auto split: if_splits)
qed

lemma invalidate_in_use: "invalidate_agent_state D (sh\<lparr>as_in_use := b\<rparr>) = (invalidate_agent_state D sh)\<lparr>as_in_use := b\<rparr>"
  by (cases sh) (simp add: invalidate_agent_state_eq)

lemma finished_call_hooked:
  assumes "hooked same_session name operation test" "finished_call D s operation sh f = (c, g)"
  shows "finished_call D s (at_point slot test) sh f =
    (if c = 0 \<and> slot = Some name
     then (FFI_PANIC, f\<lparr>h_agent_states := (h_agent_states f)(s \<mapsto> invalidate_agent_state D (the (h_agent_states g s))),
       h_world := h_world g\<rparr>)
     else (c, g))"
proof -
  obtain sh1 m w where run: "run_agent_stateful D operation (sh\<lparr>as_in_use := True\<rparr>) (h_mem f) (h_world f) = (c, sh1, m, w)"
    and g: "g = f\<lparr>h_agent_states := (h_agent_states f)(s \<mapsto> sh1\<lparr>as_in_use := False\<rparr>), h_mem := m, h_world := w\<rparr>"
    using assms(2) by (auto simp: finished_call_def split: prod.splits)
  show ?thesis using agent_injection.runner_hooked [OF assms(1) run, of slot]
    by (simp add: finished_call_def g invalidate_in_use)
qed

lemma agent_function_test_eq:
  assumes "agent_function D req a s f = Some (c, g)"
  shows "agent_function_test D slot req a s f = Some
    (if c = 0 \<and> slot = Some (agent_commit_point req)
     then (FFI_PANIC, f\<lparr>h_agent_states := (h_agent_states f)(s \<mapsto> invalidate_agent_state D (the (h_agent_states g s))),
       h_world := h_world g\<rparr>)
     else (c, g))"
proof (cases "agent_closure D req")
  case None
  then show ?thesis using assms by (auto simp: agent_function_eq agent_function_test_def)
next
  case (Some operation)
  note hooked = finished_call_hooked [OF agent_closures_hooked [OF Some]]
  have "agent_call D a s operation f = Some (c, g)" using assms Some by (simp add: agent_function_eq)
  then consider (refused) "c \<noteq> 0" "\<forall>operation'. agent_call D a s operation' f = Some (c, g)"
    | (ran) ah sh where "finished_call D s (operation ah) sh f = (c, g)"
        "\<forall>operation'. agent_call D a s operation' f = Some (finished_call D s (operation' ah) sh f)"
    by (auto simp: agent_call_eq split: if_splits option.splits)
  then show ?thesis
  proof cases
    case refused
    then show ?thesis using Some by (simp add: agent_function_test_def)
  next
    case (ran ah sh)
    then show ?thesis using Some hooked [OF ran(1), of slot] by (simp add: agent_function_test_def)
  qed
qed

lemma invalidated_session_live:
  assumes "deps_laws D" "agent_state_live D sh"
  shows "agent_state_live D (invalidate_agent_state D sh)" "initiator_wiped (as_state (invalidate_agent_state D sh))"
    "i_phase (as_state (invalidate_agent_state D sh)) = IFinished" "\<not> as_ke3_exported (invalidate_agent_state D sh)"
proof -
  have inv: "initiator_inv (as_state sh)" using assms(2) by (simp add: agent_state_live_def agent_state_inv_def)
  obtain w es where "run (initiator_step D) (fst (InitiatorState_new w)) es (as_state sh)"
    using assms(2) by (auto simp: agent_state_live_def)
  moreover have "run (initiator_step D) (as_state sh) [InitiatorInvalidate] (initiator_invalidate D (as_state sh))"
    by (auto simp: run_Cons_iff intro: step_invalidate)
  ultimately have "\<exists>w es. run (initiator_step D) (fst (InitiatorState_new w)) es (initiator_invalidate D (as_state sh))"
    by (blast intro: run_append)
  then show "agent_state_live D (invalidate_agent_state D sh)"
    using assms inv by (simp add: agent_state_live_def agent_state_inv_def invalidate_agent_state_eq initiator_inv_wf)
qed (use assms in \<open>simp_all add: invalidate_agent_state_eq agent_state_live_def agent_state_inv_def initiator_inv_wf\<close>)

section \<open>The server's calls in a test build\<close>

definition registration_response_test ::
  "('s, 'p, 'ek, 'dk) deps \<Rightarrow> panic_point \<Rightarrow> bytes \<Rightarrow> bytes \<Rightarrow> addr \<Rightarrow> RelayHandle \<Rightarrow> memory \<Rightarrow> int \<times> memory" where
  "registration_response_test D slot req aid response_data rh m =
     (case create_registration_response D (rh_responder rh) req aid RegistrationResponse_new of
        (Err e, _) \<Rightarrow> (ffi_error_to_int e, m)
      | (Panic, _) \<Rightarrow> (FFI_PANIC, m)
      | (Ok _, response) \<Rightarrow>
          (case and_then (subslice (rs_data response) 0 PUBLIC_KEY_LENGTH) (\<lambda>evaluated.
                and_then (slice_from (rs_data response) PUBLIC_KEY_LENGTH) (\<lambda>key.
                write_registration_response evaluated key (zeros REGISTRATION_RESPONSE_WIRE_LENGTH))) of
             Err e \<Rightarrow> (ffi_error_to_int e, m)
           | Panic \<Rightarrow> (FFI_PANIC, m)
           | Ok wire \<Rightarrow>
               (case inject_test_panic ''relay_registration_response_before_commit'' slot of
                  (Panic, _) \<Rightarrow> (FFI_PANIC, m)
                | _ \<Rightarrow> (0, write_bytes m response_data wire))))"

definition generate_ke2_test ::
  "('s, 'p, 'ek, 'dk) deps \<Rightarrow> InMemoryEvaluator OpaqueResponder \<Rightarrow> addr \<Rightarrow> addr \<Rightarrow> addr \<Rightarrow> addr
     \<Rightarrow> ResponderCredentials \<Rightarrow> addr \<Rightarrow> RelayStateHandle test_op" where
  "generate_ke2_test D responder ke1_data ke1_length account_id account_id_length creds ke2_data slot sh m w =
     (let ke1 = read_bytes m ke1_data (unat ke1_length);
          aid = read_bytes m account_id (unat account_id_length);
          (r, ke2, state, w) = generate_ke2 D responder ke1 aid creds Ke2Message_new (rsh_state sh) w;
          sh = sh\<lparr>rsh_state := state\<rparr> in
      qmark r ((sh, m, w), slot) (\<lambda>_.
      qmark (write_ke2 (m2_responder_nonce ke2) (m2_responder_public_key ke2) (m2_credential_response ke2)
               (m2_responder_mac ke2) (m2_kem_ciphertext ke2) (zeros KE2_LENGTH)) ((sh, m, w), slot) (\<lambda>wire.
      let (r, slot) = inject_test_panic ''relay_generate_ke2_before_commit'' slot in
      qmark r ((sh, m, w), slot) (\<lambda>_. (Ok (), (sh, write_bytes m ke2_data wire, w), slot)))))"

definition relay_finish_test :: "('s, 'p, 'ek, 'dk) deps \<Rightarrow> addr \<Rightarrow> addr \<Rightarrow> addr \<Rightarrow> RelayStateHandle test_op" where
  "relay_finish_test D ke3_data ke3_length session_key slot sh m w =
     (let ke3 = read_bytes m ke3_data (unat ke3_length);
          (r, sk, state, w) = responder_finish D ke3 (rsh_state sh) (zeros HASH_LENGTH) w;
          sh = sh\<lparr>rsh_state := state\<rparr> in
      qmark r ((sh, m, w), slot) (\<lambda>_.
      let (r, slot) = inject_test_panic ''relay_finish_before_commit'' slot in
      qmark r ((sh, m, w), slot) (\<lambda>_. (Ok (), (sh, write_bytes m session_key sk, w), slot))))"

fun relay_commit_point :: "relay_request \<Rightarrow> string" where
  "relay_commit_point (AskResponse req n aid k out len) = ''relay_registration_response_before_commit''"
| "relay_commit_point (AskKe2 ke1 n aid k cred l out len) = ''relay_generate_ke2_before_commit''"
| "relay_commit_point (AskFinish ke3 n out len) = ''relay_finish_before_commit''"

fun relay_test_prepare ::
  "('s, 'p, 'ek, 'dk) deps \<Rightarrow> panic_point \<Rightarrow> relay_request \<Rightarrow> RelayHandle \<Rightarrow> memory \<Rightarrow> (int \<times> memory) + relay_op" where
  "relay_test_prepare D slot (AskResponse req n aid k out len) rh m =
     Inl (registration_response_test D slot (read_bytes m req (unat n)) (read_bytes m aid (unat k)) out rh m)"
| "relay_test_prepare D slot (AskKe2 ke1 n aid k cred l out len) rh m =
     (case ke2_credentials D (rh_responder rh) m cred l of
        Err code \<Rightarrow> Inl (code, m)
      | Panic \<Rightarrow> Inl (FFI_PANIC, m)
      | Ok creds \<Rightarrow> Inr (at_point slot (generate_ke2_test D (rh_responder rh) ke1 n aid k creds out)))"
| "relay_test_prepare D slot (AskFinish ke3 n out len) rh m = Inr (at_point slot (relay_finish_test D ke3 n out))"

definition relay_function_test ::
  "('s, 'p, 'ek, 'dk) deps \<Rightarrow> panic_point \<Rightarrow> relay_request \<Rightarrow> addr \<Rightarrow> addr \<Rightarrow> relay_heap \<Rightarrow> (int \<times> relay_heap) option" where
  "relay_function_test D slot req r s f =
     (if relay_admits req then guarded acquire_relay release_relay r f (\<lambda>rh f.
        case relay_test_prepare D slot req rh (h_mem f) of
          Inl (code, m) \<Rightarrow> Some (code, f\<lparr>h_mem := m\<rparr>)
        | Inr operation \<Rightarrow> relay_state_call D s operation f)
      else Some (to_c_int InvalidInput, f))"

fun is_response :: "relay_request \<Rightarrow> bool" where
  "is_response (AskResponse req n aid k out len) = True"
| "is_response req = False"

lemma registration_response_hooked:
  "registration_response_test D slot req aid out rh m =
     (case registration_response_body D req aid out rh m of (c, m') \<Rightarrow>
        if c = 0 \<and> slot = Some ''relay_registration_response_before_commit'' then (FFI_PANIC, m) else (c, m'))"
  by (auto simp: registration_response_test_def registration_response_body_def inject_test_panic_def ffi_error_to_int_def FFI_PANIC_def
      split: prod.splits result.splits)

text \<open>The two ways a request goes on once the server is held, in both builds.\<close>

lemma relay_prepare_hooked:
  obtains (plain) c m' where "relay_prepare D req rh m = Inl (c, m')"
    "relay_test_prepare D slot req rh m =
       Inl (if c = 0 \<and> slot = Some (relay_commit_point req) then (FFI_PANIC, m) else (c, m'))" "c = 0 \<Longrightarrow> is_response req"
  | (session) operation test where "relay_prepare D req rh m = Inr operation"
    "relay_test_prepare D slot req rh m = Inr (at_point slot test)" "hooked (=) (relay_commit_point req) operation test"
      "\<not> is_response req"
proof (cases req)
  case (AskResponse rq n aid k out len)
  obtain c m' where "registration_response_body D (read_bytes m rq (unat n)) (read_bytes m aid (unat k)) out rh m = (c, m')" by fastforce
  then show thesis using AskResponse by (intro plain [of c m']) (simp_all add: registration_response_hooked)
next
  case (AskKe2 ke1 n aid k cred l out len)
  have "hooked (=) ''relay_generate_ke2_before_commit'' (generate_ke2_op D resp ke1 n aid k creds out)
      (generate_ke2_test D resp ke1 n aid k creds out)" for resp creds
    unfolding hooked_def generate_ke2_op_def generate_ke2_test_def Let_def by (auto intro!: hooked_rules)
  moreover have "c \<noteq> 0" if "ke2_credentials D (rh_responder rh) m cred l = Err c" for c
    using that by (auto simp: ke2_credentials_def ke2_credential_wire_def FFI_CORRUPTED_RECORD_def copy_into_def Let_def
        result_simps split: if_splits result.splits)
  ultimately show thesis using AskKe2
    by (cases "ke2_credentials D (rh_responder rh) m cred l") (auto simp: FFI_PANIC_def intro: plain session)
next
  case (AskFinish ke3 n out len)
  have "hooked (=) ''relay_finish_before_commit'' (relay_finish_op D ke3 n out) (relay_finish_test D ke3 n out)"
    unfolding hooked_def relay_finish_op_def relay_finish_test_def Let_def by (auto intro!: hooked_rules)
  then show thesis using AskFinish by (intro session) simp_all
qed

lemma relay_body:
  "guarded acquire_relay release_relay r f (\<lambda>rh f. case prepare rh (h_mem f) of
        Inl (code, m) \<Rightarrow> Some (code, f\<lparr>h_mem := m\<rparr>) | Inr operation \<Rightarrow> relay_state_call D s operation f) =
     (if r = 0 then Some (-1, f)
      else case h_relays f r of None \<Rightarrow> None
      | Some rh \<Rightarrow> if rh_in_use rh then Some (-100, f)
      else case prepare (rh\<lparr>rh_in_use := True\<rparr>) (h_mem f) of
        Inl (code, m) \<Rightarrow> Some (code, f\<lparr>h_mem := m\<rparr>) | Inr operation \<Rightarrow> relay_state_call D s operation f)"
  by (rule relay_guarded) (auto simp: relay_state_call_frame(1) dest: relay_state_call_frame(2) split: sum.splits prod.splits)

lemma relay_finished_call_hooked:
  assumes "hooked (=) name operation test" "relay_finished_call D s operation sh f = (c, g)"
  shows "relay_finished_call D s (at_point slot test) sh f =
    (if c = 0 \<and> slot = Some name
     then (FFI_PANIC, f\<lparr>h_relay_states := (h_relay_states f)(s \<mapsto> invalidate_relay_state D (the (h_relay_states g s))),
       h_world := h_world g\<rparr>)
     else (c, g))"
proof -
  obtain sh1 m w where run: "run_relay_stateful D operation (sh\<lparr>rsh_in_use := True\<rparr>) (h_mem f) (h_world f) = (c, sh1, m, w)"
    and g: "g = f\<lparr>h_relay_states := (h_relay_states f)(s \<mapsto> sh1\<lparr>rsh_in_use := False\<rparr>), h_mem := m, h_world := w\<rparr>"
    using assms(2) by (auto simp: relay_finished_call_def split: prod.splits)
  show ?thesis using relay_injection.runner_hooked [OF assms(1) run, of slot]
    by (cases sh1) (simp add: relay_finished_call_def g invalidate_relay_state_def)
qed

lemma relay_state_call_hooked:
  assumes "hooked (=) name operation test" "relay_state_call D s operation f = Some (c, g)"
  shows "relay_state_call D s (at_point slot test) f = Some
    (if c = 0 \<and> slot = Some name
     then (FFI_PANIC, f\<lparr>h_relay_states := (h_relay_states f)(s \<mapsto> invalidate_relay_state D (the (h_relay_states g s))),
       h_world := h_world g\<rparr>)
     else (c, g))"
  using assms(2) relay_finished_call_hooked [OF assms(1), of D s "the (h_relay_states f s)" f c g slot]
  by (auto simp: relay_state_call_eq split: if_splits option.splits)

lemma relay_function_test_eq:
  assumes call: "relay_function D req r s f = Some (c, g)"
  shows "relay_function_test D slot req r s f = Some
    (if c = 0 \<and> slot = Some (relay_commit_point req)
     then (FFI_PANIC, if is_response req then f
       else f\<lparr>h_relay_states := (h_relay_states f)(s \<mapsto> invalidate_relay_state D (the (h_relay_states g s))), h_world := h_world g\<rparr>)
     else (c, g))"
proof (cases "relay_admits req \<and> r \<noteq> 0 \<and> (\<exists>rh. h_relays f r = Some rh \<and> \<not> rh_in_use rh)")
  case False
  then have "c \<noteq> 0" "relay_function_test D slot req r s f = Some (c, g)"
    using call by (auto simp: relay_function_eq relay_function_test_def relay_body split: if_splits option.splits)
  then show ?thesis by simp
next
  case True
  then obtain rh where rh: "relay_admits req" "r \<noteq> 0" "h_relays f r = Some rh" "\<not> rh_in_use rh" by blast
  let ?rh = "rh\<lparr>rh_in_use := True\<rparr>"
  show ?thesis
  proof (cases rule: relay_prepare_hooked [of D req ?rh "h_mem f" slot])
    case (plain k m)
    then have "c = k" "g = f\<lparr>h_mem := m\<rparr>" using call rh by (simp_all add: relay_function_eq relay_body)
    then show ?thesis using plain rh by (simp add: relay_function_test_def relay_body)
  next
    case (session operation test)
    then have "relay_state_call D s operation f = Some (c, g)" using call rh by (simp add: relay_function_eq relay_body)
    then show ?thesis using session rh relay_state_call_hooked [OF session(3), of D s f c g slot]
      by (simp add: relay_function_test_def relay_body)
  qed
qed

lemma invalidated_relay_session_live:
  assumes "deps_laws D" "relay_state_live D sh"
  shows "relay_state_live D (invalidate_relay_state D sh)" "responder_wiped (rsh_state (invalidate_relay_state D sh))"
    "r_phase (rsh_state (invalidate_relay_state D sh)) = RFinished"
proof -
  have inv: "responder_inv (rsh_state sh)" using assms(2) by (simp add: relay_state_live_def)
  obtain w es where "run (responder_any_step D) (fst (ResponderState_new w)) es (rsh_state sh)"
    using assms(2) by (auto simp: relay_state_live_def)
  moreover have "run (responder_any_step D) (rsh_state sh) [ResponderInvalidate] (responder_invalidate D (rsh_state sh))"
    by (auto simp: run_Cons_iff intro: any_step_invalidate)
  ultimately have "\<exists>w es. run (responder_any_step D) (fst (ResponderState_new w)) es (responder_invalidate D (rsh_state sh))"
    by (blast intro: run_append)
  then show "relay_state_live D (invalidate_relay_state D sh)"
    "responder_wiped (rsh_state (invalidate_relay_state D sh))" "r_phase (rsh_state (invalidate_relay_state D sh)) = RFinished"
    using assms inv responder_invalidate_props [of D "rsh_state sh"]
    by (auto simp: relay_state_live_def invalidate_relay_state_def responder_inv_def)
qed

section \<open>Properties\<close>

text \<open>
  C23: a panic inside a client call is contained. Whatever point is armed, a call of the test
  build returns the code and heap of the release, unless it is the armed call's own point and
  the call would have returned zero: then it returns the panic code, no byte is written, the
  agent is untouched, and the session is left free, finished, wiped and with no KE3 to export,
  in a heap that satisfies the invariant of the interface.
\<close>

theorem injected_client_panics_contained:
  assumes "deps_laws D" "agent_heap_inv D f" "agent_function D req a s f = Some (c, g)"
  shows "if c = 0 \<and> slot = Some (agent_commit_point req)
    then \<exists>g' sh. agent_function_test D slot req a s f = Some (FFI_PANIC, g') \<and> h_mem g' = h_mem f \<and>
      h_agents g' = h_agents f \<and> h_agent_states g' s = Some sh \<and> \<not> as_in_use sh \<and> \<not> as_ke3_exported sh \<and>
      i_phase (as_state sh) = IFinished \<and> initiator_wiped (as_state sh) \<and> agent_heap_inv D g'
    else agent_function_test D slot req a s f = Some (c, g)"
proof (cases "c = 0 \<and> slot = Some (agent_commit_point req)")
  case True
  have inv: "agent_heap_inv D g" using agent_api_inv [OF assms(1,2) agent_function_api [OF assms(3)]] by simp
  obtain A where "agent_session_call D a s A f c g" using assms(3) by (cases req) (auto intro: agent_session_call.intros)
  then obtain sh where sh: "h_agent_states g s = Some sh" "h_agents g = h_agents f"
    using True by (cases rule: agent_session_call_effect [OF assms(1,2)]) (auto simp: agent_call_effect_def)
  then have "agent_state_live D sh" using inv by (auto simp: agent_heap_inv_def)
  note live = invalidated_session_live [OF assms(1) this]
  let ?g = "f\<lparr>h_agent_states := (h_agent_states f)(s \<mapsto> invalidate_agent_state D sh), h_world := h_world g\<rparr>"
  have "agent_heap_inv D ?g" using assms(2) live by (auto simp: agent_heap_inv_def)
  moreover have "agent_function_test D slot req a s f = Some (FFI_PANIC, ?g)"
    using agent_function_test_eq [OF assms(3)] True sh by simp
  ultimately show ?thesis using True live by (auto simp: agent_state_live_def)
qed (use agent_function_test_eq [OF assms(3), of slot] in auto)

text \<open>
  C24: a panic inside a server call is contained in the same way. A registration response whose
  point is armed changes nothing at all; a call on a session leaves the session free,
  finished and wiped, and every server and every byte as they were.
\<close>

theorem injected_server_panics_contained:
  assumes "deps_laws D" "relay_heap_inv D f" "relay_function D req r s f = Some (c, g)"
  shows "if c = 0 \<and> slot = Some (relay_commit_point req)
    then \<exists>g'. relay_function_test D slot req r s f = Some (FFI_PANIC, g') \<and> h_mem g' = h_mem f \<and> h_relays g' = h_relays f \<and>
      relay_heap_inv D g' \<and> (if is_response req then g' = f
        else \<exists>sh. h_relay_states g' s = Some sh \<and> \<not> rsh_in_use sh \<and> r_phase (rsh_state sh) = RFinished \<and> responder_wiped (rsh_state sh))
    else relay_function_test D slot req r s f = Some (c, g)"
proof (cases "c = 0 \<and> slot = Some (relay_commit_point req)")
  case True
  note eq = relay_function_test_eq [OF assms(3), of slot]
  show ?thesis
  proof (cases "is_response req")
    case True
    then show ?thesis using eq assms(2) \<open>c = 0 \<and> slot = _\<close> by simp
  next
    case False
    have inv: "relay_heap_inv D g" using relay_api_inv [OF assms(1,2) relay_function_api [OF assms(3)]] by simp
    obtain A where "relay_session_call D r s A f c g" using assms(3) False by (cases req) (auto intro: relay_session_call.intros)
    then obtain sh where sh: "h_relay_states g s = Some sh"
      using True by (cases rule: relay_session_call_effect [OF assms(1,2)]) (auto simp: relay_call_effect_def)
    then have "relay_state_live D sh" using inv by (auto simp: relay_heap_inv_def)
    note live = invalidated_relay_session_live [OF assms(1) this]
    let ?g = "f\<lparr>h_relay_states := (h_relay_states f)(s \<mapsto> invalidate_relay_state D sh), h_world := h_world g\<rparr>"
    have "relay_heap_inv D ?g" using assms(2) live by (auto simp: relay_heap_inv_def)
    moreover have "relay_function_test D slot req r s f = Some (FFI_PANIC, ?g)" using eq True False sh by simp
    ultimately show ?thesis using True False live by (auto simp: relay_state_live_def)
  qed
qed (use relay_function_test_eq [OF assms(3), of slot] in auto)

text \<open>The calls of a complete login, with the client's KE1 and the server's KE2 interrupted.\<close>

theorem injected_client_panics_contained_witness:
  "\<exists>g'. agent_function_test sample (Some ''agent_generate_ke1_before_commit'') (RequestKe1 1000 3 2000 1 4000 1273) 24 16
     sample_client_heap = Some (-99, g') \<and> h_mem g' = h_mem sample_client_heap"
proof -
  obtain f1 where "opaque_agent_generate_ke1 sample 24 1000 3 2000 1 16 4000 1273 sample_client_heap = Some (0, f1)"
    by (rule sample_interface_calls) blast
  then have "agent_function sample (RequestKe1 1000 3 2000 1 4000 1273) 24 16 sample_client_heap = Some (0, f1)" by simp
  from injected_client_panics_contained [OF sample_laws sample_client_heap_props(1) this, of "Some ''agent_generate_ke1_before_commit''"]
  show ?thesis by (auto simp: FFI_PANIC_def)
qed

theorem injected_server_panics_contained_witness:
  "\<exists>ke1 g'. relay_function_test sample (Some ''relay_generate_ke2_before_commit'') (AskKe2 1000 1273 3000 1 4000 201 5000 1377) 24 16
     (sample_server_heap ke1) = Some (-99, g') \<and> h_mem g' = h_mem (sample_server_heap ke1)"
proof -
  obtain ke1 g1 where ke1: "length ke1 = 1273"
    and "opaque_relay_generate_ke2 sample 24 1000 1273 3000 1 4000 201 5000 1377 16 (sample_server_heap ke1) = Some (0, g1)"
    by (rule sample_interface_calls) blast
  then have "relay_function sample (AskKe2 1000 1273 3000 1 4000 201 5000 1377) 24 16 (sample_server_heap ke1) = Some (0, g1)" by simp
  from injected_server_panics_contained [OF sample_laws sample_server_heap_props(1) [OF ke1] this,
      of "Some ''relay_generate_ke2_before_commit''"]
  show ?thesis by (auto simp: FFI_PANIC_def)
qed

end
