(* ===== verification/Test_Disposals.thy ===== *)
theory Test_Disposals
  imports Fault_Injection
begin

text \<open>
  The rest of the hooks of a test build: constructors that unwind before they publish their
  handle, which drops the box they had built, and the observations that dropped boxes record.
\<close>

section \<open>Observations\<close>

record DisposalObservation =
  do_object :: string
  do_fields :: "(string \<times> bool) list"

definition record_disposal_observation ::
  "string \<Rightarrow> (string \<times> bool) list \<Rightarrow> DisposalObservation list \<Rightarrow> DisposalObservation list" where
  "record_disposal_observation object listed observations =
     observations @ [\<lparr>do_object = object, do_fields = listed\<rparr>]"

definition take_disposal_observations ::
  "DisposalObservation list \<Rightarrow> DisposalObservation list \<times> DisposalObservation list" where
  "take_disposal_observations observations = (observations, [])"

text \<open>The four destructors as a test build compiles them: they erase first and look afterwards.\<close>

definition observe_agent_state ::
  "('s, 'p, 'ek, 'dk) deps \<Rightarrow> AgentStateHandle \<Rightarrow> DisposalObservation list \<Rightarrow> DisposalObservation list" where
  "observe_agent_state D sh = record_disposal_observation ''AgentStateHandle''
     [(''initiator_private_key'', is_all_zero D (i_private_key (as_state sh))),
      (''initiator_ephemeral_private_key'', is_all_zero D (i_ephemeral_private_key (as_state sh))),
      (''pq_ephemeral_secret_key'', is_all_zero D (i_pq_secret_key (as_state sh))),
      (''pq_shared_secret'', is_all_zero D (i_pq_shared_secret (as_state sh)))]"

definition AgentStateHandle_drop_test ::
  "('s, 'p, 'ek, 'dk) deps \<Rightarrow> AgentStateHandle \<Rightarrow> DisposalObservation list \<Rightarrow> AgentStateHandle \<times> DisposalObservation list" where
  "AgentStateHandle_drop_test D sh observations =
     (let sh = AgentStateHandle_drop D sh in (sh, observe_agent_state D sh observations))"

definition observe_relay ::
  "('s, 'p, 'ek, 'dk) deps \<Rightarrow> RelayHandle \<Rightarrow> DisposalObservation list \<Rightarrow> DisposalObservation list" where
  "observe_relay D rh = record_disposal_observation ''RelayHandle''
     [(''static_private_key'', is_all_zero D (kp_private_key (or_keypair (rh_responder rh))))]"

definition RelayHandle_drop_test ::
  "('s, 'p, 'ek, 'dk) deps \<Rightarrow> RelayHandle \<Rightarrow> DisposalObservation list \<Rightarrow> RelayHandle \<times> DisposalObservation list" where
  "RelayHandle_drop_test D rh observations =
     (let rh = RelayHandle_drop D rh in (rh, observe_relay D rh observations))"

definition observe_relay_state ::
  "('s, 'p, 'ek, 'dk) deps \<Rightarrow> RelayStateHandle \<Rightarrow> DisposalObservation list \<Rightarrow> DisposalObservation list" where
  "observe_relay_state D sh = record_disposal_observation ''RelayStateHandle''
     [(''responder_private_key'', is_all_zero D (r_private_key (rsh_state sh))),
      (''responder_ephemeral_private_key'', is_all_zero D (r_ephemeral_private_key (rsh_state sh))),
      (''session_key'', is_all_zero D (r_session_key (rsh_state sh))),
      (''expected_initiator_mac'', is_all_zero D (r_expected_initiator_mac (rsh_state sh))),
      (''pq_shared_secret'', is_all_zero D (r_pq_shared_secret (rsh_state sh)))]"

definition RelayStateHandle_drop_test ::
  "('s, 'p, 'ek, 'dk) deps \<Rightarrow> RelayStateHandle \<Rightarrow> DisposalObservation list \<Rightarrow> RelayStateHandle \<times> DisposalObservation list" where
  "RelayStateHandle_drop_test D sh observations =
     (let sh = RelayStateHandle_drop D sh in (sh, observe_relay_state D sh observations))"

definition observe_keypair ::
  "('s, 'p, 'ek, 'dk) deps \<Rightarrow> RelayKeypairHandle \<Rightarrow> DisposalObservation list \<Rightarrow> DisposalObservation list" where
  "observe_keypair D kh = record_disposal_observation ''RelayKeypairHandle''
     [(''static_private_key'', is_all_zero D (kp_private_key (kh_keypair kh))),
      (''oprf_seed'', is_all_zero D (kh_oprf_seed kh))]"

definition RelayKeypairHandle_drop_test ::
  "('s, 'p, 'ek, 'dk) deps \<Rightarrow> RelayKeypairHandle \<Rightarrow> DisposalObservation list \<Rightarrow> RelayKeypairHandle \<times> DisposalObservation list" where
  "RelayKeypairHandle_drop_test D kh observations =
     (let kh = RelayKeypairHandle_drop D kh in (kh, observe_keypair D kh observations))"

text \<open>
  What a history of calls has recorded: one observation for each box returned to the
  allocator, in order for each kind of handle.
\<close>

definition agent_observations :: "('s, 'p, 'ek, 'dk) deps \<Rightarrow> agent_heap \<Rightarrow> DisposalObservation list" where
  "agent_observations D f = fold (observe_agent_state D) (rev (h_dropped_agent_states f)) []"

definition relay_observations :: "('s, 'p, 'ek, 'dk) deps \<Rightarrow> relay_heap \<Rightarrow> DisposalObservation list" where
  "relay_observations D f = fold (observe_relay_state D) (rev (h_dropped_relay_states f))
     (fold (observe_relay D) (rev (h_dropped_relays f)) (fold (observe_keypair D) (rev (h_dropped_keypairs f)) []))"

lemma agent_state_destroy_observed:
  assumes "opaque_agent_state_try_destroy D p f = Some (0, g)" "read_ptr (h_mem f) p \<noteq> 0"
    and "h_agent_states f (read_ptr (h_mem f) p) = Some sh" "p \<noteq> 0"
  shows "agent_observations D g = snd (AgentStateHandle_drop_test D (sh\<lparr>as_in_use := True\<rparr>) (agent_observations D f))"
  using assms by (auto simp: opaque_agent_state_try_destroy_def agent_observations_def AgentStateHandle_drop_test_def Let_def
      FFI_BUSY_def split: if_splits)

lemma relay_state_destroy_observed:
  assumes "opaque_relay_state_try_destroy D p f = Some (0, g)" "read_ptr (h_mem f) p \<noteq> 0"
    and "h_relay_states f (read_ptr (h_mem f) p) = Some sh" "p \<noteq> 0"
  shows "relay_observations D g = snd (RelayStateHandle_drop_test D (sh\<lparr>rsh_in_use := True\<rparr>) (relay_observations D f))"
  using assms by (auto simp: opaque_relay_state_try_destroy_def relay_observations_def RelayStateHandle_drop_test_def Let_def
      FFI_BUSY_def split: if_splits)

definition all_erased :: "DisposalObservation list \<Rightarrow> bool" where
  "all_erased observations \<longleftrightarrow> list_all (\<lambda>ob. list_all snd (do_fields ob)) observations"

lemma fold_observe_erased:
  assumes "\<And>x obs. x \<in> set xs \<Longrightarrow> all_erased obs \<Longrightarrow> all_erased (observe x obs)" "all_erased obs"
  shows "all_erased (fold observe xs obs)"
  using assms by (induction xs arbitrary: obs) auto

lemma fold_observe_length:
  assumes "\<And>x obs. length (observe x obs) = Suc (length obs)"
  shows "length (fold observe xs obs) = length xs + length obs"
  using assms by (induction xs arbitrary: obs) auto

lemmas observe_defs = observe_agent_state_def observe_relay_def observe_relay_state_def observe_keypair_def
  record_disposal_observation_def

lemma observe_length:
  "length (observe_agent_state D a obs) = Suc (length obs)" "length (observe_relay D r obs) = Suc (length obs)"
  "length (observe_relay_state D s obs) = Suc (length obs)" "length (observe_keypair D k obs) = Suc (length obs)"
  by (simp_all add: observe_defs)

lemma observe_erased:
  assumes "subtle_laws D" "all_erased obs"
  shows "initiator_wiped (as_state a) \<Longrightarrow> all_erased (observe_agent_state D a obs)"
    "kp_private_key (or_keypair (rh_responder r)) = zeros PRIVATE_KEY_LENGTH \<Longrightarrow> all_erased (observe_relay D r obs)"
    "responder_wiped (rsh_state s) \<Longrightarrow> all_erased (observe_relay_state D s obs)"
    "kp_private_key (kh_keypair k) = zeros PRIVATE_KEY_LENGTH \<Longrightarrow> kh_oprf_seed k = zeros OPRF_SEED_LENGTH \<Longrightarrow>
       all_erased (observe_keypair D k obs)"
  using assms by (simp_all add: observe_defs all_erased_def initiator_wiped_def responder_wiped_def)

section \<open>Constructors that unwind\<close>

text \<open>
  The last step of a constructor: it stores the handle and returns zero, unless the point
  before it is armed; then unwinding drops the box and the call returns the panic code.
\<close>

definition publish :: "string \<Rightarrow> panic_point \<Rightarrow> 'f \<Rightarrow> 'f \<Rightarrow> (int \<times> 'f) option" where
  "publish point slot unwound published =
     (case inject_test_panic point slot of (Panic, _) \<Rightarrow> Some (FFI_PANIC, unwound) | _ \<Rightarrow> Some (0, published))"

definition opaque_agent_create_test ::
  "('s, 'p, 'ek, 'dk) deps \<Rightarrow> panic_point \<Rightarrow> addr \<Rightarrow> addr \<Rightarrow> addr \<Rightarrow> addr \<Rightarrow> agent_heap \<Rightarrow> (int \<times> agent_heap) option" where
  "opaque_agent_create_test D slot relay_public_key key_length handle box f =
     (if handle = 0 then Some (to_c_int InvalidInput, f)
      else let f = f\<lparr>h_mem := write_ptr (h_mem f) handle 0\<rparr> in
        if relay_public_key = 0 \<or> unat key_length \<noteq> PUBLIC_KEY_LENGTH
           \<or> ranges_overlap relay_public_key key_length handle 8
        then Some (to_c_int InvalidInput, f)
        else let key = read_bytes (h_mem f) relay_public_key (unat key_length) in
          (case OpaqueInitiator_new D key of
             Err e \<Rightarrow> Some (ffi_error_to_int e, f)
           | Panic \<Rightarrow> Some (FFI_PANIC, f)
           | Ok initiator \<Rightarrow> let boxed = \<lparr>ah_initiator = initiator, ah_in_use = False\<rparr> in
               publish ''agent_create_before_publish'' slot
                 (f\<lparr>h_dropped_agents := AgentHandle_drop D boxed # h_dropped_agents f\<rparr>)
                 (f\<lparr>h_agents := (h_agents f)(box \<mapsto> boxed), h_mem := write_ptr (h_mem f) handle box\<rparr>)))"

definition opaque_agent_state_create_test ::
  "('s, 'p, 'ek, 'dk) deps \<Rightarrow> panic_point \<Rightarrow> addr \<Rightarrow> addr \<Rightarrow> agent_heap \<Rightarrow> (int \<times> agent_heap) option" where
  "opaque_agent_state_create_test D slot handle box f =
     (if handle = 0 then Some (to_c_int InvalidInput, f)
      else let f = f\<lparr>h_mem := write_ptr (h_mem f) handle 0\<rparr>;
               (state, w) = InitiatorState_new (h_world f);
               f = f\<lparr>h_world := w\<rparr>;
               boxed = \<lparr>as_state = state, as_ke3_exported = False, as_in_use = False\<rparr>
           in publish ''agent_state_create_before_publish'' slot
                (f\<lparr>h_dropped_agent_states := AgentStateHandle_drop D boxed # h_dropped_agent_states f\<rparr>)
                (f\<lparr>h_agent_states := (h_agent_states f)(box \<mapsto> boxed), h_mem := write_ptr (h_mem f) handle box\<rparr>))"

definition opaque_relay_keypair_generate_test ::
  "('s, 'p, 'ek, 'dk) deps \<Rightarrow> panic_point \<Rightarrow> addr \<Rightarrow> addr \<Rightarrow> relay_heap \<Rightarrow> (int \<times> relay_heap) option" where
  "opaque_relay_keypair_generate_test D slot handle box f =
     (if handle = 0 then Some (to_c_int InvalidInput, f)
      else let f = f\<lparr>h_mem := write_ptr (h_mem f) handle 0\<rparr>;
               (r, w) = ResponderKeyPair_generate D (h_world f);
               f = f\<lparr>h_world := w\<rparr> in
        (case r of
           Err _ \<Rightarrow> Some (ffi_error_to_int CryptoError, f)
         | Panic \<Rightarrow> Some (FFI_PANIC, f)
         | Ok keypair \<Rightarrow>
             let (r, w) = random_bytes OPRF_SEED_LENGTH (h_world f); f = f\<lparr>h_world := w\<rparr> in
             (case r of
                Err _ \<Rightarrow> Some (ffi_error_to_int CryptoError, f)
              | Panic \<Rightarrow> Some (FFI_PANIC, f)
              | Ok oprf_seed \<Rightarrow>
                  let boxed = \<lparr>kh_keypair = keypair, kh_oprf_seed = oprf_seed, kh_in_use = False\<rparr> in
                  publish ''relay_keypair_generate_before_publish'' slot
                    (f\<lparr>h_dropped_keypairs := RelayKeypairHandle_drop D boxed # h_dropped_keypairs f\<rparr>)
                    (f\<lparr>h_keypairs := (h_keypairs f)(box \<mapsto> boxed), h_mem := write_ptr (h_mem f) handle box\<rparr>))))"

definition opaque_relay_create_test ::
  "('s, 'p, 'ek, 'dk) deps \<Rightarrow> panic_point \<Rightarrow> addr \<Rightarrow> addr \<Rightarrow> addr \<Rightarrow> relay_heap \<Rightarrow> (int \<times> relay_heap) option" where
  "opaque_relay_create_test D slot keypair_handle handle box f =
     (if handle = 0 then Some (to_c_int InvalidInput, f)
      else let f = f\<lparr>h_mem := write_ptr (h_mem f) handle 0\<rparr> in
        (case acquire_relay_keypair f keypair_handle of
           None \<Rightarrow> None
         | Some (Err error) \<Rightarrow> Some (handle_access_to_int error, f)
         | Some Panic \<Rightarrow> Some (FFI_PANIC, f)
         | Some (Ok (kh, f)) \<Rightarrow>
             let result = OpaqueResponder_new D (kh_keypair kh) (kh_oprf_seed kh);
                 f = release_relay_keypair keypair_handle f in
             (case result of
                Err _ \<Rightarrow> Some (to_c_int InvalidInput, f)
              | Panic \<Rightarrow> Some (FFI_PANIC, f)
              | Ok responder \<Rightarrow> let boxed = \<lparr>rh_responder = responder, rh_in_use = False\<rparr> in
                  publish ''relay_create_before_publish'' slot
                    (f\<lparr>h_dropped_relays := RelayHandle_drop D boxed # h_dropped_relays f\<rparr>)
                    (f\<lparr>h_relays := (h_relays f)(box \<mapsto> boxed), h_mem := write_ptr (h_mem f) handle box\<rparr>))))"

definition opaque_relay_state_create_test ::
  "('s, 'p, 'ek, 'dk) deps \<Rightarrow> panic_point \<Rightarrow> addr \<Rightarrow> addr \<Rightarrow> relay_heap \<Rightarrow> (int \<times> relay_heap) option" where
  "opaque_relay_state_create_test D slot handle box f =
     (if handle = 0 then Some (to_c_int InvalidInput, f)
      else let f = f\<lparr>h_mem := write_ptr (h_mem f) handle 0\<rparr>;
               (state, w) = ResponderState_new (h_world f);
               f = f\<lparr>h_world := w\<rparr>;
               boxed = \<lparr>rsh_state = state, rsh_in_use = False\<rparr>
           in publish ''relay_state_create_before_publish'' slot
                (f\<lparr>h_dropped_relay_states := RelayStateHandle_drop D boxed # h_dropped_relay_states f\<rparr>)
                (f\<lparr>h_relay_states := (h_relay_states f)(box \<mapsto> boxed), h_mem := write_ptr (h_mem f) handle box\<rparr>))"

definition opaque_relay_create_with_keys_test ::
  "('s, 'p, 'ek, 'dk) deps \<Rightarrow> panic_point \<Rightarrow> addr \<Rightarrow> addr \<Rightarrow> addr \<Rightarrow> addr \<Rightarrow> addr \<Rightarrow> addr \<Rightarrow> addr \<Rightarrow> addr \<Rightarrow> relay_heap
     \<Rightarrow> (int \<times> relay_heap) option" where
  "opaque_relay_create_with_keys_test D slot private_key private_key_len public_key public_key_len
     oprf_seed_ptr oprf_seed_len handle box f =
     (if handle = 0 then Some (to_c_int InvalidInput, f)
      else let f = f\<lparr>h_mem := write_ptr (h_mem f) handle 0\<rparr> in
        if private_key = 0 \<or> unat private_key_len \<noteq> PRIVATE_KEY_LENGTH
           \<or> public_key = 0 \<or> unat public_key_len \<noteq> PUBLIC_KEY_LENGTH
           \<or> oprf_seed_ptr = 0 \<or> unat oprf_seed_len \<noteq> OPRF_SEED_LENGTH
           \<or> ranges_overlap private_key private_key_len handle 8
           \<or> ranges_overlap public_key public_key_len handle 8
           \<or> ranges_overlap oprf_seed_ptr oprf_seed_len handle 8
        then Some (to_c_int InvalidInput, f)
        else let sk = read_bytes (h_mem f) private_key (unat private_key_len);
                 pk = read_bytes (h_mem f) public_key (unat public_key_len);
                 oprf_seed = read_bytes (h_mem f) oprf_seed_ptr OPRF_SEED_LENGTH in
          (case ResponderKeyPair_from_keys D sk pk of
             Err _ \<Rightarrow> Some (to_c_int InvalidInput, f)
           | Panic \<Rightarrow> Some (FFI_PANIC, f)
           | Ok keypair \<Rightarrow>
               (case OpaqueResponder_new D keypair oprf_seed of
                  Err _ \<Rightarrow> Some (to_c_int InvalidInput, f)
                | Panic \<Rightarrow> Some (FFI_PANIC, f)
                | Ok responder \<Rightarrow> let boxed = \<lparr>rh_responder = responder, rh_in_use = False\<rparr> in
                    publish ''relay_create_with_keys_before_publish'' slot
                      (f\<lparr>h_dropped_relays := RelayHandle_drop D boxed # h_dropped_relays f\<rparr>)
                      (f\<lparr>h_relays := (h_relays f)(box \<mapsto> boxed), h_mem := write_ptr (h_mem f) handle box\<rparr>))))"

text \<open>The two functions that only copy out bytes, and so have no box to drop.\<close>

definition opaque_relay_keypair_get_public_key_test ::
  "panic_point \<Rightarrow> addr \<Rightarrow> addr \<Rightarrow> addr \<Rightarrow> relay_heap \<Rightarrow> (int \<times> relay_heap) option" where
  "opaque_relay_keypair_get_public_key_test slot handle public_key key_buffer_size f =
     (if public_key = 0 \<or> unat key_buffer_size < PUBLIC_KEY_LENGTH then Some (to_c_int InvalidInput, f)
      else guarded acquire_relay_keypair release_relay_keypair handle f (\<lambda>kh f.
        let public_key_copy = kp_public_key (kh_keypair kh) in
        publish ''relay_keypair_public_key_before_commit'' slot f
          (f\<lparr>h_mem := write_bytes (h_mem f) public_key public_key_copy\<rparr>)))"

definition opaque_relay_build_credentials_test ::
  "('s, 'p, 'ek, 'dk) deps \<Rightarrow> panic_point \<Rightarrow> addr \<Rightarrow> addr \<Rightarrow> addr \<Rightarrow> addr \<Rightarrow> relay_heap \<Rightarrow> (int \<times> relay_heap) option" where
  "opaque_relay_build_credentials_test D slot registration_record record_length credentials_out credentials_out_length f =
     (if registration_record = 0 \<or> unat record_length \<noteq> REGISTRATION_RECORD_LENGTH
         \<or> credentials_out = 0 \<or> unat credentials_out_length < RESPONDER_CREDENTIALS_LENGTH
         \<or> ranges_overlap registration_record record_length credentials_out (of_nat RESPONDER_CREDENTIALS_LENGTH)
      then Some (to_c_int InvalidInput, f)
      else
        (case build_credentials D (read_bytes (h_mem f) registration_record (unat record_length)) ResponderCredentials_new of
           (Err e, _) \<Rightarrow> Some (ffi_error_to_int e, f)
         | (Panic, _) \<Rightarrow> Some (FFI_PANIC, f)
         | (Ok _, creds) \<Rightarrow>
             (case and_then (copy_into (zeros REGISTRATION_CREDENTIAL_LENGTH) 0 MASKING_KEY_LENGTH
                               (c_masking_key creds)) (\<lambda>credential_storage.
                   and_then (copy_into credential_storage MASKING_KEY_LENGTH (length credential_storage)
                               (c_envelope creds)) (\<lambda>credential_storage.
                   write_registration_record credential_storage (c_initiator_public_key creds)
                     (zeros RESPONDER_CREDENTIALS_LENGTH))) of
                Err e \<Rightarrow> Some (ffi_error_to_int e, f)
              | Panic \<Rightarrow> Some (FFI_PANIC, f)
              | Ok wire \<Rightarrow> publish ''relay_build_credentials_before_commit'' slot f
                  (f\<lparr>h_mem := write_bytes (h_mem f) credentials_out wire\<rparr>))))"

section \<open>Containment\<close>

text \<open>
  What a constructor that was to return zero and leave the heap \<open>published\<close> leaves when it
  unwinds: a null handle, no other byte written, no box published, and one more box dropped,
  with the same randomness used.
\<close>

definition unpublished_agent :: "addr \<Rightarrow> agent_heap \<Rightarrow> agent_heap \<Rightarrow> (int \<times> agent_heap) option \<Rightarrow> bool" where
  "unpublished_agent handle f published outcome \<longleftrightarrow> (\<exists>g. outcome = Some (FFI_PANIC, g) \<and> h_world g = h_world published \<and> h_mem g = write_ptr (h_mem f) handle 0 \<and>
     h_agents g = h_agents f \<and> h_agent_states g = h_agent_states f \<and>
     length (h_dropped_agents g) + length (h_dropped_agent_states g) =
       Suc (length (h_dropped_agents f) + length (h_dropped_agent_states f)))"

definition unpublished_relay :: "addr \<Rightarrow> relay_heap \<Rightarrow> relay_heap \<Rightarrow> (int \<times> relay_heap) option \<Rightarrow> bool" where
  "unpublished_relay handle f published outcome \<longleftrightarrow> (\<exists>g. outcome = Some (FFI_PANIC, g) \<and> h_world g = h_world published \<and> h_mem g = write_ptr (h_mem f) handle 0 \<and>
     h_keypairs g = h_keypairs f \<and> h_relays g = h_relays f \<and> h_relay_states g = h_relay_states f \<and>
     length (h_dropped_keypairs g) + length (h_dropped_relays g) + length (h_dropped_relay_states g) =
       Suc (length (h_dropped_keypairs f) + length (h_dropped_relays f) + length (h_dropped_relay_states f)))"

text \<open>
  The test build against the release: they agree, unless the point is armed and the release
  returns zero; then the test build ends as \<open>unwound\<close> says.
\<close>

definition injection_contained ::
  "string \<Rightarrow> panic_point \<Rightarrow> ('f \<Rightarrow> (int \<times> 'f) option \<Rightarrow> bool) \<Rightarrow> (int \<times> 'f) option \<Rightarrow> (int \<times> 'f) option \<Rightarrow> bool" where
  "injection_contained point slot unwound released tested \<longleftrightarrow>
     (case released of
        Some (c, g) \<Rightarrow> if c = 0 \<and> slot = Some point then unwound g tested else tested = released
      | None \<Rightarrow> tested = None)"

lemma contained_publish:
  assumes "unwound g (Some (FFI_PANIC, u))"
  shows "injection_contained point slot unwound (Some (0, g)) (publish point slot u g)"
  using assms by (simp add: injection_contained_def publish_def inject_test_panic_def)

lemma containedD: "injection_contained point (Some point) unwound (Some (0, g)) tested \<Longrightarrow> unwound g tested"
  by (simp add: injection_contained_def)

lemma contained_code: "c \<noteq> 0 \<Longrightarrow> injection_contained point slot unwound (Some (c, g)) (Some (c, g))"
  by (simp add: injection_contained_def)

lemma contained_None: "injection_contained point slot unwound None None"
  by (simp add: injection_contained_def)

lemma contained_result:
  assumes "\<And>x. r = Ok x \<Longrightarrow> injection_contained point slot unwound (k x) (k' x)" "\<And>e g. h e \<noteq> (0, g)" "\<And>g. p \<noteq> (0, g)"
  shows "injection_contained point slot unwound (case r of Ok x \<Rightarrow> k x | Err e \<Rightarrow> Some (h e) | Panic \<Rightarrow> Some p)
     (case r of Ok x \<Rightarrow> k' x | Err e \<Rightarrow> Some (h e) | Panic \<Rightarrow> Some p)"
  using assms by (cases r) (auto simp: injection_contained_def split: prod.split)

lemma agent_constructors_contained:
  "injection_contained ''agent_create_before_publish'' slot (unpublished_agent handle f)
       (opaque_agent_create D pk n handle box f) (opaque_agent_create_test D slot pk n handle box f)"
  "injection_contained ''agent_state_create_before_publish'' slot (unpublished_agent handle f)
       (opaque_agent_state_create handle box f) (opaque_agent_state_create_test D slot handle box f)"
  unfolding opaque_agent_create_def opaque_agent_create_test_def opaque_agent_state_create_def opaque_agent_state_create_test_def Let_def
  by (auto simp: FFI_PANIC_def ffi_error_to_int_def unpublished_agent_def intro!: contained_code contained_result contained_publish
      split: prod.splits)

lemma relay_constructors_contained:
  "injection_contained ''relay_keypair_generate_before_publish'' slot (unpublished_relay handle f)
       (opaque_relay_keypair_generate D handle box f) (opaque_relay_keypair_generate_test D slot handle box f)"
  "injection_contained ''relay_state_create_before_publish'' slot (unpublished_relay handle f)
       (opaque_relay_state_create handle box f) (opaque_relay_state_create_test D slot handle box f)"
  "injection_contained ''relay_create_with_keys_before_publish'' slot (unpublished_relay handle f)
       (opaque_relay_create_with_keys D sk j pk n seed l handle box f)
       (opaque_relay_create_with_keys_test D slot sk j pk n seed l handle box f)"
  unfolding opaque_relay_keypair_generate_def opaque_relay_keypair_generate_test_def opaque_relay_state_create_def
    opaque_relay_state_create_test_def opaque_relay_create_with_keys_def opaque_relay_create_with_keys_test_def Let_def
  by (auto simp: FFI_PANIC_def ffi_error_to_int_def unpublished_relay_def intro!: contained_code contained_result contained_publish
      split: prod.splits)

lemma relay_create_contained:
  "injection_contained ''relay_create_before_publish'' slot (unpublished_relay handle f)
       (opaque_relay_create D keys handle box f) (opaque_relay_create_test D slot keys handle box f)"
proof (cases "handle = 0")
  case True
  then show ?thesis by (simp add: opaque_relay_create_def opaque_relay_create_test_def contained_code)
next
  case False
  let ?f = "f\<lparr>h_mem := write_ptr (h_mem f) handle 0\<rparr>"
  consider (dead) "acquire_relay_keypair ?f keys = None" | (refused) e where "acquire_relay_keypair ?f keys = Some (Err e)"
    | (free) kh where "acquire_relay_keypair ?f keys = Some (Ok (kh, ?f\<lparr>h_keypairs := (h_keypairs f)(keys \<mapsto> kh)\<rparr>))"
        "release_relay_keypair keys (?f\<lparr>h_keypairs := (h_keypairs f)(keys \<mapsto> kh)\<rparr>) = ?f"
  proof (cases "keys = 0")
    case True
    then show thesis by (intro refused) (simp add: acquire_relay_keypair_def)
  next
    case keys: False
    show thesis
    proof (cases "h_keypairs f keys")
      case None
      then show thesis using keys by (intro dead) (simp add: acquire_relay_keypair_def)
    next
      case (Some kh)
      then show thesis
        using keys relay_keypair_handles.release_marked [of ?f keys kh] refused [of Busy] free [of "kh\<lparr>kh_in_use := True\<rparr>"]
        by (cases "kh_in_use kh") (simp_all add: acquire_relay_keypair_def Let_def)
    qed
  qed
  then show ?thesis
  proof cases
    case dead
    then show ?thesis using False by (simp add: opaque_relay_create_def opaque_relay_create_test_def contained_None)
  next
    case (refused e)
    then show ?thesis using False
      by (cases e) (simp_all add: opaque_relay_create_def opaque_relay_create_test_def contained_code FFI_BUSY_def)
  next
    case (free kh)
    then show ?thesis using False unfolding opaque_relay_create_def opaque_relay_create_test_def
      by (auto simp: FFI_PANIC_def unpublished_relay_def Let_def intro!: contained_code contained_result contained_publish)
  qed
qed

lemma relay_copies_contained:
  "injection_contained ''relay_keypair_public_key_before_commit'' slot (\<lambda>_ outcome. outcome = Some (FFI_PANIC, f))
       (opaque_relay_keypair_get_public_key keys out n f) (opaque_relay_keypair_get_public_key_test slot keys out n f)"
  "injection_contained ''relay_build_credentials_before_commit'' slot (\<lambda>_ outcome. outcome = Some (FFI_PANIC, f))
       (opaque_relay_build_credentials D rec j out n f) (opaque_relay_build_credentials_test D slot rec j out n f)"
proof -
  show "injection_contained ''relay_keypair_public_key_before_commit'' slot (\<lambda>_ outcome. outcome = Some (FFI_PANIC, f))
       (opaque_relay_keypair_get_public_key keys out n f) (opaque_relay_keypair_get_public_key_test slot keys out n f)"
    by (auto simp: opaque_relay_keypair_get_public_key_def opaque_relay_keypair_get_public_key_test_def injection_contained_def
        relay_keypair_handles.guarded_eq release_relay_keypair_def publish_def inject_test_panic_def Let_def FFI_PANIC_def
        fun_upd_idem split: option.splits if_splits)
  show "injection_contained ''relay_build_credentials_before_commit'' slot (\<lambda>_ outcome. outcome = Some (FFI_PANIC, f))
       (opaque_relay_build_credentials D rec j out n f) (opaque_relay_build_credentials_test D slot rec j out n f)"
    unfolding opaque_relay_build_credentials_def opaque_relay_build_credentials_test_def build_credentials_body_def Let_def
    by (auto simp: injection_contained_def publish_def inject_test_panic_def FFI_PANIC_def ffi_error_to_int_def
        split: prod.splits result.splits)
qed

section \<open>Properties\<close>



text \<open>
  A panic inside a constructor publishes nothing. For each of the six constructors and the
  two functions that copy out bytes, any arguments and any state of the heap, the test build
  does what the release does unless its own point is armed and the release returns zero.
  Then it returns the panic code, every box is as it was, and no byte is written except the
  null handle the constructor starts with; the box it had built is dropped.
\<close>

lemma injected_constructor_panics_publish_nothing:
  "injection_contained ''agent_create_before_publish'' slot (unpublished_agent handle f)
       (opaque_agent_create D pk n handle box f) (opaque_agent_create_test D slot pk n handle box f) \<and>
   injection_contained ''agent_state_create_before_publish'' slot (unpublished_agent handle f)
       (opaque_agent_state_create handle box f) (opaque_agent_state_create_test D slot handle box f) \<and>
   injection_contained ''relay_keypair_generate_before_publish'' slot (unpublished_relay handle g)
       (opaque_relay_keypair_generate D handle box g) (opaque_relay_keypair_generate_test D slot handle box g) \<and>
   injection_contained ''relay_create_before_publish'' slot (unpublished_relay handle g)
       (opaque_relay_create D keys handle box g) (opaque_relay_create_test D slot keys handle box g) \<and>
   injection_contained ''relay_state_create_before_publish'' slot (unpublished_relay handle g)
       (opaque_relay_state_create handle box g) (opaque_relay_state_create_test D slot handle box g) \<and>
   injection_contained ''relay_create_with_keys_before_publish'' slot (unpublished_relay handle g)
       (opaque_relay_create_with_keys D sk j pk n seed l handle box g)
       (opaque_relay_create_with_keys_test D slot sk j pk n seed l handle box g) \<and>
   injection_contained ''relay_keypair_public_key_before_commit'' slot (\<lambda>_ outcome. outcome = Some (FFI_PANIC, g))
       (opaque_relay_keypair_get_public_key keys out n g) (opaque_relay_keypair_get_public_key_test slot keys out n g) \<and>
   injection_contained ''relay_build_credentials_before_commit'' slot (\<lambda>_ outcome. outcome = Some (FFI_PANIC, g))
       (opaque_relay_build_credentials D rec j out n g) (opaque_relay_build_credentials_test D slot rec j out n g)"
  by (intro conjI agent_constructors_contained relay_constructors_contained relay_create_contained relay_copies_contained)

end
