(* ===== verification/Ffi_Registration.thy ===== *)
theory Ffi_Registration
  imports Ffi_Handshake
begin

text \<open>
  A registration over the C interfaces of the two libraries, up to the record that a later
  login is given.
\<close>

section \<open>Calls that return zero\<close>

lemma agent_request_zero:
  assumes "opaque_agent_create_registration_request D a pw n s out len f = Some (0, f1)"
    and live: "h_agents f a = Some ah" "h_agent_states f1 s = Some sh1"
  obtains sh req w1 where "h_agents f1 a = Some ah" "\<not> ah_in_use ah" "a \<noteq> 0" "s \<noteq> 0"
    "h_agent_states f s = Some sh" "\<not> as_in_use sh1"
    "create_registration_request D (read_bytes (h_mem f) pw (unat n)) RegistrationRequest_new (as_state sh) (h_world f)
       = (Ok (), req, as_state sh1, w1)"
    "write_registration_request (rq_data req) (zeros REGISTRATION_REQUEST_WIRE_LENGTH)
       = Ok (read_bytes (h_mem f1) out REGISTRATION_REQUEST_WIRE_LENGTH)"
proof -
  have "agent_call D a s (\<lambda>_. registration_request_op D pw n out) f = Some (0, f1)"
    using assms(1) by (auto simp: opaque_agent_create_registration_request_def split: if_splits)
  then obtain sh sh' m w where c: "a \<noteq> 0" "h_agents f a = Some ah" "\<not> ah_in_use ah" "s \<noteq> 0"
    "h_agent_states f s = Some sh"
    "registration_request_op D pw n out (sh\<lparr>as_in_use := True\<rparr>) (h_mem f) (h_world f) = (Ok (), sh', m, w)"
    "f1 = f\<lparr>h_agent_states := (h_agent_states f)(s \<mapsto> sh'\<lparr>as_in_use := False\<rparr>), h_mem := m, h_world := w\<rparr>"
    using live(1) unfolding agent_call_zero_iff by auto
  obtain r req ist1 w1 where run: "create_registration_request D (read_bytes (h_mem f) pw (unat n))
      RegistrationRequest_new (as_state sh) (h_world f) = (r, req, ist1, w1)" by (metis prod.collapse)
  then obtain data where d: "r = Ok ()" "write_registration_request (rq_data req) (zeros REGISTRATION_REQUEST_WIRE_LENGTH) = Ok data"
    "sh' = sh\<lparr>as_state := ist1, as_in_use := True\<rparr>" "m = write_bytes (h_mem f) out data"
    using c(6) by (cases r; cases "write_registration_request (rq_data req) (zeros REGISTRATION_REQUEST_WIRE_LENGTH)")
      (auto simp: registration_request_op_def Let_def)
  have "length data = REGISTRATION_REQUEST_WIRE_LENGTH" using written_length(1) [OF d(2)] by simp
  then have "read_bytes m out REGISTRATION_REQUEST_WIRE_LENGTH = data" using read_after_write [of data "h_mem f" out] d(4) by simp
  moreover have "sh1 = sh\<lparr>as_state := ist1, as_in_use := False\<rparr>" using live(2) c(7) d(3) by simp
  ultimately show thesis by (intro that [of sh req w1]) (use c d run in simp_all)
qed

section \<open>The registration\<close>

text \<open>Buffers the calls accept.\<close>

definition response_buffers :: "addr \<Rightarrow> addr \<Rightarrow> addr \<Rightarrow> addr \<Rightarrow> addr \<Rightarrow> addr \<Rightarrow> bool" where
  "response_buffers req n aid k out len \<longleftrightarrow> req \<noteq> 0 \<and> unat n = REGISTRATION_REQUEST_WIRE_LENGTH \<and>
     aid \<noteq> 0 \<and> k \<noteq> 0 \<and> unat k \<le> MAX_ACCOUNT_ID_LENGTH \<and> out \<noteq> 0 \<and> REGISTRATION_RESPONSE_WIRE_LENGTH \<le> unat len \<and>
     \<not> ranges_overlap req n out (of_nat REGISTRATION_RESPONSE_WIRE_LENGTH) \<and>
     \<not> ranges_overlap aid k out (of_nat REGISTRATION_RESPONSE_WIRE_LENGTH)"

definition finalize_buffers :: "addr \<Rightarrow> addr \<Rightarrow> addr \<Rightarrow> addr \<Rightarrow> bool" where
  "finalize_buffers resp n out len \<longleftrightarrow> resp \<noteq> 0 \<and> unat n = REGISTRATION_RESPONSE_WIRE_LENGTH \<and> out \<noteq> 0 \<and>
     REGISTRATION_RECORD_LENGTH \<le> unat len \<and> \<not> ranges_overlap resp n out (of_nat REGISTRATION_RECORD_LENGTH)"

definition build_buffers :: "addr \<Rightarrow> addr \<Rightarrow> addr \<Rightarrow> addr \<Rightarrow> bool" where
  "build_buffers rec n out len \<longleftrightarrow> rec \<noteq> 0 \<and> unat n = REGISTRATION_RECORD_LENGTH \<and> out \<noteq> 0 \<and>
     RESPONDER_CREDENTIALS_LENGTH \<le> unat len \<and> \<not> ranges_overlap rec n out (of_nat RESPONDER_CREDENTIALS_LENGTH)"

lemma relay_response_returns_zero:
  assumes "h_relays f r = Some rh" "\<not> rh_in_use rh" "r \<noteq> 0" "response_buffers req n aid k out len"
    and run: "create_registration_response D (rh_responder rh) (read_bytes (h_mem f) req REGISTRATION_REQUEST_WIRE_LENGTH)
      (read_bytes (h_mem f) aid (unat k)) RegistrationResponse_new = (Ok (), rs)" "length (rs_data rs) = 64"
  shows "\<exists>g. opaque_relay_create_registration_response D r req n aid k out len f = Some (0, g) \<and>
     read_bytes (h_mem g) out REGISTRATION_RESPONSE_WIRE_LENGTH = PROTOCOL_VERSION # rs_data rs"
proof -
  let ?b = "\<lambda>rh f. let req = read_bytes (h_mem f) req (unat n); aid = read_bytes (h_mem f) aid (unat k);
      (code, m) = registration_response_body D req aid out rh (h_mem f) in Some (code, f\<lparr>h_mem := m\<rparr>)"
  let ?m = "write_bytes (h_mem f) out (PROTOCOL_VERSION # rs_data rs)"
  have n: "unat n = REGISTRATION_REQUEST_WIRE_LENGTH" using assms(4) by (simp add: response_buffers_def)
  have "registration_response_body D (read_bytes (h_mem f) req (unat n)) (read_bytes (h_mem f) aid (unat k)) out
      (rh\<lparr>rh_in_use := True\<rparr>) (h_mem f) = (0, ?m)"
    using run response_delivered [OF run(2)] n
    by (simp add: registration_response_body_def slice_simps)
  moreover have "guarded acquire_relay release_relay r f ?b = ?b (rh\<lparr>rh_in_use := True\<rparr>) f"
    using assms(1-3) by (subst relay_guarded) (auto simp: Let_def split: prod.splits)
  ultimately have "opaque_relay_create_registration_response D r req n aid k out len f = Some (0, f\<lparr>h_mem := ?m\<rparr>)"
    using assms(4) by (simp add: opaque_relay_create_registration_response_def response_buffers_def)
  then show ?thesis using read_after_write [of "PROTOCOL_VERSION # rs_data rs" "h_mem f" out] run(2) by auto
qed

lemma agent_finalize_returns_zero:
  assumes "h_agents f a = Some ah" "\<not> ah_in_use ah" "a \<noteq> 0" "h_agent_states f s = Some sh" "\<not> as_in_use sh" "s \<noteq> 0"
    and args: "finalize_buffers resp n out len"
    and run: "finalize_registration D (ah_initiator ah) (read_bytes (h_mem f) resp REGISTRATION_RESPONSE_WIRE_LENGTH) (as_state sh)
        RegistrationRecord_new (h_world f) = (Ok (), rec, ist, w)"
      "write_registration_record (rd_envelope rec) (rd_initiator_public_key rec) (zeros REGISTRATION_RECORD_LENGTH) = Ok data"
  shows "\<exists>g. opaque_agent_finalize_registration D a resp n s out len f = Some (0, g) \<and>
     read_bytes (h_mem g) out REGISTRATION_RECORD_LENGTH = data"
proof -
  let ?g = "f\<lparr>h_agent_states := (h_agent_states f)(s \<mapsto> sh\<lparr>as_state := ist\<rparr>), h_mem := write_bytes (h_mem f) out data, h_world := w\<rparr>"
  have "finalize_registration_op D resp n out (ah\<lparr>ah_in_use := True\<rparr>) (sh\<lparr>as_in_use := True\<rparr>) (h_mem f) (h_world f)
      = (Ok (), sh\<lparr>as_state := ist, as_in_use := True\<rparr>, write_bytes (h_mem f) out data, w)"
    using run args by (simp add: finalize_registration_op_def finalize_buffers_def)
  then have "agent_call D a s (finalize_registration_op D resp n out) f = Some (0, ?g)"
    unfolding agent_call_zero_iff using assms(1-6)
    by (intro exI [of _ ah] exI [of _ sh] exI [of _ "sh\<lparr>as_state := ist, as_in_use := True\<rparr>"]
        exI [of _ "write_bytes (h_mem f) out data"] exI [of _ w]) (cases sh; simp)
  then have call: "opaque_agent_finalize_registration D a resp n s out len f = Some (0, ?g)"
    using args by (simp add: opaque_agent_finalize_registration_def finalize_buffers_def)
  have "length data = REGISTRATION_RECORD_LENGTH" using written_length(2) [OF run(2)] by simp
  then show ?thesis using call read_after_write [of data "h_mem f" out] by auto
qed

text \<open>A record from which the server's credential was built is stored verbatim and read back as that credential.\<close>

lemma built_record:
  assumes laws: "deps_laws D" and valid: "keypair_valid D (or_keypair resp)"
    and build: "build_credentials D data ResponderCredentials_new = (Ok (), cred)" and len: "length data = 201"
  shows "build_credentials_body D data out m = (0, write_bytes m out data)"
    and "read_bytes m p RESPONDER_CREDENTIALS_LENGTH = data \<Longrightarrow> ke2_credentials D resp m p 201 = Ok cred"
proof -
  obtain v where v: "parse_registration_record data = Ok v" "validate_public_key D (rec_initiator_public_key v) = Ok ()"
      "cred = \<lparr>c_envelope = rec_envelope v, c_masking_key = rec_masking_key v,
         c_initiator_public_key = rec_initiator_public_key v, c_registered = True\<rparr>"
    using build by (auto simp: build_credentials_eq [OF laws] ResponderCredentials_new_def split: result.splits if_splits)
  then show "build_credentials_body D data out m = (0, write_bytes m out data)"
    by (simp add: build_credentials_body_eq [OF laws])
  show "ke2_credentials D resp m p 201 = Ok cred" if "read_bytes m p RESPONDER_CREDENTIALS_LENGTH = data"
    using that v by (simp add: ke2_credentials_eq [OF laws keypair_validD(3,2) [OF valid laws]])
qed

lemma built_record_usable:
  assumes laws: "deps_laws D" and honest: "honest_responder D resp acc sr k"
    and build: "build_credentials D data ResponderCredentials_new = (Ok (), cred)" "length data = 201" "account_ready D rwd rpk cred"
    and buffers: "build_buffers rec_in n out len"
  shows "(\<forall>h. read_bytes (h_mem h) rec_in REGISTRATION_RECORD_LENGTH = data \<longrightarrow>
       (\<exists>h'. opaque_relay_build_credentials D rec_in n out len h = Some (0, h') \<and>
          read_bytes (h_mem h') out RESPONDER_CREDENTIALS_LENGTH = data)) \<and>
     (\<forall>m p. read_bytes m p RESPONDER_CREDENTIALS_LENGTH = data \<longrightarrow>
       (\<exists>c. ke2_credentials D resp m p 201 = Ok c \<and> account_ready D rwd rpk c))"
proof -
  note built = built_record [OF laws honest_keypair_valid [OF honest] build(1,2)]
  have "\<exists>h'. opaque_relay_build_credentials D rec_in n out len h = Some (0, h') \<and>
      read_bytes (h_mem h') out RESPONDER_CREDENTIALS_LENGTH = data"
    if "read_bytes (h_mem h) rec_in REGISTRATION_RECORD_LENGTH = data" for h
    using that buffers built(1) [of out "h_mem h"] read_after_write [of data "h_mem h" out] build(2)
    by (simp add: opaque_relay_build_credentials_def build_buffers_def)
  then show ?thesis using built(2) build(3) by blast
qed

text \<open>
  C7: a registration over the two C libraries completes and prepares a login. If the client's
  call for a request has returned zero, the server's call on these bytes returns zero;
  once the client's buffer holds the answer, and the session has not expired, finalizing returns
  zero; building the credential from the record returns zero and stores the record byte for
  byte; and a login call that is given these bytes takes them as the credential of an account that
  is ready under this password.
\<close>

theorem interface_registration_completes:
  assumes laws: "deps_laws D"
    and client: "agent_heap_inv D f" "h_agents f a = Some ah"
      "OpaqueInitiator_new D (kp_public_key (or_keypair (rh_responder rh))) = Ok (ah_initiator ah)"
    and server: "relay_heap_inv D g" "h_relays g r = Some rh" "r \<noteq> 0" "honest_responder D (rh_responder rh) acc sr k"
    and req: "opaque_agent_create_registration_request D a pw pn s req_out l1 f = Some (0, f1)"
      "read_bytes (h_mem f) pw (unat pn) = pwd" "h_agent_states f1 s = Some sh"
    and delivered: "read_bytes (h_mem g) req_in REGISTRATION_REQUEST_WIRE_LENGTH = read_bytes (h_mem f1) req_out REGISTRATION_REQUEST_WIRE_LENGTH"
      "read_bytes (h_mem g) aid (unat an) = acc"
    and fresh: "\<not> fst (initiator_is_expired (as_state sh) w)"
    and buffers: "response_buffers req_in n1 aid an resp_out l2" "finalize_buffers resp_in n2 rec_out l3" "build_buffers rec_in n3 cred_out l4"
  shows "\<exists>g1. opaque_relay_create_registration_response D r req_in n1 aid an resp_out l2 g = Some (0, g1) \<and>
     (\<forall>m. read_bytes m resp_in REGISTRATION_RESPONSE_WIRE_LENGTH = read_bytes (h_mem g1) resp_out REGISTRATION_RESPONSE_WIRE_LENGTH \<longrightarrow>
       (\<exists>f2 record. opaque_agent_finalize_registration D a resp_in n2 s rec_out l3 (f1\<lparr>h_mem := m, h_world := w\<rparr>) = Some (0, f2) \<and>
          read_bytes (h_mem f2) rec_out REGISTRATION_RECORD_LENGTH = record \<and>
          (\<forall>h. read_bytes (h_mem h) rec_in REGISTRATION_RECORD_LENGTH = record \<longrightarrow>
            (\<exists>h'. opaque_relay_build_credentials D rec_in n3 cred_out l4 h = Some (0, h') \<and>
               read_bytes (h_mem h') cred_out RESPONDER_CREDENTIALS_LENGTH = record)) \<and>
          (\<forall>m' p. read_bytes m' p RESPONDER_CREDENTIALS_LENGTH = record \<longrightarrow>
            (\<exists>c. ke2_credentials D (rh_responder rh) m' p 201 = Ok c \<and>
               account_ready D (password_key D k pwd) (kp_public_key (or_keypair (rh_responder rh))) c))))"
proof -
  obtain sh0 rq w1 where c1: "h_agents f1 a = Some ah" "\<not> ah_in_use ah" "a \<noteq> 0" "s \<noteq> 0"
    "h_agent_states f s = Some sh0" "\<not> as_in_use sh"
    "create_registration_request D pwd RegistrationRequest_new (as_state sh0) (h_world f) = (Ok (), rq, as_state sh, w1)"
    "write_registration_request (rq_data rq) (zeros REGISTRATION_REQUEST_WIRE_LENGTH)
       = Ok (read_bytes (h_mem g) req_in REGISTRATION_REQUEST_WIRE_LENGTH)"
    by (rule agent_request_zero [OF req(1) client(2) req(3), unfolded req(2), folded delivered(1)])
  have inv: "initiator_wf (as_state sh0)" "\<not> rh_in_use rh"
    using client(1) server(1,2) c1(5)
    by (auto simp: agent_heap_inv_def agent_state_live_def agent_state_inv_def initiator_inv_wf relay_heap_inv_def relay_live_def)
  have pin: "oi_responder_public_key (ah_initiator ah) = kp_public_key (or_keypair (rh_responder rh))"
    using client(3) deps_lawsD [OF laws] by (auto simp: OpaqueInitiator_new_Ok_iff)
  have wire: "read_bytes (h_mem g) req_in REGISTRATION_REQUEST_WIRE_LENGTH = registration_request_wire (rq_data rq)"
    using registration_request_codec.emit_Ok_iff [of "rq_data rq"] c1(8) by auto
  obtain w2 where w2: "initiator_is_expired (as_state sh) w = (False, w2)" using fresh by (metis prod.collapse)
  obtain rs rec st2 w4 cred where run:
    "create_registration_response D (rh_responder rh) (registration_request_wire (rq_data rq)) acc RegistrationResponse_new = (Ok (), rs)"
    "finalize_registration D (ah_initiator ah) (PROTOCOL_VERSION # rs_data rs) (as_state sh) RegistrationRecord_new w = (Ok (), rec, st2, w4)"
    "length (rs_data rs) = 64" "length (rd_envelope rec) = 168" "length (rd_initiator_public_key rec) = 32"
    "build_credentials D (PROTOCOL_VERSION # rd_envelope rec @ rd_initiator_public_key rec) ResponderCredentials_new = (Ok (), cred)"
    "account_ready D (password_key D k pwd) (kp_public_key (or_keypair (rh_responder rh))) cred"
    by (rule registration_completes_aux [OF laws server(4) pin create_registration_request_Ok [OF laws inv(1) c1(7)] w2])
  let ?rec = "PROTOCOL_VERSION # rd_envelope rec @ rd_initiator_public_key rec"
  have len: "length ?rec = 201" using run(4,5) by simp
  note usable = built_record_usable [OF laws server(4) run(6) len run(7) buffers(3)]
  obtain g1 where g1: "opaque_relay_create_registration_response D r req_in n1 aid an resp_out l2 g = Some (0, g1)"
    "read_bytes (h_mem g1) resp_out REGISTRATION_RESPONSE_WIRE_LENGTH = PROTOCOL_VERSION # rs_data rs"
    using relay_response_returns_zero [OF server(2) inv(2) server(3) buffers(1) _ run(3)] run(1) unfolding wire delivered(2) by blast
  have fin: "\<exists>f2. opaque_agent_finalize_registration D a resp_in n2 s rec_out l3 (f1\<lparr>h_mem := m, h_world := w\<rparr>) = Some (0, f2) \<and>
      read_bytes (h_mem f2) rec_out REGISTRATION_RECORD_LENGTH = ?rec"
    if "read_bytes m resp_in REGISTRATION_RESPONSE_WIRE_LENGTH = read_bytes (h_mem g1) resp_out REGISTRATION_RESPONSE_WIRE_LENGTH" for m
    by (rule agent_finalize_returns_zero [OF _ c1(2,3) _ c1(6,4) buffers(2)])
      (use that c1 req(3) g1(2) run(2) record_delivered [OF run(4,5)] in simp_all)
  show ?thesis
    by (rule exI [of _ g1], rule conjI [OF g1(1)], intro allI impI, drule fin, elim exE conjE, intro exI conjI,
        assumption, assumption, rule usable [THEN conjunct1], rule usable [THEN conjunct2])
qed

section \<open>A registration over the sample dependencies\<close>

lemma agent_request_returns_zero:
  assumes "h_agents f a = Some ah" "\<not> ah_in_use ah" "a \<noteq> 0" "h_agent_states f s = Some sh" "\<not> as_in_use sh" "s \<noteq> 0"
    and args: "1 \<le> unat n" "unat n \<le> 4096" "pw \<noteq> 0" "out \<noteq> 0" "33 \<le> unat len" "\<not> ranges_overlap pw n out 33"
    and run: "create_registration_request D (read_bytes (h_mem f) pw (unat n)) RegistrationRequest_new (as_state sh) (h_world f)
        = (Ok (), req, ist1, w1)" "length (rq_data req) = 32"
  obtains f1 where "opaque_agent_create_registration_request D a pw n s out len f = Some (0, f1)"
    "h_agent_states f1 s = Some (sh\<lparr>as_state := ist1\<rparr>)"
    "read_bytes (h_mem f1) out REGISTRATION_REQUEST_WIRE_LENGTH = registration_request_wire (rq_data req)"
proof -
  let ?data = "registration_request_wire (rq_data req)"
  let ?g = "f\<lparr>h_agent_states := (h_agent_states f)(s \<mapsto> sh\<lparr>as_state := ist1\<rparr>), h_mem := write_bytes (h_mem f) out ?data, h_world := w1\<rparr>"
  have "registration_request_op D pw n out (sh\<lparr>as_in_use := True\<rparr>) (h_mem f) (h_world f)
      = (Ok (), sh\<lparr>as_state := ist1, as_in_use := True\<rparr>, write_bytes (h_mem f) out ?data, w1)"
    using run request_delivered [OF run(2)] by (simp add: registration_request_op_def)
  then have "agent_call D a s (\<lambda>_. registration_request_op D pw n out) f = Some (0, ?g)"
    unfolding agent_call_zero_iff using assms(1-6)
    by (intro exI [of _ ah] exI [of _ sh] exI [of _ "sh\<lparr>as_state := ist1, as_in_use := True\<rparr>"]
        exI [of _ "write_bytes (h_mem f) out ?data"] exI [of _ w1]) (cases sh; simp)
  then have call: "opaque_agent_create_registration_request D a pw n s out len f = Some (0, ?g)"
    using args by (simp add: opaque_agent_create_registration_request_def)
  have "length ?data = 33" using written_length(1) [OF request_delivered [OF run(2)]] by simp
  then have "read_bytes (h_mem ?g) out REGISTRATION_REQUEST_WIRE_LENGTH = ?data" using read_after_write [of ?data "h_mem f" out] by simp
  with that [OF call] show thesis by simp
qed

definition sample_registrar_heap :: "bytes \<Rightarrow> relay_heap" where
  "sample_registrar_heap req = sample_relay_heap\<lparr>h_relays := [24 \<mapsto> sample_relay],
     h_mem := write_bytes (write_bytes (\<lambda>_. 0) 1000 req) 3000 sample_account\<rparr>"

lemma sample_registrar_heap_props:
  assumes "length req = 33"
  shows "relay_heap_inv sample (sample_registrar_heap req)" "h_relays (sample_registrar_heap req) 24 = Some sample_relay"
    "read_bytes (h_mem (sample_registrar_heap req)) 1000 33 = req"
    "read_bytes (h_mem (sample_registrar_heap req)) 3000 1 = sample_account"
proof -
  have apart: "window 1000 33 \<inter> window 3000 1 = {}"
    using disjoint_windows [of 1000 33 3000 1] by (simp add: ranges_overlap_def checked_add_def)
  have acc: "length sample_account = 1" by (simp add: sample_account_def)
  show "relay_heap_inv sample (sample_registrar_heap req)" "h_relays (sample_registrar_heap req) 24 = Some sample_relay"
    using sample_server_heap_inv by (simp_all add: sample_registrar_heap_def relay_heap_inv_def)
  show "read_bytes (h_mem (sample_registrar_heap req)) 1000 33 = req"
    using read_disjoint_write [of 1000 33 3000 sample_account "write_bytes (\<lambda>_. 0) 1000 req"]
      read_after_write [of req "\<lambda>_. 0" 1000] apart acc assms by (simp add: sample_registrar_heap_def)
  show "read_bytes (h_mem (sample_registrar_heap req)) 3000 1 = sample_account"
    using read_after_write [of sample_account "write_bytes (\<lambda>_. 0) 1000 req" 3000] acc by (simp add: sample_registrar_heap_def)
qed

theorem interface_registration_completes_witness:
  "\<exists>req f1 m w f2 g1 c m'. opaque_relay_create_registration_response sample 24 1000 33 3000 1 4000 65 (sample_registrar_heap req) = Some (0, g1) \<and>
     opaque_agent_finalize_registration sample 24 1000 65 16 4000 201 (f1\<lparr>h_mem := m, h_world := w\<rparr>) = Some (0, f2) \<and>
     ke2_credentials sample sample_responder m' 4000 201 = Ok c \<and>
     account_ready sample (password_key sample Z2 sample_password) (z3_encode Z2) c"
proof -
  obtain req ist1 w1 where r: "create_registration_request sample sample_password RegistrationRequest_new sample_ist
      sample_world = (Ok (), req, ist1, w1)" "length (rq_data req) = 32" by (rule sample_request_run)
  let ?req = "registration_request_wire (rq_data req)"
  have len: "length ?req = 33" using written_length(1) [OF request_delivered [OF r(2)]] by simp
  note C = sample_client_heap_props and S = sample_registrar_heap_props [OF len]
  obtain f1 where f1: "opaque_agent_create_registration_request sample 24 1000 3 16 4000 33 sample_client_heap = Some (0, f1)"
    "h_agent_states f1 16 = Some \<lparr>as_state = ist1, as_ke3_exported = False, as_in_use = False\<rparr>"
    "read_bytes (h_mem f1) 4000 REGISTRATION_REQUEST_WIRE_LENGTH = ?req"
    by (rule agent_request_returns_zero [OF C(2) _ _ C(3), of 3 1000 4000 33])
      (use C r in \<open>simp_all add: sample_agent_def ranges_overlap_def checked_add_def\<close>)
  have buffers: "response_buffers 1000 33 3000 1 4000 65" "finalize_buffers 1000 65 4000 201" "build_buffers 1000 201 4000 201"
    by (simp_all add: response_buffers_def finalize_buffers_def build_buffers_def ranges_overlap_def checked_add_def)
  have "\<exists>g1. opaque_relay_create_registration_response sample 24 1000 33 3000 1 4000 65 (sample_registrar_heap ?req) = Some (0, g1) \<and>
    (\<forall>m. read_bytes m 1000 REGISTRATION_RESPONSE_WIRE_LENGTH = read_bytes (h_mem g1) 4000 REGISTRATION_RESPONSE_WIRE_LENGTH \<longrightarrow>
       (\<exists>f2 record. opaque_agent_finalize_registration sample 24 1000 65 16 4000 201
            (f1\<lparr>h_mem := m, h_world := world_at (i_created_at ist1)\<rparr>) = Some (0, f2) \<and>
          read_bytes (h_mem f2) 4000 REGISTRATION_RECORD_LENGTH = record \<and>
          (\<forall>h. read_bytes (h_mem h) 1000 REGISTRATION_RECORD_LENGTH = record \<longrightarrow>
            (\<exists>h'. opaque_relay_build_credentials sample 1000 201 4000 201 h = Some (0, h') \<and>
               read_bytes (h_mem h') 4000 RESPONDER_CREDENTIALS_LENGTH = record)) \<and>
          (\<forall>m' p. read_bytes m' p RESPONDER_CREDENTIALS_LENGTH = record \<longrightarrow>
            (\<exists>c. ke2_credentials sample (rh_responder sample_relay) m' p 201 = Ok c \<and>
               account_ready sample (password_key sample Z2 sample_password) (kp_public_key (or_keypair (rh_responder sample_relay))) c))))"
    by (rule interface_registration_completes [OF sample_laws C(1,2) _ S(1,2) _ _ f1(1) _ f1(2) _ _ _ buffers])
      (use C S f1(3) sample_honest sample_initiator_new world_at_fresh in
        \<open>simp_all add: sample_agent_def sample_relay_def sample_server_key sample_initiator_def\<close>)
  then obtain g1 where g1: "opaque_relay_create_registration_response sample 24 1000 33 3000 1 4000 65 (sample_registrar_heap ?req) = Some (0, g1)"
    "\<forall>m. read_bytes m 1000 REGISTRATION_RESPONSE_WIRE_LENGTH = read_bytes (h_mem g1) 4000 REGISTRATION_RESPONSE_WIRE_LENGTH \<longrightarrow>
       (\<exists>f2 c. opaque_agent_finalize_registration sample 24 1000 65 16 4000 201
            (f1\<lparr>h_mem := m, h_world := world_at (i_created_at ist1)\<rparr>) = Some (0, f2) \<and>
          ke2_credentials sample sample_responder (h_mem f2) 4000 201 = Ok c \<and>
          account_ready sample (password_key sample Z2 sample_password) (z3_encode Z2) c)"
    by (fastforce simp: sample_relay_def sample_server_key)
  let ?m = "write_bytes (\<lambda>_. 0) 1000 (read_bytes (h_mem g1) 4000 65)"
  have "read_bytes ?m 1000 REGISTRATION_RESPONSE_WIRE_LENGTH = read_bytes (h_mem g1) 4000 REGISTRATION_RESPONSE_WIRE_LENGTH"
    using read_after_write [of "read_bytes (h_mem g1) 4000 65" "\<lambda>_. 0" 1000] by simp
  then obtain f2 c where "opaque_agent_finalize_registration sample 24 1000 65 16 4000 201
      (f1\<lparr>h_mem := ?m, h_world := world_at (i_created_at ist1)\<rparr>) = Some (0, f2)"
    "ke2_credentials sample sample_responder (h_mem f2) 4000 201 = Ok c"
    "account_ready sample (password_key sample Z2 sample_password) (z3_encode Z2) c"
    using g1(2) by blast
  then show ?thesis using g1(1) by blast
qed

end
