(* ===== verification/Fuzz_Targets.thy ===== *)
theory Fuzz_Targets
  imports Ffi_Registration
begin

text \<open>
  The fuzz targets of \<^verbatim>\<open>src/rust/fuzz/fuzz_targets\<close>: programs that take any bytes, call the
  library on them and assert what must hold of the result. A failed assertion is a panic. The
  addresses of the harness's variables and of the boxes the allocator returns are
  arguments.
\<close>

section \<open>Parsers\<close>

definition fuzz_parse_ke1 :: "bytes \<Rightarrow> unit OpaqueResult" where
  "fuzz_parse_ke1 data = (case parse_ke1 data of Panic \<Rightarrow> Panic | _ \<Rightarrow> Ok ())"

definition fuzz_parse_ke2 :: "bytes \<Rightarrow> unit OpaqueResult" where
  "fuzz_parse_ke2 data = (case parse_ke2 data of Panic \<Rightarrow> Panic | _ \<Rightarrow> Ok ())"

definition fuzz_parse_registration_record :: "bytes \<Rightarrow> unit OpaqueResult" where
  "fuzz_parse_registration_record data = (case parse_registration_record data of Panic \<Rightarrow> Panic | _ \<Rightarrow> Ok ())"

section \<open>Lengths at the C interface\<close>

record fuzz_layout =
  fl_data :: addr
  fl_agent :: addr
  fl_state :: addr
  fl_request_out :: addr
  fl_agent_box :: addr
  fl_state_box :: addr

definition assert_that :: "bool \<Rightarrow> 'a OpaqueResult option \<Rightarrow> 'a OpaqueResult option" where
  "assert_that b k = (if b then k else Some Panic)"

text \<open>The part of the harness that owns a session, for a password of \<open>n\<close> bytes.\<close>

definition fuzz_session ::
  "('s, 'p, 'ek, 'dk) deps \<Rightarrow> fuzz_layout \<Rightarrow> addr \<Rightarrow> nat \<Rightarrow> agent_heap \<Rightarrow> agent_heap OpaqueResult option" where
  "fuzz_session D L password n f =
     (let f = f\<lparr>h_mem := write_ptr (h_mem f) (fl_state L) 0\<rparr> in
      case opaque_agent_state_create (fl_state L) (fl_state_box L) f of
        None \<Rightarrow> None
      | Some (state_rc, f) \<Rightarrow>
          if state_rc = 0
          then assert_that (read_ptr (h_mem f) (fl_state L) \<noteq> 0)
            (let f = f\<lparr>h_mem := write_bytes (h_mem f) (fl_request_out L) (replicate 33 0xA5)\<rparr>;
                 request_len = (if n mod 2 = 0 then 33 else min n 33) in
             case opaque_agent_create_registration_request D (read_ptr (h_mem f) (fl_agent L)) password (of_nat n)
                    (read_ptr (h_mem f) (fl_state L)) (fl_request_out L) (of_nat request_len) f of
               None \<Rightarrow> None
             | Some (request_rc, f) \<Rightarrow>
                 let request_out = read_bytes (h_mem f) (fl_request_out L) 33 in
                 assert_that (if request_rc = 0 then \<exists>byte \<in> set request_out. byte \<noteq> 0xA5
                              else \<forall>byte \<in> set request_out. byte = 0xA5)
                 (case opaque_agent_state_destroy D (fl_state L) f of
                    None \<Rightarrow> None
                  | Some f \<Rightarrow> assert_that (read_ptr (h_mem f) (fl_state L) = 0) (Some (Ok f))))
          else assert_that (read_ptr (h_mem f) (fl_state L) = 0) (Some (Ok f)))"

definition fuzz_ffi_lengths ::
  "('s, 'p, 'ek, 'dk) deps \<Rightarrow> fuzz_layout \<Rightarrow> bytes \<Rightarrow> agent_heap \<Rightarrow> agent_heap OpaqueResult option" where
  "fuzz_ffi_lengths D L data f =
     (let relay_pk = take (min (length data) 32) data;
          password = drop (min (length data) 32) data;
          f = f\<lparr>h_mem := write_ptr (write_bytes (h_mem f) (fl_data L) data) (fl_agent L) 1\<rparr> in
      case opaque_agent_create D (fl_data L) (of_nat (length relay_pk)) (fl_agent L) (fl_agent_box L) f of
        None \<Rightarrow> None
      | Some (create_rc, f) \<Rightarrow>
          if create_rc = 0
          then assert_that (read_ptr (h_mem f) (fl_agent L) \<noteq> 0)
            (case fuzz_session D L (fl_data L + of_nat (length relay_pk)) (length password) f of
               Some (Ok f) \<Rightarrow>
                 (case opaque_agent_destroy D (fl_agent L) f of
                    None \<Rightarrow> None
                  | Some f \<Rightarrow> assert_that (read_ptr (h_mem f) (fl_agent L) = 0) (Some (Ok f)))
             | failed \<Rightarrow> failed)
          else assert_that (read_ptr (h_mem f) (fl_agent L) = 0) (Some (Ok f)))"

section \<open>The calls of the harness\<close>

text \<open>The two pointer variables and the output buffer are variables of their own; a new box is fresh.\<close>

definition fuzz_layout_ok :: "fuzz_layout \<Rightarrow> agent_heap \<Rightarrow> bool" where
  "fuzz_layout_ok L f \<longleftrightarrow> fl_agent L \<noteq> 0 \<and> fl_state L \<noteq> 0 \<and> fl_agent_box L \<noteq> 0 \<and> fl_state_box L \<noteq> 0 \<and>
     \<not> ranges_overlap (fl_agent L) 8 (fl_state L) 8 \<and> \<not> ranges_overlap (fl_agent L) 8 (fl_request_out L) 33 \<and>
     \<not> ranges_overlap (fl_state L) 8 (fl_request_out L) 33 \<and>
     h_agents f (fl_agent_box L) = None \<and> h_agent_states f (fl_state_box L) = None"

lemma read_ptr_frame: "(\<And>a. a \<notin> A \<Longrightarrow> m' a = m a) \<Longrightarrow> window p 8 \<inter> A = {} \<Longrightarrow> read_ptr m' p = read_ptr m p"
  unfolding read_ptr_def by (rule arg_cong [of _ _ ptr_of_bytes], rule read_bytes_window) auto

lemma read_ptr_other: "window p 8 \<inter> window q (length bs) = {} \<Longrightarrow> read_ptr (write_bytes m q bs) p = read_ptr m p"
  by (rule read_ptr_frame) (auto intro: write_bytes_outside)

lemma read_ptr_write_other: "window p 8 \<inter> window q 8 = {} \<Longrightarrow> read_ptr (write_ptr m q a) p = read_ptr m p"
  using read_ptr_other [of p q "ptr_bytes a"] by (simp add: write_ptr_def)

text \<open>A request on a live session runs to a code; it marks the buffer exactly if the code is zero.\<close>

lemma fuzz_request_call:
  assumes laws: "deps_laws D" and a: "h_agents f a = Some ah" "\<not> ah_in_use ah" "a \<noteq> 0"
    and s: "h_agent_states f s = Some sh" "\<not> as_in_use sh" "agent_state_inv sh" "s \<noteq> 0"
    and out: "read_bytes (h_mem f) out 33 = replicate 33 0xA5"
  obtains c g sh' where "opaque_agent_create_registration_request D a key n s out len f = Some (c, g)"
    "h_agents g = h_agents f" "h_agent_states g = (h_agent_states f)(s \<mapsto> sh')" "\<not> as_in_use sh'"
    "\<And>x. x \<notin> window out 33 \<Longrightarrow> h_mem g x = h_mem f x"
    "if c = 0 then \<exists>b \<in> set (read_bytes (h_mem g) out 33). b \<noteq> 0xA5 else \<forall>b \<in> set (read_bytes (h_mem g) out 33). b = 0xA5"
proof -
  have "opaque_agent_create_registration_request D a key n s out len f \<noteq> None"
    using a s by (simp add: opaque_agent_create_registration_request_def agent_call_eq)
  then obtain c g where call: "opaque_agent_create_registration_request D a key n s out len f = Some (c, g)" by auto
  have "agent_outcome D s (window out 33) f c g"
    using agent_session_call_outcome [OF laws call_request [OF call]] by simp
  then have "c \<noteq> 0 \<and> g = f \<or> agent_call_effect D s (window out 33) sh f c g"
    using finished_call_effect [OF laws s(3)] s(1) by (auto simp: agent_outcome_def)
  then obtain sh' where g: "h_agents g = h_agents f" "h_agent_states g = (h_agent_states f)(s \<mapsto> sh')" "\<not> as_in_use sh'"
    "\<And>x. x \<notin> window out 33 \<Longrightarrow> h_mem g x = h_mem f x" "c \<noteq> 0 \<Longrightarrow> h_mem g = h_mem f"
    using s(1,2) by (fastforce simp: agent_call_effect_def fun_upd_idem)
  have "\<exists>b \<in> set (read_bytes (h_mem g) out 33). b \<noteq> 0xA5" if "c = 0"
  proof -
    have "opaque_agent_create_registration_request D a key n s out len f = Some (0, g)" using call that by simp
    from this a(1) obtain data where "write_registration_request data (zeros 33) = Ok (read_bytes (h_mem g) out 33)"
      by (rule agent_request_zero [of D a key n s out len f g ah sh']) (use g(2) in auto)
    moreover from this have "length data = 32" by (auto simp: write_registration_request_def split: if_splits)
    ultimately have "read_bytes (h_mem g) out 33 = 2 # data"
      using request_delivered [of data] by (simp add: registration_request_wire_def)
    then show ?thesis by simp
  qed
  then show thesis using that [OF call g(1-4)] g(5) out by simp
qed

section \<open>The harness runs to its end\<close>

lemma fuzz_layout_windows:
  assumes "fuzz_layout_ok L f"
  shows "window (fl_agent L) 8 \<inter> window (fl_state L) 8 = {}" "window (fl_agent L) 8 \<inter> window (fl_request_out L) 33 = {}"
    "window (fl_state L) 8 \<inter> window (fl_request_out L) 33 = {}"
  using assms disjoint_windows [of _ 8 _ 8] disjoint_windows [of _ 8 _ 33] by (simp_all add: fuzz_layout_ok_def)

lemma fuzz_session_passes:
  assumes laws: "deps_laws D" and L: "fuzz_layout_ok L f0" "h_agent_states f = h_agent_states f0"
    and a: "h_agents f a = Some ah" "\<not> ah_in_use ah" "a \<noteq> 0" "read_ptr (h_mem f) (fl_agent L) = a"
  obtains g where "fuzz_session D L password n f = Some (Ok g)" "h_agents g = h_agents f"
    "h_agent_states g = h_agent_states f" "read_ptr (h_mem g) (fl_agent L) = a"
proof -
  note apart = fuzz_layout_windows [OF L(1)]
  let ?len = "of_nat (if n mod 2 = 0 then 33 else min n 33) :: addr" and ?s = "fl_state_box L"
  obtain st w where st: "InitiatorState_new (h_world f) = (st, w)" by fastforce
  define sh where "sh = \<lparr>as_state = st, as_ke3_exported = False, as_in_use = False\<rparr>"
  define m where "m = write_ptr (write_ptr (write_ptr (h_mem f) (fl_state L) 0) (fl_state L) 0) (fl_state L) ?s"
  define f1 where "f1 = f\<lparr>h_mem := m, h_world := w, h_agent_states := (h_agent_states f)(?s \<mapsto> sh)\<rparr>"
  let ?f2 = "f1\<lparr>h_mem := write_bytes m (fl_request_out L) (replicate 33 0xA5)\<rparr>"
  have create: "opaque_agent_state_create (fl_state L) ?s (f\<lparr>h_mem := write_ptr (h_mem f) (fl_state L) 0\<rparr>) = Some (0, f1)"
    using L(1) st by (simp add: opaque_agent_state_create_def fuzz_layout_ok_def f1_def m_def sh_def)
  have slots: "read_ptr (h_mem ?f2) (fl_agent L) = a" "read_ptr (h_mem ?f2) (fl_state L) = ?s" "read_ptr m (fl_state L) = ?s"
    using apart a(4) by (simp_all add: m_def read_ptr_other read_ptr_write_other)
  have live: "agent_state_inv sh" "\<not> as_in_use sh" using new_session_live [OF st, of D] by (simp_all add: sh_def agent_state_live_def)
  have filled: "read_bytes (h_mem ?f2) (fl_request_out L) 33 = replicate 33 0xA5"
    using read_after_write [of "replicate 33 0xA5" m "fl_request_out L"] by simp
  obtain c g sh' where call: "opaque_agent_create_registration_request D a password (of_nat n) ?s (fl_request_out L) ?len ?f2 = Some (c, g)"
    and g: "h_agents g = h_agents ?f2" "h_agent_states g = (h_agent_states ?f2)(?s \<mapsto> sh')" "\<not> as_in_use sh'"
      "\<And>x. x \<notin> window (fl_request_out L) 33 \<Longrightarrow> h_mem g x = h_mem ?f2 x"
    and out: "if c = 0 then \<exists>b \<in> set (read_bytes (h_mem g) (fl_request_out L) 33). b \<noteq> 0xA5
      else \<forall>b \<in> set (read_bytes (h_mem g) (fl_request_out L) 33). b = 0xA5"
    by (rule fuzz_request_call [of D ?f2 a ah ?s sh "fl_request_out L" password "of_nat n" ?len])
      (use laws a L live filled in \<open>simp_all add: f1_def fuzz_layout_ok_def\<close>)
  have kept: "read_ptr (h_mem g) (fl_agent L) = a" "read_ptr (h_mem g) (fl_state L) = ?s"
    using read_ptr_frame [OF g(4)] apart(2,3) slots(1,2) by simp_all
  obtain h where destroy: "opaque_agent_state_destroy D (fl_state L) g = Some h"
    and h: "h_agents h = h_agents g" "h_agent_states h = (h_agent_states g)(?s := None)" "h_mem h = write_ptr (h_mem g) (fl_state L) 0"
    using L(1) g(2,3) kept(2)
    by (simp add: opaque_agent_state_destroy_def opaque_agent_state_try_destroy_def fuzz_layout_ok_def)
  show thesis
  proof (rule that)
    show "fuzz_session D L password n f = Some (Ok h)"
      using create slots call out destroy h(3) L(1) by (simp add: fuzz_session_def assert_that_def Let_def f1_def fuzz_layout_ok_def)
    show "h_agents h = h_agents f" "h_agent_states h = h_agent_states f"
      using h(1,2) g(1,2) L by (auto simp: f1_def fuzz_layout_ok_def)
    show "read_ptr (h_mem h) (fl_agent L) = a" using h(3) kept(1) apart(1) by (simp add: read_ptr_write_other)
  qed
qed

text \<open>What the harness finds after the constructor.\<close>

lemma fuzz_create:
  assumes "deps_laws D" "fuzz_layout_ok L f" "h_agents f' = h_agents f" "h_agent_states f' = h_agent_states f"
  obtains (failed) c m where "opaque_agent_create D key n (fl_agent L) (fl_agent_box L) f' = Some (c, f'\<lparr>h_mem := m\<rparr>)" "c \<noteq> 0"
    "read_ptr m (fl_agent L) = 0"
  | (created) ah m where "opaque_agent_create D key n (fl_agent L) (fl_agent_box L) f' =
      Some (0, f'\<lparr>h_agents := (h_agents f)(fl_agent_box L \<mapsto> ah), h_mem := m\<rparr>)" "\<not> ah_in_use ah"
    "read_ptr m (fl_agent L) = fl_agent_box L"
proof -
  let ?f = "f'\<lparr>h_mem := write_ptr (h_mem f') (fl_agent L) 0\<rparr>"
  have slot: "fl_agent L \<noteq> 0" using assms(2) by (simp add: fuzz_layout_ok_def)
  have rejected: thesis if "opaque_agent_create D key n (fl_agent L) (fl_agent_box L) f' = Some (to_c_int e, ?f)" for e
    by (rule failed [OF that]) simp_all
  show thesis
  proof (cases "key = 0 \<or> unat n \<noteq> PUBLIC_KEY_LENGTH \<or> ranges_overlap key n (fl_agent L) 8")
    case True
    then show ?thesis using slot by (intro rejected [of InvalidInput]) (auto simp: opaque_agent_create_def Let_def)
  next
    case False
    have "OpaqueInitiator_new D b \<noteq> Panic" for b
      using assms(1) by (auto simp: OpaqueInitiator_new_def validate_public_key_Ok_iff validate_no_panic result_simps copy_into_whole)
    then consider (bad) e where "OpaqueInitiator_new D (read_bytes (h_mem ?f) key (unat n)) = Err e"
      | (good) i where "OpaqueInitiator_new D (read_bytes (h_mem ?f) key (unat n)) = Ok i" by (meson result.exhaust)
    then show ?thesis
    proof cases
      case bad
      then show ?thesis using False slot by (intro rejected) (simp add: opaque_agent_create_def ffi_error_to_int_def)
    next
      case good
      then show ?thesis using False slot assms(3)
        by (intro created [where ah = "\<lparr>ah_initiator = i, ah_in_use = False\<rparr>" and
            m = "write_ptr (h_mem ?f) (fl_agent L) (fl_agent_box L)"])
          (simp_all add: opaque_agent_create_def)
    qed
  qed
qed

lemma fuzz_ffi_lengths_passes:
  assumes laws: "deps_laws D" and L: "fuzz_layout_ok L f"
  shows "\<exists>g. fuzz_ffi_lengths D L data f = Some (Ok g) \<and> h_agents g = h_agents f \<and> h_agent_states g = h_agent_states f"
proof -
  let ?f = "f\<lparr>h_mem := write_ptr (write_bytes (h_mem f) (fl_data L) data) (fl_agent L) 1\<rparr>"
  let ?n = "length (take (min (length data) 32) data)" and ?k = "length (drop (min (length data) 32) data)"
  have "h_agents ?f = h_agents f" "h_agent_states ?f = h_agent_states f" by simp_all
  from laws L this show ?thesis
  proof (cases rule: fuzz_create [where key = "fl_data L" and n = "of_nat ?n"])
    case (failed c m)
    then show ?thesis by (auto simp: fuzz_ffi_lengths_def assert_that_def Let_def)
  next
    case (created ah m)
    let ?g = "?f\<lparr>h_agents := (h_agents f)(fl_agent_box L \<mapsto> ah), h_mem := m\<rparr>"
    have box: "fl_agent_box L \<noteq> 0" "fl_agent L \<noteq> 0" "h_agents f (fl_agent_box L) = None" using L by (simp_all add: fuzz_layout_ok_def)
    obtain h where h: "fuzz_session D L (fl_data L + of_nat ?n) ?k ?g = Some (Ok h)" "h_agents h = h_agents ?g"
      "h_agent_states h = h_agent_states ?g" "read_ptr (h_mem h) (fl_agent L) = fl_agent_box L"
      by (rule fuzz_session_passes [OF laws L, of ?g "fl_agent_box L" ah]) (use created box in simp_all)
    obtain g where "opaque_agent_destroy D (fl_agent L) h = Some g" "h_agents g = (h_agents h)(fl_agent_box L := None)"
      "h_agent_states g = h_agent_states h" "h_mem g = write_ptr (h_mem h) (fl_agent L) 0"
      using h(2,4) created(2) box by (simp add: opaque_agent_destroy_def opaque_agent_try_destroy_def)
    with created h box show ?thesis by (auto simp: fuzz_ffi_lengths_def assert_that_def Let_def fun_upd_idem)
  qed
qed

section \<open>Properties\<close>

text \<open>
  C26: no input makes a fuzz target fail. Whatever the bytes, the parser targets do not panic;
  and for every state of the process, random bytes and clock, the target that drives the C
  interface with keys, passwords and buffer lengths taken from the input passes all its
  assertions (handles are null exactly when a constructor failed, the output is marked
  exactly by a call that returns zero, a destructor clears the handle) and leaves no handle
  behind.
\<close>

theorem fuzz_targets_never_fail:
  assumes "deps_laws D" "fuzz_layout_ok L f"
  shows "fuzz_parse_ke1 data = Ok () \<and> fuzz_parse_ke2 data = Ok () \<and> fuzz_parse_registration_record data = Ok () \<and>
     (\<exists>g. fuzz_ffi_lengths D L data f = Some (Ok g) \<and> h_agents g = h_agents f \<and> h_agent_states g = h_agent_states f)"
proof -
  have "fuzz_parse_ke1 data = Ok ()" "fuzz_parse_ke2 data = Ok ()" "fuzz_parse_registration_record data = Ok ()"
    using parsers_no_panic by (auto simp: fuzz_parse_ke1_def fuzz_parse_ke2_def fuzz_parse_registration_record_def split: result.splits)
  then show ?thesis using fuzz_ffi_lengths_passes [OF assms] by blast
qed

theorem fuzz_targets_never_fail_witness:
  "fuzz_parse_ke1 [2] = Ok () \<and> (\<exists>g. fuzz_ffi_lengths sample
     \<lparr>fl_data = 1000, fl_agent = 8, fl_state = 16, fl_request_out = 100, fl_agent_box = 24, fl_state_box = 32\<rparr>
     (z3_encode Z2 @ [7, 7]) (agent_heap_new (\<lambda>_. 0) sample_world) = Some (Ok g))"
proof -
  have "fuzz_layout_ok \<lparr>fl_data = 1000, fl_agent = 8, fl_state = 16, fl_request_out = 100, fl_agent_box = 24, fl_state_box = 32\<rparr>
      (agent_heap_new (\<lambda>_. 0) sample_world)"
    by (simp add: fuzz_layout_ok_def agent_heap_new_def ranges_overlap_def checked_add_def)
  from fuzz_targets_never_fail [OF sample_laws this] show ?thesis by blast
qed

end
