(* ===== verification/Agent_Interface_Tests.thy ===== *)
theory Agent_Interface_Tests
  imports Phase_Matrix Test_Disposals Fuzz_Targets
begin

text \<open>
  The unit tests of \<^verbatim>\<open>agent_ffi.rs\<close> as programs over the model of the C interface. A test ends
  with \<open>Ok\<close> and the heap it leaves, with \<open>Panic\<close> if an assertion fails or a call is outside its
  contract, or with \<open>Err ()\<close> if a step of its preparation asked for randomness and got none. The
  addresses of a test's variables and of the boxes the allocator returns are arguments. A call
  with no point armed is the call of the release.
\<close>

section \<open>Assertions\<close>

definition check :: "bool \<Rightarrow> ('a, unit) result \<Rightarrow> ('a, unit) result" where
  "check b k = (if b then k else Panic)"

definition set_up :: "bool \<Rightarrow> ('a, unit) result \<Rightarrow> ('a, unit) result" where
  "set_up b k = (if b then k else Err ())"

definition called :: "(int \<times> 'f) option \<Rightarrow> (int \<Rightarrow> 'f \<Rightarrow> ('a, unit) result) \<Rightarrow> ('a, unit) result" where
  "called c k = (case c of None \<Rightarrow> Panic | Some (rc, f) \<Rightarrow> k rc f)"

definition dropped :: "'f option \<Rightarrow> ('f \<Rightarrow> ('a, unit) result) \<Rightarrow> ('a, unit) result" where
  "dropped c k = (case c of None \<Rightarrow> Panic | Some f \<Rightarrow> k f)"

lemma test_steps [simp]:
  "check True k = k" "set_up True k = k" "set_up False k = Err ()" "called (Some (rc, f)) body = body rc f" "dropped (Some f) rest = rest f"
  by (simp_all add: check_def set_up_def called_def dropped_def)

section \<open>The test data\<close>

definition TEST_PASSWORD :: bytes where
  "TEST_PASSWORD = ascii ''correct horse battery staple''"

definition TEST_ACCOUNT_ID :: bytes where
  "TEST_ACCOUNT_ID = ascii ''alice@example.com''"

lemma test_data_lengths [simp]: "length TEST_PASSWORD = 28" "length TEST_ACCOUNT_ID = 17"
  by (simp_all add: TEST_PASSWORD_def TEST_ACCOUNT_ID_def)

record agent_layout =
  tl_agent :: addr
  tl_state :: addr
  tl_key :: addr
  tl_password :: addr
  tl_account :: addr
  tl_input :: addr
  tl_output :: addr
  tl_second :: addr
  tl_agent_box :: addr
  tl_state_box :: addr

text \<open>Every variable is a range of its own; the two pointers come first.\<close>

definition agent_buffers :: "agent_layout \<Rightarrow> (addr \<times> nat) list" where
  "agent_buffers L = [(tl_agent L, 8), (tl_state L, 8), (tl_key L, PUBLIC_KEY_LENGTH), (tl_password L, length TEST_PASSWORD),
     (tl_account L, length TEST_ACCOUNT_ID), (tl_input L, KE2_LENGTH), (tl_output L, KE2_LENGTH), (tl_second L, EXPORT_KEY_LENGTH)]"

definition apart :: "addr \<times> nat \<Rightarrow> addr \<times> nat \<Rightarrow> bool" where
  "apart = (\<lambda>(p, n) (q, k). \<not> ranges_overlap p (of_nat n) q (of_nat k))"

definition agent_layout_ok :: "agent_layout \<Rightarrow> agent_heap \<Rightarrow> bool" where
  "agent_layout_ok L f \<longleftrightarrow> (\<forall>(p, n) \<in> set (agent_buffers L). p \<noteq> 0) \<and> sorted_wrt apart (agent_buffers L) \<and>
     tl_agent_box L \<noteq> 0 \<and> tl_state_box L \<noteq> 0 \<and> h_agents f (tl_agent_box L) = None \<and> h_agent_states f (tl_state_box L) = None"

section \<open>The tests\<close>

definition create_agent_and_state ::
  "('s, 'p, 'ek, 'dk) deps \<Rightarrow> agent_layout \<Rightarrow> agent_heap \<Rightarrow> (addr \<times> addr \<times> agent_heap, unit) result" where
  "create_agent_and_state D L f =
     (case OpaqueResponder_generate D (h_world f) of
        (Err _, _) \<Rightarrow> Err ()
      | (Panic, _) \<Rightarrow> Panic
      | (Ok responder, w) \<Rightarrow>
          let public_key = kp_public_key (or_keypair responder);
              f = f\<lparr>h_world := w, h_mem := write_ptr (write_bytes (h_mem f) (tl_key L) public_key) (tl_agent L) 0\<rparr> in
          called (opaque_agent_create D (tl_key L) (of_nat (length public_key)) (tl_agent L) (tl_agent_box L) f) (\<lambda>rc f.
          check (rc = 0)
          (let f = f\<lparr>h_mem := write_ptr (h_mem f) (tl_state L) 0\<rparr> in
          called (opaque_agent_state_create (tl_state L) (tl_state_box L) f) (\<lambda>rc f.
          check (rc = 0)
          (Ok (read_ptr (h_mem f) (tl_agent L), read_ptr (h_mem f) (tl_state L), f))))))"

text \<open>The last lines of most tests.\<close>

definition destroy_agent_and_state :: "('s, 'p, 'ek, 'dk) deps \<Rightarrow> agent_layout \<Rightarrow> agent_heap \<Rightarrow> (agent_heap, unit) result" where
  "destroy_agent_and_state D L f =
     dropped (opaque_agent_state_destroy D (tl_state L) f) (\<lambda>f. dropped (opaque_agent_destroy D (tl_agent L) f) Ok)"

definition constructor_failure_nulls_non_null_sentinel ::
  "('s, 'p, 'ek, 'dk) deps \<Rightarrow> agent_layout \<Rightarrow> agent_heap \<Rightarrow> (agent_heap, unit) result" where
  "constructor_failure_nulls_non_null_sentinel D L f =
     (let f = f\<lparr>h_mem := write_ptr (write_bytes (h_mem f) (tl_key L) (zeros PUBLIC_KEY_LENGTH)) (tl_agent L) 1\<rparr> in
      called (opaque_agent_create D (tl_key L) (of_nat PUBLIC_KEY_LENGTH) (tl_agent L) (tl_agent_box L) f) (\<lambda>rc f.
      check (rc \<noteq> 0)
      (check (read_ptr (h_mem f) (tl_agent L) = 0) (Ok f))))"

definition constructor_panic_leaves_out_slot_null ::
  "('s, 'p, 'ek, 'dk) deps \<Rightarrow> agent_layout \<Rightarrow> agent_heap \<Rightarrow> (agent_heap, unit) result" where
  "constructor_panic_leaves_out_slot_null D L f =
     (case OpaqueResponder_generate D (h_world f) of
        (Err _, _) \<Rightarrow> Err ()
      | (Panic, _) \<Rightarrow> Panic
      | (Ok responder, w) \<Rightarrow>
          let public_key = kp_public_key (or_keypair responder);
              f = f\<lparr>h_world := w, h_mem := write_ptr (write_bytes (h_mem f) (tl_key L) public_key) (tl_agent L) 1\<rparr>;
              slot = set_ffi_panic_point (Some ''agent_create_before_publish'') None in
          called (opaque_agent_create_test D slot (tl_key L) (of_nat (length public_key)) (tl_agent L) (tl_agent_box L) f) (\<lambda>rc f.
          check (rc = FFI_PANIC)
          (check (read_ptr (h_mem f) (tl_agent L) = 0) (Ok f))))"

definition state_constructor_panic_leaves_out_slot_null ::
  "('s, 'p, 'ek, 'dk) deps \<Rightarrow> agent_layout \<Rightarrow> agent_heap \<Rightarrow> (agent_heap, unit) result" where
  "state_constructor_panic_leaves_out_slot_null D L f =
     (let f = f\<lparr>h_mem := write_ptr (h_mem f) (tl_state L) 1\<rparr>;
          slot = set_ffi_panic_point (Some ''agent_state_create_before_publish'') None in
      called (opaque_agent_state_create_test D slot (tl_state L) (tl_state_box L) f) (\<lambda>rc f.
      check (rc = FFI_PANIC)
      (check (read_ptr (h_mem f) (tl_state L) = 0) (Ok f))))"

text \<open>The store a test makes to the flag of a handle it owns.\<close>

definition store_in_use :: "addr \<Rightarrow> bool \<Rightarrow> agent_heap \<Rightarrow> agent_heap" where
  "store_in_use agent b f = f\<lparr>h_agents := (h_agents f)(agent := map_option (\<lambda>ah. ah\<lparr>ah_in_use := b\<rparr>) (h_agents f agent))\<rparr>"

text \<open>The statics of the tests, as every test that has a session finds them in memory.\<close>

definition with_session ::
  "('s, 'p, 'ek, 'dk) deps \<Rightarrow> agent_layout \<Rightarrow> (addr \<Rightarrow> addr \<Rightarrow> agent_heap \<Rightarrow> (agent_heap, unit) result) \<Rightarrow> agent_heap
     \<Rightarrow> (agent_heap, unit) result" where
  "with_session D L body f =
     and_then (create_agent_and_state D L
       (f\<lparr>h_mem := write_bytes (write_bytes (h_mem f) (tl_password L) TEST_PASSWORD) (tl_account L) TEST_ACCOUNT_ID\<rparr>))
       (\<lambda>(agent, state, f). body agent state f)"

definition test_ke1_call ::
  "('s, 'p, 'ek, 'dk) deps \<Rightarrow> agent_layout \<Rightarrow> addr \<Rightarrow> addr \<Rightarrow> addr \<Rightarrow> agent_heap \<Rightarrow> (int \<times> agent_heap) option" where
  "test_ke1_call D L agent state out =
     opaque_agent_generate_ke1 D agent (tl_password L) (of_nat (length TEST_PASSWORD)) (tl_account L) (of_nat (length TEST_ACCOUNT_ID))
       state out (of_nat KE1_LENGTH)"

definition null_and_busy_handles_have_distinct_status_codes ::
  "('s, 'p, 'ek, 'dk) deps \<Rightarrow> agent_layout \<Rightarrow> agent_heap \<Rightarrow> (agent_heap, unit) result" where
  "null_and_busy_handles_have_distinct_status_codes D L = with_session D L (\<lambda>agent state f.
     let f = f\<lparr>h_mem := write_bytes (h_mem f) (tl_output L) (zeros KE1_LENGTH)\<rparr> in
     called (test_ke1_call D L agent state (tl_output L) (store_in_use agent True f)) (\<lambda>busy_rc f.
     called (test_ke1_call D L 0 state (tl_output L) (store_in_use agent False f)) (\<lambda>null_rc f.
     check (busy_rc = FFI_BUSY)
     (check (null_rc = to_c_int InvalidInput) (destroy_agent_and_state D L f)))))"

definition detected_overlap_is_rejected_before_state_admission ::
  "('s, 'p, 'ek, 'dk) deps \<Rightarrow> agent_layout \<Rightarrow> agent_heap \<Rightarrow> (agent_heap, unit) result" where
  "detected_overlap_is_rejected_before_state_admission D L = with_session D L (\<lambda>agent state f.
     let f = f\<lparr>h_mem := write_bytes (h_mem f) (tl_output L) (replicate KE1_LENGTH 0xA5)\<rparr> in
     called (opaque_agent_generate_ke1 D agent (tl_output L) 16 (tl_account L) (of_nat (length TEST_ACCOUNT_ID)) state
               (tl_output L) (of_nat KE1_LENGTH) f) (\<lambda>rc f.
     check (rc = to_c_int InvalidInput)
     (check (\<forall>byte \<in> set (read_bytes (h_mem f) (tl_output L) KE1_LENGTH). byte = 0xA5)
     (check (map_option (i_phase \<circ> as_state) (h_agent_states f state) = Some ICreated)
     (destroy_agent_and_state D L f)))))"

definition larger_output_capacity_preserves_uncommitted_suffix ::
  "('s, 'p, 'ek, 'dk) deps \<Rightarrow> agent_layout \<Rightarrow> agent_heap \<Rightarrow> (agent_heap, unit) result" where
  "larger_output_capacity_preserves_uncommitted_suffix D L = with_session D L (\<lambda>agent state f.
     let n = REGISTRATION_REQUEST_WIRE_LENGTH + 16;
         f = f\<lparr>h_mem := write_bytes (h_mem f) (tl_output L) (replicate n 0xA5)\<rparr> in
     called (opaque_agent_create_registration_request D agent (tl_password L) (of_nat (length TEST_PASSWORD)) state
               (tl_output L) (of_nat n) f) (\<lambda>rc f.
     set_up (rc = 0)
     (let out = read_bytes (h_mem f) (tl_output L) n in
     check (\<exists>byte \<in> set (take REGISTRATION_REQUEST_WIRE_LENGTH out). byte \<noteq> 0xA5)
     (check (\<forall>byte \<in> set (drop REGISTRATION_REQUEST_WIRE_LENGTH out). byte = 0xA5)
     (destroy_agent_and_state D L f)))))"

definition overlapping_finish_outputs_are_rejected_before_state_admission ::
  "('s, 'p, 'ek, 'dk) deps \<Rightarrow> agent_layout \<Rightarrow> agent_heap \<Rightarrow> (agent_heap, unit) result" where
  "overlapping_finish_outputs_are_rejected_before_state_admission D L = with_session D L (\<lambda>agent state f.
     let f = f\<lparr>h_mem := write_bytes (h_mem f) (tl_output L) (replicate HASH_LENGTH 0xA5)\<rparr> in
     called (opaque_agent_finish D agent state (tl_output L) (of_nat HASH_LENGTH) (tl_output L) (of_nat EXPORT_KEY_LENGTH) f) (\<lambda>rc f.
     check (rc = to_c_int InvalidInput)
     (check (\<forall>byte \<in> set (read_bytes (h_mem f) (tl_output L) HASH_LENGTH). byte = 0xA5)
     (check (map_option (i_phase \<circ> as_state) (h_agent_states f state) = Some ICreated)
     (destroy_agent_and_state D L f)))))"

definition admitted_error_terminalizes_state_and_preserves_output ::
  "('s, 'p, 'ek, 'dk) deps \<Rightarrow> agent_layout \<Rightarrow> agent_heap \<Rightarrow> (agent_heap, unit) result" where
  "admitted_error_terminalizes_state_and_preserves_output D L = with_session D L (\<lambda>agent state f.
     let f = f\<lparr>h_mem := write_bytes (h_mem f) (tl_input L) (zeros KE1_LENGTH)\<rparr> in
     called (test_ke1_call D L agent state (tl_input L) f) (\<lambda>rc f.
     set_up (rc = 0)
     (let f = f\<lparr>h_mem := write_bytes (h_mem f) (tl_output L) (replicate KE1_LENGTH 0xA5)\<rparr> in
     called (test_ke1_call D L agent state (tl_output L) f) (\<lambda>rc f.
     check (rc = to_c_int ValidationError)
     (check (\<forall>byte \<in> set (read_bytes (h_mem f) (tl_output L) KE1_LENGTH). byte = 0xA5)
     (check (case h_agent_states f state of None \<Rightarrow> False | Some sh \<Rightarrow> i_phase (as_state sh) = IFinished \<and>
          is_all_zero D (i_ephemeral_private_key (as_state sh)) \<and> is_all_zero D (i_pq_secret_key (as_state sh)))
     (destroy_agent_and_state D L f)))))))"

text \<open>
  One cell of the matrix; the arguments of the call in its column are all acceptable. The two
  zero arrays the source passes in are the beginning of one range.
\<close>

fun cell_request :: "agent_layout \<Rightarrow> AgentStatefulOperation \<Rightarrow> agent_request" where
  "cell_request L OpRegistrationRequest =
     RequestRegistration (tl_password L) (of_nat (length TEST_PASSWORD)) (tl_output L) (of_nat KE2_LENGTH)"
| "cell_request L OpFinalizeRegistration =
     FinalizeRegistration (tl_input L) (of_nat REGISTRATION_RESPONSE_WIRE_LENGTH) (tl_output L) (of_nat KE2_LENGTH)"
| "cell_request L OpGenerateKe1 = RequestKe1 (tl_password L) (of_nat (length TEST_PASSWORD)) (tl_account L) (of_nat (length TEST_ACCOUNT_ID))
     (tl_output L) (of_nat KE2_LENGTH)"
| "cell_request L OpGenerateKe3 = RequestKe3 (tl_input L) (of_nat KE2_LENGTH) (tl_output L) (of_nat KE2_LENGTH)"
| "cell_request L OpFinish = RequestFinish (tl_output L) (of_nat KE2_LENGTH) (tl_second L) (of_nat EXPORT_KEY_LENGTH)"

definition matrix_cell ::
  "('s, 'p, 'ek, 'dk) deps \<Rightarrow> agent_layout \<Rightarrow> InitiatorPhase \<Rightarrow> AgentStatefulOperation \<Rightarrow> agent_heap \<Rightarrow> (agent_heap, unit) result" where
  "matrix_cell D L phase operation = with_session D L (\<lambda>agent state f.
     let f = f\<lparr>h_agent_states := (h_agent_states f)(state := map_option (\<lambda>sh. sh\<lparr>as_state := (as_state sh)\<lparr>i_phase := phase\<rparr>,
                 as_ke3_exported := operation = OpFinish\<rparr>) (h_agent_states f state)),
               h_mem := write_bytes (write_bytes (write_bytes (h_mem f) (tl_input L) (zeros KE2_LENGTH))
                 (tl_output L) (replicate KE2_LENGTH 0xA5)) (tl_second L) (replicate EXPORT_KEY_LENGTH 0xA5)\<rparr> in
     called (agent_function D (cell_request L operation) agent state f) (\<lambda>rc f.
     check (rc = to_c_int ValidationError)
     (check (\<forall>byte \<in> set (read_bytes (h_mem f) (tl_output L) KE2_LENGTH). byte = 0xA5)
     (check (\<forall>byte \<in> set (read_bytes (h_mem f) (tl_second L) EXPORT_KEY_LENGTH). byte = 0xA5)
     (check (map_option (i_phase \<circ> as_state) (h_agent_states f state) = Some IFinished)
     (destroy_agent_and_state D L f))))))"

fun matrix_loop ::
  "('s, 'p, 'ek, 'dk) deps \<Rightarrow> agent_layout \<Rightarrow> (InitiatorPhase \<times> AgentStatefulOperation) list \<Rightarrow> nat \<Rightarrow> agent_heap
     \<Rightarrow> (agent_heap, unit) result" where
  "matrix_loop D L [] executed f = check (executed = 25) (Ok f)"
| "matrix_loop D L ((phase, operation) # cells) executed f =
     (if is_legal_agent_cell phase operation then matrix_loop D L cells executed f
      else and_then (matrix_cell D L phase operation f) (matrix_loop D L cells (Suc executed)))"

definition invalid_agent_operation_state_matrix_terminalizes_without_commit ::
  "('s, 'p, 'ek, 'dk) deps \<Rightarrow> agent_layout \<Rightarrow> agent_heap \<Rightarrow> (agent_heap, unit) result" where
  "invalid_agent_operation_state_matrix_terminalizes_without_commit D L =
     matrix_loop D L [(phase, operation).
       phase \<leftarrow> [ICreated, RegistrationRequested, RegistrationFinalized, Ke1Generated, Ke3Generated, IFinished],
       operation \<leftarrow> [OpRegistrationRequest, OpFinalizeRegistration, OpGenerateKe1, OpGenerateKe3, OpFinish]] 0"

section \<open>Layouts\<close>

lemma ranges_overlap_sym: "ranges_overlap p n q k \<longleftrightarrow> ranges_overlap q k p n"
  by (auto simp: ranges_overlap_def split: option.splits)

lemma ranges_overlap_shorter:
  assumes "\<not> ranges_overlap p n q k" "unat n' \<le> unat n" "unat k' \<le> unat k"
  shows "\<not> ranges_overlap p n' q k'"
proof (cases "n' = 0 \<or> k' = 0")
  case True
  then show ?thesis by (auto simp: ranges_overlap_def)
next
  case False
  then have "n \<noteq> 0" "k \<noteq> 0" using assms(2,3) by (auto simp: unat_eq_zero)
  then show ?thesis using assms ranges_overlap_nat [of n k p q] ranges_overlap_nat [of n' k' p q] False by linarith
qed

lemma agent_layout_apart:
  assumes "agent_layout_ok L f"
  shows "tl_agent L \<noteq> 0" "tl_state L \<noteq> 0" "tl_key L \<noteq> 0" "tl_password L \<noteq> 0" "tl_account L \<noteq> 0" "tl_input L \<noteq> 0"
    "tl_output L \<noteq> 0" "tl_second L \<noteq> 0" "tl_agent_box L \<noteq> 0" "tl_state_box L \<noteq> 0" "h_agents f (tl_agent_box L) = None"
    "h_agent_states f (tl_state_box L) = None"
  and "\<not> ranges_overlap (tl_agent L) 8 (tl_state L) 8" "\<not> ranges_overlap (tl_agent L) 8 (tl_key L) 32"
    "\<not> ranges_overlap (tl_agent L) 8 (tl_input L) 1377" "\<not> ranges_overlap (tl_state L) 8 (tl_input L) 1377"
    "\<not> ranges_overlap (tl_agent L) 8 (tl_output L) 1377" "\<not> ranges_overlap (tl_state L) 8 (tl_output L) 1377"
    "\<not> ranges_overlap (tl_agent L) 8 (tl_second L) 32" "\<not> ranges_overlap (tl_state L) 8 (tl_second L) 32"
    "\<not> ranges_overlap (tl_password L) 28 (tl_output L) 1377" "\<not> ranges_overlap (tl_account L) 17 (tl_output L) 1377"
    "\<not> ranges_overlap (tl_password L) 28 (tl_input L) 1377" "\<not> ranges_overlap (tl_account L) 17 (tl_input L) 1377"
    "\<not> ranges_overlap (tl_input L) 1377 (tl_output L) 1377" "\<not> ranges_overlap (tl_output L) 1377 (tl_second L) 32"
  using assms by (simp_all add: agent_layout_ok_def agent_buffers_def apart_def)

lemma agent_slots_apart:
  assumes "agent_layout_ok L f"
  shows "window (tl_agent L) 8 \<inter> window (tl_state L) 8 = {}"
    "n \<le> 1377 \<Longrightarrow> window (tl_agent L) 8 \<inter> window (tl_output L) n = {}" "n \<le> 1377 \<Longrightarrow> window (tl_state L) 8 \<inter> window (tl_output L) n = {}"
    "n \<le> 1377 \<Longrightarrow> window (tl_agent L) 8 \<inter> window (tl_input L) n = {}" "n \<le> 1377 \<Longrightarrow> window (tl_state L) 8 \<inter> window (tl_input L) n = {}"
    "window (tl_agent L) 8 \<inter> window (tl_second L) 32 = {}" "window (tl_state L) 8 \<inter> window (tl_second L) 32 = {}"
    "window (tl_output L) 1377 \<inter> window (tl_second L) 32 = {}"
proof -
  note apart = agent_layout_apart [OF assms]
  show "window (tl_agent L) 8 \<inter> window (tl_state L) 8 = {}"
    "window (tl_agent L) 8 \<inter> window (tl_second L) 32 = {}" "window (tl_state L) 8 \<inter> window (tl_second L) 32 = {}"
    "window (tl_output L) 1377 \<inter> window (tl_second L) 32 = {}"
    using apart disjoint_windows [of _ 8 _ 8] disjoint_windows [of _ 8 _ 32] disjoint_windows [of _ 1377 _ 32] by simp_all
  have shorter: "window p n \<subseteq> window p 1377" if "n \<le> 1377" for p n using that by (auto simp: window_def)
  have "window (tl_agent L) 8 \<inter> window (tl_output L) 1377 = {}" "window (tl_state L) 8 \<inter> window (tl_output L) 1377 = {}"
    "window (tl_agent L) 8 \<inter> window (tl_input L) 1377 = {}" "window (tl_state L) 8 \<inter> window (tl_input L) 1377 = {}"
    using apart disjoint_windows [of _ 8 _ 1377] by simp_all
  then show "n \<le> 1377 \<Longrightarrow> window (tl_agent L) 8 \<inter> window (tl_output L) n = {}"
    "n \<le> 1377 \<Longrightarrow> window (tl_state L) 8 \<inter> window (tl_output L) n = {}"
    "n \<le> 1377 \<Longrightarrow> window (tl_agent L) 8 \<inter> window (tl_input L) n = {}"
    "n \<le> 1377 \<Longrightarrow> window (tl_state L) 8 \<inter> window (tl_input L) n = {}"
    using shorter by blast+
qed

lemma agent_layout_ok_cong: "h_agents g = h_agents f \<Longrightarrow> h_agent_states g = h_agent_states f \<Longrightarrow> agent_layout_ok L g = agent_layout_ok L f"
  by (simp add: agent_layout_ok_def)

section \<open>The fixture\<close>

text \<open>The heap of a test that has its two handles and no call under way.\<close>

definition agent_fixture :: "agent_layout \<Rightarrow> agent_heap \<Rightarrow> AgentStateHandle \<Rightarrow> agent_heap \<Rightarrow> bool" where
  "agent_fixture L f sh g \<longleftrightarrow> (\<exists>ah. h_agents g = (h_agents f)(tl_agent_box L \<mapsto> ah) \<and> \<not> ah_in_use ah) \<and>
     h_agent_states g = (h_agent_states f)(tl_state_box L \<mapsto> sh) \<and> \<not> as_in_use sh \<and>
     read_ptr (h_mem g) (tl_agent L) = tl_agent_box L \<and> read_ptr (h_mem g) (tl_state L) = tl_state_box L"

text \<open>How a test may end: not with a failed assertion, and with no handle left behind.\<close>

definition test_passes :: "agent_heap \<Rightarrow> (agent_heap, unit) result \<Rightarrow> bool" where
  "test_passes f r = (case r of Ok g \<Rightarrow> h_agents g = h_agents f \<and> h_agent_states g = h_agent_states f | Err _ \<Rightarrow> True | Panic \<Rightarrow> False)"

lemma test_passes_Err [simp]: "test_passes f (Err e)"
  by (simp add: test_passes_def)

lemma test_passes_Ok: "test_passes f r \<Longrightarrow> r \<noteq> Err () \<Longrightarrow> \<exists>g. r = Ok g"
  by (cases r) (simp_all add: test_passes_def)

lemma destroy_fixture:
  assumes L: "agent_layout_ok L f" and g: "agent_fixture L f sh g"
  shows "test_passes f (destroy_agent_and_state D L g)"
proof -
  note apart = agent_layout_apart [OF L] agent_slots_apart [OF L]
  obtain ah where ah: "h_agents g = (h_agents f)(tl_agent_box L \<mapsto> ah)" "\<not> ah_in_use ah" using g by (auto simp: agent_fixture_def)
  have sh: "h_agent_states g = (h_agent_states f)(tl_state_box L \<mapsto> sh)" "\<not> as_in_use sh"
    and slots: "read_ptr (h_mem g) (tl_agent L) = tl_agent_box L" "read_ptr (h_mem g) (tl_state L) = tl_state_box L"
    using g by (simp_all add: agent_fixture_def)
  obtain h where state: "opaque_agent_state_destroy D (tl_state L) g = Some h" "h_agents h = h_agents g"
    "h_agent_states h = (h_agent_states g)(tl_state_box L := None)" "h_mem h = write_ptr (h_mem g) (tl_state L) 0"
    using apart sh slots by (simp add: opaque_agent_state_destroy_def opaque_agent_state_try_destroy_def)
  have "read_ptr (h_mem h) (tl_agent L) = tl_agent_box L" using state(4) slots apart by (simp add: read_ptr_write_other)
  then show ?thesis using state apart ah sh
    by (simp add: destroy_agent_and_state_def opaque_agent_destroy_def opaque_agent_try_destroy_def test_passes_def fun_upd_idem)
qed

lemma OpaqueResponder_generate_cases:
  assumes "deps_laws D" "OpaqueResponder_generate D w = (r, w')"
  obtains e where "r = Err e" | resp where "r = Ok resp" "keypair_valid D (or_keypair resp)"
proof -
  note laws [simp] = deps_lawsD [OF assms(1)]
  obtain r1 w1 where rnd: "random_nonzero_scalar D w = (r1, w1)" by fastforce
  show thesis
    using laws(6,1) rnd
  proof (cases rule: random_nonzero_scalar_cases)
    case (2 s)
    obtain r2 w2 where seed: "random_bytes OPRF_SEED_LENGTH w1 = (r2, w2)" by fastforce
    then have "r2 \<noteq> Panic"
      by (auto simp: random_bytes_def split: if_splits option.splits prod.splits)
    then show thesis using assms(2) rnd 2 that seed
      by (cases r2) (auto simp: OpaqueResponder_generate_def ResponderKeyPair_generate_def keypair_valid_def
          InMemoryEvaluator_new_def Let_def split: if_splits)
  qed (use assms(2) rnd that in \<open>auto simp: OpaqueResponder_generate_def ResponderKeyPair_generate_def\<close>)
qed

text \<open>The constructor on a valid key, and on the identity.\<close>

lemma create_on_valid_key:
  assumes laws: "deps_laws D" and L: "agent_layout_ok L f0" and key: "keypair_valid D kp"
    and f: "h_mem f = write_ptr (write_bytes m (tl_key L) (kp_public_key kp)) (tl_agent L) p"
  obtains ah where "opaque_agent_create D (tl_key L) (of_nat (length (kp_public_key kp))) (tl_agent L) (tl_agent_box L) f =
      Some (0, f\<lparr>h_agents := (h_agents f)(tl_agent_box L \<mapsto> ah),
        h_mem := write_ptr (write_ptr (h_mem f) (tl_agent L) 0) (tl_agent L) (tl_agent_box L)\<rparr>)" "\<not> ah_in_use ah"
proof -
  note laws' [simp] = deps_lawsD [OF laws]
  note apart = agent_layout_apart [OF L]
  obtain s where s: "s \<noteq> scalar_zero D" "kp_public_key kp = point_compress D (base_mul D s)" using key by (auto simp: keypair_valid_def)
  then have n: "length (kp_public_key kp) = 32" and valid: "OpaqueInitiator_new D (kp_public_key kp) =
      Ok \<lparr>oi_responder_public_key = kp_public_key kp\<rparr>"
    by (simp_all add: OpaqueInitiator_new_def copy_into_whole)
  have "window (tl_key L) 32 \<inter> window (tl_agent L) 8 = {}"
    using disjoint_windows [of "tl_agent L" 8 "tl_key L" 32] apart by auto
  then have "read_bytes (write_ptr (h_mem f) (tl_agent L) 0) (tl_key L) 32 = kp_public_key kp"
    unfolding f using n by (simp add: write_ptr_def read_disjoint_write read_after_write [where bs = "kp_public_key kp", simplified n])
  then show thesis using apart n valid ranges_overlap_sym [of "tl_key L" 32 "tl_agent L" 8]
    by (intro that [of "\<lparr>ah_initiator = \<lparr>oi_responder_public_key = kp_public_key kp\<rparr>, ah_in_use = False\<rparr>"])
      (simp_all add: opaque_agent_create_def Let_def)
qed

lemma create_fixture:
  assumes laws: "deps_laws D" and L: "agent_layout_ok L f" and f': "h_agents f' = h_agents f" "h_agent_states f' = h_agent_states f"
  obtains e where "create_agent_and_state D L f' = Err e"
  | g sh where "create_agent_and_state D L f' = Ok (tl_agent_box L, tl_state_box L, g)" "agent_fixture L f sh g"
      "agent_state_live D sh" "i_phase (as_state sh) = ICreated"
proof -
  note apart = agent_layout_apart [OF L] agent_slots_apart [OF L]
  obtain r w where gen: "OpaqueResponder_generate D (h_world f') = (r, w)" by fastforce
  show thesis
    using laws gen
  proof (cases rule: OpaqueResponder_generate_cases)
    case (1 e)
    then show ?thesis using gen by (intro that(1)) (simp add: create_agent_and_state_def)
  next
    case (2 resp)
    let ?kp = "or_keypair resp"
    define g where "g = f'\<lparr>h_world := w, h_mem := write_ptr (write_bytes (h_mem f') (tl_key L) (kp_public_key ?kp)) (tl_agent L) 0\<rparr>"
    obtain ah where ah: "opaque_agent_create D (tl_key L) (of_nat (length (kp_public_key ?kp))) (tl_agent L) (tl_agent_box L) g =
        Some (0, g\<lparr>h_agents := (h_agents g)(tl_agent_box L \<mapsto> ah),
          h_mem := write_ptr (write_ptr (h_mem g) (tl_agent L) 0) (tl_agent L) (tl_agent_box L)\<rparr>)" "\<not> ah_in_use ah"
      by (rule create_on_valid_key [OF laws L 2(2), of g "h_mem f'" 0]) (simp_all add: g_def)
    obtain st w' where st: "InitiatorState_new w = (st, w')" by fastforce
    let ?sh = "\<lparr>as_state = st, as_ke3_exported = False, as_in_use = False\<rparr>"
    define m where "m = write_ptr (write_ptr (write_ptr (write_ptr (write_ptr (h_mem g) (tl_agent L) 0) (tl_agent L) (tl_agent_box L))
      (tl_state L) 0) (tl_state L) 0) (tl_state L) (tl_state_box L)"
    define h where "h = g\<lparr>h_agents := (h_agents g)(tl_agent_box L \<mapsto> ah), h_world := w',
      h_agent_states := (h_agent_states g)(tl_state_box L \<mapsto> ?sh), h_mem := m\<rparr>"
    have slots: "read_ptr m (tl_agent L) = tl_agent_box L" "read_ptr m (tl_state L) = tl_state_box L"
      using apart by (simp_all add: m_def read_ptr_write_other)
    have "create_agent_and_state D L f' = Ok (tl_agent_box L, tl_state_box L, h)"
      using 2 gen ah(1) st apart slots
      by (simp add: create_agent_and_state_def Let_def g_def [symmetric] opaque_agent_state_create_def h_def m_def)
         (simp add: g_def)
    moreover have "agent_fixture L f ?sh h" using slots f' ah(2) by (auto simp: agent_fixture_def h_def g_def)
    ultimately show ?thesis using new_session_live [OF st] InitiatorState_new_props(2) [of w] st by (intro that(2) [of h ?sh]) simp_all
  qed
qed

lemma with_session_passes:
  assumes "deps_laws D" "agent_layout_ok L f"
    and "\<And>g sh. agent_fixture L f sh g \<Longrightarrow> agent_state_live D sh \<Longrightarrow> i_phase (as_state sh) = ICreated \<Longrightarrow>
      test_passes f (body (tl_agent_box L) (tl_state_box L) g)"
  shows "test_passes f (with_session D L body f)"
proof -
  let ?f = "f\<lparr>h_mem := write_bytes (write_bytes (h_mem f) (tl_password L) TEST_PASSWORD) (tl_account L) TEST_ACCOUNT_ID\<rparr>"
  have "h_agents ?f = h_agents f" "h_agent_states ?f = h_agent_states f" by simp_all
  with assms(1,2) show ?thesis
  proof (cases rule: create_fixture)
    case 2
    then show ?thesis using assms(3) by (simp add: with_session_def)
  qed (simp add: with_session_def)
qed

text \<open>A call on the fixture keeps it, and writes at most its output.\<close>

lemma fixture_write:
  assumes "agent_fixture L f sh g" "window (tl_agent L) 8 \<inter> window p (length bs) = {}" "window (tl_state L) 8 \<inter> window p (length bs) = {}"
  shows "agent_fixture L f sh (g\<lparr>h_mem := write_bytes (h_mem g) p bs\<rparr>)"
  using assms by (simp add: agent_fixture_def read_ptr_other)

lemma fixture_call:
  assumes laws: "deps_laws D" and L: "agent_layout_ok L f" and g: "agent_fixture L f sh g" "agent_state_inv sh"
    and call: "agent_function D req (tl_agent_box L) (tl_state_box L) g = Some (c, h)"
    and api: "agent_session_call D (tl_agent_box L) (tl_state_box L) A g c h"
    and out: "window (tl_agent L) 8 \<inter> A = {}" "window (tl_state L) 8 \<inter> A = {}"
  obtains sh' where "agent_fixture L f sh' h" "agent_state_inv sh'" "c \<noteq> 0 \<Longrightarrow> h_mem h = h_mem g"
    "\<And>x. x \<notin> A \<Longrightarrow> h_mem h x = h_mem g x"
proof -
  have states: "h_agent_states g = (h_agent_states f)(tl_state_box L \<mapsto> sh)" using g by (simp add: agent_fixture_def)
  have "agent_outcome D (tl_state_box L) A g c h" by (rule agent_session_call_outcome [OF laws api])
  then have "c \<noteq> 0 \<and> h = g \<or> agent_call_effect D (tl_state_box L) A sh g c h"
    using finished_call_effect [OF laws g(2)] states by (auto simp: agent_outcome_def)
  then consider (same) "c \<noteq> 0" "h = g" | (ran) sh' m w where
    "h = g\<lparr>h_agent_states := (h_agent_states g)(tl_state_box L \<mapsto> sh'), h_mem := m, h_world := w\<rparr>"
    "agent_state_inv sh'" "\<not> as_in_use sh'" "c \<noteq> 0 \<Longrightarrow> m = h_mem g" "\<And>x. x \<notin> A \<Longrightarrow> m x = h_mem g x"
    by (auto simp: agent_call_effect_def)
  then show thesis
  proof cases
    case same
    then show thesis using that g by blast
  next
    case (ran sh' m w)
    have "read_ptr m (tl_agent L) = tl_agent_box L" "read_ptr m (tl_state L) = tl_state_box L"
      using read_ptr_frame [OF ran(5)] out g(1) by (simp_all add: agent_fixture_def)
    then have "agent_fixture L f sh' h" using ran(1,3) g(1) states by (auto simp: agent_fixture_def)
    with that [of sh'] ran show thesis by simp
  qed
qed

text \<open>A call on the fixture has an outcome.\<close>

lemma fixture_call_runs:
  assumes "agent_layout_ok L f" "agent_fixture L f sh g"
  obtains c h where "agent_function D req (tl_agent_box L) (tl_state_box L) g = Some (c, h)"
proof -
  have "agent_function D req (tl_agent_box L) (tl_state_box L) g \<noteq> None"
    using assms agent_layout_apart(9,10) [OF assms(1)] by (auto simp: agent_function_eq agent_call_eq agent_fixture_def split: option.split)
  then show thesis using that by auto
qed

section \<open>The tests pass\<close>

lemma sentinel_kept:
  assumes "h_mem h = write_bytes m p (replicate n 0xA5)" "n < 2 ^ 64"
  shows "\<forall>byte \<in> set (read_bytes (h_mem h) p n). byte = 0xA5"
  using assms read_after_write [of "replicate n 0xA5" m p] by simp

lemma constructor_tests_pass:
  assumes laws: "deps_laws D" and L: "agent_layout_ok L f"
  shows "test_passes f (constructor_failure_nulls_non_null_sentinel D L f)"
    "test_passes f (constructor_panic_leaves_out_slot_null D L f)"
    "test_passes f (state_constructor_panic_leaves_out_slot_null D L f)"
proof -
  note laws' [simp] = deps_lawsD [OF laws]
  note apart = agent_layout_apart [OF L] agent_slots_apart [OF L]
  have overlap: "\<not> ranges_overlap (tl_key L) 32 (tl_agent L) 8" using apart by (simp add: ranges_overlap_sym)
  have keys: "window (tl_key L) 32 \<inter> window (tl_agent L) 8 = {}" using disjoint_windows [of "tl_key L" 32 "tl_agent L" 8] overlap by simp
  have "read_bytes (write_ptr (write_ptr (write_bytes (h_mem f) (tl_key L) (zeros 32)) (tl_agent L) 1) (tl_agent L) 0) (tl_key L) 32 = zeros 32"
    using keys read_after_write [of "zeros 32"] by (simp add: write_ptr_def read_disjoint_write)
  moreover have "OpaqueInitiator_new D (zeros 32) = Err InvalidPublicKey"
    by (simp add: OpaqueInitiator_new_def validate_public_key_def decode_non_identity_point_def)
  ultimately show "test_passes f (constructor_failure_nulls_non_null_sentinel D L f)"
    using apart overlap
    by (simp add: constructor_failure_nulls_non_null_sentinel_def opaque_agent_create_def ffi_error_to_int_def test_passes_def)
  obtain h where "opaque_agent_state_create (tl_state L) (tl_state_box L) (f\<lparr>h_mem := write_ptr (h_mem f) (tl_state L) 1\<rparr>) = Some (0, h)"
    using apart by (simp add: opaque_agent_state_create_def case_prod_beta)
  then show "test_passes f (state_constructor_panic_leaves_out_slot_null D L f)"
    using agent_constructors_contained(2) [of "Some ''agent_state_create_before_publish''" "tl_state L"
        "f\<lparr>h_mem := write_ptr (h_mem f) (tl_state L) 1\<rparr>" "tl_state_box L" D]
    by (auto simp: state_constructor_panic_leaves_out_slot_null_def set_ffi_panic_point_def injection_contained_def
        unpublished_agent_def test_passes_def)
  show "test_passes f (constructor_panic_leaves_out_slot_null D L f)"
  proof -
    obtain r w where gen: "OpaqueResponder_generate D (h_world f) = (r, w)" by fastforce
    show ?thesis
      using laws gen
    proof (cases rule: OpaqueResponder_generate_cases)
      case (2 resp)
      let ?kp = "or_keypair resp"
      let ?g = "f\<lparr>h_world := w, h_mem := write_ptr (write_bytes (h_mem f) (tl_key L) (kp_public_key ?kp)) (tl_agent L) 1\<rparr>"
      obtain ah where "opaque_agent_create D (tl_key L) (of_nat (length (kp_public_key ?kp))) (tl_agent L) (tl_agent_box L) ?g =
        Some (0, ?g\<lparr>h_agents := (h_agents ?g)(tl_agent_box L \<mapsto> ah),
          h_mem := write_ptr (write_ptr (h_mem ?g) (tl_agent L) 0) (tl_agent L) (tl_agent_box L)\<rparr>)"
        by (rule create_on_valid_key [OF laws L 2(2), of ?g "h_mem f" 1]) simp_all
      then show ?thesis using gen 2(1) agent_constructors_contained(1) [of "Some ''agent_create_before_publish''" "tl_agent L" ?g D
          "tl_key L" "of_nat (length (kp_public_key ?kp))" "tl_agent_box L"]
        by (auto simp: constructor_panic_leaves_out_slot_null_def set_ffi_panic_point_def injection_contained_def unpublished_agent_def
            test_passes_def Let_def)
    qed (use gen in \<open>simp add: constructor_panic_leaves_out_slot_null_def\<close>)
  qed
qed

lemma sentinel_fixture:
  assumes "agent_layout_ok L f" "agent_fixture L f sh g" "length bs \<le> 1377"
  shows "agent_fixture L f sh (g\<lparr>h_mem := write_bytes (h_mem g) (tl_output L) bs\<rparr>)"
    "agent_fixture L f sh (g\<lparr>h_mem := write_bytes (h_mem g) (tl_input L) bs\<rparr>)"
  using assms agent_slots_apart [OF assms(1)] by (simp_all add: fixture_write)

lemma null_and_busy_passes:
  assumes laws: "deps_laws D" and L: "agent_layout_ok L f"
  shows "test_passes f (null_and_busy_handles_have_distinct_status_codes D L f)"
  unfolding null_and_busy_handles_have_distinct_status_codes_def
proof (rule with_session_passes [OF laws L], goal_cases)
  case (1 g sh)
  note apart = agent_layout_apart [OF L]
  let ?g = "g\<lparr>h_mem := write_bytes (h_mem g) (tl_output L) (zeros KE1_LENGTH)\<rparr>"
  have fix': "agent_fixture L f sh ?g" using sentinel_fixture [OF L 1(1)] by simp
  then obtain ah where ah: "h_agents ?g = (h_agents f)(tl_agent_box L \<mapsto> ah)" "\<not> ah_in_use ah" by (auto simp: agent_fixture_def)
  have "\<not> ranges_overlap (tl_password L) 28 (tl_output L) 1273" "\<not> ranges_overlap (tl_account L) 17 (tl_output L) 1273"
    using ranges_overlap_shorter [of _ _ _ 1377] apart by simp_all
  then have "test_ke1_call D L (tl_agent_box L) s (tl_output L) (store_in_use (tl_agent_box L) True ?g) =
      Some (-100, store_in_use (tl_agent_box L) True ?g)" "test_ke1_call D L 0 s (tl_output L) h = Some (-1, h)" for s h
    using apart ah by (simp_all add: test_ke1_call_def opaque_agent_generate_ke1_def agent_call_eq store_in_use_def MAX_ACCOUNT_ID_LENGTH_def)
  moreover have "store_in_use (tl_agent_box L) False (store_in_use (tl_agent_box L) True ?g) = ?g"
    using ah by (cases g, cases ah) (simp add: store_in_use_def fun_upd_idem)
  ultimately show ?case using destroy_fixture [OF L fix'] by (simp add: FFI_BUSY_def)
qed

lemma overlap_tests_pass:
  assumes laws: "deps_laws D" and L: "agent_layout_ok L f"
  shows "test_passes f (detected_overlap_is_rejected_before_state_admission D L f)"
    "test_passes f (overlapping_finish_outputs_are_rejected_before_state_admission D L f)"
proof -
  note apart = agent_layout_apart [OF L]
  have self: "ranges_overlap p n p k" if "n \<noteq> 0" "k \<noteq> 0" for p n k
    using that ranges_overlap_nat [of n k p p] by (simp add: unat_gt_0)
  show "test_passes f (detected_overlap_is_rejected_before_state_admission D L f)"
    unfolding detected_overlap_is_rejected_before_state_admission_def
  proof (rule with_session_passes [OF laws L], goal_cases)
    case (1 g sh)
    let ?g = "g\<lparr>h_mem := write_bytes (h_mem g) (tl_output L) (replicate KE1_LENGTH 0xA5)\<rparr>"
    have "agent_fixture L f sh ?g" using sentinel_fixture [OF L 1(1)] by simp
    moreover have "opaque_agent_generate_ke1 D a (tl_output L) 16 acc n s (tl_output L) (of_nat KE1_LENGTH) ?g = Some (-1, ?g)" for a acc n s
      using self [of 16 "of_nat KE1_LENGTH" "tl_output L"] by (simp add: opaque_agent_generate_ke1_def)
    moreover have "h_agent_states g (tl_state_box L) = Some sh" using 1(1) by (simp add: agent_fixture_def)
    ultimately show ?case using destroy_fixture [OF L, of sh ?g] 1(3) sentinel_kept [of ?g "h_mem g" "tl_output L" KE1_LENGTH] by simp
  qed
  show "test_passes f (overlapping_finish_outputs_are_rejected_before_state_admission D L f)"
    unfolding overlapping_finish_outputs_are_rejected_before_state_admission_def
  proof (rule with_session_passes [OF laws L], goal_cases)
    case (1 g sh)
    let ?g = "g\<lparr>h_mem := write_bytes (h_mem g) (tl_output L) (replicate HASH_LENGTH 0xA5)\<rparr>"
    have "agent_fixture L f sh ?g" using sentinel_fixture [OF L 1(1)] by simp
    moreover have "opaque_agent_finish D a s (tl_output L) (of_nat HASH_LENGTH) (tl_output L) (of_nat EXPORT_KEY_LENGTH) ?g = Some (-1, ?g)" for a s
      using self [of "of_nat HASH_LENGTH" "of_nat EXPORT_KEY_LENGTH" "tl_output L"] by (simp add: opaque_agent_finish_def)
    moreover have "h_agent_states g (tl_state_box L) = Some sh" using 1(1) by (simp add: agent_fixture_def)
    ultimately show ?case using destroy_fixture [OF L, of sh ?g] 1(3) sentinel_kept [of ?g "h_mem g" "tl_output L" HASH_LENGTH] by simp
  qed
qed

lemma read_bytes_split: "n \<le> k \<Longrightarrow> take n (read_bytes m p k) = read_bytes m p n"
  by (simp add: read_bytes_def take_map)

lemma larger_output_passes:
  assumes laws: "deps_laws D" and L: "agent_layout_ok L f"
  shows "test_passes f (larger_output_capacity_preserves_uncommitted_suffix D L f)"
  unfolding larger_output_capacity_preserves_uncommitted_suffix_def
proof (rule with_session_passes [OF laws L], goal_cases)
  case (1 g sh)
  note apart = agent_layout_apart [OF L] agent_slots_apart [OF L]
  let ?out = "tl_output L"
  let ?g = "g\<lparr>h_mem := write_bytes (h_mem g) ?out (replicate 49 0xA5)\<rparr>"
  have fix': "agent_fixture L f sh ?g" using sentinel_fixture [OF L 1(1)] by simp
  then obtain ah where ah: "h_agents ?g (tl_agent_box L) = Some ah" "\<not> ah_in_use ah" and sh: "h_agent_states ?g (tl_state_box L) = Some sh"
    "\<not> as_in_use sh" by (auto simp: agent_fixture_def)
  have all: "read_bytes (h_mem ?g) ?out 49 = replicate 49 0xA5" using read_after_write [of "replicate 49 0xA5" "h_mem g" ?out] by simp
  then have first: "read_bytes (h_mem ?g) ?out 33 = replicate 33 0xA5" using read_bytes_split [of 33 49 "h_mem ?g" ?out] by simp
  have inv: "agent_state_inv sh" using 1(2) by (simp add: agent_state_live_def)
  obtain c h sh' where call: "opaque_agent_create_registration_request D (tl_agent_box L) (tl_password L) (of_nat (length TEST_PASSWORD))
      (tl_state_box L) ?out (of_nat 49) ?g = Some (c, h)"
    and h: "h_agents h = h_agents ?g" "h_agent_states h = (h_agent_states ?g)(tl_state_box L \<mapsto> sh')" "\<not> as_in_use sh'"
      "\<And>x. x \<notin> window ?out 33 \<Longrightarrow> h_mem h x = h_mem ?g x"
      "if c = 0 then \<exists>b \<in> set (read_bytes (h_mem h) ?out 33). b \<noteq> 0xA5 else \<forall>b \<in> set (read_bytes (h_mem h) ?out 33). b = 0xA5"
    by (rule fuzz_request_call [where key = "tl_password L" and n = "of_nat (length TEST_PASSWORD)" and len = "of_nat 49",
        OF laws ah(1,2) _ sh inv _ first]) (use apart in simp_all)
  have "agent_fixture L f sh' h"
    using fix' h(1-3) read_ptr_frame [OF h(4)] apart by (auto simp: agent_fixture_def)
  note ends = destroy_fixture [OF L this]
  have "\<forall>b \<in> set (drop 33 (read_bytes (h_mem h) ?out 49)). b = 0xA5"
  proof -
    have "read_bytes (h_mem h) ?out 49 ! (33 + i) = 0xA5" if "i < 16" for i
    proof -
      have "unat (of_nat (33 + i) :: addr) = 33 + i" using that by (simp add: unat_of_nat take_bit_nat_eq_self del: of_nat_add)
      then have "?out + of_nat (33 + i) \<notin> window ?out 33" by (simp add: window_def del: of_nat_add)
      then have "h_mem h (?out + of_nat (33 + i)) = h_mem ?g (?out + of_nat (33 + i))" by (rule h(4))
      then have "read_bytes (h_mem h) ?out 49 ! (33 + i) = read_bytes (h_mem ?g) ?out 49 ! (33 + i)"
        using that by (simp add: read_bytes_def del: of_nat_add)
      then show ?thesis using all that by simp
    qed
    then show ?thesis by (auto simp: in_set_conv_nth)
  qed
  then show ?case using call ends h(5) by (cases "c = 0") (auto simp: read_bytes_split check_def)
qed

lemma admitted_error_passes:
  assumes laws: "deps_laws D" and L: "agent_layout_ok L f"
  shows "test_passes f (admitted_error_terminalizes_state_and_preserves_output D L f)"
  unfolding admitted_error_terminalizes_state_and_preserves_output_def
proof (rule with_session_passes [OF laws L], goal_cases)
  case (1 g sh)
  note laws' [simp] = deps_lawsD [OF laws]
  note apart = agent_layout_apart [OF L] agent_slots_apart [OF L]
  let ?g = "g\<lparr>h_mem := write_bytes (h_mem g) (tl_input L) (zeros KE1_LENGTH)\<rparr>"
  have fix': "agent_fixture L f sh ?g" using sentinel_fixture [OF L 1(1)] by simp
  have inv: "agent_state_inv sh" using 1(2) by (simp add: agent_state_live_def)
  let ?req = "\<lambda>out. RequestKe1 (tl_password L) (of_nat (length TEST_PASSWORD)) (tl_account L) (of_nat (length TEST_ACCOUNT_ID)) out (of_nat KE1_LENGTH)"
  have req: "agent_function D (?req out) a s = test_ke1_call D L a s out" for a s out by (simp add: test_ke1_call_def fun_eq_iff)
  obtain c h where call: "agent_function D (?req (tl_input L)) (tl_agent_box L) (tl_state_box L) ?g = Some (c, h)"
    by (rule fixture_call_runs [OF L fix'])
  obtain sh' where h: "agent_fixture L f sh' h" "agent_state_inv sh'"
    by (rule fixture_call [OF laws L fix' inv call call_ke1]) (use call agent_slots_apart(4,5) [OF L, of 1273] in simp_all)
  have again: "i_phase (as_state sh') = Ke1Generated" if zero: "c = 0"
  proof -
    obtain ah where ah: "h_agents ?g (tl_agent_box L) = Some ah" and s: "h_agent_states ?g (tl_state_box L) = Some sh"
      "h_agent_states h (tl_state_box L) = Some sh'" using fix' h(1) by (auto simp: agent_fixture_def)
    have ke1: "opaque_agent_generate_ke1 D (tl_agent_box L) (tl_password L) (of_nat (length TEST_PASSWORD)) (tl_account L) (of_nat (length TEST_ACCOUNT_ID))
      (tl_state_box L) (tl_input L) (of_nat KE1_LENGTH) ?g = Some (0, h)" using call zero by simp
    obtain sh1 ke1 pw aid w1 where "h_agent_states ?g (tl_state_box L) = Some sh1"
      and run: "generate_ke1 D pw aid Ke1Message_new (as_state sh1) (h_world ?g) = (Ok (), ke1, as_state sh', w1)"
      by (rule agent_ke1_zero [OF ke1 ah s(2)]) blast
    then have "sh1 = sh" using s by simp
    moreover have "leaves (generate_ke1 D pw aid Ke1Message_new (as_state sh) (h_world ?g))
        (\<lambda>r (ke1', st', w'). initiator_call ICreated Ke1Generated (as_state sh) r st' \<and> (r = Ok () \<longrightarrow> login_pending D pw aid st' ke1'))"
      by (rule generate_ke1_call [OF laws]) (use inv in \<open>simp_all add: agent_state_inv_def Ke1Message_new_def\<close>)
    ultimately show ?thesis using run by (auto simp: leaves_def initiator_call_def)
  qed
  let ?h = "h\<lparr>h_mem := write_bytes (h_mem h) (tl_output L) (replicate KE1_LENGTH 0xA5)\<rparr>"
  have fix2: "agent_fixture L f sh' ?h" using sentinel_fixture [OF L h(1)] by simp
  then obtain ah where ah: "h_agents ?h (tl_agent_box L) = Some ah" "\<not> ah_in_use ah" and s: "h_agent_states ?h (tl_state_box L) = Some sh'"
    "\<not> as_in_use sh'" by (auto simp: agent_fixture_def)
  have overlap: "\<not> ranges_overlap (tl_password L) 28 (tl_output L) 1273" "\<not> ranges_overlap (tl_account L) 17 (tl_output L) 1273"
    using ranges_overlap_shorter [of _ _ _ 1377] apart by simp_all
  have "test_passes f (called (agent_function D (?req (tl_output L)) (tl_agent_box L) (tl_state_box L) ?h) (\<lambda>rc f.
     check (rc = to_c_int ValidationError)
     (check (\<forall>byte \<in> set (read_bytes (h_mem f) (tl_output L) KE1_LENGTH). byte = 0xA5)
     (check (case h_agent_states f (tl_state_box L) of None \<Rightarrow> False | Some sh \<Rightarrow> i_phase (as_state sh) = IFinished \<and>
          is_all_zero D (i_ephemeral_private_key (as_state sh)) \<and> is_all_zero D (i_pq_secret_key (as_state sh)))
     (destroy_agent_and_state D L f)))))" if zero: "c = 0"
  proof -
    have closure: "agent_closure D (?req (tl_output L)) = Some (\<lambda>_. generate_ke1_op D (tl_password L) (of_nat (length TEST_PASSWORD)) (tl_account L)
        (of_nat (length TEST_ACCOUNT_ID)) (tl_output L))" using overlap apart by (simp add: MAX_ACCOUNT_ID_LENGTH_def)
    obtain k sh2 where k: "agent_function D (?req (tl_output L)) (tl_agent_box L) (tl_state_box L) ?h = Some (to_c_int ValidationError, k)"
      "h_mem k = h_mem ?h" "h_agents k = h_agents ?h" "h_agent_states k = (h_agent_states ?h)(tl_state_box L \<mapsto> sh2)"
      "i_phase (as_state sh2) = IFinished" "initiator_wiped (as_state sh2)" "\<not> as_in_use sh2"
      by (rule client_out_of_order [OF laws closure _ ah _ s]) (use agent_layout_apart(9,10) [OF L] again [OF zero] h(2) in \<open>simp_all add: agent_state_inv_def initiator_inv_wf\<close>)
    have "agent_fixture L f sh2 k" using fix2 k by (auto simp: agent_fixture_def)
    from destroy_fixture [OF L this] show ?thesis
      using k sentinel_kept [of k "h_mem h" "tl_output L" KE1_LENGTH] by (simp add: initiator_wiped_def)
  qed
  then show ?case using call unfolding req by (cases "c = 0") simp_all
qed

text \<open>The matrix: every cell passes, and exactly twenty-five of them are run.\<close>

lemma cell_request_accepted:
  assumes "agent_layout_ok L f"
  shows "\<exists>closure. agent_closure D (cell_request L operation) = Some closure"
proof -
  note apart = agent_layout_apart [OF assms]
  have "\<not> ranges_overlap (tl_password L) 28 (tl_output L) 33" "\<not> ranges_overlap (tl_password L) 28 (tl_output L) 1273"
    "\<not> ranges_overlap (tl_account L) 17 (tl_output L) 1273"
    using ranges_overlap_shorter [OF apart(21)] ranges_overlap_shorter [OF apart(22)] by simp_all
  moreover have "\<not> ranges_overlap (tl_input L) 65 (tl_output L) 201" "\<not> ranges_overlap (tl_input L) 1377 (tl_output L) 65"
    using ranges_overlap_shorter [OF apart(25)] by simp_all
  moreover have "\<not> ranges_overlap (tl_output L) 64 (tl_second L) 32" using ranges_overlap_shorter [OF apart(26)] by simp
  ultimately show ?thesis using apart(4-8) by (cases operation) (simp_all add: MAX_ACCOUNT_ID_LENGTH_def)
qed

lemma operation_of_cell [simp]: "operation_of (cell_request L operation) = operation"
  by (cases operation) simp_all

lemma matrix_cell_passes:
  assumes laws: "deps_laws D" and L: "agent_layout_ok L f" and cell: "\<not> is_legal_agent_cell phase operation"
  shows "test_passes f (matrix_cell D L phase operation f)"
  unfolding matrix_cell_def
proof (rule with_session_passes [OF laws L], goal_cases)
  case (1 g sh)
  note apart = agent_layout_apart [OF L] agent_slots_apart [OF L]
  define sh' where "sh' = sh\<lparr>as_state := (as_state sh)\<lparr>i_phase := phase\<rparr>, as_ke3_exported := operation = OpFinish\<rparr>"
  define m where "m = write_bytes (write_bytes (write_bytes (h_mem g) (tl_input L) (zeros KE2_LENGTH))
     (tl_output L) (replicate KE2_LENGTH 0xA5)) (tl_second L) (replicate EXPORT_KEY_LENGTH 0xA5)"
  let ?g = "g\<lparr>h_agent_states := (h_agent_states g)(tl_state_box L \<mapsto> sh'), h_mem := m\<rparr>"
  have "agent_fixture L f sh (g\<lparr>h_mem := m\<rparr>)"
    using 1(1) apart unfolding m_def agent_fixture_def by (simp add: read_ptr_other)
  then have fix': "agent_fixture L f sh' ?g" using 1(1) by (auto simp: agent_fixture_def sh'_def)
  have set: "(h_agent_states g)(tl_state_box L := map_option (\<lambda>sh. sh\<lparr>as_state := (as_state sh)\<lparr>i_phase := phase\<rparr>,
      as_ke3_exported := operation = OpFinish\<rparr>) (h_agent_states g (tl_state_box L))) = (h_agent_states g)(tl_state_box L \<mapsto> sh')"
    using 1(1) by (simp add: agent_fixture_def sh'_def)
  obtain ah where ah: "h_agents ?g (tl_agent_box L) = Some ah" "\<not> ah_in_use ah" and s: "h_agent_states ?g (tl_state_box L) = Some sh'"
    "\<not> as_in_use sh'" using fix' by (auto simp: agent_fixture_def)
  obtain closure where closure: "agent_closure D (cell_request L operation) = Some closure" using cell_request_accepted [OF L] by blast
  have "initiator_wf (as_state sh')" using 1(2)
    by (auto simp: sh'_def agent_state_live_def agent_state_inv_def initiator_inv_def initiator_wf_def)
  moreover have "\<not> is_legal_agent_cell (i_phase (as_state sh')) (operation_of (cell_request L operation))"
    using cell by (simp add: sh'_def)
  ultimately obtain h sh2 where h: "agent_function D (cell_request L operation) (tl_agent_box L) (tl_state_box L) ?g = Some (to_c_int ValidationError, h)"
    "h_mem h = m" "h_agents h = h_agents ?g" "h_agent_states h = (h_agent_states ?g)(tl_state_box L \<mapsto> sh2)"
    "i_phase (as_state sh2) = IFinished" "\<not> as_in_use sh2"
    by (rule client_out_of_order [OF laws closure apart(9) ah apart(10) s]) (rule that, simp_all)
  have "agent_fixture L f sh2 h" using fix' h by (auto simp: agent_fixture_def)
  note ends = destroy_fixture [OF L this]
  have "\<forall>byte \<in> set (read_bytes (h_mem h) (tl_second L) 32). byte = 0xA5" by (rule sentinel_kept) (simp_all add: h(2) m_def)
  moreover have "\<forall>byte \<in> set (read_bytes (h_mem h) (tl_output L) 1377). byte = 0xA5"
    using apart read_after_write [of "replicate 1377 0xA5"] by (simp add: h(2) m_def read_disjoint_write)
  ultimately show ?case unfolding Let_def set m_def [symmetric] using h(1,4-) ends by simp
qed

lemma matrix_loop_passes:
  assumes "deps_laws D" "agent_layout_ok L f" "executed + length (filter (\<lambda>(p, operation). \<not> is_legal_agent_cell p operation) cells) = 25"
  shows "test_passes f (matrix_loop D L cells executed f)"
  using assms
proof (induction cells arbitrary: executed f)
  case Nil
  then show ?case by (simp add: test_passes_def)
next
  case (Cons c cells)
  obtain phase operation where c: "c = (phase, operation)" by fastforce
  show ?case
  proof (cases "is_legal_agent_cell phase operation")
    case True
    then show ?thesis using Cons c by simp
  next
    case False
    from matrix_cell_passes [OF Cons.prems(1,2) False] show ?thesis
    proof (cases "matrix_cell D L phase operation f")
      case (Ok g)
      then have g: "h_agents g = h_agents f" "h_agent_states g = h_agent_states f"
        using matrix_cell_passes [OF Cons.prems(1,2) False] by (simp_all add: test_passes_def)
      have "test_passes g (matrix_loop D L cells (Suc executed) g)"
        using Cons.prems c False agent_layout_ok_cong [OF g] by (intro Cons.IH) simp_all
      then show ?thesis using Ok c False g by (auto simp: test_passes_def split: result.splits)
    qed (use c False in \<open>simp_all add: test_passes_def\<close>)
  qed
qed

text \<open>
  For every state of the process, random bytes and clock, each test either passes and leaves no
  handle behind, or stops in its preparation because no randomness was to be had.
\<close>

lemma client_unit_tests_pass:
  assumes "deps_laws D" "agent_layout_ok L f"
  shows "list_all (\<lambda>test. test_passes f (test D L f))
    [constructor_failure_nulls_non_null_sentinel, constructor_panic_leaves_out_slot_null,
     state_constructor_panic_leaves_out_slot_null, null_and_busy_handles_have_distinct_status_codes,
     detected_overlap_is_rejected_before_state_admission, larger_output_capacity_preserves_uncommitted_suffix,
     overlapping_finish_outputs_are_rejected_before_state_admission, admitted_error_terminalizes_state_and_preserves_output,
     invalid_agent_operation_state_matrix_terminalizes_without_commit]"
proof -
  have "test_passes f (invalid_agent_operation_state_matrix_terminalizes_without_commit D L f)"
    unfolding invalid_agent_operation_state_matrix_terminalizes_without_commit_def
    by (rule matrix_loop_passes [OF assms]) simp
  then show ?thesis
    using constructor_tests_pass [OF assms] null_and_busy_passes [OF assms] overlap_tests_pass [OF assms] larger_output_passes [OF assms]
      admitted_error_passes [OF assms] by simp
qed

text \<open>A random source that never shows a zero scalar or a zero seed: key pairs and servers can be made.\<close>

definition entropy :: "('s, 'p, 'ek, 'dk) deps \<Rightarrow> world \<Rightarrow> bool" where
  "entropy D w \<longleftrightarrow> nonzero_tape D (w_rng w) \<and> (\<forall>n. map (\<lambda>i. w_rng w (i + n)) [0..<32] \<noteq> zeros 32)"

lemma entropy_fill [simp]: "entropy D w \<Longrightarrow> entropy D (snd (fill_bytes n w))"
  by (simp add: entropy_def) (simp add: fill_bytes_def add.assoc del: upt_rec_numeral)

lemma entropy_seed: "entropy D w \<Longrightarrow> fst (fill_bytes 32 w) \<noteq> zeros 32"
  unfolding entropy_def fill_bytes_def by (auto dest: spec [of _ 0])

lemma keypair_generated:
  assumes "deps_laws D" "entropy D w"
  obtains kp where "ResponderKeyPair_generate D w = (Ok kp, snd (fill_bytes 64 w))" "keypair_valid D kp"
proof -
  note laws [simp] = deps_lawsD [OF assms(1)]
  obtain s where s: "s \<noteq> scalar_zero D" "random_nonzero_scalar D w = (Ok (scalar_bytes D s), snd (fill_bytes 64 w))"
    using random_nonzero_scalar_tape [OF laws(6,1)] assms(2) unfolding entropy_def by blast
  then show thesis
    by (intro that [of "\<lparr>kp_private_key = scalar_bytes D s, kp_public_key = point_compress D (base_mul D s)\<rparr>"])
      (auto simp: ResponderKeyPair_generate_def keypair_valid_def)
qed

lemma responder_generated:
  assumes "deps_laws D" "entropy D w"
  shows "\<exists>resp w'. OpaqueResponder_generate D w = (Ok resp, w')"
proof -
  note laws [simp] = deps_lawsD [OF assms(1)]
  obtain kp where kp: "ResponderKeyPair_generate D w = (Ok kp, snd (fill_bytes 64 w))" by (rule keypair_generated [OF assms])
  have "fst (fill_bytes 32 (snd (fill_bytes 64 w))) \<noteq> zeros 32" by (rule entropy_seed [OF entropy_fill [OF assms(2)]])
  then show ?thesis using kp by (simp add: OpaqueResponder_generate_def InMemoryEvaluator_new_def random_bytes_def case_prod_beta Let_def)
qed

lemma sample_entropy: "entropy sample sample_world"
  using sample_tape by (auto simp: entropy_def sample_world_def zeros_def list_eq_iff_nth_eq intro: exI [of _ 0])

definition sample_layout :: agent_layout where
  "sample_layout = \<lparr>tl_agent = 8, tl_state = 16, tl_key = 1000, tl_password = 2000, tl_account = 3000, tl_input = 4000, tl_output = 6000,
     tl_second = 8000, tl_agent_box = 24, tl_state_box = 32\<rparr>"

lemma sample_null_and_busy_prepared:
  "null_and_busy_handles_have_distinct_status_codes sample sample_layout (agent_heap_new (\<lambda>_. 0) sample_world) \<noteq> Err ()"
proof -
  obtain resp w where "OpaqueResponder_generate sample sample_world = (Ok resp, w)"
    using responder_generated [OF sample_laws sample_entropy] by blast
  then show ?thesis
    by (auto simp: null_and_busy_handles_have_distinct_status_codes_def with_session_def create_agent_and_state_def called_def check_def
        dropped_def destroy_agent_and_state_def agent_heap_new_def Let_def result_simps split: option.splits if_splits prod.splits)
qed

lemma sample_layout_ok: "agent_layout_ok sample_layout (agent_heap_new (\<lambda>_. 0) sample_world)"
  by (simp add: agent_layout_ok_def agent_buffers_def apart_def sample_layout_def agent_heap_new_def ranges_overlap_def checked_add_def)

end
