(* ===== verification/Relay_Interface_Tests.thy ===== *)
theory Relay_Interface_Tests
  imports Agent_Interface_Tests
begin

text \<open>
  The unit tests of \<^verbatim>\<open>relay_ffi.rs\<close> as programs over the model of the C interface, in the form
  of those of the client. Their only use of randomness is to make key pairs, so with a random
  source that is not stuck at zero they run to their end.
\<close>

section \<open>The test data\<close>

record relay_layout =
  rl_keypair :: addr
  rl_relay :: addr
  rl_state :: addr
  rl_restored :: addr
  rl_private :: addr
  rl_public :: addr
  rl_seed :: addr
  rl_account :: addr
  rl_input :: addr
  rl_credentials :: addr
  rl_output :: addr
  rl_keypair_box :: addr
  rl_relay_box :: addr
  rl_state_box :: addr

definition relay_buffers :: "relay_layout \<Rightarrow> (addr \<times> nat) list" where
  "relay_buffers L = [(rl_keypair L, 8), (rl_relay L, 8), (rl_state L, 8), (rl_restored L, 8), (rl_private L, PRIVATE_KEY_LENGTH),
     (rl_public L, PUBLIC_KEY_LENGTH), (rl_seed L, OPRF_SEED_LENGTH), (rl_account L, length TEST_ACCOUNT_ID), (rl_input L, KE1_LENGTH),
     (rl_credentials L, RESPONDER_CREDENTIALS_LENGTH), (rl_output L, KE2_LENGTH)]"

definition relay_layout_ok :: "relay_layout \<Rightarrow> relay_heap \<Rightarrow> bool" where
  "relay_layout_ok L f \<longleftrightarrow> (\<forall>(p, n) \<in> set (relay_buffers L). p \<noteq> 0) \<and> sorted_wrt apart (relay_buffers L) \<and>
     rl_keypair_box L \<noteq> 0 \<and> rl_relay_box L \<noteq> 0 \<and> rl_state_box L \<noteq> 0 \<and> h_keypairs f (rl_keypair_box L) = None \<and>
     h_relays f (rl_relay_box L) = None \<and> h_relay_states f (rl_state_box L) = None"

section \<open>The tests\<close>

definition create_relay_and_state ::
  "('s, 'p, 'ek, 'dk) deps \<Rightarrow> relay_layout \<Rightarrow> relay_heap \<Rightarrow> (addr \<times> addr \<times> addr \<times> relay_heap, unit) result" where
  "create_relay_and_state D L f =
     (let f = f\<lparr>h_mem := write_ptr (h_mem f) (rl_keypair L) 0\<rparr> in
      called (opaque_relay_keypair_generate D (rl_keypair L) (rl_keypair_box L) f) (\<lambda>rc f.
      check (rc = 0)
      (let f = f\<lparr>h_mem := write_ptr (h_mem f) (rl_relay L) 0\<rparr> in
      called (opaque_relay_create D (read_ptr (h_mem f) (rl_keypair L)) (rl_relay L) (rl_relay_box L) f) (\<lambda>rc f.
      check (rc = 0)
      (let f = f\<lparr>h_mem := write_ptr (h_mem f) (rl_state L) 0\<rparr> in
      called (opaque_relay_state_create (rl_state L) (rl_state_box L) f) (\<lambda>rc f.
      check (rc = 0)
      (Ok (read_ptr (h_mem f) (rl_keypair L), read_ptr (h_mem f) (rl_relay L), read_ptr (h_mem f) (rl_state L), f))))))))"

definition destroy_relay_and_state :: "('s, 'p, 'ek, 'dk) deps \<Rightarrow> relay_layout \<Rightarrow> relay_heap \<Rightarrow> (relay_heap, unit) result" where
  "destroy_relay_and_state D L f =
     dropped (opaque_relay_state_destroy D (rl_state L) f) (\<lambda>f.
     dropped (opaque_relay_destroy D (rl_relay L) f) (\<lambda>f.
     dropped (opaque_relay_keypair_destroy D (rl_keypair L) f) Ok))"

definition relay_constructor_panic_leaves_out_slot_null ::
  "('s, 'p, 'ek, 'dk) deps \<Rightarrow> relay_layout \<Rightarrow> relay_heap \<Rightarrow> (relay_heap, unit) result" where
  "relay_constructor_panic_leaves_out_slot_null D L f =
     (let f = f\<lparr>h_mem := write_ptr (h_mem f) (rl_keypair L) 1\<rparr>;
          slot = set_ffi_panic_point (Some ''relay_keypair_generate_before_publish'') None in
      called (opaque_relay_keypair_generate_test D slot (rl_keypair L) (rl_keypair_box L) f) (\<lambda>rc f.
      check (rc = FFI_PANIC)
      (check (read_ptr (h_mem f) (rl_keypair L) = 0) (Ok f))))"

definition remaining_relay_constructor_panics_leave_out_slots_null ::
  "('s, 'p, 'ek, 'dk) deps \<Rightarrow> relay_layout \<Rightarrow> relay_heap \<Rightarrow> (relay_heap, unit) result" where
  "remaining_relay_constructor_panics_leave_out_slots_null D L f =
     (let f = f\<lparr>h_mem := write_ptr (h_mem f) (rl_keypair L) 0\<rparr> in
      called (opaque_relay_keypair_generate D (rl_keypair L) (rl_keypair_box L) f) (\<lambda>rc f.
      check (rc = 0)
      (let f = f\<lparr>h_mem := write_ptr (h_mem f) (rl_relay L) 1\<rparr>;
           slot = set_ffi_panic_point (Some ''relay_create_before_publish'') None in
      called (opaque_relay_create_test D slot (read_ptr (h_mem f) (rl_keypair L)) (rl_relay L) (rl_relay_box L) f) (\<lambda>rc f.
      check (rc = FFI_PANIC)
      (check (read_ptr (h_mem f) (rl_relay L) = 0)
      (let f = f\<lparr>h_mem := write_ptr (h_mem f) (rl_state L) 1\<rparr>;
           slot = set_ffi_panic_point (Some ''relay_state_create_before_publish'') None in
      called (opaque_relay_state_create_test D slot (rl_state L) (rl_state_box L) f) (\<lambda>rc f.
      check (rc = FFI_PANIC)
      (check (read_ptr (h_mem f) (rl_state L) = 0)
      (case ResponderKeyPair_generate D (h_world f) of
         (Ok restored_keypair, w) \<Rightarrow>
           let m = write_bytes (h_mem f) (rl_private L) (kp_private_key restored_keypair);
               m = write_bytes m (rl_public L) (kp_public_key restored_keypair);
               m = write_bytes m (rl_seed L) (replicate OPRF_SEED_LENGTH 0x42);
               f = f\<lparr>h_world := w, h_mem := write_ptr m (rl_restored L) 1\<rparr>;
               slot = set_ffi_panic_point (Some ''relay_create_with_keys_before_publish'') None in
           called (opaque_relay_create_with_keys_test D slot (rl_private L) (of_nat (length (kp_private_key restored_keypair)))
               (rl_public L) (of_nat (length (kp_public_key restored_keypair))) (rl_seed L) (of_nat OPRF_SEED_LENGTH)
               (rl_restored L) (rl_relay_box L) f) (\<lambda>rc f.
           check (rc = FFI_PANIC)
           (check (read_ptr (h_mem f) (rl_restored L) = 0)
           (dropped (opaque_relay_keypair_destroy D (rl_keypair L) f) Ok)))
       | _ \<Rightarrow> Panic)))))))))"

definition store_keypair_in_use :: "addr \<Rightarrow> bool \<Rightarrow> relay_heap \<Rightarrow> relay_heap" where
  "store_keypair_in_use keypair b f =
     f\<lparr>h_keypairs := (h_keypairs f)(keypair := map_option (\<lambda>kh. kh\<lparr>kh_in_use := b\<rparr>) (h_keypairs f keypair))\<rparr>"

definition relay_null_and_busy_handles_have_distinct_status_codes ::
  "('s, 'p, 'ek, 'dk) deps \<Rightarrow> relay_layout \<Rightarrow> relay_heap \<Rightarrow> (relay_heap, unit) result" where
  "relay_null_and_busy_handles_have_distinct_status_codes D L f =
     (let f = f\<lparr>h_mem := write_ptr (h_mem f) (rl_keypair L) 0\<rparr> in
      called (opaque_relay_keypair_generate D (rl_keypair L) (rl_keypair_box L) f) (\<lambda>rc f.
      check (rc = 0)
      (let keypair = read_ptr (h_mem f) (rl_keypair L);
           f = f\<lparr>h_mem := write_bytes (h_mem f) (rl_output L) (replicate PUBLIC_KEY_LENGTH 0xA5)\<rparr> in
      called (opaque_relay_keypair_get_public_key keypair (rl_output L) (of_nat PUBLIC_KEY_LENGTH) (store_keypair_in_use keypair True f)) (\<lambda>busy_rc f.
      called (opaque_relay_keypair_get_public_key 0 (rl_output L) (of_nat PUBLIC_KEY_LENGTH) (store_keypair_in_use keypair False f)) (\<lambda>null_rc f.
      check (busy_rc = FFI_BUSY)
      (check (null_rc = to_c_int InvalidInput)
      (check (\<forall>byte \<in> set (read_bytes (h_mem f) (rl_output L) PUBLIC_KEY_LENGTH). byte = 0xA5)
      (dropped (opaque_relay_keypair_destroy D (rl_keypair L) f) Ok))))))))"

definition corrupted_credentials_are_rejected_before_state_admission ::
  "('s, 'p, 'ek, 'dk) deps \<Rightarrow> relay_layout \<Rightarrow> relay_heap \<Rightarrow> (relay_heap, unit) result" where
  "corrupted_credentials_are_rejected_before_state_admission D L f =
     and_then (create_relay_and_state D L f) (\<lambda>(keypair, relay, state, f).
     let m = write_bytes (h_mem f) (rl_input L) (zeros KE1_LENGTH);
         m = write_bytes m (rl_credentials L) (zeros RESPONDER_CREDENTIALS_LENGTH);
         m = write_bytes m (rl_account L) TEST_ACCOUNT_ID;
         f = f\<lparr>h_mem := write_bytes m (rl_output L) (replicate KE2_LENGTH 0xA5)\<rparr> in
     called (opaque_relay_generate_ke2 D relay (rl_input L) (of_nat KE1_LENGTH) (rl_account L) (of_nat (length TEST_ACCOUNT_ID))
         (rl_credentials L) (of_nat RESPONDER_CREDENTIALS_LENGTH) (rl_output L) (of_nat KE2_LENGTH) state f) (\<lambda>rc f.
     check (rc = FFI_CORRUPTED_RECORD)
     (check (\<forall>byte \<in> set (read_bytes (h_mem f) (rl_output L) KE2_LENGTH). byte = 0xA5)
     (check (map_option (r_phase \<circ> rsh_state) (h_relay_states f state) = Some RCreated)
     (destroy_relay_and_state D L f)))))"

text \<open>One cell of the matrix. The zero array that plays KE3 is the beginning of the one that plays KE1.\<close>

definition relay_cell_request :: "relay_layout \<Rightarrow> bool \<Rightarrow> relay_request" where
  "relay_cell_request L generate_ke2_cell =
     (if generate_ke2_cell
      then AskKe2 (rl_input L) (of_nat KE1_LENGTH) (rl_account L) (of_nat (length TEST_ACCOUNT_ID)) 0 0 (rl_output L) (of_nat KE2_LENGTH)
      else AskFinish (rl_input L) (of_nat KE3_LENGTH) (rl_output L) (of_nat KE2_LENGTH))"

definition relay_matrix_cell ::
  "('s, 'p, 'ek, 'dk) deps \<Rightarrow> relay_layout \<Rightarrow> ResponderPhase \<Rightarrow> bool \<Rightarrow> relay_heap \<Rightarrow> (relay_heap, unit) result" where
  "relay_matrix_cell D L phase generate_ke2_cell f =
     and_then (create_relay_and_state D L f) (\<lambda>(keypair, relay, state, f).
     let m = write_bytes (h_mem f) (rl_input L) (zeros KE1_LENGTH);
         m = write_bytes m (rl_account L) TEST_ACCOUNT_ID;
         f = f\<lparr>h_relay_states := (h_relay_states f)(state := map_option (\<lambda>sh. sh\<lparr>rsh_state := (rsh_state sh)\<lparr>r_phase := phase\<rparr>\<rparr>)
                 (h_relay_states f state)),
               h_mem := write_bytes m (rl_output L) (replicate KE2_LENGTH 0xA5)\<rparr> in
     called (relay_function D (relay_cell_request L generate_ke2_cell) relay state f) (\<lambda>rc f.
     check (rc = to_c_int ValidationError)
     (check (\<forall>byte \<in> set (read_bytes (h_mem f) (rl_output L) KE2_LENGTH). byte = 0xA5)
     (check (map_option (r_phase \<circ> rsh_state) (h_relay_states f state) = Some RFinished)
     (destroy_relay_and_state D L f)))))"

fun relay_matrix_loop ::
  "('s, 'p, 'ek, 'dk) deps \<Rightarrow> relay_layout \<Rightarrow> (ResponderPhase \<times> bool) list \<Rightarrow> nat \<Rightarrow> relay_heap \<Rightarrow> (relay_heap, unit) result" where
  "relay_matrix_loop D L [] executed f = check (executed = 4) (Ok f)"
| "relay_matrix_loop D L ((phase, generate_ke2_cell) # cells) executed f =
     (if is_legal_relay_cell phase generate_ke2_cell then relay_matrix_loop D L cells executed f
      else and_then (relay_matrix_cell D L phase generate_ke2_cell f) (relay_matrix_loop D L cells (Suc executed)))"

definition invalid_relay_operation_state_matrix_terminalizes_without_commit ::
  "('s, 'p, 'ek, 'dk) deps \<Rightarrow> relay_layout \<Rightarrow> relay_heap \<Rightarrow> (relay_heap, unit) result" where
  "invalid_relay_operation_state_matrix_terminalizes_without_commit D L =
     relay_matrix_loop D L [(phase, generate_ke2_cell).
       phase \<leftarrow> [RCreated, Ke2Generated, RFinished], generate_ke2_cell \<leftarrow> [True, False]] 0"

section \<open>Layouts\<close>

lemma relay_layout_apart:
  assumes "relay_layout_ok L f"
  shows "rl_keypair L \<noteq> 0" "rl_relay L \<noteq> 0" "rl_state L \<noteq> 0" "rl_restored L \<noteq> 0" "rl_private L \<noteq> 0" "rl_public L \<noteq> 0"
    "rl_seed L \<noteq> 0" "rl_account L \<noteq> 0" "rl_input L \<noteq> 0" "rl_credentials L \<noteq> 0" "rl_output L \<noteq> 0"
    "rl_keypair_box L \<noteq> 0" "rl_relay_box L \<noteq> 0" "rl_state_box L \<noteq> 0" "h_keypairs f (rl_keypair_box L) = None"
    "h_relays f (rl_relay_box L) = None" "h_relay_states f (rl_state_box L) = None"
  and "\<not> ranges_overlap (rl_input L) 1273 (rl_output L) 1377" "\<not> ranges_overlap (rl_account L) 17 (rl_output L) 1377"
    "\<not> ranges_overlap (rl_credentials L) 201 (rl_output L) 1377" "\<not> ranges_overlap (rl_restored L) 8 (rl_private L) 32"
    "\<not> ranges_overlap (rl_restored L) 8 (rl_public L) 32" "\<not> ranges_overlap (rl_restored L) 8 (rl_seed L) 32"
  using assms by (simp_all add: relay_layout_ok_def relay_buffers_def apart_def)

lemma relay_ranges_disjoint:
  assumes "relay_layout_ok L f"
  shows "window (rl_keypair L) 8 \<inter> window (rl_relay L) 8 = {}" "window (rl_keypair L) 8 \<inter> window (rl_state L) 8 = {}"
    "window (rl_relay L) 8 \<inter> window (rl_state L) 8 = {}" "window (rl_keypair L) 8 \<inter> window (rl_restored L) 8 = {}"
    "window (rl_keypair L) 8 \<inter> window (rl_private L) 32 = {}" "window (rl_keypair L) 8 \<inter> window (rl_public L) 32 = {}"
    "window (rl_keypair L) 8 \<inter> window (rl_seed L) 32 = {}"
    "window (rl_private L) 32 \<inter> window (rl_public L) 32 = {}" "window (rl_private L) 32 \<inter> window (rl_seed L) 32 = {}"
    "window (rl_public L) 32 \<inter> window (rl_seed L) 32 = {}"
    "window (rl_restored L) 8 \<inter> window (rl_private L) 32 = {}" "window (rl_restored L) 8 \<inter> window (rl_public L) 32 = {}"
    "window (rl_restored L) 8 \<inter> window (rl_seed L) 32 = {}"
    "window (rl_keypair L) 8 \<inter> window (rl_account L) 17 = {}" "window (rl_relay L) 8 \<inter> window (rl_account L) 17 = {}"
    "window (rl_state L) 8 \<inter> window (rl_account L) 17 = {}"
    "window (rl_keypair L) 8 \<inter> window (rl_input L) 1273 = {}" "window (rl_relay L) 8 \<inter> window (rl_input L) 1273 = {}"
    "window (rl_state L) 8 \<inter> window (rl_input L) 1273 = {}"
    "window (rl_keypair L) 8 \<inter> window (rl_credentials L) 201 = {}" "window (rl_relay L) 8 \<inter> window (rl_credentials L) 201 = {}"
    "window (rl_state L) 8 \<inter> window (rl_credentials L) 201 = {}"
    "window (rl_keypair L) 8 \<inter> window (rl_output L) 1377 = {}" "window (rl_relay L) 8 \<inter> window (rl_output L) 1377 = {}"
    "window (rl_state L) 8 \<inter> window (rl_output L) 1377 = {}"
    "window (rl_account L) 17 \<inter> window (rl_credentials L) 201 = {}" "window (rl_credentials L) 201 \<inter> window (rl_output L) 1377 = {}"
  using assms disjoint_windows [of _ 8 _ 8] disjoint_windows [of _ 8 _ 32] disjoint_windows [of _ 32 _ 32] disjoint_windows [of _ 8 _ 17]
    disjoint_windows [of _ 8 _ 1273] disjoint_windows [of _ 8 _ 201] disjoint_windows [of _ 8 _ 1377] disjoint_windows [of _ 17 _ 201]
    disjoint_windows [of _ 201 _ 1377]
  by (simp_all add: relay_layout_ok_def relay_buffers_def apart_def)

lemma relay_layout_ok_cong:
  "h_keypairs g = h_keypairs f \<Longrightarrow> h_relays g = h_relays f \<Longrightarrow> h_relay_states g = h_relay_states f \<Longrightarrow> relay_layout_ok L g = relay_layout_ok L f"
  by (simp add: relay_layout_ok_def)

section \<open>The fixture\<close>

text \<open>How a test ends: with no assertion failed, no handle left behind, and randomness for the next one.\<close>

definition relay_test_passes :: "('s, 'p, 'ek, 'dk) deps \<Rightarrow> relay_heap \<Rightarrow> (relay_heap, unit) result \<Rightarrow> bool" where
  "relay_test_passes D f r \<longleftrightarrow> (\<exists>g. r = Ok g \<and> h_keypairs g = h_keypairs f \<and> h_relays g = h_relays f \<and>
     h_relay_states g = h_relay_states f \<and> entropy D (h_world g))"

definition keypair_fixture :: "('s, 'p, 'ek, 'dk) deps \<Rightarrow> relay_layout \<Rightarrow> relay_heap \<Rightarrow> RelayKeypairHandle \<Rightarrow> relay_heap \<Rightarrow> bool" where
  "keypair_fixture D L f kh g \<longleftrightarrow> h_keypairs g = (h_keypairs f)(rl_keypair_box L \<mapsto> kh) \<and> \<not> kh_in_use kh \<and>
     keypair_valid D (kh_keypair kh) \<and> kh_oprf_seed kh \<noteq> zeros 32 \<and> length (kh_oprf_seed kh) = 32 \<and>
     read_ptr (h_mem g) (rl_keypair L) = rl_keypair_box L \<and> entropy D (h_world g)"

lemma keypair_created:
  assumes laws: "deps_laws D" and L: "relay_layout_ok L f0" and w: "entropy D (h_world f)"
  obtains g kh where "opaque_relay_keypair_generate D (rl_keypair L) (rl_keypair_box L) f = Some (0, g)" "keypair_fixture D L f kh g"
    "h_relays g = h_relays f" "h_relay_states g = h_relay_states f"
proof -
  obtain kp where kp: "ResponderKeyPair_generate D (h_world f) = (Ok kp, snd (fill_bytes 64 (h_world f)))" "keypair_valid D kp"
    by (rule keypair_generated [OF laws w])
  have "fst (fill_bytes 32 (snd (fill_bytes 64 (h_world f)))) \<noteq> zeros 32" by (rule entropy_seed [OF entropy_fill [OF w]])
  moreover define kh where "kh = \<lparr>kh_keypair = kp, kh_oprf_seed = fst (fill_bytes 32 (snd (fill_bytes 64 (h_world f)))), kh_in_use = False\<rparr>"
  moreover define g where "g = f\<lparr>h_world := snd (fill_bytes 32 (snd (fill_bytes 64 (h_world f)))),
    h_keypairs := (h_keypairs f)(rl_keypair_box L \<mapsto> kh),
    h_mem := write_ptr (write_ptr (h_mem f) (rl_keypair L) 0) (rl_keypair L) (rl_keypair_box L)\<rparr>"
  ultimately show thesis using kp w relay_layout_apart(1) [OF L]
    by (intro that [of g kh]) (simp_all add: opaque_relay_keypair_generate_def random_bytes_def case_prod_beta Let_def keypair_fixture_def)
qed

lemma destroy_keypair:
  assumes L: "relay_layout_ok L f" and g: "keypair_fixture D L f kh g" "h_relays g = h_relays f" "h_relay_states g = h_relay_states f"
  shows "relay_test_passes D f (dropped (opaque_relay_keypair_destroy D (rl_keypair L) g) Ok)"
  using relay_layout_apart(1,12,15) [OF L] g
  by (simp add: opaque_relay_keypair_destroy_def opaque_relay_keypair_try_destroy_def keypair_fixture_def relay_test_passes_def fun_upd_idem)

definition relay_fixture :: "('s, 'p, 'ek, 'dk) deps \<Rightarrow> relay_layout \<Rightarrow> relay_heap \<Rightarrow> RelayStateHandle \<Rightarrow> relay_heap \<Rightarrow> bool" where
  "relay_fixture D L f sh g \<longleftrightarrow> (\<exists>kh. keypair_fixture D L f kh g) \<and>
     (\<exists>rh. h_relays g = (h_relays f)(rl_relay_box L \<mapsto> rh) \<and> \<not> rh_in_use rh \<and> keypair_valid D (or_keypair (rh_responder rh))) \<and>
     h_relay_states g = (h_relay_states f)(rl_state_box L \<mapsto> sh) \<and> \<not> rsh_in_use sh \<and>
     read_ptr (h_mem g) (rl_relay L) = rl_relay_box L \<and> read_ptr (h_mem g) (rl_state L) = rl_state_box L"

lemma destroy_relay_fixture:
  assumes L: "relay_layout_ok L f" and g: "relay_fixture D L f sh g"
  shows "relay_test_passes D f (destroy_relay_and_state D L g)"
proof -
  note apart = relay_layout_apart [OF L] relay_ranges_disjoint [OF L]
  obtain kh rh where kh: "keypair_fixture D L f kh g" and rh: "h_relays g = (h_relays f)(rl_relay_box L \<mapsto> rh)" "\<not> rh_in_use rh"
    and sh: "h_relay_states g = (h_relay_states f)(rl_state_box L \<mapsto> sh)" "\<not> rsh_in_use sh"
    and slots: "read_ptr (h_mem g) (rl_relay L) = rl_relay_box L" "read_ptr (h_mem g) (rl_state L) = rl_state_box L"
    using g by (auto simp: relay_fixture_def)
  obtain h where h: "opaque_relay_state_destroy D (rl_state L) g = Some h" "h_keypairs h = h_keypairs g" "h_relays h = h_relays g"
    "h_relay_states h = (h_relay_states g)(rl_state_box L := None)" "h_mem h = write_ptr (h_mem g) (rl_state L) 0" "h_world h = h_world g"
    using apart(3,14) sh slots by (simp add: opaque_relay_state_destroy_def opaque_relay_state_try_destroy_def)
  then have "read_ptr (h_mem h) (rl_relay L) = rl_relay_box L" using slots relay_ranges_disjoint(3) [OF L] by (simp add: read_ptr_write_other)
  then obtain k where k: "opaque_relay_destroy D (rl_relay L) h = Some k" "h_keypairs k = h_keypairs g"
    "h_relays k = (h_relays h)(rl_relay_box L := None)"
    "h_relay_states k = h_relay_states h" "h_mem k = write_ptr (h_mem h) (rl_relay L) 0" "h_world k = h_world g"
    using apart(2,13) rh h by (simp add: opaque_relay_destroy_def opaque_relay_try_destroy_def)
  have "keypair_fixture D L f kh k"
    using kh k h relay_ranges_disjoint(1,2) [OF L] by (simp add: keypair_fixture_def read_ptr_write_other)
  moreover have "h_relays k = h_relays f" "h_relay_states k = h_relay_states f"
    using h k rh sh apart(16,17) by (simp_all add: fun_upd_idem)
  ultimately have "relay_test_passes D f (dropped (opaque_relay_keypair_destroy D (rl_keypair L) k) Ok)" by (rule destroy_keypair [OF L])
  then show ?thesis using h(1) k(1) by (simp add: destroy_relay_and_state_def)
qed

lemma relay_create_on_fixture:
  assumes laws: "deps_laws D" and L: "relay_layout_ok L f" and g: "keypair_fixture D L f kh g"
  obtains rh where "opaque_relay_create D (rl_keypair_box L) (rl_relay L) (rl_relay_box L) g =
      Some (0, g\<lparr>h_relays := (h_relays g)(rl_relay_box L \<mapsto> rh),
        h_mem := write_ptr (write_ptr (h_mem g) (rl_relay L) 0) (rl_relay L) (rl_relay_box L)\<rparr>)"
    "\<not> rh_in_use rh" "or_keypair (rh_responder rh) = kh_keypair kh"
proof -
  note laws' [simp] = deps_lawsD [OF laws]
  let ?g = "g\<lparr>h_mem := write_ptr (h_mem g) (rl_relay L) 0\<rparr>"
  have kh: "h_keypairs ?g (rl_keypair_box L) = Some kh" "\<not> kh_in_use kh" using g by (simp_all add: keypair_fixture_def)
  then have acquired: "acquire_relay_keypair ?g (rl_keypair_box L) = Some (Ok (kh\<lparr>kh_in_use := True\<rparr>,
      ?g\<lparr>h_keypairs := (h_keypairs ?g)(rl_keypair_box L \<mapsto> kh\<lparr>kh_in_use := True\<rparr>)\<rparr>))"
    using relay_layout_apart(12) [OF L] by (simp add: acquire_relay_keypair_def Let_def)
  have released: "release_relay_keypair (rl_keypair_box L) (?g\<lparr>h_keypairs := (h_keypairs ?g)(rl_keypair_box L \<mapsto> kh\<lparr>kh_in_use := True\<rparr>)\<rparr>) = ?g"
    using relay_keypair_handles.release_marked [OF kh] .
  have "validate_public_key D (kp_public_key (kh_keypair kh)) = Ok ()" using g laws by (auto simp: keypair_fixture_def keypair_valid_def)
  then have new: "OpaqueResponder_new D (kh_keypair kh) (kh_oprf_seed kh) = Ok \<lparr>or_keypair = kh_keypair kh,
      or_evaluator = InMemoryEvaluator_dyn D \<lparr>mem_oprf_seed = kh_oprf_seed kh\<rparr>\<rparr>"
    using g by (simp add: OpaqueResponder_new_def InMemoryEvaluator_new_def keypair_fixture_def)
  define rh where "rh = \<lparr>rh_responder = \<lparr>or_keypair = kh_keypair kh,
      or_evaluator = InMemoryEvaluator_dyn D \<lparr>mem_oprf_seed = kh_oprf_seed kh\<rparr>\<rparr>, rh_in_use = False\<rparr>"
  show thesis
    by (rule that [of rh]) (use relay_layout_apart(2) [OF L] acquired released new in \<open>simp_all add: opaque_relay_create_def Let_def rh_def\<close>)
qed

lemma create_relay_fixture:
  assumes laws: "deps_laws D" and L: "relay_layout_ok L f" and w: "entropy D (h_world f)"
  obtains g sh where "create_relay_and_state D L f = Ok (rl_keypair_box L, rl_relay_box L, rl_state_box L, g)" "relay_fixture D L f sh g"
    "responder_wf (rsh_state sh)" "r_phase (rsh_state sh) = RCreated"
proof -
  note apart = relay_layout_apart [OF L] relay_ranges_disjoint [OF L]
  let ?f = "f\<lparr>h_mem := write_ptr (h_mem f) (rl_keypair L) 0\<rparr>"
  obtain g kh where g: "opaque_relay_keypair_generate D (rl_keypair L) (rl_keypair_box L) ?f = Some (0, g)" "keypair_fixture D L ?f kh g"
    "h_relays g = h_relays ?f" "h_relay_states g = h_relay_states ?f"
    by (rule keypair_created [OF laws L, of ?f]) (use w in simp_all)
  let ?g = "g\<lparr>h_mem := write_ptr (h_mem g) (rl_relay L) 0\<rparr>"
  have kept: "keypair_fixture D L f kh ?g" using g(2) relay_ranges_disjoint(1) [OF L] by (simp add: keypair_fixture_def read_ptr_write_other)
  obtain rh where rh: "opaque_relay_create D (rl_keypair_box L) (rl_relay L) (rl_relay_box L) ?g =
      Some (0, ?g\<lparr>h_relays := (h_relays ?g)(rl_relay_box L \<mapsto> rh),
        h_mem := write_ptr (write_ptr (h_mem ?g) (rl_relay L) 0) (rl_relay L) (rl_relay_box L)\<rparr>)"
    "\<not> rh_in_use rh" "or_keypair (rh_responder rh) = kh_keypair kh"
    by (rule relay_create_on_fixture [OF laws L kept])
  obtain st w' where st: "ResponderState_new (h_world g) = (st, w')" by fastforce
  define sh where "sh = \<lparr>rsh_state = st, rsh_in_use = False\<rparr>"
  define m where "m = write_ptr (write_ptr (write_ptr (write_ptr (write_ptr (h_mem ?g) (rl_relay L) 0) (rl_relay L) (rl_relay_box L))
      (rl_state L) 0) (rl_state L) 0) (rl_state L) (rl_state_box L)"
  define h where "h = g\<lparr>h_relays := (h_relays g)(rl_relay_box L \<mapsto> rh), h_world := w',
      h_relay_states := (h_relay_states g)(rl_state_box L \<mapsto> sh), h_mem := m\<rparr>"
  have slots: "read_ptr m (rl_keypair L) = rl_keypair_box L" "read_ptr m (rl_relay L) = rl_relay_box L" "read_ptr m (rl_state L) = rl_state_box L"
    using kept relay_ranges_disjoint(1-3) [OF L] by (simp_all add: m_def read_ptr_write_other keypair_fixture_def)
  have w': "w_rng w' = w_rng (h_world g)" using st by (auto simp: ResponderState_new_def instant_now_def)
  show thesis
  proof (rule that)
    show "create_relay_and_state D L f = Ok (rl_keypair_box L, rl_relay_box L, rl_state_box L, h)"
      using g(1) kept rh(1) st apart(3) slots
      by (simp add: create_relay_and_state_def keypair_fixture_def opaque_relay_state_create_def h_def m_def sh_def Let_def)
    have "keypair_fixture D L f kh h" using kept slots w' by (simp add: keypair_fixture_def h_def entropy_def)
    then show "relay_fixture D L f sh h" using g(2-4) rh(2,3) slots
      by (auto simp: relay_fixture_def h_def sh_def keypair_fixture_def)
    show "responder_wf (rsh_state sh)" "r_phase (rsh_state sh) = RCreated"
      using ResponderState_new_props [of "h_world g"] st by (simp_all add: sh_def)
  qed
qed

section \<open>The tests pass\<close>

lemma armed_relay_constructor:
  assumes "injection_contained point (Some point) (unpublished_relay handle f) (Some (0, g)) tested"
  obtains h where "tested = Some (-99, h)" "h_world h = h_world g" "h_mem h = write_ptr (h_mem f) handle 0" "h_keypairs h = h_keypairs f"
    "h_relays h = h_relays f" "h_relay_states h = h_relay_states f"
  using containedD [OF assms] by (auto simp: unpublished_relay_def FFI_PANIC_def)

lemma keypair_panic_passes:
  assumes laws: "deps_laws D" and L: "relay_layout_ok L f" and w: "entropy D (h_world f)"
  shows "relay_test_passes D f (relay_constructor_panic_leaves_out_slot_null D L f)"
proof -
  let ?f = "f\<lparr>h_mem := write_ptr (h_mem f) (rl_keypair L) 1\<rparr>"
  obtain g kh where g: "opaque_relay_keypair_generate D (rl_keypair L) (rl_keypair_box L) ?f = Some (0, g)" "keypair_fixture D L ?f kh g"
    by (rule keypair_created [OF laws L, of ?f]) (use w in simp_all)
  obtain h where "opaque_relay_keypair_generate_test D (Some ''relay_keypair_generate_before_publish'') (rl_keypair L) (rl_keypair_box L) ?f
      = Some (-99, h)" "h_world h = h_world g" "h_mem h = write_ptr (h_mem ?f) (rl_keypair L) 0" "h_keypairs h = h_keypairs ?f"
    "h_relays h = h_relays ?f" "h_relay_states h = h_relay_states ?f"
    using relay_constructors_contained(1) [of "Some ''relay_keypair_generate_before_publish''" "rl_keypair L" ?f D "rl_keypair_box L"]
    unfolding g(1) by (rule armed_relay_constructor)
  then show ?thesis using g(2)
    by (simp add: relay_constructor_panic_leaves_out_slot_null_def set_ffi_panic_point_def relay_test_passes_def keypair_fixture_def FFI_PANIC_def)
qed

lemma relay_null_and_busy_passes:
  assumes laws: "deps_laws D" and L: "relay_layout_ok L f" and w: "entropy D (h_world f)"
  shows "relay_test_passes D f (relay_null_and_busy_handles_have_distinct_status_codes D L f)"
proof -
  note apart = relay_layout_apart [OF L]
  let ?f = "f\<lparr>h_mem := write_ptr (h_mem f) (rl_keypair L) 0\<rparr>"
  obtain g kh where g: "opaque_relay_keypair_generate D (rl_keypair L) (rl_keypair_box L) ?f = Some (0, g)" "keypair_fixture D L ?f kh g"
    "h_relays g = h_relays ?f" "h_relay_states g = h_relay_states ?f"
    by (rule keypair_created [OF laws L, of ?f]) (use w in simp_all)
  define g' where "g' = g\<lparr>h_mem := write_bytes (h_mem g) (rl_output L) (replicate 32 0xA5)\<rparr>"
  have "window (rl_output L) 32 \<subseteq> window (rl_output L) 1377" by (auto simp: window_def)
  then have "window (rl_keypair L) 8 \<inter> window (rl_output L) 32 = {}" using relay_ranges_disjoint(23) [OF L] by blast
  then have kh: "keypair_fixture D L f kh g'" using g(2) by (simp add: g'_def keypair_fixture_def read_ptr_other)
  then have "h_keypairs g' (rl_keypair_box L) = Some kh" "\<not> kh_in_use kh" by (simp_all add: keypair_fixture_def)
  then have busy: "opaque_relay_keypair_get_public_key (rl_keypair_box L) (rl_output L) (of_nat PUBLIC_KEY_LENGTH)
      (store_keypair_in_use (rl_keypair_box L) True g') = Some (-100, store_keypair_in_use (rl_keypair_box L) True g')"
    and unmarked: "store_keypair_in_use (rl_keypair_box L) False (store_keypair_in_use (rl_keypair_box L) True g') = g'"
    using apart(11,12) by (cases kh, simp_all add: opaque_relay_keypair_get_public_key_def relay_keypair_handles.guarded_eq
        store_keypair_in_use_def fun_upd_idem)
  have null: "opaque_relay_keypair_get_public_key 0 (rl_output L) (of_nat PUBLIC_KEY_LENGTH) g' = Some (-1, g')"
    using apart(11) by (simp add: opaque_relay_keypair_get_public_key_def relay_keypair_handles.guarded_eq)
  have "read_bytes (h_mem g') (rl_output L) 32 = replicate 32 0xA5"
    using read_after_write [of "replicate 32 0xA5" "h_mem g" "rl_output L"] by (simp add: g'_def)
  moreover have "relay_test_passes D f (dropped (opaque_relay_keypair_destroy D (rl_keypair L) g') Ok)"
    using g(3,4) by (intro destroy_keypair [OF L kh]) (simp_all add: g'_def)
  moreover have "read_ptr (h_mem g) (rl_keypair L) = rl_keypair_box L" using g(2) by (simp add: keypair_fixture_def)
  ultimately show ?thesis using g(1) busy unmarked null
    by (simp add: relay_null_and_busy_handles_have_distinct_status_codes_def g'_def [symmetric] FFI_BUSY_def)
qed

lemma corrupted_credentials_passes:
  assumes laws: "deps_laws D" and L: "relay_layout_ok L f" and w: "entropy D (h_world f)"
  shows "relay_test_passes D f (corrupted_credentials_are_rejected_before_state_admission D L f)"
proof -
  note apart = relay_layout_apart [OF L] relay_ranges_disjoint [OF L]
  obtain g sh where g: "create_relay_and_state D L f = Ok (rl_keypair_box L, rl_relay_box L, rl_state_box L, g)" "relay_fixture D L f sh g"
    "r_phase (rsh_state sh) = RCreated"
    by (rule create_relay_fixture [OF laws L w])
  define m where "m = write_bytes (write_bytes (write_bytes (h_mem g) (rl_input L) (zeros 1273)) (rl_credentials L) (zeros 201)) (rl_account L) TEST_ACCOUNT_ID"
  define h where "h = g\<lparr>h_mem := write_bytes m (rl_output L) (replicate 1377 0xA5)\<rparr>"
  have slots: "read_ptr (h_mem h) (rl_keypair L) = read_ptr (h_mem g) (rl_keypair L)" "read_ptr (h_mem h) (rl_relay L) = read_ptr (h_mem g) (rl_relay L)"
    "read_ptr (h_mem h) (rl_state L) = read_ptr (h_mem g) (rl_state L)"
    using apart by (simp_all add: h_def m_def read_ptr_other)
  then have fix': "relay_fixture D L f sh h" using g(2) by (simp add: relay_fixture_def keypair_fixture_def h_def)
  then obtain rh where rh: "h_relays h (rl_relay_box L) = Some rh" "\<not> rh_in_use rh" "h_relay_states h (rl_state_box L) = Some sh"
    by (auto simp: relay_fixture_def)
  have creds: "read_bytes (h_mem h) (rl_credentials L) 201 = zeros 201"
    using relay_ranges_disjoint(26,27) [OF L] read_after_write [of "zeros 201"]
    by (simp add: h_def m_def read_disjoint_write Int_commute [of "window (rl_credentials L) 201" "window (rl_account L) 17"])
  have wire: "ke2_credential_wire r (h_mem h) (rl_credentials L) 201 = Ok (zeros 201)" for r :: "InMemoryEvaluator OpaqueResponder"
    using creds by (simp add: ke2_credential_wire_def copy_into_whole)
  have "zeros 201 = (0 :: u8) # zeros 200" by (simp add: zeros_def flip: replicate_Suc)
  then have "parse_registration_record (zeros 201) = Err UnsupportedVersion" by (simp add: parse_registration_record_def check_version_def)
  then have "ke2_credentials D r (h_mem h) (rl_credentials L) 201 = Err (-101)" for r :: "InMemoryEvaluator OpaqueResponder"
    using wire by (simp add: ke2_credentials_def FFI_CORRUPTED_RECORD_def)
  then have "relay_function D (AskKe2 (rl_input L) 1273 (rl_account L) 17 (rl_credentials L) 201 (rl_output L) 1377) (rl_relay_box L) (rl_state_box L) h = Some (-101, h)"
    unfolding relay_function_eq relay_body using apart rh by simp
  moreover have "read_bytes (h_mem h) (rl_output L) 1377 = replicate 1377 0xA5"
    using read_after_write [of "replicate 1377 0xA5" m "rl_output L"] by (simp add: h_def)
  ultimately show ?thesis using g rh(3) destroy_relay_fixture [OF L fix']
    by (simp add: corrupted_credentials_are_rejected_before_state_admission_def m_def [symmetric] h_def [symmetric] FFI_CORRUPTED_RECORD_def)
qed

lemma relay_matrix_cell_passes:
  assumes laws: "deps_laws D" and L: "relay_layout_ok L f" and w: "entropy D (h_world f)" and cell: "\<not> is_legal_relay_cell phase generate_ke2_cell"
  shows "relay_test_passes D f (relay_matrix_cell D L phase generate_ke2_cell f)"
proof -
  note apart = relay_layout_apart [OF L] relay_ranges_disjoint [OF L]
  obtain g sh where g: "create_relay_and_state D L f = Ok (rl_keypair_box L, rl_relay_box L, rl_state_box L, g)" "relay_fixture D L f sh g"
    "responder_wf (rsh_state sh)"
    by (rule create_relay_fixture [OF laws L w])
  define sh' where "sh' = sh\<lparr>rsh_state := (rsh_state sh)\<lparr>r_phase := phase\<rparr>\<rparr>"
  define m where "m = write_bytes (write_bytes (h_mem g) (rl_input L) (zeros 1273)) (rl_account L) TEST_ACCOUNT_ID"
  define h where "h = g\<lparr>h_relay_states := (h_relay_states g)(rl_state_box L \<mapsto> sh'), h_mem := write_bytes m (rl_output L) (replicate 1377 0xA5)\<rparr>"
  have slots: "read_ptr (h_mem h) (rl_keypair L) = read_ptr (h_mem g) (rl_keypair L)" "read_ptr (h_mem h) (rl_relay L) = read_ptr (h_mem g) (rl_relay L)"
    "read_ptr (h_mem h) (rl_state L) = read_ptr (h_mem g) (rl_state L)"
    using apart by (simp_all add: h_def m_def read_ptr_other)
  then have fix': "relay_fixture D L f sh' h" using g(2) by (auto simp: relay_fixture_def keypair_fixture_def h_def sh'_def)
  then obtain rh where rh: "h_relays h (rl_relay_box L) = Some rh" "\<not> rh_in_use rh" "keypair_valid D (or_keypair (rh_responder rh))"
    and s: "h_relay_states h (rl_state_box L) = Some sh'" "\<not> rsh_in_use sh'" by (auto simp: relay_fixture_def)
  let ?req = "relay_cell_request L generate_ke2_cell"
  have "\<not> ranges_overlap (rl_input L) 65 (rl_output L) 64" using ranges_overlap_shorter [OF apart(18)] by simp
  then have admitted: "relay_admits ?req" using apart by (simp add: relay_cell_request_def)
  have "ke2_credentials D (rh_responder rh) (h_mem h) 0 0 = Ok ResponderCredentials_new"
    using ke2_credentials_eq [OF laws keypair_validD(3,2) [OF rh(3) laws], of "h_mem h" 0 0] by simp
  then have "\<exists>operation. relay_prepare D ?req (rh\<lparr>rh_in_use := True\<rparr>) (h_mem h) = Inr operation"
    by (cases generate_ke2_cell) (simp_all add: relay_cell_request_def)
  then obtain operation where prepared: "relay_prepare D ?req (rh\<lparr>rh_in_use := True\<rparr>) (h_mem h) = Inr operation" by blast
  have wf: "responder_wf (rsh_state sh')" using g(3) by (simp add: sh'_def responder_wf_def)
  have out_of_order: "\<not> is_legal_relay_cell (r_phase (rsh_state sh')) (asks_ke2 ?req)"
    using cell by (cases generate_ke2_cell) (simp_all add: sh'_def relay_cell_request_def)
  obtain k sh2 where k: "relay_function D ?req (rl_relay_box L) (rl_state_box L) h = Some (to_c_int ValidationError, k)" "h_mem k = h_mem h"
    "h_relays k = h_relays h" "h_keypairs k = h_keypairs h" "h_world k = h_world h" "h_relay_states k = (h_relay_states h)(rl_state_box L \<mapsto> sh2)"
    "r_phase (rsh_state sh2) = RFinished" "\<not> rsh_in_use sh2"
    by (rule server_out_of_order [OF laws admitted apart(13) rh(1,2) apart(14) s wf prepared out_of_order])
  have "relay_fixture D L f sh2 k" using fix' k by (auto simp: relay_fixture_def keypair_fixture_def)
  note ends = destroy_relay_fixture [OF L this]
  have "read_bytes (h_mem k) (rl_output L) 1377 = replicate 1377 0xA5"
    using read_after_write [of "replicate 1377 0xA5" m "rl_output L"] by (simp add: k(2) h_def)
  moreover have "(h_relay_states g)(rl_state_box L := map_option (\<lambda>sh. sh\<lparr>rsh_state := (rsh_state sh)\<lparr>r_phase := phase\<rparr>\<rparr>)
      (h_relay_states g (rl_state_box L))) = (h_relay_states g)(rl_state_box L \<mapsto> sh')" using g(2) by (simp add: relay_fixture_def sh'_def)
  ultimately show ?thesis using g(1) k(1,6,7) ends
    by (simp add: relay_matrix_cell_def m_def [symmetric] h_def [symmetric])
qed

lemma relay_test_passes_trans:
  "relay_test_passes D f (Ok g) \<Longrightarrow> relay_test_passes D g r \<Longrightarrow> relay_test_passes D f r"
  by (auto simp: relay_test_passes_def)

lemma relay_matrix_loop_passes:
  assumes "deps_laws D" "relay_layout_ok L f" "entropy D (h_world f)"
    and "executed + length (filter (\<lambda>(p, c). \<not> is_legal_relay_cell p c) cells) = 4"
  shows "relay_test_passes D f (relay_matrix_loop D L cells executed f)"
  using assms
proof (induction cells arbitrary: executed f)
  case Nil
  then show ?case by (simp add: relay_test_passes_def)
next
  case (Cons c cells)
  obtain phase cell where c: "c = (phase, cell)" by fastforce
  show ?case
  proof (cases "is_legal_relay_cell phase cell")
    case True
    then show ?thesis using Cons c by simp
  next
    case False
    have passes: "relay_test_passes D f (relay_matrix_cell D L phase cell f)"
      by (rule relay_matrix_cell_passes [OF Cons.prems(1-3) False])
    then obtain g where g: "relay_matrix_cell D L phase cell f = Ok g" by (auto simp: relay_test_passes_def)
    then have "relay_layout_ok L g" "entropy D (h_world g)"
      using passes Cons.prems(2) relay_layout_ok_cong [of g f L] by (auto simp: relay_test_passes_def)
    then have "relay_test_passes D g (relay_matrix_loop D L cells (Suc executed) g)" using Cons.prems c False by (intro Cons.IH) simp_all
    then show ?thesis using relay_test_passes_trans [of D f g] passes g c False by simp
  qed
qed

lemma remaining_constructors_pass:
  assumes laws: "deps_laws D" and L: "relay_layout_ok L f" and w: "entropy D (h_world f)"
  shows "relay_test_passes D f (remaining_relay_constructor_panics_leave_out_slots_null D L f)"
proof -
  note laws' [simp] = deps_lawsD [OF laws]
  note apart = relay_layout_apart [OF L] and disjoint = relay_ranges_disjoint [OF L]
  let ?f = "f\<lparr>h_mem := write_ptr (h_mem f) (rl_keypair L) 0\<rparr>"
  obtain g kh where g: "opaque_relay_keypair_generate D (rl_keypair L) (rl_keypair_box L) ?f = Some (0, g)" "keypair_fixture D L ?f kh g"
    "h_relays g = h_relays ?f" "h_relay_states g = h_relay_states ?f"
    by (rule keypair_created [OF laws L, of ?f]) (use w in simp_all)
  define g1 where "g1 = g\<lparr>h_mem := write_ptr (h_mem g) (rl_relay L) 1\<rparr>"
  have f1: "keypair_fixture D L f kh g1" "h_relays g1 = h_relays f" "h_relay_states g1 = h_relay_states f"
    using g(2-4) disjoint(1) by (simp_all add: g1_def keypair_fixture_def read_ptr_write_other)
  then have slot1: "read_ptr (h_mem g1) (rl_keypair L) = rl_keypair_box L" by (simp add: keypair_fixture_def)
  obtain p1 where rel1: "opaque_relay_create D (rl_keypair_box L) (rl_relay L) (rl_relay_box L) g1 = Some (0, p1)" "h_world p1 = h_world g1"
    by (rule relay_create_on_fixture [OF laws L f1(1)]) simp
  obtain h1 where h1: "opaque_relay_create_test D (Some ''relay_create_before_publish'') (rl_keypair_box L) (rl_relay L) (rl_relay_box L) g1
      = Some (-99, h1)" "h_world h1 = h_world p1" "h_mem h1 = write_ptr (h_mem g1) (rl_relay L) 0" "h_keypairs h1 = h_keypairs g1"
    "h_relays h1 = h_relays g1" "h_relay_states h1 = h_relay_states g1"
    using relay_create_contained [of "Some ''relay_create_before_publish''" "rl_relay L" g1 D "rl_keypair_box L" "rl_relay_box L"]
    unfolding rel1(1) by (rule armed_relay_constructor)
  define g2 where "g2 = h1\<lparr>h_mem := write_ptr (h_mem h1) (rl_state L) 1\<rparr>"
  obtain p2 where rel2: "opaque_relay_state_create (rl_state L) (rl_state_box L) g2 = Some (0, p2)" "w_rng (h_world p2) = w_rng (h_world g2)"
    using apart(3) by (simp add: opaque_relay_state_create_def ResponderState_new_def instant_now_def Let_def)
  obtain h2 where h2: "opaque_relay_state_create_test D (Some ''relay_state_create_before_publish'') (rl_state L) (rl_state_box L) g2
      = Some (-99, h2)" "h_world h2 = h_world p2" "h_mem h2 = write_ptr (h_mem g2) (rl_state L) 0" "h_keypairs h2 = h_keypairs g2"
    "h_relays h2 = h_relays g2" "h_relay_states h2 = h_relay_states g2"
    using relay_constructors_contained(2) [of "Some ''relay_state_create_before_publish''" "rl_state L" g2 "rl_state_box L" D]
    unfolding rel2(1) by (rule armed_relay_constructor)
  have "entropy D (h_world g)" using g(2) by (simp add: keypair_fixture_def)
  then have w2: "entropy D (h_world h2)" using h2(2) rel2(2) h1(2) rel1(2) by (simp add: entropy_def g1_def g2_def)
  obtain kp where kp: "ResponderKeyPair_generate D (h_world h2) = (Ok kp, snd (fill_bytes 64 (h_world h2)))" "keypair_valid D kp"
    by (rule keypair_generated [OF laws w2])
  have n: "length (kp_private_key kp) = 32" "length (kp_public_key kp) = 32" using keypair_validD [OF kp(2) laws] by simp_all
  define m where "m = write_bytes (write_bytes (write_bytes (h_mem h2) (rl_private L) (kp_private_key kp)) (rl_public L) (kp_public_key kp))
      (rl_seed L) (replicate 32 0x42)"
  define g3 where "g3 = h2\<lparr>h_world := snd (fill_bytes 64 (h_world h2)), h_mem := write_ptr m (rl_restored L) 1\<rparr>"
  have read: "read_bytes (write_ptr (h_mem g3) (rl_restored L) 0) (rl_private L) 32 = kp_private_key kp"
    "read_bytes (write_ptr (h_mem g3) (rl_restored L) 0) (rl_public L) 32 = kp_public_key kp"
    "read_bytes (write_ptr (h_mem g3) (rl_restored L) 0) (rl_seed L) 32 = replicate 32 0x42"
    using disjoint(8-13) n read_after_write [of "kp_private_key kp"] read_after_write [of "kp_public_key kp"]
      read_after_write [of "replicate 32 0x42 :: bytes"]
    by (simp_all add: g3_def m_def write_ptr_def read_disjoint_write Int_commute [of _ "window (rl_restored L) 8"])
  obtain p3 where rel3: "opaque_relay_create_with_keys D (rl_private L) (of_nat (length (kp_private_key kp))) (rl_public L)
      (of_nat (length (kp_public_key kp))) (rl_seed L) (of_nat OPRF_SEED_LENGTH) (rl_restored L) (rl_relay_box L) g3 = Some (0, p3)"
    "h_world p3 = h_world g3"
  proof -
    have "ResponderKeyPair_from_keys D (kp_private_key kp) (kp_public_key kp) = Ok kp"
      using kp(2) by (auto simp: ResponderKeyPair_from_keys_Ok_iff keypair_valid_def)
    moreover have "\<exists>resp. OpaqueResponder_new D kp (replicate 32 0x42) = Ok resp"
      using keypair_validD(3) [OF kp(2) laws] by (simp add: OpaqueResponder_new_def InMemoryEvaluator_new_def zeros_def)
    moreover have "\<not> ranges_overlap (rl_private L) 32 (rl_restored L) 8" "\<not> ranges_overlap (rl_public L) 32 (rl_restored L) 8"
      "\<not> ranges_overlap (rl_seed L) 32 (rl_restored L) 8" using apart(21-23) by (simp_all add: ranges_overlap_sym)
    ultimately have "\<exists>p3. opaque_relay_create_with_keys D (rl_private L) 32 (rl_public L) 32 (rl_seed L) 32 (rl_restored L) (rl_relay_box L) g3
        = Some (0, p3) \<and> h_world p3 = h_world g3"
      using apart(4-7) read by (auto simp: opaque_relay_create_with_keys_def)
    then show thesis using that n by auto
  qed
  obtain h3 where h3: "opaque_relay_create_with_keys_test D (Some ''relay_create_with_keys_before_publish'') (rl_private L)
      (of_nat (length (kp_private_key kp))) (rl_public L) (of_nat (length (kp_public_key kp))) (rl_seed L) (of_nat OPRF_SEED_LENGTH)
      (rl_restored L) (rl_relay_box L) g3 = Some (-99, h3)" "h_world h3 = h_world p3" "h_mem h3 = write_ptr (h_mem g3) (rl_restored L) 0"
    "h_keypairs h3 = h_keypairs g3" "h_relays h3 = h_relays g3" "h_relay_states h3 = h_relay_states g3"
    using relay_constructors_contained(3) [of "Some ''relay_create_with_keys_before_publish''" "rl_restored L" g3 D "rl_private L"
        "of_nat (length (kp_private_key kp))" "rl_public L" "of_nat (length (kp_public_key kp))" "rl_seed L" "of_nat OPRF_SEED_LENGTH" "rl_relay_box L"]
    unfolding rel3(1) by (rule armed_relay_constructor)
  have "read_ptr (h_mem h3) (rl_keypair L) = rl_keypair_box L"
    using slot1 disjoint(1-7) n by (simp add: h3(3) g3_def m_def h2(3) g2_def h1(3) read_ptr_write_other read_ptr_other)
  then have "keypair_fixture D L f kh h3"
    using f1(1) h1(4) h2(4) h3(2,4) rel3(2) w2 by (simp add: keypair_fixture_def g2_def g3_def)
  from destroy_keypair [OF L this] have ends: "relay_test_passes D f (dropped (opaque_relay_keypair_destroy D (rl_keypair L) h3) Ok)"
    using f1(2,3) h1(5,6) h2(5,6) h3(5,6) by (simp add: g2_def g3_def)
  have slot0: "read_ptr (h_mem g) (rl_keypair L) = rl_keypair_box L" using g(2) by (simp add: keypair_fixture_def)
  have slot2: "read_ptr (write_ptr (h_mem g) (rl_relay L) 1) (rl_keypair L) = rl_keypair_box L" using slot1 by (simp add: g1_def)
  have nulled: "read_ptr (h_mem h1) (rl_relay L) = 0" "read_ptr (h_mem h2) (rl_state L) = 0" "read_ptr (h_mem h3) (rl_restored L) = 0"
    by (simp_all add: h1(3) h2(3) h3(3))
  show ?thesis using g(1) slot0 slot2 nulled h1(1) h2(1) h3(1) kp(1) n ends
    by (simp add: remaining_relay_constructor_panics_leave_out_slots_null_def set_ffi_panic_point_def FFI_PANIC_def
        g1_def [symmetric] g2_def [symmetric] m_def [symmetric] g3_def [symmetric])
qed

section \<open>Properties\<close>


definition sample_relay_layout :: relay_layout where
  "sample_relay_layout = \<lparr>rl_keypair = 8, rl_relay = 16, rl_state = 24, rl_restored = 32, rl_private = 1000, rl_public = 1100, rl_seed = 1200,
     rl_account = 1300, rl_input = 2000, rl_credentials = 4000, rl_output = 6000, rl_keypair_box = 40, rl_relay_box = 48, rl_state_box = 56\<rparr>"


end
