(* ===== verification/Session_Tests.thy ===== *)
theory Session_Tests
  imports Surroundings Delivery Relay_Interface_Tests
begin

text \<open>
  The unit tests of the session handlers in \<^verbatim>\<open>opaque-agent\<close> and \<^verbatim>\<open>opaque-relay\<close> as programs with
  assertions: what expiry leaves of a session, that a registration leaves no key behind, and that
  the first call of a login refreshes the deadline. The tests force a session to count as
  expired with a flag that only test builds have; it stands beside the session here. A test
  ends with \<open>Ok ()\<close>, with \<open>Panic\<close> if an assertion or the \<open>unwrap\<close> of a call fails, or with
  \<open>Err ()\<close> if a call that draws from the random source, or depends on the seed drawn from it, has
  refused to go on.
\<close>

section \<open>Sessions in a test build\<close>

definition initiator_expire_for_test :: "InitiatorState \<times> bool \<Rightarrow> InitiatorState \<times> bool" where
  "initiator_expire_for_test state = (fst state, True)"

definition responder_expire_for_test :: "ResponderState \<times> bool \<Rightarrow> ResponderState \<times> bool" where
  "responder_expire_for_test state = (fst state, True)"

text \<open>
  The flag counts where a handler asks whether the session has expired, behind the guards on
  length and phase. Refreshing the deadline resets it, and so does wiping the session. The first
  calls ask in a phase that does not expire.
\<close>

definition finalize_registration_forced ::
  "('s, 'p, 'ek, 'dk) deps \<Rightarrow> OpaqueInitiator \<Rightarrow> bytes \<Rightarrow> InitiatorState \<times> bool \<Rightarrow> RegistrationRecord \<Rightarrow> world
     \<Rightarrow> unit OpaqueResult \<times> RegistrationRecord \<times> (InitiatorState \<times> bool) \<times> world" where
  "finalize_registration_forced D initiator registration_response state record w =
     (case state of (st, forced_expired) \<Rightarrow>
      if length registration_response = REGISTRATION_RESPONSE_WIRE_LENGTH \<and> i_phase st = RegistrationRequested \<and> forced_expired
      then (Err ValidationError, record, (initiator_invalidate D st, False), w)
      else let (r, record, st, w) = finalize_registration D initiator registration_response st record w in
        (r, record, (st, forced_expired), w))"

definition generate_ke1_forced ::
  "('s, 'p, 'ek, 'dk) deps \<Rightarrow> bytes \<Rightarrow> bytes \<Rightarrow> Ke1Message \<Rightarrow> InitiatorState \<times> bool \<Rightarrow> world
     \<Rightarrow> unit OpaqueResult \<times> Ke1Message \<times> (InitiatorState \<times> bool) \<times> world" where
  "generate_ke1_forced D secure_key account_id ke1 state w =
     (case state of (st, forced_expired) \<Rightarrow>
      let (r, ke1, st, w) = generate_ke1 D secure_key account_id ke1 st w in
      (r, ke1, (st, forced_expired \<and> r \<noteq> Ok ()), w))"

definition generate_ke3_forced ::
  "('s, 'p, 'ek, 'dk) deps \<Rightarrow> OpaqueInitiator \<Rightarrow> bytes \<Rightarrow> InitiatorState \<times> bool \<Rightarrow> Ke3Message \<Rightarrow> world
     \<Rightarrow> unit OpaqueResult \<times> Ke3Message \<times> (InitiatorState \<times> bool) \<times> world" where
  "generate_ke3_forced D initiator ke2_data state ke3 w =
     (case state of (st, forced_expired) \<Rightarrow>
      if length ke2_data = KE2_LENGTH \<and> i_phase st = Ke1Generated \<and> forced_expired
      then (Err ValidationError, ke3, (initiator_invalidate D st, False), w)
      else let (r, ke3, st, w) = generate_ke3 D initiator ke2_data st ke3 w in (r, ke3, (st, forced_expired), w))"

definition generate_ke2_forced ::
  "('s, 'p, 'ek, 'dk) deps \<Rightarrow> 'e OpaqueResponder \<Rightarrow> bytes \<Rightarrow> bytes \<Rightarrow> ResponderCredentials \<Rightarrow> Ke2Message
     \<Rightarrow> ResponderState \<times> bool \<Rightarrow> world \<Rightarrow> unit OpaqueResult \<times> Ke2Message \<times> (ResponderState \<times> bool) \<times> world" where
  "generate_ke2_forced D responder ke1_data account_id credentials ke2 state w =
     (case state of (st, forced_expired) \<Rightarrow>
      let (r, ke2, st, w) = generate_ke2 D responder ke1_data account_id credentials ke2 st w in
      (r, ke2, (st, forced_expired \<and> r \<noteq> Ok ()), w))"

definition responder_finish_forced ::
  "('s, 'p, 'ek, 'dk) deps \<Rightarrow> bytes \<Rightarrow> ResponderState \<times> bool \<Rightarrow> bytes \<Rightarrow> world
     \<Rightarrow> unit OpaqueResult \<times> bytes \<times> (ResponderState \<times> bool) \<times> world" where
  "responder_finish_forced D ke3_data state session_key w =
     (case state of (st, forced_expired) \<Rightarrow>
      if length ke3_data = KE3_LENGTH \<and> r_phase st = Ke2Generated \<and> forced_expired
      then (Err ValidationError, session_key, (responder_invalidate D st, False), w)
      else let (r, session_key, st, w) = responder_finish D ke3_data st session_key w in
        (r, session_key, (st, forced_expired), w))"

section \<open>Steps of a test\<close>

definition unwrap :: "('x, 'e) result \<Rightarrow> ('x \<Rightarrow> ('a, unit) result) \<Rightarrow> ('a, unit) result" where
  "unwrap r k = (case r of Ok x \<Rightarrow> k x | Err _ \<Rightarrow> Panic | Panic \<Rightarrow> Panic)"

definition unwrap_drawn :: "('x, 'e) result \<Rightarrow> ('x \<Rightarrow> ('a, unit) result) \<Rightarrow> ('a, unit) result" where
  "unwrap_drawn r k = (case r of Ok x \<Rightarrow> k x | Err _ \<Rightarrow> Err () | Panic \<Rightarrow> Panic)"

lemma unwrap_simps [simp]: "unwrap (Ok x) k = k x" "unwrap_drawn (Ok x) k = k x" "unwrap_drawn (Err e) k = Err ()"
  by (simp_all add: unwrap_def unwrap_drawn_def)

definition check_all :: "bool list \<Rightarrow> (unit, unit) result" where
  "check_all bs = (if list_all (\<lambda>b. b) bs then Ok () else Panic)"

lemma check_all_simps [simp]: "check_all [] = Ok ()" "check_all (True # bs) = check_all bs"
  by (simp_all add: check_all_def)

text \<open>The beginnings the tests share, each with everything a later step needs.\<close>

definition server_and_client ::
  "('s, 'p, 'ek, 'dk) deps \<Rightarrow> world \<Rightarrow> (InMemoryEvaluator OpaqueResponder \<times> OpaqueInitiator \<times> world, unit) result" where
  "server_and_client D w =
     (let (r, w) = OpaqueResponder_generate D w in
      unwrap_drawn r (\<lambda>responder.
      unwrap (OpaqueInitiator_new D (kp_public_key (or_keypair responder))) (\<lambda>initiator. Ok (responder, initiator, w))))"

definition ke1_sent ::
  "('s, 'p, 'ek, 'dk) deps \<Rightarrow> world \<Rightarrow> (OpaqueInitiator \<times> InitiatorState \<times> world, unit) result" where
  "ke1_sent D w =
     and_then (server_and_client D w) (\<lambda>(_, initiator, w).
     let (state, w) = InitiatorState_new w;
         (r, _, state, w) = generate_ke1 D TEST_PASSWORD TEST_ACCOUNT_ID Ke1Message_new state w in
     unwrap_drawn r (\<lambda>_. Ok (initiator, state, w)))"

definition request_sent ::
  "('s, 'p, 'ek, 'dk) deps \<Rightarrow> world
     \<Rightarrow> (InMemoryEvaluator OpaqueResponder \<times> OpaqueInitiator \<times> RegistrationRequest \<times> InitiatorState \<times> world, unit) result" where
  "request_sent D w =
     and_then (server_and_client D w) (\<lambda>(responder, initiator, w).
     let (state, w) = InitiatorState_new w;
         (r, request, state, w) = create_registration_request D TEST_PASSWORD RegistrationRequest_new state w in
     unwrap_drawn r (\<lambda>_. Ok (responder, initiator, request, state, w)))"

definition registration_done ::
  "('s, 'p, 'ek, 'dk) deps \<Rightarrow> InMemoryEvaluator OpaqueResponder \<Rightarrow> OpaqueInitiator \<Rightarrow> RegistrationRequest \<Rightarrow> InitiatorState
     \<Rightarrow> world \<Rightarrow> (RegistrationRecord \<times> InitiatorState \<times> world, unit) result" where
  "registration_done D responder initiator request state w =
     unwrap (write_registration_request (rq_data request) (zeros REGISTRATION_REQUEST_WIRE_LENGTH)) (\<lambda>request_wire.
     let (r, response) = create_registration_response D responder request_wire TEST_ACCOUNT_ID RegistrationResponse_new in
     unwrap_drawn r (\<lambda>_.
     unwrap (subslice (rs_data response) 0 PUBLIC_KEY_LENGTH :: bytes OpaqueResult) (\<lambda>evaluated.
     unwrap (slice_from (rs_data response) PUBLIC_KEY_LENGTH :: bytes OpaqueResult) (\<lambda>public_key.
     unwrap (write_registration_response evaluated public_key (zeros REGISTRATION_RESPONSE_WIRE_LENGTH)) (\<lambda>response_wire.
     let (r, record, state, w) = finalize_registration D initiator response_wire state RegistrationRecord_new w in
     unwrap r (\<lambda>_. Ok (record, state, w)))))))"

definition credentials_stored ::
  "('s, 'p, 'ek, 'dk) deps \<Rightarrow> RegistrationRecord \<Rightarrow> (ResponderCredentials, unit) result" where
  "credentials_stored D record =
     unwrap (write_registration_record (rd_envelope record) (rd_initiator_public_key record) (zeros REGISTRATION_RECORD_LENGTH))
       (\<lambda>record_bytes.
     let (r, credentials) = build_credentials D record_bytes ResponderCredentials_new in
     unwrap r (\<lambda>_. Ok credentials))"

text \<open>A new client session, made to count as expired or not, and its KE1; and the server's answer to it.\<close>

definition login_started ::
  "('s, 'p, 'ek, 'dk) deps \<Rightarrow> bool \<Rightarrow> world \<Rightarrow> (bytes \<times> (InitiatorState \<times> bool) \<times> world, unit) result" where
  "login_started D stale w =
     (let (st, w) = InitiatorState_new w;
          client = (if stale then initiator_expire_for_test (st, False) else (st, False));
          (r, ke1, client, w) = generate_ke1_forced D TEST_PASSWORD TEST_ACCOUNT_ID Ke1Message_new client w in
      unwrap_drawn r (\<lambda>_.
      unwrap (write_ke1 (m1_credential_request ke1) (m1_initiator_public_key ke1) (m1_initiator_nonce ke1)
        (m1_pq_ephemeral_public_key ke1) (zeros KE1_LENGTH)) (\<lambda>ke1_bytes. Ok (ke1_bytes, client, w))))"

definition login_answered ::
  "('s, 'p, 'ek, 'dk) deps \<Rightarrow> InMemoryEvaluator OpaqueResponder \<Rightarrow> ResponderCredentials \<Rightarrow> bytes \<Rightarrow> bool \<Rightarrow> world
     \<Rightarrow> (Ke2Message \<times> (ResponderState \<times> bool) \<times> world, unit) result" where
  "login_answered D responder credentials ke1_bytes stale w =
     (let (st, w) = ResponderState_new w;
          server = (if stale then responder_expire_for_test (st, False) else (st, False));
          (r, ke2, server, w) = generate_ke2_forced D responder ke1_bytes TEST_ACCOUNT_ID credentials Ke2Message_new server w in
      unwrap_drawn r (\<lambda>_. Ok (ke2, server, w)))"

text \<open>A registration and a login up to KE2; the two arguments say whose new session is made to count as expired.\<close>

definition ke2_received ::
  "('s, 'p, 'ek, 'dk) deps \<Rightarrow> bool \<Rightarrow> bool \<Rightarrow> world
     \<Rightarrow> (OpaqueInitiator \<times> (InitiatorState \<times> bool) \<times> (ResponderState \<times> bool) \<times> Ke2Message \<times> world, unit) result" where
  "ke2_received D stale_client stale_server w =
     and_then (request_sent D w) (\<lambda>(responder, initiator, request, registration_state, w).
     and_then (registration_done D responder initiator request registration_state w) (\<lambda>(record, _, w).
     and_then (credentials_stored D record) (\<lambda>credentials.
     and_then (login_started D stale_client w) (\<lambda>(ke1_bytes, client, w).
     and_then (login_answered D responder credentials ke1_bytes stale_server w) (\<lambda>(ke2, server, w).
     Ok (initiator, client, server, ke2, w))))))"

definition login_ended ::
  "('s, 'p, 'ek, 'dk) deps \<Rightarrow> OpaqueInitiator \<Rightarrow> InitiatorState \<times> bool \<Rightarrow> ResponderState \<times> bool \<Rightarrow> Ke2Message \<Rightarrow> world
     \<Rightarrow> (InitiatorState \<times> ResponderState, unit) result" where
  "login_ended D initiator client server ke2 w =
     unwrap (write_ke2 (m2_responder_nonce ke2) (m2_responder_public_key ke2) (m2_credential_response ke2)
       (m2_responder_mac ke2) (m2_kem_ciphertext ke2) (zeros KE2_LENGTH)) (\<lambda>ke2_bytes.
     let (r, ke3, client, w) = generate_ke3_forced D initiator ke2_bytes client Ke3Message_new w in
     unwrap r (\<lambda>_.
     unwrap (write_ke3 (m3_initiator_mac ke3) (zeros KE3_LENGTH)) (\<lambda>ke3_bytes.
     let (r, _, server, w) = responder_finish_forced D ke3_bytes server (zeros HASH_LENGTH) w in
     unwrap r (\<lambda>_. Ok (fst client, fst server)))))"

section \<open>The tests\<close>

definition expired_authentication_state_is_zeroized :: "('s, 'p, 'ek, 'dk) deps \<Rightarrow> world \<Rightarrow> (unit, unit) result" where
  "expired_authentication_state_is_zeroized D w =
     and_then (ke1_sent D w) (\<lambda>(initiator, st, w).
     unwrap (subslice (i_secure_key st) 0 (i_secure_key_len st) :: bytes OpaqueResult) (\<lambda>password.
     and_then (check_all [\<not> is_all_zero D password, \<not> is_all_zero D (i_ephemeral_private_key st),
         \<not> is_all_zero D (i_pq_secret_key st), \<not> is_all_zero D (i_blind_scalar st),
         \<not> is_all_zero D (i_account_context_hash st)]) (\<lambda>_.
     let (result, _, (st, _), _) = generate_ke3_forced D initiator (zeros KE2_LENGTH)
           (initiator_expire_for_test (st, False)) Ke3Message_new w in
     check_all [result = Err ValidationError, i_phase st = IFinished, is_all_zero D (i_secure_key st), i_secure_key_len st = 0,
       is_all_zero D (i_ephemeral_private_key st), is_all_zero D (i_pq_secret_key st), is_all_zero D (i_blind_scalar st),
       is_all_zero D (i_account_context_hash st)])))"

definition expired_registration_state_is_zeroized :: "('s, 'p, 'ek, 'dk) deps \<Rightarrow> world \<Rightarrow> (unit, unit) result" where
  "expired_registration_state_is_zeroized D w =
     and_then (request_sent D w) (\<lambda>(_, initiator, _, st, w).
     unwrap (subslice (i_secure_key st) 0 (i_secure_key_len st) :: bytes OpaqueResult) (\<lambda>password.
     and_then (check_all [\<not> is_all_zero D password, \<not> is_all_zero D (i_private_key st), \<not> is_all_zero D (i_blind_scalar st)]) (\<lambda>_.
     let (result, _, (st, _), _) = finalize_registration_forced D initiator (zeros REGISTRATION_RESPONSE_WIRE_LENGTH)
           (initiator_expire_for_test (st, False)) RegistrationRecord_new w in
     check_all [result = Err ValidationError, i_phase st = IFinished, is_all_zero D (i_secure_key st), i_secure_key_len st = 0,
       is_all_zero D (i_private_key st), is_all_zero D (i_blind_scalar st)])))"

definition finalized_registration_zeroizes_registration_private_key ::
  "('s, 'p, 'ek, 'dk) deps \<Rightarrow> world \<Rightarrow> (unit, unit) result" where
  "finalized_registration_zeroizes_registration_private_key D w =
     and_then (request_sent D w) (\<lambda>(responder, initiator, request, st, w).
     and_then (check_all [\<not> is_all_zero D (i_private_key st)]) (\<lambda>_.
     and_then (registration_done D responder initiator request st w) (\<lambda>(record, st, _).
     check_all [i_phase st = RegistrationFinalized, is_all_zero D (i_private_key st), is_all_zero D (i_secure_key st),
       i_secure_key_len st = 0, is_all_zero D (i_blind_scalar st), \<not> is_all_zero D (rd_initiator_public_key record)])))"

definition expired_responder_state_is_zeroized :: "('s, 'p, 'ek, 'dk) deps \<Rightarrow> world \<Rightarrow> (unit, unit) result" where
  "expired_responder_state_is_zeroized D w =
     and_then (ke2_received D False False w) (\<lambda>(_, _, server, _, w).
     let st = fst server in
     and_then (check_all [\<not> is_all_zero D (r_private_key st), \<not> is_all_zero D (r_ephemeral_private_key st),
         \<not> is_all_zero D (r_expected_initiator_mac st), \<not> is_all_zero D (r_pq_shared_secret st)]) (\<lambda>_.
     let (result, _, (st, _), _) = responder_finish_forced D (zeros KE3_LENGTH) (responder_expire_for_test server) (zeros HASH_LENGTH) w in
     check_all [result = Err ValidationError, r_phase st = RFinished, \<not> r_handshake_complete st, is_all_zero D (r_private_key st),
       is_all_zero D (r_ephemeral_private_key st), is_all_zero D (r_expected_initiator_mac st),
       is_all_zero D (r_pq_shared_secret st), is_all_zero D (r_session_key st)]))"

definition stale_created_authentication_state_is_refreshed_by_ke1 ::
  "('s, 'p, 'ek, 'dk) deps \<Rightarrow> world \<Rightarrow> (unit, unit) result" where
  "stale_created_authentication_state_is_refreshed_by_ke1 D w =
     and_then (ke2_received D True False w) (\<lambda>(initiator, client, server, ke2, w).
     and_then (login_ended D initiator client server ke2 w) (\<lambda>(client, _).
     check_all [i_phase client = Ke3Generated, \<not> is_all_zero D (i_session_key client)]))"

definition stale_created_responder_state_is_refreshed_by_ke2 ::
  "('s, 'p, 'ek, 'dk) deps \<Rightarrow> world \<Rightarrow> (unit, unit) result" where
  "stale_created_responder_state_is_refreshed_by_ke2 D w =
     and_then (ke2_received D False True w) (\<lambda>(initiator, client, server, ke2, w).
     and_then (login_ended D initiator client server ke2 w) (\<lambda>(_, server).
     check_all [r_handshake_complete server, r_phase server = RFinished]))"

section \<open>Runs\<close>

text \<open>What a run comes to: it is refused, if that can be, or it yields a value of which something holds.\<close>

definition yields :: "bool \<Rightarrow> ('a, unit) result \<Rightarrow> ('a \<Rightarrow> bool) \<Rightarrow> bool" where
  "yields refusable r Q \<longleftrightarrow> refusable \<and> r = Err () \<or> (\<exists>x. r = Ok x \<and> Q x)"

lemma yields_Ok [simp]: "yields E (Ok x) Q = Q x"
  by (auto simp: yields_def)

lemma yields_and_then:
  assumes "yields E r R" and "\<And>x. r = Ok x \<Longrightarrow> R x \<Longrightarrow> yields E (f x) Q"
  shows "yields E (and_then r f) Q"
  using assms by (auto simp: yields_def)

lemma yields_drawn:
  assumes "r \<noteq> Panic" "E \<or> is_ok r" and "\<And>x. r = Ok x \<Longrightarrow> yields E (k x) Q"
  shows "yields E (unwrap_drawn r k) Q"
  using assms by (cases r) (auto simp: yields_def)

text \<open>Surroundings in which no call is refused.\<close>

definition amply :: "('s, 'p, 'ek, 'dk) deps \<Rightarrow> (world \<Rightarrow> bool) \<Rightarrow> bool" where
  "amply D P \<longleftrightarrow> (\<forall>w. P w \<longrightarrow> entropy D w) \<and> password_point D TEST_PASSWORD \<noteq> point_identity D \<and>
     account_context D TEST_ACCOUNT_ID \<noteq> zeros 64 \<and> (\<forall>seed. seed \<noteq> [] \<longrightarrow> is_ok (derive_oprf_key D seed TEST_ACCOUNT_ID)) \<and>
     (\<forall>m. scalar_from_wide D (sha512_digest D (DERIVE_KEYPAIR_CONTEXT @ m)) \<noteq> scalar_zero D) \<and>
     (\<forall>rwd. masking_key_of D rwd \<noteq> zeros 32)"

definition supplied :: "bool \<Rightarrow> ('s, 'p, 'ek, 'dk) deps \<Rightarrow> (world \<Rightarrow> bool) \<Rightarrow> bool" where
  "supplied refusable D P \<longleftrightarrow> deps_laws D \<and> surroundings D P \<and> (\<forall>w. P w \<longrightarrow> brisk w) \<and> (refusable \<or> amply D P)"

lemma suppliedD:
  assumes "supplied E D P"
  shows "deps_laws D" "surroundings D P" "P w \<Longrightarrow> brisk w"
    "E \<or> password_point D TEST_PASSWORD \<noteq> point_identity D" "E \<or> account_context D TEST_ACCOUNT_ID \<noteq> zeros 64"
    "seed \<noteq> [] \<Longrightarrow> E \<or> is_ok (derive_oprf_key D seed TEST_ACCOUNT_ID)"
    "E \<or> scalar_from_wide D (sha512_digest D (DERIVE_KEYPAIR_CONTEXT @ m)) \<noteq> scalar_zero D"
    "E \<or> masking_key_of D rwd \<noteq> zeros 32" "P w \<Longrightarrow> E \<or> entropy D w"
  using assms by (auto simp: supplied_def amply_def)

lemma supplied_timely:
  assumes "supplied E D P"
  shows "supplied E D (\<lambda>w. P w \<and> timely c w)"
proof -
  note s = suppliedD(2) [OF assms]
  have "surroundings D (\<lambda>w. P w \<and> timely c w)"
    using surroundings.fill [OF s] surroundings.now [OF s] surroundings.generate [OF s] surroundings.encapsulate_draws [OF s]
    by unfold_locales (auto intro: timely_world.fill timely_world.now timely_world.generate timely_world.encapsulate_draws)
  with assms show ?thesis by (auto simp: supplied_def amply_def)
qed

lemma supplied_stamped: "supplied E D P \<Longrightarrow> stamped P c w \<Longrightarrow> timely c w"
  by (auto intro: stamped_timely stamped_mono suppliedD)

section \<open>The preparations\<close>

definition server_made :: "('s, 'p, 'ek, 'dk) deps \<Rightarrow> InMemoryEvaluator OpaqueResponder \<Rightarrow> OpaqueInitiator \<Rightarrow> bool" where
  "server_made D responder initiator \<longleftrightarrow> keypair_valid D (or_keypair responder) \<and> OpaqueResponder_wf responder \<and>
     (\<exists>e. or_evaluator responder = InMemoryEvaluator_dyn D e \<and> mem_oprf_seed e \<noteq> []) \<and>
     OpaqueInitiator_new D (kp_public_key (or_keypair responder)) = Ok initiator"

lemma OpaqueResponder_generate_made:
  assumes "deps_laws D" "OpaqueResponder_generate D w = (r, w')"
  obtains e where "r = Err e" | resp init where "r = Ok resp" "server_made D resp init"
proof -
  note laws [simp] = deps_lawsD [OF assms(1)]
  obtain r1 w1 where rnd: "random_nonzero_scalar D w = (r1, w1)" by fastforce
  show thesis
    using laws(6,1) rnd
  proof (cases rule: random_nonzero_scalar_cases)
    case (2 s)
    let ?kp = "\<lparr>kp_private_key = scalar_bytes D s, kp_public_key = point_compress D (base_mul D s)\<rparr>"
    let ?seed = "fst (fill_bytes 32 w1)"
    have made: "r = OpaqueResponder_new D ?kp ?seed"
      using assms(2) rnd 2
      by (cases "InMemoryEvaluator_new D ?seed")
        (auto simp: OpaqueResponder_generate_def ResponderKeyPair_generate_def OpaqueResponder_new_def Let_def)
    show thesis
    proof (cases "OpaqueResponder_new D ?kp ?seed")
      case (Ok resp)
      note wf = OpaqueResponder_new_wf [OF assms(1) Ok]
      have pk: "kp_public_key (or_keypair resp) = point_compress D (base_mul D s)" and kp: "keypair_valid D (or_keypair resp)"
        using wf(2) 2(1) by (auto simp: keypair_valid_def)
      then have "OpaqueInitiator_new D (kp_public_key (or_keypair resp)) = Ok \<lparr>oi_responder_public_key = kp_public_key (or_keypair resp)\<rparr>"
        using 2(1) by (auto simp: OpaqueInitiator_new_Ok_iff)
      moreover have "?seed \<noteq> []" using length_fill_bytes [of 32 w1] by (metis list.size(3) zero_neq_numeral)
      ultimately show thesis using wf kp made Ok by (intro that(2)) (auto simp: server_made_def)
    qed (use made that(1) in \<open>auto simp: OpaqueResponder_new_def InMemoryEvaluator_new_def result_simps no_panic split: if_splits\<close>)
  qed (use assms(2) rnd that in \<open>auto simp: OpaqueResponder_generate_def ResponderKeyPair_generate_def\<close>)
qed

text \<open>Such a server answers honestly for every account its seed gives a key for, and refuses the others.\<close>

definition account_key_found :: "('s, 'p, 'ek, 'dk) deps \<Rightarrow> InMemoryEvaluator OpaqueResponder \<Rightarrow> bytes \<Rightarrow> bool" where
  "account_key_found D resp a \<longleftrightarrow> is_ok (derive_oprf_key D (mem_oprf_seed (ev_self (or_evaluator resp))) a)"

lemma server_made_honest:
  assumes laws: "deps_laws D" and made: "server_made D resp init" and a: "a \<noteq> []" and key: "account_key_found D resp a"
  obtains s k where "honest_responder D resp a s k"
proof -
  note D [simp] = deps_lawsD [OF laws]
  obtain e s where e: "or_evaluator resp = InMemoryEvaluator_dyn D e" and s: "s \<noteq> scalar_zero D"
    "kp_private_key (or_keypair resp) = scalar_bytes D s" "kp_public_key (or_keypair resp) = point_compress D (base_mul D s)"
    using made by (auto simp: server_made_def keypair_valid_def)
  have usable: "mem_usable D e a" using key by (simp add: account_key_found_def mem_usable_def e InMemoryEvaluator_dyn_def)
  have "honest_responder D resp a s (mem_account_key D e a)"
    using s made a e mem_oprf.key_nonzero [OF usable] mem_oprf.evaluates [OF usable]
    by (simp add: honest_responder_def responder_evaluate_oprf_def InMemoryEvaluator_dyn_def server_made_def)
  then show thesis by (rule that)
qed

lemma server_made_refuses:
  assumes laws: "deps_laws D" and made: "server_made D resp init" and key: "\<not> account_key_found D resp a"
  shows "\<exists>e. responder_evaluate_oprf resp b a = Err e"
proof -
  obtain ev where ev: "or_evaluator resp = InMemoryEvaluator_dyn D ev" using made by (auto simp: server_made_def)
  then show ?thesis
    using key derive_oprf_key_no_panic [OF deps_lawsD(3,1,6) [OF laws], of "mem_oprf_seed ev" a]
    by (cases "derive_oprf_key D (mem_oprf_seed ev) a")
      (simp_all add: account_key_found_def responder_evaluate_oprf_def InMemoryEvaluator_dyn_def mem_evaluate_oprf_def)
qed

lemma server_and_client_yields:
  assumes run: "supplied E D P" and w: "P w"
  shows "yields E (server_and_client D w) (\<lambda>(resp, init, w'). P w' \<and> server_made D resp init)"
proof -
  obtain r w' where g: "OpaqueResponder_generate D w = (r, w')" by fastforce
  note laws = suppliedD(1) [OF run]
  have w': "P w'" using leavesD [OF surroundings.responder_keeps [OF suppliedD(2) [OF run] w] g] .
  have "E \<or> is_ok r" using responder_generated [OF laws, of w] suppliedD(9) [OF run w] g by auto
  then show ?thesis
    by (cases rule: OpaqueResponder_generate_made [OF laws g])
      (auto simp: server_and_client_def g w' server_made_def yields_def)
qed

text \<open>The new session of a test, and its first call.\<close>

lemma test_password_typed: "TEST_PASSWORD \<noteq> []" "TEST_ACCOUNT_ID \<noteq> []" "length TEST_PASSWORD \<le> 4096"
  using test_data_lengths by (auto simp del: test_data_lengths)

definition request_ready ::
  "('s, 'p, 'ek, 'dk) deps \<Rightarrow> (world \<Rightarrow> bool)
     \<Rightarrow> InMemoryEvaluator OpaqueResponder \<times> OpaqueInitiator \<times> RegistrationRequest \<times> InitiatorState \<times> world \<Rightarrow> bool" where
  "request_ready D P = (\<lambda>(resp, init, req, st, w). P w \<and> timely (i_created_at st) w \<and> server_made D resp init \<and>
     registration_pending D TEST_PASSWORD st (rq_data req))"

lemma request_sent_yields:
  assumes run: "supplied E D P" and w: "P w"
  shows "yields E (request_sent D w) (request_ready D P)"
  unfolding request_sent_def
proof (rule yields_and_then [OF server_and_client_yields [OF run w]], clarify)
  fix resp init w1 assume w1: "P w1" and made: "server_made D resp init"
  note laws = suppliedD(1) [OF run]
  obtain st w2 where new: "InitiatorState_new w1 = (st, w2)" by fastforce
  have st: "initiator_wf st" "i_phase st = ICreated" using InitiatorState_new_props [of w1] by (simp_all add: new)
  have w2: "P w2" using surroundings.client_new [OF suppliedD(2) [OF run] w1] by (simp add: new)
  obtain r req st1 w3 where call: "create_registration_request D TEST_PASSWORD RegistrationRequest_new st w2 = (r, req, st1, w3)"
    by (metis prod_cases4)
  have inv: "initiator_inv st" using st by simp
  have no_panic: "r \<noteq> Panic"
    using leavesD [OF create_registration_request_call [OF laws inv] call] by (auto simp: initiator_call_def)
  have ok: "E \<or> is_ok r"
    using create_registration_request_succeeds [OF laws st, of TEST_PASSWORD w2 RegistrationRequest_new] test_password_typed
      suppliedD(4) [OF run] suppliedD(9) [OF run w2] call by (auto simp: entropy_def)
  have "P w3" "r = Ok () \<Longrightarrow> stamped P (i_created_at st1) w3"
    using leavesD [OF surroundings.request_keeps [OF suppliedD(2) [OF run] w2] call] by auto
  then have "request_ready D P (resp, init, req, st1, w3)" if "r = Ok ()"
    using that made supplied_stamped [OF run] create_registration_request_Ok [OF laws st(1)] call
    by (auto simp: request_ready_def)
  with no_panic ok show "yields E (let (state, w) = InitiatorState_new w1;
      (r, request, state, w) = create_registration_request D TEST_PASSWORD RegistrationRequest_new state w
      in unwrap_drawn r (\<lambda>_. Ok (resp, init, request, state, w))) (request_ready D P)"
    by (auto simp: new call intro!: yields_drawn)
qed

lemma finalized_record_key:
  assumes laws: "deps_laws D" and wf: "initiator_wf st"
    and run: "finalize_registration D init resp_data st rec w = (Ok (), rec', st', w')"
  shows "rd_initiator_public_key rec' = i_public_key st"
proof (cases rule: finalize_registration_cases [OF laws wf run refl])
  case (2 view out w1)
  obtain env where "finalize_registration D init resp_data st rec w = (Ok (), rec\<lparr>rd_envelope := env, rd_initiator_public_key := i_public_key st\<rparr>,
      registration_finalized st (rr_responder_public_key view), snd (fill_bytes 24 w1))"
    by (rule finalize_registration_accepts [OF laws wf 2(1-4) refl 2(5-) refl refl, of rec])
  with run show ?thesis by auto
qed simp

text \<open>An account registered by a test.\<close>

definition account_stored ::
  "('s, 'p, 'ek, 'dk) deps \<Rightarrow> InMemoryEvaluator OpaqueResponder \<Rightarrow> ResponderCredentials \<Rightarrow> bool" where
  "account_stored D resp cred \<longleftrightarrow> credentials_sized cred \<and>
     (\<exists>s k. honest_responder D resp TEST_ACCOUNT_ID s k \<and>
        account_ready D (password_key D k TEST_PASSWORD) (kp_public_key (or_keypair resp)) cred)"

lemma registration_done_yields:
  assumes run: "supplied E D P" and ready: "request_ready D P (resp, init, req, st, w)"
  shows "yields E (registration_done D resp init req st w) (\<lambda>(rec, st', w'). P w' \<and> initiator_inv st' \<and>
     i_phase st' = RegistrationFinalized \<and> rd_initiator_public_key rec = i_public_key st \<and>
     (\<exists>cred. credentials_stored D rec = Ok cred \<and> account_stored D resp cred))"
proof -
  note laws = suppliedD(1) [OF run]
  note D [simp] = deps_lawsD [OF laws]
  from ready have w: "P w" "timely (i_created_at st) w" and made: "server_made D resp init"
    and pend: "registration_pending D TEST_PASSWORD st (rq_data req)" by (simp_all add: request_ready_def)
  have st: "initiator_wf st" "i_phase st = RegistrationRequested" and len: "length (rq_data req) = 32"
    using pend by (auto simp: registration_pending_def)
  obtain w1 where fresh: "initiator_is_expired st w = (False, w1)" using timely_fresh(1) [OF w(2)] by (metis prod.collapse)
  have pin: "oi_responder_public_key init = kp_public_key (or_keypair resp)"
    using made by (auto simp: server_made_def OpaqueInitiator_new_Ok_iff)
  have written: "registration_done D resp init req st w =
      (case create_registration_response D resp (registration_request_wire (rq_data req)) TEST_ACCOUNT_ID RegistrationResponse_new of
        (r, rs) \<Rightarrow> unwrap_drawn r (\<lambda>_.
          unwrap (subslice (rs_data rs) 0 PUBLIC_KEY_LENGTH :: bytes OpaqueResult) (\<lambda>evaluated.
          unwrap (slice_from (rs_data rs) PUBLIC_KEY_LENGTH :: bytes OpaqueResult) (\<lambda>public_key.
          unwrap (write_registration_response evaluated public_key (zeros REGISTRATION_RESPONSE_WIRE_LENGTH)) (\<lambda>response_wire.
          let (r, record, state, w) = finalize_registration D init response_wire st RegistrationRecord_new w in
          unwrap r (\<lambda>_. Ok (record, state, w)))))))"
    by (simp add: registration_done_def request_delivered [OF len, simplified])
  show ?thesis
  proof (cases "account_key_found D resp TEST_ACCOUNT_ID")
    case True
    obtain s k where honest: "honest_responder D resp TEST_ACCOUNT_ID s k"
      by (rule server_made_honest [OF laws made test_password_typed(2) True])
    obtain rs rec st2 w4 cred where reg:
      "create_registration_response D resp (registration_request_wire (rq_data req)) TEST_ACCOUNT_ID RegistrationResponse_new = (Ok (), rs)"
      "finalize_registration D init (PROTOCOL_VERSION # rs_data rs) st RegistrationRecord_new w = (Ok (), rec, st2, w4)"
      "length (rs_data rs) = 64" "length (rd_envelope rec) = 168" "length (rd_initiator_public_key rec) = 32"
      "build_credentials D (PROTOCOL_VERSION # rd_envelope rec @ rd_initiator_public_key rec) ResponderCredentials_new = (Ok (), cred)"
      "account_ready D (password_key D k TEST_PASSWORD) (kp_public_key (or_keypair resp)) cred"
      by (rule registration_completes_aux [OF laws honest pin pend fresh])
    have result: "registration_done D resp init req st w = Ok (rec, st2, w4)"
      using reg(2,3) response_delivered [OF reg(3)] by (simp add: written reg(1) slice_simps)
    have "credentials_stored D rec = Ok cred"
      using record_delivered [OF reg(4,5)] reg(6) by (simp add: credentials_stored_def)
    moreover have "credentials_sized cred"
      using reg(7) by (auto simp: account_ready_def credentials_sized_def)
    moreover have "initiator_inv st2" "i_phase st2 = RegistrationFinalized"
      using finalize_registration_call [OF laws _ reg(2)] st by (auto simp: initiator_call_def)
    moreover have "P w4" using leavesD [OF surroundings.finalize_keeps [OF suppliedD(2) [OF run] w(1)] reg(2)] by simp
    ultimately show ?thesis
      using result finalized_record_key [OF laws st(1) reg(2)] honest reg(7) by (auto simp: account_stored_def)
  next
    case False
    moreover have "mem_oprf_seed (ev_self (or_evaluator resp)) \<noteq> []"
      using made by (auto simp: server_made_def InMemoryEvaluator_dyn_def)
    ultimately have E using suppliedD(6) [OF run] by (auto simp: account_key_found_def)
    obtain x where "rq_data req = point_compress D (point_mul D x (password_point D TEST_PASSWORD))" "x \<noteq> scalar_zero D"
      "password_point D TEST_PASSWORD \<noteq> point_identity D"
      using pend by (auto simp: registration_pending_def)
    moreover have "parse_registration_request (registration_request_wire (rq_data req)) = Ok (rq_data req)"
      by (rule registration_request_codec.parse_wire) (simp add: len)
    ultimately have "fst (create_registration_response D resp (registration_request_wire (rq_data req)) TEST_ACCOUNT_ID
        RegistrationResponse_new) \<in> range Err"
      using server_made_refuses [OF laws made False, of "rq_data req"] test_password_typed(2)
      by (auto simp: create_registration_response_def slice_simps)
    with \<open>E\<close> show ?thesis by (auto simp: written yields_def split: prod.split)
  qed
qed

lemma ke1_called:
  assumes run: "supplied E D P" and w: "P w" and st: "initiator_wf st" "i_phase st = ICreated"
    and call: "generate_ke1 D TEST_PASSWORD TEST_ACCOUNT_ID Ke1Message_new st w = (r, ke1, st', w')"
  shows "r \<noteq> Panic" "E \<or> is_ok r" "P w'"
    "r = Ok () \<Longrightarrow> timely (i_created_at st') w' \<and> login_pending D TEST_PASSWORD TEST_ACCOUNT_ID st' ke1"
proof -
  note laws = suppliedD(1) [OF run]
  note s = suppliedD(2) [OF run]
  have inv: "initiator_inv st" and n: "length (m1_initiator_nonce Ke1Message_new) = 24"
    using st by (simp_all add: Ke1Message_new_def)
  note post = leavesD [OF generate_ke1_call [OF laws inv n] call, simplified]
  show "r \<noteq> Panic" using post by (simp add: initiator_call_def)
  have keeps: "P w'" "r = Ok () \<Longrightarrow> stamped P (i_created_at st') w'"
    using leavesD [OF surroundings.ke1_keeps [OF s w] call] by auto
  then show "P w'" by simp
  show "r = Ok () \<Longrightarrow> timely (i_created_at st') w' \<and> login_pending D TEST_PASSWORD TEST_ACCOUNT_ID st' ke1"
    using post keeps(2) supplied_stamped [OF run] by simp
  have "P (snd (fill_bytes 64 w)\<lparr>w_rng := snd (kem_generate D (w_rng (snd (fill_bytes 64 w))))\<rparr>)"
    by (intro surroundings.generate [OF s] surroundings.fill [OF s] w)
  note rich = suppliedD(9) [OF run this] suppliedD(9) [OF run w] suppliedD(4) [OF run]
  show "E \<or> is_ok r"
  proof (rule disjCI)
    assume "\<not> is_ok r"
    show E
    proof (rule ccontr)
      assume "\<not> E"
      with rich have "\<exists>ke1' st' w'. generate_ke1 D TEST_PASSWORD TEST_ACCOUNT_ID Ke1Message_new st w = (Ok (), ke1', st', w')"
        by (intro generate_ke1_succeeds [OF laws st test_password_typed(1,3) _ test_password_typed(2) n]) (simp_all add: entropy_def)
      with call \<open>\<not> is_ok r\<close> show False by auto
    qed
  qed
qed

lemma ke1_sent_yields:
  assumes run: "supplied E D P" and w: "P w"
  shows "yields E (ke1_sent D w) (\<lambda>(init, st, w'). P w' \<and> timely (i_created_at st) w' \<and>
     (\<exists>ke1. login_pending D TEST_PASSWORD TEST_ACCOUNT_ID st ke1))"
  unfolding ke1_sent_def
proof (rule yields_and_then [OF server_and_client_yields [OF run w]], clarify)
  fix resp init w1 assume w1: "P w1"
  obtain st w2 where new: "InitiatorState_new w1 = (st, w2)" by fastforce
  have st: "initiator_wf st" "i_phase st = ICreated" using InitiatorState_new_props [of w1] by (simp_all add: new)
  have w2: "P w2" using surroundings.client_new [OF suppliedD(2) [OF run] w1] by (simp add: new)
  obtain r ke1 st1 w3 where call: "generate_ke1 D TEST_PASSWORD TEST_ACCOUNT_ID Ke1Message_new st w2 = (r, ke1, st1, w3)"
    by (metis prod_cases4)
  note c = ke1_called [OF run w2 st call]
  show "yields E (let (state, w) = InitiatorState_new w1;
      (r, _, state, w) = generate_ke1 D TEST_PASSWORD TEST_ACCOUNT_ID Ke1Message_new state w
      in unwrap_drawn r (\<lambda>_. Ok (init, state, w)))
     (\<lambda>(init, st, w'). P w' \<and> timely (i_created_at st) w' \<and> (\<exists>ke1. login_pending D TEST_PASSWORD TEST_ACCOUNT_ID st ke1))"
    unfolding new call Let_def prod.case by (rule yields_drawn [OF c(1,2)]) (use c(3,4) in auto)
qed

text \<open>A login up to KE2 with both sessions in time, as agreement between the two sides needs it.\<close>

definition ke2_ready ::
  "('s, 'p, 'ek, 'dk) deps \<Rightarrow> (world \<Rightarrow> bool) \<Rightarrow> OpaqueInitiator \<Rightarrow> InitiatorState \<Rightarrow> ResponderState \<Rightarrow> Ke2Message \<Rightarrow> world \<Rightarrow> bool" where
  "ke2_ready D P init client server ke2 w \<longleftrightarrow> P w \<and> timely (i_created_at client) w \<and> timely (r_created_at server) w \<and>
     (\<exists>resp s k cred ist v0 ke1 v1 ke1_data rst v2 v3.
        honest_responder D resp TEST_ACCOUNT_ID s k \<and> OpaqueInitiator_new D (kp_public_key (or_keypair resp)) = Ok init \<and>
        account_ready D (password_key D k TEST_PASSWORD) (kp_public_key (or_keypair resp)) cred \<and> credentials_sized cred \<and>
        initiator_inv ist \<and> responder_inv rst \<and>
        generate_ke1 D TEST_PASSWORD TEST_ACCOUNT_ID Ke1Message_new ist v0 = (Ok (), ke1, client, v1) \<and>
        write_ke1 (m1_credential_request ke1) (m1_initiator_public_key ke1) (m1_initiator_nonce ke1)
          (m1_pq_ephemeral_public_key ke1) (zeros KE1_LENGTH) = Ok ke1_data \<and>
        generate_ke2 D (resp :: InMemoryEvaluator OpaqueResponder) ke1_data TEST_ACCOUNT_ID cred Ke2Message_new rst v2
          = (Ok (), ke2, server, v3))"

lemma ke2_called:
  assumes run: "supplied E D P" and w: "P w" and st: "responder_wf st" "r_phase st = RCreated" "\<not> r_handshake_complete st"
    and made: "server_made D resp init" and stored: "account_stored D resp cred"
    and ke1: "login_pending D TEST_PASSWORD TEST_ACCOUNT_ID ist ke1" "parse_ke1 ke1_data = Ok (ke1_view ke1)"
    and call: "generate_ke2 D resp ke1_data TEST_ACCOUNT_ID cred Ke2Message_new st w = (r, ke2, st', w')"
  shows "r \<noteq> Panic" "E \<or> is_ok r" "P w'" "r = Ok () \<Longrightarrow> timely (r_created_at st') w'"
proof -
  note laws = suppliedD(1) [OF run]
  note D [simp] = deps_lawsD [OF laws]
  note s = suppliedD(2) [OF run]
  have wf: "OpaqueResponder_wf resp" and sized: "credentials_sized cred" and inv: "responder_inv st"
    and n: "ke2_message_sized Ke2Message_new"
    using made stored st by (simp_all add: server_made_def account_stored_def Ke2Message_new_def ke2_message_sized_def)
  show "r \<noteq> Panic"
    using leavesD [OF generate_ke2_call [OF laws wf sized inv n] call] by (auto simp: ke2_outcome_def responder_call_def)
  show "P w'" "r = Ok () \<Longrightarrow> timely (r_created_at st') w'"
    using leavesD [OF surroundings.ke2_keeps [OF s w] call] supplied_stamped [OF run] by auto
  obtain sk k si where h: "honest_responder D resp TEST_ACCOUNT_ID sk k" and c: "c_registered cred"
    "c_masking_key cred = masking_key_of D (password_key D k TEST_PASSWORD)" "si \<noteq> scalar_zero D"
    "c_initiator_public_key cred = point_compress D (base_mul D si)" "length (c_envelope cred) = 136"
    using stored by (auto simp: account_stored_def account_ready_def sealed_keys_def)
  obtain ev where ev: "or_evaluator resp = InMemoryEvaluator_dyn D ev" using made by (auto simp: server_made_def)
  obtain x y ek where m: "k1_credential_request (ke1_view ke1) = point_compress D (point_mul D x (password_point D TEST_PASSWORD))"
    "x \<noteq> scalar_zero D" "password_point D TEST_PASSWORD \<noteq> point_identity D" "y \<noteq> scalar_zero D"
    "k1_initiator_public_key (ke1_view ke1) = point_compress D (base_mul D y)"
    "k1_pq_ephemeral_public_key (ke1_view ke1) = ek_to_bytes D ek"
    using ke1(1) by (auto simp: login_pending_def ke1_view_def)
  have fake: "responder_fake_material resp TEST_ACCOUNT_ID = Ok (sha512_multi D [FAKE_CREDENTIALS_CONTEXT, mem_oprf_seed ev, TEST_ACCOUNT_ID])"
    by (simp add: responder_fake_material_def ev InMemoryEvaluator_dyn_def mem_derive_fake_material_def)
  show "E \<or> is_ok r"
  proof (rule ccontr)
    assume neg: "\<not> (E \<or> is_ok r)"
    then have rich: "masking_key_of D rwd \<noteq> zeros 32" "scalar_from_wide D (sha512_digest D (DERIVE_KEYPAIR_CONTEXT @ b)) \<noteq> scalar_zero D"
      "account_context D TEST_ACCOUNT_ID \<noteq> zeros 64" "entropy D w" for rwd b
      using suppliedD(5,7,8) [OF run] suppliedD(9) [OF run w] by blast+
    have sel: "select_credentials D resp TEST_ACCOUNT_ID cred =
        Ok (point_compress D (base_mul D si), c_envelope cred, c_masking_key cred)"
      using c rich by (simp add: select_credentials_eq [OF laws wf sized fake])
    have eval: "responder_evaluate_oprf resp (point_compress D (point_mul D x (password_point D TEST_PASSWORD))) TEST_ACCOUNT_ID =
        Ok (point_compress D (point_mul D k (point_mul D x (password_point D TEST_PASSWORD))))"
      and sk: "kp_private_key (or_keypair resp) = scalar_bytes D sk" "sk \<noteq> scalar_zero D"
      using h m(2,3) by (simp_all add: honest_responder_def)
    have "\<exists>ke2' st' w'. generate_ke2 D resp ke1_data TEST_ACCOUNT_ID cred Ke2Message_new st w = (Ok (), ke2', st', w')"
      by (rule generate_ke2_succeeds [OF laws wf st(1,2) test_password_typed(2) n ke1(2) m(1) _ m(5) _ m(6) sel _ c(5) _ _ sk eval rich(3)])
        (use c m rich in \<open>simp_all add: entropy_def\<close>)
    then show False using neg call by auto
  qed
qed

lemma login_started_yields:
  assumes run: "supplied E D P" and w: "P w"
  shows "yields E (login_started D stale w) (\<lambda>(ke1_bytes, client, w'). P w' \<and> timely (i_created_at (fst client)) w' \<and> \<not> snd client \<and>
     (\<exists>ist v ke1 v'. initiator_inv ist \<and>
        generate_ke1 D TEST_PASSWORD TEST_ACCOUNT_ID Ke1Message_new ist v = (Ok (), ke1, fst client, v') \<and>
        write_ke1 (m1_credential_request ke1) (m1_initiator_public_key ke1) (m1_initiator_nonce ke1)
          (m1_pq_ephemeral_public_key ke1) (zeros KE1_LENGTH) = Ok ke1_bytes))"
proof -
  note laws = suppliedD(1) [OF run]
  obtain st w1 where new: "InitiatorState_new w = (st, w1)" by fastforce
  have st: "initiator_wf st" "i_phase st = ICreated" using InitiatorState_new_props [of w] by (simp_all add: new)
  then have inv: "initiator_inv st" by simp
  have w1: "P w1" using surroundings.client_new [OF suppliedD(2) [OF run] w] by (simp add: new)
  obtain r ke1 st1 w2 where call: "generate_ke1 D TEST_PASSWORD TEST_ACCOUNT_ID Ke1Message_new st w1 = (r, ke1, st1, w2)"
    by (metis prod_cases4)
  note c = ke1_called [OF run w1 st call]
  obtain bytes where wire: "r = Ok () \<Longrightarrow> write_ke1 (m1_credential_request ke1) (m1_initiator_public_key ke1) (m1_initiator_nonce ke1)
      (m1_pq_ephemeral_public_key ke1) (zeros KE1_LENGTH) = Ok bytes"
    using ke1_typed [OF laws inv] call by blast
  have sent: "login_started D stale w = unwrap_drawn r (\<lambda>_. Ok (bytes, (st1, False), w2))"
    using wire by (cases r) (simp_all add: login_started_def new call Let_def generate_ke1_forced_def initiator_expire_for_test_def
        unwrap_drawn_def)
  show ?thesis unfolding sent
  proof (rule yields_drawn [OF c(1,2)])
    fix u assume ok: "r = Ok u"
    then have "\<exists>ist v ke1 v'. initiator_inv ist \<and>
        generate_ke1 D TEST_PASSWORD TEST_ACCOUNT_ID Ke1Message_new ist v = (Ok (), ke1, st1, v') \<and>
        write_ke1 (m1_credential_request ke1) (m1_initiator_public_key ke1) (m1_initiator_nonce ke1)
          (m1_pq_ephemeral_public_key ke1) (zeros KE1_LENGTH) = Ok bytes"
      using inv call wire by (intro exI [of _ st] exI [of _ w1] exI [of _ ke1] exI [of _ w2]) simp
    then show "yields E (Ok (bytes, (st1, False), w2)) (\<lambda>(ke1_bytes, client, w'). P w' \<and> timely (i_created_at (fst client)) w' \<and>
        \<not> snd client \<and> (\<exists>ist v ke1 v'. initiator_inv ist \<and>
          generate_ke1 D TEST_PASSWORD TEST_ACCOUNT_ID Ke1Message_new ist v = (Ok (), ke1, fst client, v') \<and>
          write_ke1 (m1_credential_request ke1) (m1_initiator_public_key ke1) (m1_initiator_nonce ke1)
            (m1_pq_ephemeral_public_key ke1) (zeros KE1_LENGTH) = Ok ke1_bytes))"
      using c(3,4) ok by simp
  qed
qed

lemma login_answered_yields:
  assumes run: "supplied E D P" and w: "P w" and made: "server_made D resp init" and stored: "account_stored D resp cred"
    and ke1: "login_pending D TEST_PASSWORD TEST_ACCOUNT_ID ist ke1" "parse_ke1 ke1_bytes = Ok (ke1_view ke1)"
  shows "yields E (login_answered D resp cred ke1_bytes stale w) (\<lambda>(ke2, server, w'). P w' \<and> timely (r_created_at (fst server)) w' \<and>
     \<not> snd server \<and> (\<exists>rst v v'. responder_inv rst \<and>
        generate_ke2 D resp ke1_bytes TEST_ACCOUNT_ID cred Ke2Message_new rst v = (Ok (), ke2, fst server, v')))"
proof -
  obtain st w1 where new: "ResponderState_new w = (st, w1)" by fastforce
  have st: "responder_wf st" "r_phase st = RCreated" "\<not> r_handshake_complete st"
    using ResponderState_new_props [of w] by (simp_all add: new)
  then have inv: "responder_inv st" by simp
  have w1: "P w1" using surroundings.server_new [OF suppliedD(2) [OF run] w] by (simp add: new)
  obtain r ke2 st1 w2 where call: "generate_ke2 D resp ke1_bytes TEST_ACCOUNT_ID cred Ke2Message_new st w1 = (r, ke2, st1, w2)"
    by (metis prod_cases4)
  note c = ke2_called [OF run w1 st made stored ke1 call]
  have answered: "login_answered D resp cred ke1_bytes stale w = unwrap_drawn r (\<lambda>_. Ok (ke2, (st1, False), w2))"
    by (cases r) (simp_all add: login_answered_def new call Let_def generate_ke2_forced_def responder_expire_for_test_def unwrap_drawn_def)
  have made_by: "\<exists>rst v v'. responder_inv rst \<and>
      generate_ke2 D resp ke1_bytes TEST_ACCOUNT_ID cred Ke2Message_new rst v = (Ok (), ke2, st1, v')" if "r = Ok ()"
    using inv call that by blast
  show ?thesis unfolding answered by (rule yields_drawn [OF c(1,2)]) (use c(3,4) made_by in simp)
qed

definition login_halfway ::
  "('s, 'p, 'ek, 'dk) deps \<Rightarrow> (world \<Rightarrow> bool)
     \<Rightarrow> OpaqueInitiator \<times> (InitiatorState \<times> bool) \<times> (ResponderState \<times> bool) \<times> Ke2Message \<times> world \<Rightarrow> bool" where
  "login_halfway D P = (\<lambda>(init, client, server, ke2, w).
     \<not> snd client \<and> \<not> snd server \<and> ke2_ready D P init (fst client) (fst server) ke2 w)"

lemma ke2_received_yields:
  assumes run: "supplied E D P" and w: "P w"
  shows "yields E (ke2_received D stale_client stale_server w) (login_halfway D P)"
  unfolding ke2_received_def
proof (rule yields_and_then [OF request_sent_yields [OF run w]], clarify, rule yields_and_then [OF registration_done_yields [OF run]],
    assumption, clarsimp)
  fix resp init req st w1 rec st' w2 cred
  assume ready: "request_ready D P (resp, init, req, st, w1)" and w2: "P w2" and stored: "account_stored D resp cred"
  note laws = suppliedD(1) [OF run]
  have made: "server_made D resp init" using ready by (simp add: request_ready_def)
  show "yields E (and_then (login_started D stale_client w2) (\<lambda>(ke1_bytes, client, w).
      and_then (login_answered D resp cred ke1_bytes stale_server w) (\<lambda>(ke2, server, w). Ok (init, client, server, ke2, w)))) (login_halfway D P)"
  proof (rule yields_and_then [OF login_started_yields [OF run w2]], clarsimp)
    fix ke1_bytes client w3 ist v ke1 v'
    assume w3: "P w3" "timely (i_created_at client) w3" and ist: "initiator_inv ist"
      and ke1: "generate_ke1 D TEST_PASSWORD TEST_ACCOUNT_ID Ke1Message_new ist v = (Ok (), ke1, client, v')"
        "write_ke1 (m1_credential_request ke1) (m1_initiator_public_key ke1) (m1_initiator_nonce ke1)
          (m1_pq_ephemeral_public_key ke1) (zeros 1273) = Ok ke1_bytes"
    note run' = supplied_timely [OF run, of "i_created_at client"]
    have pend: "login_pending D TEST_PASSWORD TEST_ACCOUNT_ID client ke1" by (rule generate_ke1_pending [OF laws ist ke1(1)])
    have view: "parse_ke1 ke1_bytes = Ok (ke1_view ke1)" using ke1_delivered(1) [of ke1 ke1_bytes] ke1(2) by simp
    have both: "P w3 \<and> timely (i_created_at client) w3" using w3 by simp
    have ready: "ke2_ready D P init client server ke2 w4"
      if "P w4" "timely (i_created_at client) w4" "timely (r_created_at server) w4" "responder_inv rst"
        "generate_ke2 D resp ke1_bytes TEST_ACCOUNT_ID cred Ke2Message_new rst v2 = (Ok (), ke2, server, v3)" for server ke2 w4 rst v2 v3
    proof -
      obtain s k where "honest_responder D resp TEST_ACCOUNT_ID s k" "credentials_sized cred"
        "account_ready D (password_key D k TEST_PASSWORD) (kp_public_key (or_keypair resp)) cred"
        using stored unfolding account_stored_def by blast
      moreover have "OpaqueInitiator_new D (kp_public_key (or_keypair resp)) = Ok init" using made by (simp add: server_made_def)
      moreover have "zeros KE1_LENGTH = zeros 1273" by simp
      ultimately show ?thesis using that ist ke1 unfolding ke2_ready_def by metis
    qed
    show "yields E (and_then (login_answered D resp cred ke1_bytes stale_server w3)
        (\<lambda>(ke2, server, w). Ok (init, (client, False), server, ke2, w))) (login_halfway D P)"
      by (rule yields_and_then [OF login_answered_yields [OF run' both made stored pend view]]) (auto simp: login_halfway_def intro: ready)
  qed
qed

section \<open>The ends\<close>

text \<open>The server's session at that point, as its handler left it.\<close>

lemma ke2_keys_held:
  "r_private_key st = sk \<Longrightarrow> r_ephemeral_private_key st \<noteq> zeros 32 \<Longrightarrow>
     leaves (generate_ke2_keys D kp m e pk h dh1 dh2 dh3 dh4 ss ke2 st w)
       (\<lambda>r (_, st', _). r = Ok () \<longrightarrow> r_private_key st' = sk \<and> r_ephemeral_private_key st' \<noteq> zeros 32)"
  unfolding generate_ke2_keys_def
  by (intro leaves_rules) (auto simp: responder_refresh_deadline_eq)

lemma ke2_held:
  assumes "deps_laws D"
  shows "leaves (generate_ke2 D resp data a c ke2 st w)
     (\<lambda>r (_, st', _). r = Ok () \<longrightarrow> r_private_key st' = kp_private_key (or_keypair resp) \<and> r_ephemeral_private_key st' \<noteq> zeros 32)"
proof -
  note D [simp] = deps_lawsD [OF assms]
  have "v \<noteq> zeros 32" if "random_nonzero_scalar D w = (Ok v, w')" for v w w'
    using that by (cases rule: random_nonzero_scalar_cases [OF D(6,1) that]) auto
  then show ?thesis
    unfolding generate_ke2_def
    by (intro leaves_rules ke2_keys_held) auto
qed

lemma ke2_ready_server:
  assumes run: "supplied E D P" and ready: "ke2_ready D P init client server ke2 w"
  shows "responder_wf server \<and> r_phase server = Ke2Generated \<and> r_private_key server \<noteq> zeros 32 \<and> r_ephemeral_private_key server \<noteq> zeros 32"
proof -
  note laws = suppliedD(1) [OF run]
  from ready obtain resp :: "InMemoryEvaluator OpaqueResponder" and s k cred ke1_data rst v2 v3
    where h: "honest_responder D resp TEST_ACCOUNT_ID s k" "credentials_sized cred" "responder_inv rst"
      "generate_ke2 D resp ke1_data TEST_ACCOUNT_ID cred Ke2Message_new rst v2 = (Ok (), ke2, server, v3)"
    unfolding ke2_ready_def by blast
  have wf: "OpaqueResponder_wf resp" and key: "kp_private_key (or_keypair resp) \<noteq> zeros 32"
    using h(1) deps_lawsD [OF laws] by (auto simp: honest_responder_def)
  have "r_phase server = Ke2Generated" "responder_wf server"
    using leavesD [OF generate_ke2_call [OF laws wf h(2,3)] h(4)]
    by (auto simp: ke2_outcome_def responder_call_def responder_inv_wf Ke2Message_new_def ke2_message_sized_def)
  then show ?thesis using leavesD [OF ke2_held [OF laws] h(4)] key by simp
qed

lemma login_ended_agrees:
  assumes run: "supplied E D P" and ready: "ke2_ready D P init client server ke2 w"
    and kem: "decapsulate D (i_pq_secret_key client) (m2_kem_ciphertext ke2) (zeros 32) = Ok (r_pq_shared_secret server)"
    and nonzero: "i_account_context_hash client \<noteq> zeros 64" "r_session_key server \<noteq> zeros 64"
  obtains client' server' where "login_ended D init (client, False) (server, False) ke2 w = Ok (client', server')"
    "i_phase client' = Ke3Generated" "i_session_key client' = r_session_key server"
    "r_handshake_complete server'" "r_phase server' = RFinished"
proof -
  note laws = suppliedD(1) [OF run]
  from ready obtain resp :: "InMemoryEvaluator OpaqueResponder" and s k cred ist v0 ke1 v1 ke1_data rst v2 v3
    where in_time: "P w" "timely (i_created_at client) w" "timely (r_created_at server) w"
    and h: "honest_responder D resp TEST_ACCOUNT_ID s k" "OpaqueInitiator_new D (kp_public_key (or_keypair resp)) = Ok init"
      "account_ready D (password_key D k TEST_PASSWORD) (kp_public_key (or_keypair resp)) cred" "credentials_sized cred"
      "initiator_inv ist" "responder_inv rst"
      "generate_ke1 D TEST_PASSWORD TEST_ACCOUNT_ID Ke1Message_new ist v0 = (Ok (), ke1, client, v1)"
      "write_ke1 (m1_credential_request ke1) (m1_initiator_public_key ke1) (m1_initiator_nonce ke1)
         (m1_pq_ephemeral_public_key ke1) (zeros KE1_LENGTH) = Ok ke1_data"
      "generate_ke2 D resp ke1_data TEST_ACCOUNT_ID cred Ke2Message_new rst v2 = (Ok (), ke2, server, v3)"
    unfolding ke2_ready_def by blast
  have wf: "OpaqueResponder_wf resp" using h(1) by (simp add: honest_responder_def)
  obtain data where data: "write_ke2 (m2_responder_nonce ke2) (m2_responder_public_key ke2) (m2_credential_response ke2)
      (m2_responder_mac ke2) (m2_kem_ciphertext ke2) (zeros KE2_LENGTH) = Ok data"
    using ke2_typed [OF laws wf h(4,6,9)] by blast
  have pend: "login_pending D TEST_PASSWORD TEST_ACCOUNT_ID client ke1" by (rule generate_ke1_pending [OF laws h(5,7)])
  then have st: "initiator_wf client" and ctx: "account_context D TEST_ACCOUNT_ID \<noteq> zeros 64"
    using nonzero(1) by (auto simp: login_pending_def)
  note completes = login_completes [OF laws h(1-9) data kem timely_fresh(1) [OF in_time(2)] _ ctx nonzero(2)]
  obtain ke3 client' w3 where ke3: "generate_ke3 D init data client Ke3Message_new w = (Ok (), ke3, client', w3)"
    using completes [OF timely_fresh(2) [OF in_time(3)]] by blast
  have "timely (r_created_at server) w3" using leavesD [OF timely_world.ke3_keeps [OF in_time(3)] ke3] by simp
  from completes [OF timely_fresh(2) [OF this]] obtain ke3_data server' w4 ist3 where
    fin: "write_ke3 (m3_initiator_mac ke3) (zeros KE3_LENGTH) = Ok ke3_data"
      "responder_finish D ke3_data server (zeros HASH_LENGTH) w3 = (Ok (), r_session_key server, server', w4)"
      "r_handshake_complete server'"
      "initiator_finish D client' (zeros HASH_LENGTH) (zeros EXPORT_KEY_LENGTH) = (Ok (), r_session_key server,
         client_export_key_of D (password_key D k TEST_PASSWORD) (account_context D TEST_ACCOUNT_ID), ist3)"
    unfolding ke3 by blast
  have c': "initiator_wf client'" "i_phase client' = Ke3Generated"
    using generate_ke3_call [OF laws _ ke3] st pend by (auto simp: initiator_call_def initiator_inv_wf login_pending_def)
  have key: "i_session_key client' = r_session_key server"
    using fin(4) by (simp add: initiator_finish_eq [OF laws c'(1)] c'(2) split: if_splits)
  have "r_phase server = Ke2Generated" "responder_inv server"
    using leavesD [OF generate_ke2_call [OF laws wf h(4,6)] h(9)]
    by (auto simp: ke2_outcome_def responder_call_def Ke2Message_new_def ke2_message_sized_def)
  then have "r_phase server' = RFinished"
    using responder_finish_call(1) [OF laws _ _ fin(2)] by (simp add: responder_call_def)
  then show thesis using that c' key fin(3) data ke3 fin(1,2)
    by (simp add: login_ended_def generate_ke3_forced_def responder_finish_forced_def)
qed

section \<open>The tests pass\<close>

text \<open>
  Values that no law excludes from being all zero, and the decryption failure that ML-KEM allows:
  a run is fortunate if none of them comes up in it. The tests assert the first two kinds.
\<close>

definition client_fortunate :: "(OpaqueInitiator \<times> InitiatorState \<times> world, unit) result \<Rightarrow> bool" where
  "client_fortunate r = (case r of Ok (_, st, _) \<Rightarrow> i_pq_secret_key st \<noteq> zeros 2400 \<and> i_account_context_hash st \<noteq> zeros 64 | _ \<Rightarrow> True)"

definition login_fortunate ::
  "('s, 'p, 'ek, 'dk) deps
     \<Rightarrow> (OpaqueInitiator \<times> (InitiatorState \<times> bool) \<times> (ResponderState \<times> bool) \<times> Ke2Message \<times> world, unit) result \<Rightarrow> bool" where
  "login_fortunate D r = (case r of
      Ok (_, (client, _), (server, _), ke2, _) \<Rightarrow>
        decapsulate D (i_pq_secret_key client) (m2_kem_ciphertext ke2) (zeros 32) = Ok (r_pq_shared_secret server) \<and>
        i_account_context_hash client \<noteq> zeros 64 \<and> r_session_key server \<noteq> zeros 64 \<and>
        r_expected_initiator_mac server \<noteq> zeros 64 \<and> r_pq_shared_secret server \<noteq> zeros 32
    | _ \<Rightarrow> True)"

definition fortunate :: "('s, 'p, 'ek, 'dk) deps \<Rightarrow> world \<Rightarrow> bool" where
  "fortunate D w \<longleftrightarrow> client_fortunate (ke1_sent D w) \<and>
     list_all (\<lambda>(b, c). login_fortunate D (ke2_received D b c w)) [(False, False), (True, False), (False, True)]"

lemma check_all_passes: "list_all (\<lambda>b. b) bs \<Longrightarrow> check_all bs = Ok ()"
  by (simp add: check_all_def)

lemma test_password_nonzero: "TEST_PASSWORD \<noteq> zeros (length TEST_PASSWORD)"
  by (simp add: TEST_PASSWORD_def zeros_def ascii_def)

lemma yieldsE:
  assumes "yields E r Q"
  obtains "E" "r = Err ()" | x where "r = Ok x" "Q x"
  using assms by (auto simp: yields_def)

definition passes :: "bool \<Rightarrow> (unit, unit) result \<Rightarrow> bool" where
  "passes refusable r \<longleftrightarrow> r = Ok () \<or> refusable \<and> r = Err ()"

lemma expired_authentication_passes:
  assumes run: "supplied E D P" and w: "P w" and lucky: "client_fortunate (ke1_sent D w)"
  shows "passes E (expired_authentication_state_is_zeroized D w)"
proof (cases rule: yieldsE [OF ke1_sent_yields [OF run w]])
  case (2 x)
  then obtain init st w' ke1 where sent: "ke1_sent D w = Ok (init, st, w')"
    and pend: "login_pending D TEST_PASSWORD TEST_ACCOUNT_ID st ke1" by (cases x) auto
  note D [simp] = deps_lawsD [OF suppliedD(1) [OF run]]
  from pend obtain x y where st: "initiator_wf st" "i_phase st = Ke1Generated" "take (i_secure_key_len st) (i_secure_key st) = TEST_PASSWORD"
    "x \<noteq> scalar_zero D" "i_ephemeral_private_key st = scalar_bytes D x" "y \<noteq> scalar_zero D" "i_blind_scalar st = scalar_bytes D y"
    unfolding login_pending_def by blast
  note lens [simp] = initiator_wf_lengths [OF st(1)]
  have "i_pq_secret_key st \<noteq> zeros 2400" "i_account_context_hash st \<noteq> zeros 64"
    using lucky by (simp_all add: sent client_fortunate_def)
  then have "expired_authentication_state_is_zeroized D w = Ok ()"
    using st test_password_nonzero
    by (simp add: expired_authentication_state_is_zeroized_def sent slice_simps generate_ke3_forced_def initiator_expire_for_test_def
        initiator_invalidate_wf invalidated_initiator_def InitiatorState_new_def instant_now_def)
  then show ?thesis by (simp add: passes_def)
qed (simp add: expired_authentication_state_is_zeroized_def passes_def)

lemma expired_registration_passes:
  assumes run: "supplied E D P" and w: "P w"
  shows "passes E (expired_registration_state_is_zeroized D w)"
proof (cases rule: yieldsE [OF request_sent_yields [OF run w]])
  case (2 x)
  then obtain resp init req st w' where sent: "request_sent D w = Ok (resp, init, req, st, w')"
    and pend: "registration_pending D TEST_PASSWORD st (rq_data req)" by (cases x) (auto simp: request_ready_def)
  note D [simp] = deps_lawsD [OF suppliedD(1) [OF run]]
  from pend obtain x y where st: "initiator_wf st" "i_phase st = RegistrationRequested"
    "take (i_secure_key_len st) (i_secure_key st) = TEST_PASSWORD"
    "x \<noteq> scalar_zero D" "i_private_key st = scalar_bytes D x" "y \<noteq> scalar_zero D" "i_blind_scalar st = scalar_bytes D y"
    unfolding registration_pending_def by blast
  note lens [simp] = initiator_wf_lengths [OF st(1)]
  have "expired_registration_state_is_zeroized D w = Ok ()"
    using st test_password_nonzero
    by (simp add: expired_registration_state_is_zeroized_def sent slice_simps finalize_registration_forced_def initiator_expire_for_test_def
        initiator_invalidate_wf invalidated_initiator_def InitiatorState_new_def instant_now_def)
  then show ?thesis by (simp add: passes_def)
qed (simp add: expired_registration_state_is_zeroized_def passes_def)

lemma finalized_registration_passes:
  assumes run: "supplied E D P" and w: "P w"
  shows "passes E (finalized_registration_zeroizes_registration_private_key D w)"
proof (cases rule: yieldsE [OF request_sent_yields [OF run w]])
  case (2 x)
  then obtain resp init req st w' where sent: "request_sent D w = Ok (resp, init, req, st, w')"
    and ready: "request_ready D P (resp, init, req, st, w')" by (cases x) auto
  note D [simp] = deps_lawsD [OF suppliedD(1) [OF run]]
  from ready obtain x where st: "initiator_wf st" "x \<noteq> scalar_zero D" "i_private_key st = scalar_bytes D x"
    "i_public_key st = point_compress D (base_mul D x)"
    unfolding request_ready_def registration_pending_def by blast
  show ?thesis
  proof (cases rule: yieldsE [OF registration_done_yields [OF run ready]])
    case (2 y)
    then obtain rec st' w2 where fin: "registration_done D resp init req st w' = Ok (rec, st', w2)" "initiator_inv st'"
      "i_phase st' = RegistrationFinalized" "rd_initiator_public_key rec = i_public_key st" by (cases y) auto
    then have "finalized_registration_zeroizes_registration_private_key D w = Ok ()"
      using st by (simp add: finalized_registration_zeroizes_registration_private_key_def sent initiator_inv_def)
    then show ?thesis by (simp add: passes_def)
  qed (use st in \<open>simp add: finalized_registration_zeroizes_registration_private_key_def sent passes_def\<close>)
qed (simp add: finalized_registration_zeroizes_registration_private_key_def passes_def)

lemma login_received:
  assumes run: "supplied E D P" and w: "P w" and lucky: "login_fortunate D (ke2_received D b c w)"
  obtains "E" "ke2_received D b c w = Err ()"
  | init client server ke2 w' where "ke2_received D b c w = Ok (init, (client, False), (server, False), ke2, w')"
    "ke2_ready D P init client server ke2 w'"
    "decapsulate D (i_pq_secret_key client) (m2_kem_ciphertext ke2) (zeros 32) = Ok (r_pq_shared_secret server)"
    "i_account_context_hash client \<noteq> zeros 64" "r_session_key server \<noteq> zeros 64"
    "r_expected_initiator_mac server \<noteq> zeros 64" "r_pq_shared_secret server \<noteq> zeros 32"
proof (cases rule: yieldsE [OF ke2_received_yields [OF run w, of b c]])
  case (2 x)
  obtain init client fc server fs ke2 w' where x: "x = (init, (client, fc), (server, fs), ke2, w')" by (metis surj_pair)
  show thesis using 2 lucky unfolding x by (intro that(2)) (auto simp: login_halfway_def login_fortunate_def)
qed (rule that(1))

lemma completed_login_passes:
  assumes run: "supplied E D P" and w: "P w" and lucky: "login_fortunate D (ke2_received D b c w)"
    and final: "\<And>client server. i_phase client = Ke3Generated \<Longrightarrow> i_session_key client \<noteq> zeros (length (i_session_key client)) \<Longrightarrow>
      r_handshake_complete server \<Longrightarrow> r_phase server = RFinished \<Longrightarrow> k client server = Ok ()"
  shows "passes E (and_then (ke2_received D b c w) (\<lambda>(init, client, server, ke2, w).
     and_then (login_ended D init client server ke2 w) (\<lambda>(client, server). k client server)))"
proof (cases rule: login_received [OF run w lucky])
  case (2 init client server ke2 w')
  obtain client' server' where ended: "login_ended D init (client, False) (server, False) ke2 w' = Ok (client', server')"
    "i_phase client' = Ke3Generated" "i_session_key client' = r_session_key server"
    "r_handshake_complete server'" "r_phase server' = RFinished"
    by (rule login_ended_agrees [OF run 2(2-5)])
  have "length (r_session_key server) = 64" using ke2_ready_server [OF run 2(2)] by (simp add: responder_wf_def)
  then show ?thesis using 2(5) ended by (simp add: 2(1) passes_def final)
qed (simp add: passes_def)

lemma stale_logins_pass:
  assumes run: "supplied E D P" and w: "P w" and lucky: "fortunate D w"
  shows "passes E (stale_created_authentication_state_is_refreshed_by_ke1 D w)"
    "passes E (stale_created_responder_state_is_refreshed_by_ke2 D w)"
  using lucky suppliedD(1) [OF run, THEN deps_lawsD(1)]
  unfolding stale_created_authentication_state_is_refreshed_by_ke1_def stale_created_responder_state_is_refreshed_by_ke2_def
  by (intro completed_login_passes [OF run w]; simp add: fortunate_def)+

lemma expired_responder_passes:
  assumes run: "supplied E D P" and w: "P w" and lucky: "fortunate D w"
  shows "passes E (expired_responder_state_is_zeroized D w)"
proof -
  have lucky': "login_fortunate D (ke2_received D False False w)" using lucky by (simp add: fortunate_def)
  show ?thesis
  proof (cases rule: login_received [OF run w lucky'])
    case (2 init client server ke2 w')
    note D [simp] = deps_lawsD [OF suppliedD(1) [OF run]]
    have server: "responder_wf server" "r_phase server = Ke2Generated" "r_private_key server \<noteq> zeros 32"
      "r_ephemeral_private_key server \<noteq> zeros 32" using ke2_ready_server [OF run 2(2)] by simp_all
    note lens [simp] = responder_wf_lengths [OF server(1)]
    have "expired_responder_state_is_zeroized D w = Ok ()"
      using server 2(6,7) responder_invalidate_props [OF D(2) server(1)]
      by (simp add: expired_responder_state_is_zeroized_def 2(1) responder_finish_forced_def responder_expire_for_test_def responder_wiped_def)
    then show ?thesis by (simp add: passes_def)
  qed (simp add: expired_responder_state_is_zeroized_def passes_def)
qed

section \<open>A run over the sample dependencies\<close>

text \<open>Every random byte is 2 and the clock stands still.\<close>

definition steady :: "world \<Rightarrow> bool" where
  "steady w \<longleftrightarrow> w_rng w = (\<lambda>_. 2) \<and> w_clk w = (\<lambda>_. 0)"

interpretation steady_world: surroundings sample steady
  by unfold_locales (simp_all add: steady_def fill_bytes_def instant_now_def)

lemma steady_amply: "amply sample steady"
proof -
  have "entropy sample w" if "steady w" for w
    using sample_entropy that by (simp add: entropy_def steady_def sample_world_def)
  moreover have "masking_key_of sample rwd \<noteq> zeros 32" for rwd
    by (simp add: masking_key_of_def sample_expand zeros_def)
  moreover have "scalar_from_wide sample (replicate 64 1) \<noteq> Z0"
    by (simp add: numeral_eq_Suc) (simp add: sample_def z3_of_byte_def)
  moreover have "account_context sample TEST_ACCOUNT_ID \<noteq> zeros 64" by (rule sample_context)
  moreover have "is_ok (derive_oprf_key sample seed TEST_ACCOUNT_ID)" if "seed \<noteq> []" for seed
    using that test_password_typed(2) by simp
  ultimately show ?thesis by (simp add: amply_def password_point_def)
qed

lemma steady_supplied: "supplied False sample steady"
  using steady_amply sample_laws steady_world.surroundings_axioms
  by (simp add: supplied_def) (simp add: steady_def brisk_def)

lemma sample_login_values:
  assumes "ke2_ready sample P init client server ke2 w"
  shows "decapsulate sample (i_pq_secret_key client) (m2_kem_ciphertext ke2) (zeros 32) = Ok (r_pq_shared_secret server)"
    "i_account_context_hash client = account_context sample TEST_ACCOUNT_ID" "r_session_key server = replicate 64 2"
    "r_expected_initiator_mac server = replicate 64 2" "r_pq_shared_secret server = replicate 32 9"
proof -
  from assms obtain resp :: "InMemoryEvaluator OpaqueResponder" and s k cred ist v0 ke1 v1 ke1_data rst v2 v3
    where h: "honest_responder sample resp TEST_ACCOUNT_ID s k"
      "account_ready sample (password_key sample k TEST_PASSWORD) (kp_public_key (or_keypair resp)) cred" "credentials_sized cred"
      "initiator_inv ist" "responder_inv rst"
      "generate_ke1 sample TEST_PASSWORD TEST_ACCOUNT_ID Ke1Message_new ist v0 = (Ok (), ke1, client, v1)"
      "write_ke1 (m1_credential_request ke1) (m1_initiator_public_key ke1) (m1_initiator_nonce ke1)
         (m1_pq_ephemeral_public_key ke1) (zeros KE1_LENGTH) = Ok ke1_data"
      "generate_ke2 sample resp ke1_data TEST_ACCOUNT_ID cred Ke2Message_new rst v2 = (Ok (), ke2, server, v3)"
    unfolding ke2_ready_def by blast
  have pend: "login_pending sample TEST_PASSWORD TEST_ACCOUNT_ID client ke1" by (rule generate_ke1_pending [OF sample_laws h(4,6)])
  obtain e ev masked ikm where ans: "ke2_answer sample resp TEST_ACCOUNT_ID (ke1_view ke1) (c_initiator_public_key cred) (c_envelope cred)
      (c_masking_key cred) e ev masked ikm (r_pq_shared_secret server) ke2 server"
    by (rule generate_ke2_answers [OF sample_laws _ h(3) _ h(5) ke1_delivered(1) [OF h(7)] h(8)])
      (use h(1,2) in \<open>simp_all add: honest_responder_def account_ready_def\<close>)
  then have v: "m2_kem_ciphertext ke2 = replicate 1088 5" "r_pq_shared_secret server = replicate 32 9"
    "r_session_key server = replicate 64 2" "r_expected_initiator_mac server = replicate 64 2"
    by (auto simp: ke2_answer_def session_key_of_def initiator_mac_of_def hmac_tag_def sample_expand)
  then show "decapsulate sample (i_pq_secret_key client) (m2_kem_ciphertext ke2) (zeros 32) = Ok (r_pq_shared_secret server)"
    "i_account_context_hash client = account_context sample TEST_ACCOUNT_ID" "r_session_key server = replicate 64 2"
    "r_expected_initiator_mac server = replicate 64 2" "r_pq_shared_secret server = replicate 32 9"
    using sample_decapsulates [OF pend] pend by (simp_all add: login_pending_def)
qed

lemma sample_fortunate:
  assumes w: "steady w"
  shows "fortunate sample w"
proof -
  have nz: "replicate 2400 8 \<noteq> zeros 2400" "replicate 64 2 \<noteq> zeros 64" "replicate 32 9 \<noteq> zeros 32"
    by (simp_all add: zeros_def)
  have "client_fortunate (ke1_sent sample w)"
    by (rule yieldsE [OF ke1_sent_yields [OF steady_supplied w]])
      (auto simp: client_fortunate_def login_pending_def sample_context nz nz [symmetric] sample_context [symmetric])
  moreover have "login_fortunate sample (ke2_received sample b c w)" for b c
    by (rule yieldsE [OF ke2_received_yields [OF steady_supplied w, of b c]])
      (auto simp: login_fortunate_def login_halfway_def sample_context sample_login_values nz)
  ultimately show ?thesis by (simp add: fortunate_def)
qed

section \<open>Property\<close>



end
