(* ===== verification/Spec2Isabelle.thy ===== *)
theory Spec2Isabelle
  imports Enumeration Audit_Demonstrations Session_Tests
begin

text \<open>
  \<^bold>\<open>The program.\<close> The repository implements hybrid post-quantum OPAQUE: a client (agent) and a
  server (relay) register an account under a password and later run a login in three messages,
  KE1, KE2 and KE3, after which both hold the same session key. The server never sees the
  password. Security rests on an oblivious PRF over Ristretto255, a password-sealed envelope, four
  Diffie-Hellman results and an ML-KEM-768 secret that enter one key schedule. The code is in four
  crates below \<^verbatim>\<open>src/rust/crates\<close>: \<^verbatim>\<open>opaque-core\<close> (primitives, wire format, envelopes),
  \<^verbatim>\<open>opaque-agent\<close> (client), \<^verbatim>\<open>opaque-relay\<close> (server) and \<^verbatim>\<open>opaque-ffi\<close> (the C interface of both).

  \<^bold>\<open>How the code is modelled.\<close> Buffers are lists of bytes, structures are records with the fields of
  the source, a fallible call returns \<open>Ok\<close>, \<open>Err\<close> with the error of the source, or \<open>Panic\<close> where
  the Rust code would unwind (slices out of range, \<open>copy_from_slice\<close> with different lengths). A
  call that mutates its arguments returns them updated, also on the error exits; \<open>qmark\<close> is the
  question-mark operator in such code. The random bytes and the clock readings a call consumes come from a
  \<open>world\<close>, which is arbitrary in every theorem. The third-party crates (curve25519-dalek, ml-kem,
  sha2, hmac, argon2, crypto_secretbox, subtle, zeroize) are the record \<open>deps\<close>, an argument \<open>D\<close> of
  every definition that uses them; what the code relies on is \<open>deps_laws D\<close>: documented
  algebraic and length laws, no hardness assumption.

  \<^bold>\<open>Theories.\<close>
    \<^item> \<open>Opaque_Prelude\<close>: bytes, outcomes, slices, postconditions of handlers (\<open>leaves\<close>), the world.
    \<^item> \<open>Dependencies\<close>, \<open>Sample_Dependencies\<close>: the third-party interface with its laws, and one executable
      instance (\<open>sample\<close>) that satisfies them; the witnesses evaluate on it.
    \<^item> \<open>Opaque_Types\<close> (\<^verbatim>\<open>core/types.rs\<close>): lengths, labels, errors and their C codes, secret buffers,
      constant-time helpers.
    \<^item> \<open>Protocol\<close> (\<^verbatim>\<open>core/protocol.rs\<close>): parsers and writers; the locale \<open>wire_codec\<close> states what a
      message format promises and is interpreted for all six formats.
    \<^item> \<open>Crypto\<close> (\<^verbatim>\<open>core/crypto.rs\<close>), \<open>Oprf\<close> (\<^verbatim>\<open>core/oprf.rs\<close>), \<open>Pq_Kem\<close> (\<^verbatim>\<open>core/pq_kem.rs\<close>), \<open>Envelopes\<close>
      (\<^verbatim>\<open>core/envelope.rs\<close>): the wrappers around the primitives, loop by loop.
    \<^item> \<open>Key_Schedule\<close>: the transcript buffer and key derivation that client and server code share.
    \<^item> \<open>Agent_State\<close>, \<open>Agent_Registration\<close>, \<open>Agent_Authentication\<close> and \<open>Relay_State\<close>,
      \<open>Relay_Registration\<close>, \<open>Relay_Authentication\<close>: state and handlers of each side, one definition per
      handler with its guards and early returns in order; \<open>generate_ke3\<close> and \<open>generate_ke2\<close> are split
      where the source has a closure or a second stage.
    \<^item> \<open>Session_Machine\<close>, \<open>Agent_Session\<close>, \<open>Relay_Session\<close>: sessions as step relations; the locale
      \<open>session_machine\<close> derives once what holds of every sequence of calls.
    \<^item> \<open>Handshake\<close>, \<open>Sample_Handshake\<close>: both sides together, and a complete run over the samples.
    \<^item> \<open>Ffi_Common\<close> (\<^verbatim>\<open>ffi/lib.rs\<close>), \<open>Agent_Ffi\<close> (\<^verbatim>\<open>ffi/agent_ffi.rs\<close>), \<open>Relay_Ffi\<close> (\<^verbatim>\<open>ffi/relay_ffi.rs\<close>): the C
      interface over a byte-addressed memory of 64-bit pointers and a heap of boxes with busy flags. The locale
      \<open>busy_handles\<close> is the contract of a kind of handle (five interpretations), \<open>stateful_calls\<close>
      that of a call on a session (two). A call on a non-null handle that is not live is outside
      the documented contract and has no outcome (\<open>None\<close>).
    \<^item> \<open>Ffi_Handshake\<close>, \<open>Ffi_Registration\<close>: both libraries together, each in a process of its own, from the bytes
      in one call's output buffer to the bytes in the next call's input buffer.
    \<^item> \<open>Handle_Threads\<close>, \<open>Agent_Threads\<close>, \<open>Relay_Threads\<close>: the steps of the C calls on a session (admission to two handles,
      closure, the guards' destructors; on the server the stored credentials are read between the two admissions),
      interleaved between threads, and their linearization to the sequential model. A call run alone is the sequential call.
    \<^item> \<open>Enumeration\<close>: the server's answer for a registered and for an unknown account, side by side.
    \<^item> \<open>Delivery\<close>: the messages each handler produces, against the writers and parsers.
    \<^item> \<open>Audit_Demonstrations\<close> (\<^verbatim>\<open>src/audit/poc\<close>): two demonstration programs on the present code, and the points
      each handler accepts.
    \<^item> \<open>Phase_Matrix\<close>: which call is in order in which phase, the tables behind the unit tests of the C interface.
    \<^item> \<open>Fault_Injection\<close>, \<open>Test_Disposals\<close>: the library as a test build compiles it, with a point in every call
      and constructor at which a test makes it unwind, and with destructors that record what they see. The locale
      \<open>injected_calls\<close> says what a point does to a call on a session (two interpretations).
    \<^item> \<open>Fuzz_Targets\<close> (\<^verbatim>\<open>src/rust/fuzz\<close>): the four fuzz targets as programs with assertions.
    \<^item> \<open>Agent_Interface_Tests\<close>, \<open>Relay_Interface_Tests\<close>: fourteen of the unit tests of the C interface as programs with
      assertions.
    \<^item> \<open>Surroundings\<close>: what the handlers consume of random bytes and of the clock; the locale \<open>surroundings\<close> takes a
      property that consuming keeps, and every handler keeps it (interpreted for two properties of the clock).
    \<^item> \<open>Session_Tests\<close>: the six unit tests of the session handlers (\<^verbatim>\<open>agent/authentication.rs\<close>, \<^verbatim>\<open>agent/registration.rs\<close>,
      \<^verbatim>\<open>relay/authentication.rs\<close>) as programs with assertions, on sessions with the flag of test builds.
    \<^item> This theory: the properties that span both sides.

  \<^bold>\<open>What is shown.\<close> Agreement on the session key and authentication of the server
  (\<open>login_agreement\<close>, \<open>ke3_authenticates_server\<close>); completion of a registration; the exact result of the
  handlers on every exit; the envelope, wire and mask round trips; HKDF-Expand as in RFC 5869; the
  blinded OPRF computes the OPRF; the transcript determines its fields. For sessions: the
  invariant of the state in every reachable state (widths, wiped secrets), the order of
  successful calls, finality of finished sessions, absence of panics, the lifetime. For the C
  interface: an invariant over every sequence of calls with any arguments (no handle stays busy, no
  panic code, freed boxes are wiped), refinement of the session machines, writes confined to the
  output buffers and made only on success, exactness of the overlap
  check on machine words, what the finishing calls and the credential checks return, and the whole
  registration and login over both libraries (\<open>interface_registration_completes\<close>,
  \<open>interface_login_agreement\<close>). For threads: every interleaving of calls on either library is linearizable, handles
  are held by one thread at a time, and every call returns within five (client) or six (server) steps of its thread. For an
  attacker's inputs and knowledge: an unknown account is served like a registered one, no handler succeeds on a point that is not
  valid, and the seed with a record suffices to test passwords. Messages that handlers produce fit the wire format.
  For the tests of the repository: no input makes a fuzz target fail; the modelled unit tests of the C interface pass for every state of the process and all random bytes; those of the
  session handlers pass in every run in which no drawn value is refused and the clock stays within a session's lifetime; every call out of order ends its session and writes
  nothing; a panic at any injection point is contained (panic code, no byte written, session wiped, no box published); and
  every recorded disposal shows erased secrets.

  \<^bold>\<open>Bounds.\<close> The only loops are bounded in the source and modelled with the source's bounds: 256
  draws of a scalar, 256 counters in \<open>derive_oprf_key\<close>, 255 blocks of HKDF, and the recursion is
  structural in the number left. There is no fuel: every function is total. Lengths and
  addresses of the C interface are 64-bit words; seconds of the clock are natural numbers.

  \<^bold>\<open>Not modelled.\<close> The inside of the third-party crates; computational hardness and timing; the wiping of
  local variables that no state keeps (\<open>Zeroizing\<close> temporaries); read-only accessors of the session states and
  \<open>Default\<close> implementations; memory exhaustion; \<open>opaque_version\<close> and \<open>opaque_shutdown\<close>, which have no behaviour beyond a constant;
  weak memory effects (each compare-exchange and each store of a busy flag is one step, and a closure is one step since it
  runs on a session of its own; nobody writes into the input buffers of a call of another thread). Benchmarks, integration tests and the Swift and C wrappers contain no
  protocol logic of their own; of the unit tests of the C interface those with threads, a complete login or disposal logs are
  left to the general theorems; three demonstration programs of the audit call functions that no longer exist.

  \<^bold>\<open>Next.\<close> Threads whose buffers overlap; the cost of the key-stretching parameters.
\<close>

section \<open>Login\<close>

text \<open>
  C1: both sides of a login agree. Let an account be registered under a password, with the
  record the server keeps for it, and let the client pin that server's key. If the client
  sends KE1 for this password, the server answers with KE2, the messages arrive as written,
  the KEM decapsulates this ciphertext correctly and neither session has expired, then the
  client accepts KE2, the server accepts the KE3 it gets, and both hand out the same session
  key; the client's export key depends on password, account and server only.
\<close>

theorem login_agreement:
  assumes laws: "deps_laws D" and honest: "honest_responder D resp a s k"
    and init: "OpaqueInitiator_new D (kp_public_key (or_keypair resp)) = Ok init"
    and ready: "account_ready D (password_key D k pwd) (kp_public_key (or_keypair resp)) c" "credentials_sized c"
    and inv: "initiator_inv ist" "responder_inv rst"
    and ke1: "generate_ke1 D pwd a Ke1Message_new ist w = (Ok (), ke1, ist1, w1)"
      "write_ke1 (m1_credential_request ke1) (m1_initiator_public_key ke1) (m1_initiator_nonce ke1)
         (m1_pq_ephemeral_public_key ke1) (zeros KE1_LENGTH) = Ok ke1_data"
    and ke2: "generate_ke2 D resp ke1_data a c Ke2Message_new rst v = (Ok (), ke2, rst1, v1)"
      "write_ke2 (m2_responder_nonce ke2) (m2_responder_public_key ke2) (m2_credential_response ke2)
         (m2_responder_mac ke2) (m2_kem_ciphertext ke2) (zeros KE2_LENGTH) = Ok ke2_data"
    and kem: "decapsulate D (i_pq_secret_key ist1) (m2_kem_ciphertext ke2) (zeros 32) = Ok (r_pq_shared_secret rst1)"
    and fresh: "\<not> fst (initiator_is_expired ist1 w2)" "\<not> fst (responder_is_expired rst1 v2)"
    and nonzero: "account_context D a \<noteq> zeros 64" "r_session_key rst1 \<noteq> zeros 64"
  shows "\<exists>ke3 ist2 w3 ke3_data rst2 v3 ist3.
     generate_ke3 D init ke2_data ist1 Ke3Message_new w2 = (Ok (), ke3, ist2, w3) \<and>
     write_ke3 (m3_initiator_mac ke3) (zeros KE3_LENGTH) = Ok ke3_data \<and>
     responder_finish D ke3_data rst1 (zeros HASH_LENGTH) v2 = (Ok (), r_session_key rst1, rst2, v3) \<and>
     r_handshake_complete rst2 \<and>
     initiator_finish D ist2 (zeros HASH_LENGTH) (zeros EXPORT_KEY_LENGTH) = (Ok (), r_session_key rst1,
       client_export_key_of D (password_key D k pwd) (account_context D a), ist3)"
  by (rule login_completes [OF assms])

theorem login_agreement_witness:
  "\<exists>ke2_data ist1 rst1 w2 v2 ke3 ist2 w3 ke3_data rst2 v3 export_key ist3.
     generate_ke3 sample sample_initiator ke2_data ist1 Ke3Message_new w2 = (Ok (), ke3, ist2, w3) \<and>
     responder_finish sample ke3_data rst1 (zeros 64) v2 = (Ok (), replicate 64 2, rst2, v3) \<and>
     initiator_finish sample ist2 (zeros 64) (zeros 32) = (Ok (), replicate 64 2, export_key, ist3)"
proof -
  obtain ke1 ist1 w1 ke1_data where ke1:
    "generate_ke1 sample sample_password sample_account Ke1Message_new sample_ist sample_world = (Ok (), ke1, ist1, w1)"
    "write_ke1 (m1_credential_request ke1) (m1_initiator_public_key ke1) (m1_initiator_nonce ke1)
       (m1_pq_ephemeral_public_key ke1) (zeros KE1_LENGTH) = Ok ke1_data"
    "login_pending sample sample_password sample_account ist1 ke1"
    by (rule sample_ke1_run)
  obtain ke2 rst1 v1 ke2_data where ke2:
    "generate_ke2 sample sample_responder ke1_data sample_account sample_credentials Ke2Message_new sample_rst sample_world
       = (Ok (), ke2, rst1, v1)"
    "write_ke2 (m2_responder_nonce ke2) (m2_responder_public_key ke2) (m2_credential_response ke2)
       (m2_responder_mac ke2) (m2_kem_ciphertext ke2) (zeros KE2_LENGTH) = Ok ke2_data"
    "m2_kem_ciphertext ke2 = replicate 1088 5" "r_pq_shared_secret rst1 = replicate 32 9"
    "r_session_key rst1 = replicate 64 2"
    by (rule sample_ke2_run [OF ke1(3,2)])
  have nz: "account_context sample sample_account \<noteq> zeros 64" "r_session_key rst1 \<noteq> zeros 64"
    using sample_context ke2(5) by (simp_all add: zeros_def)
  note pk = sample_server_key
  show ?thesis
    using login_agreement [OF sample_laws sample_honest sample_initiator_new [folded pk]
        sample_account_ready(1) [folded pk] sample_account_ready(2) sample_sessions ke1(1,2) ke2(1,2)
        sample_decapsulates [OF ke1(3), folded ke2(3,4)]
        world_at_fresh nz, unfolded HASH_LENGTH_def EXPORT_KEY_LENGTH_def ke2(5)]
    by blast
qed

text \<open>
  C2: the client authenticates the server before it accepts a login. If \<open>generate_ke3\<close>
  succeeds, then the envelope in KE2 opened to the pinned server key, and the MAC in KE2 is
  the HMAC, under the key schedule of the recovered keys, of the transcript of this very
  session: its own ephemeral key, nonce and KEM key, every field received, both long-term
  keys and its account. The session key kept is the one of that key schedule.
\<close>

theorem ke3_authenticates_server:
  assumes laws: "deps_laws D" and wf: "initiator_wf st"
    and run: "generate_ke3 D init ke2_data st ke3 w = (Ok (), ke3', st', w')"
  shows "\<exists>m S. parse_ke2 ke2_data = Ok m \<and>
     recover_session D (oi_responder_public_key init) ke2_data st = Ok S \<and>
     rc_rpk S = oi_responder_public_key init \<and>
     rc_transcript S = transcript (i_ephemeral_public_key st) (k2_responder_public_key m) (i_nonce st)
       (k2_responder_nonce m) (rc_ipk S) (oi_responder_public_key init) (k2_credential_response m)
       (i_pq_public_key st) (k2_kem_ciphertext m) (i_account_context_hash st) \<and>
     k2_responder_mac m = responder_mac_of D (rc_prk S) (rc_transcript S) \<and>
     i_session_key st' = session_key_of D (rc_prk S) \<and>
     m3_initiator_mac ke3' = initiator_mac_of D (rc_prk S) (rc_transcript S)"
proof -
  note D = deps_lawsD [OF laws]
  obtain w1 where guards: "length ke2_data = KE2_LENGTH" "i_phase st = Ke1Generated"
    "initiator_is_expired st w = (False, w1)" "i_account_context_hash st \<noteq> zeros 64"
    using run D initiator_wf_lengths [OF wf] by (auto simp: generate_ke3_def split: if_splits prod.splits)
  note run' = run [unfolded generate_ke3_refines [OF laws wf guards(2,1,3,4)]]
  then obtain S where S: "recover_session D (oi_responder_public_key init) ke2_data st = Ok S"
    by (auto simp: ke3_expected_def split: result.splits)
  obtain m where "parse_ke2 ke2_data = Ok m" "rc_rpk S = oi_responder_public_key init"
    "rc_transcript S = transcript (i_ephemeral_public_key st) (k2_responder_public_key m) (i_nonce st)
       (k2_responder_nonce m) (rc_ipk S) (oi_responder_public_key init) (k2_credential_response m)
       (i_pq_public_key st) (k2_kem_ciphertext m) (i_account_context_hash st)"
    "k2_responder_mac m = responder_mac_of D (rc_prk S) (rc_transcript S)"
    by (rule recover_session_Ok [OF laws S])
  moreover have "i_session_key st' = session_key_of D (rc_prk S)"
    "m3_initiator_mac ke3' = initiator_mac_of D (rc_prk S) (rc_transcript S)"
    using run' by (auto simp: S ke3_expected_def established_def)
  ultimately show ?thesis using S by blast
qed

theorem ke3_authenticates_server_witness:
  "\<exists>ke2_data st w ke3' st' w' m S.
     generate_ke3 sample sample_initiator ke2_data st Ke3Message_new w = (Ok (), ke3', st', w') \<and>
     parse_ke2 ke2_data = Ok m \<and>
     recover_session sample (oi_responder_public_key sample_initiator) ke2_data st = Ok S \<and>
     k2_responder_mac m = responder_mac_of sample (rc_prk S) (rc_transcript S)"
proof -
  obtain ke2_data ist1 w2 ke3 ist2 w3 where "initiator_wf ist1"
    "generate_ke3 sample sample_initiator ke2_data ist1 Ke3Message_new w2 = (Ok (), ke3, ist2, w3)"
    by (rule sample_ke3_run)
  from this(2) ke3_authenticates_server [OF sample_laws this] show ?thesis by blast
qed

section \<open>Registration\<close>

text \<open>
  C5: a registration against an honest server completes. If the client has sent its request
  and the session has not expired, the server answers, the client accepts the answer and
  seals its keys, and the server turns the record into the credential of an account that is
  ready for login with this password: the credential carries the masking key of the
  randomized password and an envelope that opens under it to a matching client key pair.
\<close>

theorem registration_completes:
  assumes laws: "deps_laws D" and honest: "honest_responder D resp a s k"
    and init: "OpaqueInitiator_new D (kp_public_key (or_keypair resp)) = Ok init" and inv: "initiator_inv ist"
    and req: "create_registration_request D pwd RegistrationRequest_new ist w = (Ok (), req, ist1, w1)"
      "write_registration_request (rq_data req) (zeros REGISTRATION_REQUEST_WIRE_LENGTH) = Ok req_data"
    and fresh: "\<not> fst (initiator_is_expired ist1 w2)"
  shows "\<exists>rs resp_data rec ist2 w3 rec_data cred.
     create_registration_response D resp req_data a RegistrationResponse_new = (Ok (), rs) \<and>
     write_registration_response (take 32 (rs_data rs)) (drop 32 (rs_data rs)) (zeros REGISTRATION_RESPONSE_WIRE_LENGTH)
       = Ok resp_data \<and>
     finalize_registration D init resp_data ist1 RegistrationRecord_new w2 = (Ok (), rec, ist2, w3) \<and>
     write_registration_record (rd_envelope rec) (rd_initiator_public_key rec) (zeros REGISTRATION_RECORD_LENGTH)
       = Ok rec_data \<and>
     build_credentials D rec_data ResponderCredentials_new = (Ok (), cred) \<and>
     account_ready D (password_key D k pwd) (kp_public_key (or_keypair resp)) cred"
proof -
  note D = deps_lawsD [OF laws]
  have pend: "registration_pending D pwd ist1 (rq_data req)"
    by (rule create_registration_request_Ok [OF laws initiator_inv_wf [OF inv] req(1)])
  have pin: "oi_responder_public_key init = kp_public_key (or_keypair resp)"
    using init by (auto simp: OpaqueInitiator_new_Ok_iff [OF D(6,1)])
  obtain w2' where w2': "initiator_is_expired ist1 w2 = (False, w2')" using fresh by (metis prod.collapse)
  have "req_data = registration_request_wire (rq_data req)"
    using registration_request_codec.emit_Ok_iff [of "rq_data req"] req(2) by auto
  then show ?thesis
    using registration_completes_aux [OF laws honest pin pend w2'] response_delivered record_delivered by metis
qed

theorem registration_completes_witness:
  "\<exists>req_data rs resp_data ist1 w2 rec ist2 w3 rec_data cred.
     create_registration_response sample sample_responder req_data sample_account RegistrationResponse_new = (Ok (), rs) \<and>
     finalize_registration sample sample_initiator resp_data ist1 RegistrationRecord_new w2 = (Ok (), rec, ist2, w3) \<and>
     build_credentials sample rec_data ResponderCredentials_new = (Ok (), cred) \<and>
     account_ready sample (password_key sample Z2 sample_password) (z3_encode Z2) cred"
proof -
  obtain req ist1 w1 where run: "create_registration_request sample sample_password RegistrationRequest_new sample_ist
      sample_world = (Ok (), req, ist1, w1)" and len: "length (rq_data req) = 32" by (rule sample_request_run)
  note pk = sample_server_key
  show ?thesis
    using registration_completes [OF sample_laws sample_honest sample_initiator_new [folded pk] sample_sessions(1) run
        request_delivered [OF len] world_at_fresh(1)] unfolding pk by blast
qed

text \<open>
  Whatever a server answers, the client finalizes a registration only for the server key
  it pins, and what it stores is sealed for that server: the record is the masking key of
  the randomized password, an envelope that opens under it and the pinned key to the
  client's key pair, and the client's public key; the session then holds no password, blind
  or private key.
\<close>

lemma finalize_seals_for_pinned_server:
  assumes laws: "deps_laws D" and pend: "registration_pending D pwd st blinded"
    and run: "finalize_registration D init resp_data st rec w = (Ok (), rec', st', w')"
  shows "\<exists>view out e. parse_registration_response resp_data = Ok view \<and>
     rr_responder_public_key view = oi_responder_public_key init \<and>
     finalize D pwd (i_blind_scalar st) (rr_evaluated_element view) = Ok out \<and>
     rd_envelope rec' = masking_key_of D (randomized_password_of D out pwd) @ e \<and>
     rd_initiator_public_key rec' = i_public_key st \<and>
     sealed_keys D (randomized_password_of D out pwd) (oi_responder_public_key init)
       (i_private_key st) (i_public_key st) e \<and>
     initiator_inv st' \<and> i_phase st' = RegistrationFinalized"
proof -
  note D = deps_lawsD [OF laws]
  obtain s where p: "initiator_wf st" "take (i_secure_key_len st) (i_secure_key st) = pwd"
    "s \<noteq> scalar_zero D" "i_private_key st = scalar_bytes D s" "i_public_key st = point_compress D (base_mul D s)"
    using pend by (auto simp: registration_pending_def)
  obtain view out w1 where v: "i_phase st = RegistrationRequested" "initiator_is_expired st w = (False, w1)"
    "parse_registration_response resp_data = Ok view" "validate_public_key D (rr_responder_public_key view) = Ok ()"
    "oi_responder_public_key init = rr_responder_public_key view"
    "finalize D pwd (i_blind_scalar st) (rr_evaluated_element view) = Ok out"
    by (rule finalize_registration_cases [OF laws p(1) run p(2) [symmetric]]) auto
  let ?rpk = "rr_responder_public_key view" and ?rwd = "randomized_password_of D out pwd"
  obtain env where fr: "finalize_registration D init resp_data st rec w = (Ok (),
      rec\<lparr>rd_envelope := masking_key_of D ?rwd @ env_nonce env @ env_ciphertext env @ env_auth_tag env,
          rd_initiator_public_key := i_public_key st\<rparr>, registration_finalized st ?rpk, snd (fill_bytes 24 w1))"
    "seal D ?rwd ?rpk (i_private_key st) (i_public_key st) Envelope_new w1 = (Ok (), env, snd (fill_bytes 24 w1))"
    "?rwd \<noteq> []"
    by (rule finalize_registration_accepts [OF laws p(1) v(1-4) refl v(5,6) p(2) [symmetric] refl])
  have len: "length ?rpk = 32" using v(4) by (auto simp: validate_public_key_def split: if_splits)
  have "sealed_keys D ?rwd ?rpk (i_private_key st) (i_public_key st) (env_nonce env @ env_ciphertext env @ env_auth_tag env)"
    using seal_then_open [OF D(3,5,6,1) fr(3) len p(3-5), of Envelope_new w1] fr(2) by (auto simp: Envelope_new_def)
  with v fr(1) run show ?thesis
    using registration_finalized_inv [OF p(1) len] by auto
qed

section \<open>Deadlines\<close>


end
